(* ===== verification/Maranode_Prelude.thy ===== *)
theory Maranode_Prelude
  imports Main "HOL-Library.Word" "HOL-Library.Sublist"
begin

section \<open>Shared notions of the Maranode development\<close>

text \<open>
  What the component theories share: the result type of fallible Rust functions, unsigned
  machine arithmetic with its wrap-around or saturation written out, Rust's \<open>str\<close> operations on
  lists of Unicode scalar values, and the generic interfaces (locales) that several components
  provide: enumerations with a string form, encoders with a left inverse, and transition systems
  with an inductive invariant.
\<close>

named_theorems rust_str \<open>facts on the model of Rust's string slices\<close>
named_theorems rust_arith \<open>facts on bounded arithmetic\<close>

subsection \<open>Results\<close>

text \<open>\<open>Inl\<close> is Rust's \<open>Err\<close>, \<open>Inr\<close> is \<open>Ok\<close>.\<close>

type_synonym ('e, 'a) result = "'e + 'a"

definition rbind :: "('e, 'a) result \<Rightarrow> ('a \<Rightarrow> ('e, 'b) result) \<Rightarrow> ('e, 'b) result" where
  "rbind r f = (case r of Inl e \<Rightarrow> Inl e | Inr a \<Rightarrow> f a)"

primrec unwrap_or :: "'a \<Rightarrow> 'a option \<Rightarrow> 'a" where
  "unwrap_or d None = d"
| "unwrap_or d (Some x) = x"

definition ok_or :: "'e \<Rightarrow> 'a option \<Rightarrow> ('e, 'a) result" where
  "ok_or e x = (case x of None \<Rightarrow> Inl e | Some a \<Rightarrow> Inr a)"

lemma rbind_simps [simp]:
  "rbind (Inl e) f = Inl e"
  "rbind (Inr a) f = f a"
  by (simp_all add: rbind_def)

lemma ok_or_simps [simp]:
  "ok_or e None = Inl e"
  "ok_or e (Some a) = Inr a"
  by (simp_all add: ok_or_def)

lemma rbind_Inr_iff: "rbind r f = Inr b \<longleftrightarrow> (\<exists>a. r = Inr a \<and> f a = Inr b)"
  by (cases r) auto

lemma ok_or_Inr_iff [simp]: "ok_or e x = Inr a \<longleftrightarrow> x = Some a"
  by (cases x) auto

subsection \<open>Unsigned arithmetic\<close>

definition u64_add :: "nat \<Rightarrow> nat \<Rightarrow> nat" where
  "u64_add a b = (a + b) mod 2 ^ 64"

definition u32_add :: "nat \<Rightarrow> nat \<Rightarrow> nat" where
  "u32_add a b = (a + b) mod 2 ^ 32"

definition u32_saturating_add :: "nat \<Rightarrow> nat \<Rightarrow> nat" where
  "u32_saturating_add a b = min (a + b) (2 ^ 32 - 1)"

lemma u64_add_exact [rust_arith]: "a + b < 2 ^ 64 \<Longrightarrow> u64_add a b = a + b"
  by (simp add: u64_add_def)

lemma u64_add_bound [rust_arith]: "u64_add a b < 2 ^ 64"
  by (simp add: u64_add_def)

lemma u32_add_exact [rust_arith]: "a + b < 2 ^ 32 \<Longrightarrow> u32_add a b = a + b"
  by (simp add: u32_add_def)

lemma u32_saturating_add_exact [rust_arith]:
  "a + b < 2 ^ 32 \<Longrightarrow> u32_saturating_add a b = a + b"
  by (simp add: u32_saturating_add_def)

subsection \<open>Splitting a list at a separator\<close>

lemma takeWhile_sep [simp]: "x \<notin> set a \<Longrightarrow> takeWhile (\<lambda>c. c \<noteq> x) (a @ x # b) = a"
  by (induction a) auto

lemma dropWhile_sep [simp]: "x \<notin> set a \<Longrightarrow> dropWhile (\<lambda>c. c \<noteq> x) (a @ x # b) = x # b"
  by (induction a) auto

subsection \<open>Strings of Unicode scalar values\<close>

text \<open>
  A Rust \<open>str\<close> that the code inspects character by character is a list of scalar values;
  \<open>ascii\<close> reads an Isabelle literal as such a list. The line feed is \<open>10\<close>, the carriage
  return \<open>13\<close>. \<open>uc_whitespace\<close> is Unicode's White\_Space property, which \<open>char::is_whitespace\<close>
  and \<open>str::trim\<close> use.
\<close>

type_synonym uchar = nat
type_synonym ustring = "uchar list"

definition ascii :: "string \<Rightarrow> ustring" where
  "ascii s = map of_char s"

definition uc_whitespace :: "uchar \<Rightarrow> bool" where
  "uc_whitespace c \<longleftrightarrow>
     (9 \<le> c \<and> c \<le> 13) \<or> c = 32 \<or> c = 133 \<or> c = 160 \<or> c = 5760 \<or>
     (8192 \<le> c \<and> c \<le> 8202) \<or> c = 8232 \<or> c = 8233 \<or> c = 8239 \<or> c = 8287 \<or> c = 12288"

definition trim_start :: "ustring \<Rightarrow> ustring" where
  "trim_start s = dropWhile uc_whitespace s"

definition trim_end :: "ustring \<Rightarrow> ustring" where
  "trim_end s = rev (dropWhile uc_whitespace (rev s))"

definition trim :: "ustring \<Rightarrow> ustring" where
  "trim s = trim_end (trim_start s)"

definition is_blank :: "ustring \<Rightarrow> bool" where
  "is_blank s \<longleftrightarrow> trim s = []"

definition strip_cr :: "ustring \<Rightarrow> ustring" where
  "strip_cr l = (if l \<noteq> [] \<and> last l = 13 then butlast l else l)"

text \<open>\<open>str::lines\<close>: a line feed ends a line and takes a carriage return before it along; a last
  line without line feed is kept as it is, an empty one is not a line.\<close>

function str_lines :: "ustring \<Rightarrow> ustring list" where
  "str_lines s =
     (if s = [] then []
      else case dropWhile (\<lambda>c. c \<noteq> 10) s of
             [] \<Rightarrow> [s]
           | _ # rest \<Rightarrow> strip_cr (takeWhile (\<lambda>c. c \<noteq> 10) s) # str_lines rest)"
  by pat_completeness auto
termination
proof (relation "measure length", goal_cases)
  case (2 s x rest)
  have "length (dropWhile (\<lambda>c. c \<noteq> 10) s) \<le> length s"
    by (rule length_dropWhile_le)
  with 2 show ?case by simp
qed simp

declare str_lines.simps [simp del]

lemma str_lines_Nil [simp, rust_str]: "str_lines [] = []"
  by (simp add: str_lines.simps)

lemma str_lines_append [rust_str]:
  "10 \<notin> set l \<Longrightarrow> str_lines (l @ 10 # rest) = strip_cr l # str_lines rest"
  by (subst str_lines.simps) simp

lemma strip_cr_id [simp, rust_str]: "l = [] \<or> last l \<noteq> 13 \<Longrightarrow> strip_cr l = l"
  by (auto simp: strip_cr_def)

lemma str_lines_prefix [rust_str]:
  "10 \<notin> set l \<Longrightarrow> l = [] \<or> last l \<noteq> 13 \<Longrightarrow> str_lines (l @ 10 # rest) = l # str_lines rest"
  by (simp add: str_lines_append)

lemma str_lines_concat [rust_str]:
  assumes "\<forall>l \<in> set ls. 10 \<notin> set l \<and> (l = [] \<or> last l \<noteq> 13)"
  shows "str_lines (concat (map (\<lambda>l. l @ [10]) ls) @ rest) = ls @ str_lines rest"
  using assms by (induction ls) (auto simp: str_lines_append)

lemma trim_end_subset: "set (trim_end s) \<subseteq> set s"
  using set_dropWhileD[of _ uc_whitespace "rev s"] by (auto simp: trim_end_def)

lemma trim_subset [rust_str]: "set (trim s) \<subseteq> set s"
  using trim_end_subset[of "trim_start s"] by (auto simp: trim_def trim_start_def dest: set_dropWhileD)

lemma trim_end_length: "length (trim_end s) \<le> length s"
  using length_dropWhile_le[of uc_whitespace "rev s"] by (simp add: trim_end_def)

lemma trim_length [rust_str]: "length (trim s) \<le> length s"
  unfolding trim_def trim_start_def
  using trim_end_length length_dropWhile_le le_trans by blast

lemma all_dropWhile: "(\<forall>c \<in> set (dropWhile P s). P c) \<longleftrightarrow> (\<forall>c \<in> set s. P c)"
  by (induction s) auto

lemma is_blank_iff [rust_str]: "is_blank s \<longleftrightarrow> (\<forall>c \<in> set s. uc_whitespace c)"
  by (simp add: is_blank_def trim_def trim_end_def trim_start_def all_dropWhile del: dropWhile_eq_Nil_conv)
    (metis all_dropWhile dropWhile_eq_Nil_conv set_rev)

subsection \<open>Decimal numbers\<close>

text \<open>\<open>Display\<close> of an unsigned integer, and its reading back.\<close>

definition digit_char :: "nat \<Rightarrow> char" where
  "digit_char d = char_of (48 + d)"

fun show_nat :: "nat \<Rightarrow> string" where
  "show_nat n = (if n < 10 then [digit_char n] else show_nat (n div 10) @ [digit_char (n mod 10)])"

declare show_nat.simps [simp del]

definition read_nat :: "string \<Rightarrow> nat" where
  "read_nat s = foldl (\<lambda>n c. 10 * n + (of_char c - 48)) 0 s"

lemma of_digit_char [simp]: "d < 10 \<Longrightarrow> of_char (digit_char d) = 48 + d"
  by (simp add: digit_char_def)

lemma read_show_nat [simp]: "read_nat (show_nat n) = n"
proof (induction n rule: show_nat.induct)
  case (1 n)
  then show ?case
    by (subst show_nat.simps) (auto simp: read_nat_def)
qed

lemma show_nat_inj [simp]: "show_nat m = show_nat n \<longleftrightarrow> m = n"
  by (metis read_show_nat)

lemma show_nat_digits: "c \<in> set (show_nat n) \<Longrightarrow> 48 \<le> (of_char c :: nat) \<and> of_char c < (58 :: nat)"
proof (induction n rule: show_nat.induct)
  case (1 n)
  then show ?case
    by (subst (asm) (2) show_nat.simps) (auto split: if_splits)
qed

lemma show_nat_no_dash [simp]: "CHR ''-'' \<notin> set (show_nat n)"
  using show_nat_digits[of "CHR ''-''" n] by auto

text \<open>The number of bytes of a scalar value and of a string in UTF-8.\<close>

definition utf8_len :: "uchar \<Rightarrow> nat" where
  "utf8_len c = (if c < 128 then 1 else if c < 2048 then 2 else if c < 65536 then 3 else 4)"

definition byte_len :: "ustring \<Rightarrow> nat" where
  "byte_len s = sum_list (map utf8_len s)"

lemma byte_len_simps [simp]:
  "byte_len [] = 0" "byte_len (c # s) = utf8_len c + byte_len s"
  "byte_len (s @ t) = byte_len s + byte_len t"
  by (simp_all add: byte_len_def)

lemma utf8_len_pos [simp]: "0 < utf8_len c"
  by (simp add: utf8_len_def)

lemma byte_len_zero [simp]: "byte_len s = 0 \<longleftrightarrow> s = []"
  by (cases s) auto

subsection \<open>Contiguous occurrence\<close>

text \<open>\<open>str::contains\<close> for a string pattern, on byte strings and on scalar values alike.\<close>

fun contains_str :: "'a list \<Rightarrow> 'a list \<Rightarrow> bool" where
  "contains_str [] p = (p = [])"
| "contains_str (c # cs) p = (prefix p (c # cs) \<or> contains_str cs p)"

lemma contains_str_iff: "contains_str s p \<longleftrightarrow> sublist p s"
proof (induction s)
  case (Cons c cs)
  then show ?case by (simp add: sublist_Cons_right)
qed simp

subsection \<open>Insertion into an association list\<close>

text \<open>The value of a key is replaced where it stands; a new key comes last.\<close>

fun put_key :: "'k \<Rightarrow> 'v \<Rightarrow> ('k \<times> 'v) list \<Rightarrow> ('k \<times> 'v) list" where
  "put_key k v [] = [(k, v)]"
| "put_key k v ((k', v') # kvs) = (if k = k' then (k, v) # kvs else (k', v') # put_key k v kvs)"

lemma put_key_keys: "set (map fst (put_key k v kvs)) = insert k (set (map fst kvs))"
  by (induction k v kvs rule: put_key.induct) auto

lemma put_key_distinct: "distinct (map fst kvs) \<Longrightarrow> distinct (map fst (put_key k v kvs))"
proof (induction k v kvs rule: put_key.induct)
  case (2 k v k' v' kvs)
  then show ?case using put_key_keys[of k v kvs] by auto
qed simp

lemma map_of_put_key: "map_of (put_key k v kvs) = (map_of kvs)(k \<mapsto> v)"
  by (induction k v kvs rule: put_key.induct) auto

subsection \<open>Enumerations with a string form\<close>

text \<open>
  Several enums of the code have \<open>as_str\<close> (or \<open>Display\<close>) and \<open>from_str\<close>. The contract: parsing
  the printed form gives the value back, and a string that parses is a printed form up to a
  normalisation \<open>norm\<close> the parser applies first (\<open>to_uppercase\<close> for data labels, none
  elsewhere).
\<close>

locale string_enum =
  fixes as_str :: "'a \<Rightarrow> 's" and from_str :: "'s \<Rightarrow> 'a option" and norm :: "'s \<Rightarrow> 's"
  assumes parse_print: "from_str (as_str x) = Some x"
    and parse_only: "from_str s = Some x \<Longrightarrow> norm s = as_str x"
begin

lemma as_str_inj: "as_str x = as_str y \<Longrightarrow> x = y"
  using parse_print by (metis option.inject)

lemma from_str_unique: "from_str s = Some x \<Longrightarrow> from_str t = Some x \<Longrightarrow> norm s = norm t"
  by (simp add: parse_only)

lemma from_str_rejects: "(\<And>x. norm s \<noteq> as_str x) \<Longrightarrow> from_str s = None"
  using parse_only by (cases "from_str s") auto

lemma from_str_iff:
  assumes "\<And>t. from_str t = from_str (norm t)"
  shows "from_str s = Some x \<longleftrightarrow> norm s = as_str x"
  using parse_print[of x] assms[of s] parse_only by metis

end

subsection \<open>Encoders with a left inverse\<close>

locale lossless =
  fixes enc :: "'a \<Rightarrow> 'b" and dec :: "'b \<Rightarrow> 'a option"
  assumes dec_enc: "dec (enc x) = Some x"
begin

lemma enc_inj: "enc x = enc y \<Longrightarrow> x = y"
  using dec_enc by (metis option.inject)

lemma enc_eq_iff: "enc x = enc y \<longleftrightarrow> x = y"
  using enc_inj by blast

end

subsection \<open>Transition systems with an invariant\<close>

text \<open>
  A component with state and operations: \<open>init\<close> tells the start states, \<open>step\<close> the effect of an
  operation (a relation, so that failures and interleavings are allowed). A client shows that
  \<open>inv\<close> holds at the start and is kept by each step, and gets it for every reachable state.
\<close>

inductive reach :: "('s \<Rightarrow> bool) \<Rightarrow> ('s \<Rightarrow> 's \<Rightarrow> bool) \<Rightarrow> 's \<Rightarrow> bool"
  for init :: "'s \<Rightarrow> bool" and step :: "'s \<Rightarrow> 's \<Rightarrow> bool" where
  reach_init: "init s \<Longrightarrow> reach init step s"
| reach_step: "reach init step s \<Longrightarrow> step s t \<Longrightarrow> reach init step t"

locale inv_system =
  fixes init :: "'s \<Rightarrow> bool" and step :: "'s \<Rightarrow> 's \<Rightarrow> bool" and inv :: "'s \<Rightarrow> bool"
  assumes inv_init: "init s \<Longrightarrow> inv s"
    and inv_step: "inv s \<Longrightarrow> step s t \<Longrightarrow> inv t"
begin

lemma reach_inv: "reach init step s \<Longrightarrow> inv s"
  by (induction rule: reach.induct) (auto intro: inv_init inv_step)

lemma steps_inv: "step\<^sup>*\<^sup>* s t \<Longrightarrow> inv s \<Longrightarrow> inv t"
  by (induction rule: rtranclp_induct) (auto intro: inv_step)

end

end
