(* ===== verification/Events.thy ===== *)
theory Events
  imports Maranode_Prelude "HOL-Library.Char_ord" "HOL-Library.List_Lexorder"
begin

section \<open>Audit events and entries\<close>

text \<open>
  The payload of the audit log, \<open>crates/maranode-common/src/events.rs\<close>, with the types it carries
  (\<open>models.rs\<close>, \<open>receipt.rs\<close>). Every variant of \<open>AuditEvent\<close> is a constructor with the fields of
  the source in their order. What serde derives for these types is determined by their
  attributes and modelled: the tag \<open>event_kind\<close> (\<open>tag = "event"\<close>, snake case), the keys and
  values \<open>event_args\<close> of a variant (\<open>skip_serializing_if\<close> fields included), and the keys
  \<open>entry_keys\<close> of a whole log line, into which \<open>#[serde(flatten)]\<close> splices the event.

  A \<open>DateTime<Utc>\<close> is an \<open>int\<close> (nanoseconds since the epoch), a \<open>Uuid\<close> a string, an \<open>f32\<close> its
  bit pattern. JSON text is not modelled: \<open>json\<close> is the value tree that \<open>serde_json\<close> prints.
\<close>

type_synonym timestamp = int
type_synonym f32 = "32 word"

datatype json =
    JNull
  | JBool bool
  | JNum int
  | JF32 f32
  | JTime timestamp
  | JStr string
  | JArr "json list"
  | JObj "(string \<times> json) list"

text \<open>\<open>serde_json::Map\<close> is a \<open>BTreeMap\<close>: an object keeps its members sorted by key.\<close>

definition json_object :: "(string \<times> json) list \<Rightarrow> json" where
  "json_object kvs = JObj (sort_key fst kvs)"

definition jnat :: "nat \<Rightarrow> json" where
  "jnat n = JNum (int n)"

definition jopt :: "('a \<Rightarrow> json) \<Rightarrow> 'a option \<Rightarrow> json" where
  "jopt f x = (case x of None \<Rightarrow> JNull | Some a \<Rightarrow> f a)"

definition skip_none :: "string \<Rightarrow> ('a \<Rightarrow> json) \<Rightarrow> 'a option \<Rightarrow> (string \<times> json) list" where
  "skip_none k f x = (case x of None \<Rightarrow> [] | Some a \<Rightarrow> [(k, f a)])"

text \<open>\<open>value[key].as_str()\<close> and its kin: a missing key reads as null.\<close>

fun json_get :: "json \<Rightarrow> string \<Rightarrow> json" where
  "json_get (JObj kvs) k = (case map_of kvs k of None \<Rightarrow> JNull | Some v \<Rightarrow> v)"
| "json_get _ k = JNull"

fun json_as_str :: "json \<Rightarrow> string option" where
  "json_as_str (JStr s) = Some s"
| "json_as_str _ = None"

fun json_as_bool :: "json \<Rightarrow> bool option" where
  "json_as_bool (JBool b) = Some b"
| "json_as_bool _ = None"

fun json_as_u64 :: "json \<Rightarrow> nat option" where
  "json_as_u64 (JNum i) = (if 0 \<le> i \<and> i < 2 ^ 64 then Some (nat i) else None)"
| "json_as_u64 _ = None"

subsection \<open>Models and receipts\<close>

record model_id =
  mid_name :: string
  mid_tag :: string

datatype inference_device = Cpu | Gpu | Metal | Npu | RyzenAi

fun is_accelerated :: "inference_device \<Rightarrow> bool" where
  "is_accelerated Cpu = False"
| "is_accelerated _ = True"

fun device_str :: "inference_device \<Rightarrow> string" where
  "device_str Cpu = ''cpu''"
| "device_str Gpu = ''gpu''"
| "device_str Metal = ''metal''"
| "device_str Npu = ''npu''"
| "device_str RyzenAi = ''ryzenai''"

text \<open>\<open>str::split_once(':')\<close>: at the first colon.\<close>

definition split_once_colon :: "string \<Rightarrow> (string \<times> string) option" where
  "split_once_colon s =
     (case dropWhile (\<lambda>c. c \<noteq> CHR '':'') s of
        [] \<Rightarrow> None
      | _ # rest \<Rightarrow> Some (takeWhile (\<lambda>c. c \<noteq> CHR '':'') s, rest))"

definition model_id_parse :: "string \<Rightarrow> model_id option" where
  "model_id_parse s =
     (case split_once_colon s of
        None \<Rightarrow> None
      | Some (name, tag) \<Rightarrow> Some \<lparr>mid_name = name, mid_tag = tag\<rparr>)"

definition model_id_display :: "model_id \<Rightarrow> string" where
  "model_id_display m = mid_name m @ '':'' @ mid_tag m"

definition model_id_value :: "model_id \<Rightarrow> json" where
  "model_id_value m = json_object [(''name'', JStr (mid_name m)), (''tag'', JStr (mid_tag m))]"

record source_ref =
  sr_chunk_id :: string
  sr_doc_id :: string
  sr_source :: string
  sr_doc_sha256 :: string
  sr_chunk_hash :: string
  sr_score :: f32

record env_fingerprint =
  kernel_build_id :: string
  thread_count :: nat
  device_class :: string

record decode_params =
  dp_temperature :: "f32 option"
  dp_top_k :: "nat option"
  dp_max_tokens :: "nat option"
  dp_seed :: "nat option"
  dp_deterministic :: bool

record inference_receipt =
  rc_version :: nat
  rc_receipt_id :: string
  rc_request_id :: string
  rc_timestamp :: timestamp
  rc_model_id :: string
  rc_model_sha256 :: string
  rc_model_quant :: "string option"
  rc_input_sha256 :: string
  rc_output_sha256 :: string
  rc_decode_params :: decode_params
  rc_tokens_in :: nat
  rc_tokens_out :: nat
  rc_signing_key_id :: string
  rc_tpm_pcr :: "string option"
  rc_env :: env_fingerprint
  rc_sources :: "source_ref list"
  rc_grounded :: bool
  rc_signature :: "string option"

definition source_ref_value :: "source_ref \<Rightarrow> json" where
  "source_ref_value s = json_object
     [(''chunk_id'', JStr (sr_chunk_id s)), (''doc_id'', JStr (sr_doc_id s)),
      (''source'', JStr (sr_source s)), (''doc_sha256'', JStr (sr_doc_sha256 s)),
      (''chunk_hash'', JStr (sr_chunk_hash s)), (''score'', JF32 (sr_score s))]"

definition env_fingerprint_value :: "env_fingerprint \<Rightarrow> json" where
  "env_fingerprint_value e = json_object
     [(''kernel_build_id'', JStr (kernel_build_id e)), (''thread_count'', jnat (thread_count e)),
      (''device_class'', JStr (device_class e))]"

definition decode_params_value :: "decode_params \<Rightarrow> json" where
  "decode_params_value d = json_object
     [(''temperature'', jopt JF32 (dp_temperature d)), (''top_k'', jopt jnat (dp_top_k d)),
      (''max_tokens'', jopt jnat (dp_max_tokens d)), (''seed'', jopt jnat (dp_seed d)),
      (''deterministic'', JBool (dp_deterministic d))]"

definition receipt_fields :: "inference_receipt \<Rightarrow> (string \<times> json) list" where
  "receipt_fields r =
     ([(''version'', jnat (rc_version r)), (''receipt_id'', JStr (rc_receipt_id r)),
       (''request_id'', JStr (rc_request_id r)), (''timestamp'', JTime (rc_timestamp r)),
       (''model_id'', JStr (rc_model_id r)), (''model_sha256'', JStr (rc_model_sha256 r))]
      @ skip_none ''model_quant'' JStr (rc_model_quant r)
      @ [(''input_sha256'', JStr (rc_input_sha256 r)), (''output_sha256'', JStr (rc_output_sha256 r)),
         (''decode_params'', decode_params_value (rc_decode_params r)),
         (''tokens_in'', jnat (rc_tokens_in r)), (''tokens_out'', jnat (rc_tokens_out r)),
         (''signing_key_id'', JStr (rc_signing_key_id r))]
      @ skip_none ''tpm_pcr'' JStr (rc_tpm_pcr r)
      @ [(''env'', env_fingerprint_value (rc_env r))]
      @ (if rc_sources r = [] then []
         else [(''sources'', JArr (map source_ref_value (rc_sources r)))])
      @ [(''grounded'', JBool (rc_grounded r))]
      @ skip_none ''signature'' JStr (rc_signature r))"

definition receipt_value :: "inference_receipt \<Rightarrow> json" where
  "receipt_value r = json_object (receipt_fields r)"

subsection \<open>Events\<close>

datatype isolation_mode = AirGap | Whitelist | Disabled

fun isolation_mode_str :: "isolation_mode \<Rightarrow> string" where
  "isolation_mode_str AirGap = ''airgap''"
| "isolation_mode_str Whitelist = ''whitelist''"
| "isolation_mode_str Disabled = ''disabled''"

datatype import_source = Remote string | Local string

fun import_source_value :: "import_source \<Rightarrow> json" where
  "import_source_value (Remote url) = json_object [(''remote'', json_object [(''url'', JStr url)])]"
| "import_source_value (Local path) = json_object [(''local'', json_object [(''path'', JStr path)])]"

record probe_result =
  pr_host :: string
  pr_port :: nat
  pr_reachable :: bool

definition probe_result_value :: "probe_result \<Rightarrow> json" where
  "probe_result_value p = json_object
     [(''host'', JStr (pr_host p)), (''port'', jnat (pr_port p)), (''reachable'', JBool (pr_reachable p))]"

datatype (plugins only: size) audit_event =
    DaemonStart string bool
  | DaemonStop string
  | IsolationApplied isolation_mode
  | ModelImported model_id string nat import_source
  | ModelRemoved model_id
  | InferenceStart string model_id string inference_device "string option"
  | InferenceComplete string model_id nat nat nat inference_device "string option"
  | InferenceFailed string model_id string
  | InferenceReceipt inference_receipt
  | RagDocumentIngested string string nat
  | RagRetrieval string string nat
  | IsolationProbe bool "probe_result list" string
  | WorkspaceShredded string string string
  | ConfigReloaded string
  | AuditVerified nat bool
  | BinaryAttested string string bool
  | ModelBaselineChecked string string nat nat nat string
  | ModelDriftDetected string string nat string
  | ModelApprovalGranted string string string string string
  | ModelApprovalRevoked string string string string
  | ModelLoadBlocked string string string
  | DataClassificationViolation string string string string bool
  | DataLabelAssigned string string string
  | DlpSyncCompleted string nat
  | TpmKeySealed string string "string option"
  | TpmUnsealFailed string string nat
  | TpmKeyRotated string string string "string option"
  | IncidentDeclared string string string nat
  | AuditFrozen string string
  | AuditUnfrozen string string
  | ForensicSnapshot string string string
  | BreakGlassUsed string string string
  | IncidentPhaseChanged string string string string "string option"
  | IncidentResolved string string string
  | LegalHoldPlaced string string nat nat string bool
  | LegalHoldReleased string string
  | LegalHoldKeyGenerated string string bool
  | TeeAttested string string string

primrec event_kind :: "audit_event \<Rightarrow> string" where
  "event_kind (DaemonStart x1 x2) = ''daemon_start''"
| "event_kind (DaemonStop x1) = ''daemon_stop''"
| "event_kind (IsolationApplied x1) = ''isolation_applied''"
| "event_kind (ModelImported x1 x2 x3 x4) = ''model_imported''"
| "event_kind (ModelRemoved x1) = ''model_removed''"
| "event_kind (InferenceStart x1 x2 x3 x4 x5) = ''inference_start''"
| "event_kind (InferenceComplete x1 x2 x3 x4 x5 x6 x7) = ''inference_complete''"
| "event_kind (InferenceFailed x1 x2 x3) = ''inference_failed''"
| "event_kind (InferenceReceipt x1) = ''inference_receipt''"
| "event_kind (RagDocumentIngested x1 x2 x3) = ''rag_document_ingested''"
| "event_kind (RagRetrieval x1 x2 x3) = ''rag_retrieval''"
| "event_kind (IsolationProbe x1 x2 x3) = ''isolation_probe''"
| "event_kind (WorkspaceShredded x1 x2 x3) = ''workspace_shredded''"
| "event_kind (ConfigReloaded x1) = ''config_reloaded''"
| "event_kind (AuditVerified x1 x2) = ''audit_verified''"
| "event_kind (BinaryAttested x1 x2 x3) = ''binary_attested''"
| "event_kind (ModelBaselineChecked x1 x2 x3 x4 x5 x6) = ''model_baseline_checked''"
| "event_kind (ModelDriftDetected x1 x2 x3 x4) = ''model_drift_detected''"
| "event_kind (ModelApprovalGranted x1 x2 x3 x4 x5) = ''model_approval_granted''"
| "event_kind (ModelApprovalRevoked x1 x2 x3 x4) = ''model_approval_revoked''"
| "event_kind (ModelLoadBlocked x1 x2 x3) = ''model_load_blocked''"
| "event_kind (DataClassificationViolation x1 x2 x3 x4 x5) = ''data_classification_violation''"
| "event_kind (DataLabelAssigned x1 x2 x3) = ''data_label_assigned''"
| "event_kind (DlpSyncCompleted x1 x2) = ''dlp_sync_completed''"
| "event_kind (TpmKeySealed x1 x2 x3) = ''tpm_key_sealed''"
| "event_kind (TpmUnsealFailed x1 x2 x3) = ''tpm_unseal_failed''"
| "event_kind (TpmKeyRotated x1 x2 x3 x4) = ''tpm_key_rotated''"
| "event_kind (IncidentDeclared x1 x2 x3 x4) = ''incident_declared''"
| "event_kind (AuditFrozen x1 x2) = ''audit_frozen''"
| "event_kind (AuditUnfrozen x1 x2) = ''audit_unfrozen''"
| "event_kind (ForensicSnapshot x1 x2 x3) = ''forensic_snapshot''"
| "event_kind (BreakGlassUsed x1 x2 x3) = ''break_glass_used''"
| "event_kind (IncidentPhaseChanged x1 x2 x3 x4 x5) = ''incident_phase_changed''"
| "event_kind (IncidentResolved x1 x2 x3) = ''incident_resolved''"
| "event_kind (LegalHoldPlaced x1 x2 x3 x4 x5 x6) = ''legal_hold_placed''"
| "event_kind (LegalHoldReleased x1 x2) = ''legal_hold_released''"
| "event_kind (LegalHoldKeyGenerated x1 x2 x3) = ''legal_hold_key_generated''"
| "event_kind (TeeAttested x1 x2 x3) = ''tee_attested''"

primrec event_args :: "audit_event \<Rightarrow> (string \<times> json) list" where
  "event_args (DaemonStart version air_gap) =
     [(''version'', JStr version), (''air_gap'', JBool air_gap)]"
| "event_args (DaemonStop reason) =
     [(''reason'', JStr reason)]"
| "event_args (IsolationApplied md) =
     [(''mode'', JStr (isolation_mode_str md))]"
| "event_args (ModelImported m sha256 size_bytes src) =
     [(''model'', model_id_value m), (''sha256'', JStr sha256), (''size_bytes'', jnat size_bytes), (''source'', import_source_value src)]"
| "event_args (ModelRemoved m) =
     [(''model'', model_id_value m)]"
| "event_args (InferenceStart request_id m prompt_sha256 device prompt) =
     [(''request_id'', JStr request_id), (''model'', model_id_value m), (''prompt_sha256'', JStr prompt_sha256), (''device'', JStr (device_str device))] @ skip_none ''prompt'' JStr prompt"
| "event_args (InferenceComplete request_id m tokens_in tokens_out duration_ms device response) =
     [(''request_id'', JStr request_id), (''model'', model_id_value m), (''tokens_in'', jnat tokens_in), (''tokens_out'', jnat tokens_out), (''duration_ms'', jnat duration_ms), (''device'', JStr (device_str device))] @ skip_none ''response'' JStr response"
| "event_args (InferenceFailed request_id m reason) =
     [(''request_id'', JStr request_id), (''model'', model_id_value m), (''reason'', JStr reason)]"
| "event_args (InferenceReceipt receipt) =
     [(''receipt'', receipt_value receipt)]"
| "event_args (RagDocumentIngested collection src n) =
     [(''collection'', JStr collection), (''source'', JStr src), (''chunks'', jnat n)]"
| "event_args (RagRetrieval collection query_sha256 n) =
     [(''collection'', JStr collection), (''query_sha256'', JStr query_sha256), (''hits'', jnat n)]"
| "event_args (IsolationProbe isolated probe_results iptables_hash) =
     [(''isolated'', JBool isolated), (''probe_results'', JArr (map probe_result_value probe_results)), (''iptables_hash'', JStr iptables_hash)]"
| "event_args (WorkspaceShredded slug actor statement) =
     [(''slug'', JStr slug), (''actor'', JStr actor), (''statement'', JStr statement)]"
| "event_args (ConfigReloaded p) =
     [(''path'', JStr p)]"
| "event_args (AuditVerified entries okf) =
     [(''entries'', jnat entries), (''ok'', JBool okf)]"
| "event_args (BinaryAttested binary_sha256 binary_path tpm_available) =
     [(''binary_sha256'', JStr binary_sha256), (''binary_path'', JStr binary_path), (''tpm_available'', JBool tpm_available)]"
| "event_args (ModelBaselineChecked model_id model_sha256 vectors_run vectors_passed vectors_failed baseline_signer) =
     [(''model_id'', JStr model_id), (''model_sha256'', JStr model_sha256), (''vectors_run'', jnat vectors_run), (''vectors_passed'', jnat vectors_passed), (''vectors_failed'', jnat vectors_failed), (''baseline_signer'', JStr baseline_signer)]"
| "event_args (ModelDriftDetected model_id model_sha256 vectors_failed action_taken) =
     [(''model_id'', JStr model_id), (''model_sha256'', JStr model_sha256), (''vectors_failed'', jnat vectors_failed), (''action_taken'', JStr action_taken)]"
| "event_args (ModelApprovalGranted model_id model_sha256 approved_by token_id signer_pubkey) =
     [(''model_id'', JStr model_id), (''model_sha256'', JStr model_sha256), (''approved_by'', JStr approved_by), (''token_id'', JStr token_id), (''signer_pubkey'', JStr signer_pubkey)]"
| "event_args (ModelApprovalRevoked model_id model_sha256 revoked_by token_id) =
     [(''model_id'', JStr model_id), (''model_sha256'', JStr model_sha256), (''revoked_by'', JStr revoked_by), (''token_id'', JStr token_id)]"
| "event_args (ModelLoadBlocked model_id model_sha256 reason) =
     [(''model_id'', JStr model_id), (''model_sha256'', JStr model_sha256), (''reason'', JStr reason)]"
| "event_args (DataClassificationViolation workspace collection required_label workspace_clearance blocked) =
     [(''workspace'', JStr workspace), (''collection'', JStr collection), (''required_label'', JStr required_label), (''workspace_clearance'', JStr workspace_clearance), (''blocked'', JBool blocked)]"
| "event_args (DataLabelAssigned collection label assigned_by) =
     [(''collection'', JStr collection), (''label'', JStr label), (''assigned_by'', JStr assigned_by)]"
| "event_args (DlpSyncCompleted provider labels_imported) =
     [(''provider'', JStr provider), (''labels_imported'', jnat labels_imported)]"
| "event_args (TpmKeySealed purpose backend pcr_list) =
     [(''purpose'', JStr purpose), (''backend'', JStr backend), (''pcr_list'', jopt JStr pcr_list)]"
| "event_args (TpmUnsealFailed purpose reason fail_count) =
     [(''purpose'', JStr purpose), (''reason'', JStr reason), (''fail_count'', jnat fail_count)]"
| "event_args (TpmKeyRotated purpose reason new_backend new_pcr_list) =
     [(''purpose'', JStr purpose), (''reason'', JStr reason), (''new_backend'', JStr new_backend), (''new_pcr_list'', jopt JStr new_pcr_list)]"
| "event_args (IncidentDeclared incident_id declared_by reason sessions_terminated) =
     [(''incident_id'', JStr incident_id), (''declared_by'', JStr declared_by), (''reason'', JStr reason), (''sessions_terminated'', jnat sessions_terminated)]"
| "event_args (AuditFrozen incident_id frozen_by) =
     [(''incident_id'', JStr incident_id), (''frozen_by'', JStr frozen_by)]"
| "event_args (AuditUnfrozen incident_id unfrozen_by) =
     [(''incident_id'', JStr incident_id), (''unfrozen_by'', JStr unfrozen_by)]"
| "event_args (ForensicSnapshot incident_id snapshot_path snapshot_sha256) =
     [(''incident_id'', JStr incident_id), (''snapshot_path'', JStr snapshot_path), (''snapshot_sha256'', JStr snapshot_sha256)]"
| "event_args (BreakGlassUsed cred_id used_by purpose) =
     [(''cred_id'', JStr cred_id), (''used_by'', JStr used_by), (''purpose'', JStr purpose)]"
| "event_args (IncidentPhaseChanged incident_id old_phase new_phase changed_by note) =
     [(''incident_id'', JStr incident_id), (''old_phase'', JStr old_phase), (''new_phase'', JStr new_phase), (''changed_by'', JStr changed_by), (''note'', jopt JStr note)]"
| "event_args (IncidentResolved incident_id resolved_by summary) =
     [(''incident_id'', JStr incident_id), (''resolved_by'', JStr resolved_by), (''summary'', JStr summary)]"
| "event_args (LegalHoldPlaced hold_id placed_by seq_from seq_to reason tpm_sealed) =
     [(''hold_id'', JStr hold_id), (''placed_by'', JStr placed_by), (''seq_from'', jnat seq_from), (''seq_to'', jnat seq_to), (''reason'', JStr reason), (''tpm_sealed'', JBool tpm_sealed)]"
| "event_args (LegalHoldReleased hold_id released_by) =
     [(''hold_id'', JStr hold_id), (''released_by'', JStr released_by)]"
| "event_args (LegalHoldKeyGenerated pubkey_hex generated_by tpm_sealed) =
     [(''pubkey_hex'', JStr pubkey_hex), (''generated_by'', JStr generated_by), (''tpm_sealed'', JBool tpm_sealed)]"
| "event_args (TeeAttested tee_type report_hash binary_sha256) =
     [(''tee_type'', JStr tee_type), (''report_hash'', JStr report_hash), (''binary_sha256'', JStr binary_sha256)]"

text \<open>\<open>serde_json::to_value(&event)\<close>: the tag and the fields in one object.\<close>

definition event_value :: "audit_event \<Rightarrow> json" where
  "event_value ev = json_object ((''event'', JStr (event_kind ev)) # event_args ev)"

record audit_entry =
  ae_ts :: timestamp
  ae_seq :: nat
  ae_actor :: string
  ae_event :: audit_event
  ae_prev_hmac :: string
  ae_hmac :: string

text \<open>
  The keys of a log line in the order \<open>serde_json::to_string(&entry)\<close> writes them. The flattened
  event stands where the field \<open>event\<close> of the struct does.
\<close>

definition entry_keys :: "audit_entry \<Rightarrow> string list" where
  "entry_keys e =
     [''ts'', ''seq'', ''actor''] @ ''event'' # map fst (event_args (ae_event e))
     @ [''prev_hmac'', ''hmac'']"

definition is_shredded :: "audit_event \<Rightarrow> bool" where
  "is_shredded ev = (case ev of WorkspaceShredded slug actor statement \<Rightarrow> True | _ \<Rightarrow> False)"

lemma skip_none_keys: "set (map fst (skip_none k f x)) \<subseteq> {k}"
  by (cases x) (simp_all add: skip_none_def)

lemma distinct_skip_none [simp]: "distinct (map fst (skip_none k f x))"
  by (cases x) (simp_all add: skip_none_def)

lemma skip_none_key_cases: "k' \<in> fst ` set (skip_none k f x) \<Longrightarrow> k' = k"
  by (cases x) (simp_all add: skip_none_def)

lemma event_args_distinct: "distinct (''event'' # map fst (event_args ev))"
  by (cases ev) (auto dest!: skip_none_key_cases)

text \<open>The event of a crypto-shred is the one whose own \<open>actor\<close> meets the \<open>actor\<close> of the entry.\<close>

lemma event_args_actor: "''actor'' \<in> fst ` set (event_args ev) \<longleftrightarrow> is_shredded ev"
  by (cases ev) (auto simp: is_shredded_def dest!: skip_none_key_cases)

lemma event_args_other:
  "k \<in> {''ts'', ''seq'', ''prev_hmac'', ''hmac''} \<Longrightarrow> k \<notin> fst ` set (event_args ev)"
  by (cases ev) (auto dest!: skip_none_key_cases)

lemma entry_keys_distinct: "distinct (entry_keys e) \<longleftrightarrow> \<not> is_shredded (ae_event e)"
  using event_args_distinct[of "ae_event e"] event_args_actor[of "ae_event e"]
    event_args_other[of _ "ae_event e"]
  by (auto simp: entry_keys_def)

lemma json_get_object:
  "distinct (map fst kvs) \<Longrightarrow> (k, v) \<in> set kvs \<Longrightarrow> json_get (json_object kvs) k = v"
  by (simp add: json_object_def map_of_is_SomeI distinct_map)

lemma event_kind_value [simp]:
  "json_as_str (json_get (event_value ev) ''event'') = Some (event_kind ev)"
proof -
  have "json_get (event_value ev) ''event'' = JStr (event_kind ev)"
    unfolding event_value_def using event_args_distinct[of ev]
    by (intro json_get_object) auto
  then show ?thesis by simp
qed

lemma event_arg_value:
  "(k, v) \<in> set (event_args ev) \<Longrightarrow> json_get (event_value ev) k = v"
  unfolding event_value_def using event_args_distinct[of ev]
  by (intro json_get_object) auto

subsection \<open>String forms\<close>

definition device_from_str :: "string \<Rightarrow> inference_device option" where
  "device_from_str s =
     (if s = ''cpu'' then Some Cpu else if s = ''gpu'' then Some Gpu
      else if s = ''metal'' then Some Metal else if s = ''npu'' then Some Npu
      else if s = ''ryzenai'' then Some RyzenAi else None)"

interpretation dev: string_enum device_str device_from_str id
proof (standard, goal_cases)
  case (1 x)
  show ?case by (cases x) (simp_all add: device_from_str_def)
next
  case (2 s x)
  then show ?case by (auto simp: device_from_str_def split: if_splits)
qed

lemma model_id_roundtrip:
  "CHR '':'' \<notin> set (mid_name m) \<Longrightarrow> model_id_parse (model_id_display m) = Some m"
  by (simp add: model_id_parse_def model_id_display_def split_once_colon_def)

end
