(* ===== verification/Event_Codec.thy ===== *)
theory Event_Codec
  imports Events
begin

section \<open>The JSON value of an audit event determines the event\<close>

text \<open>
  \<open>AuditEvent\<close> is serialised with serde's internal tag \<open>event\<close>; the HMAC of a log line covers the
  resulting object. The lemmas below show that no two events of \<open>events.rs\<close> have the same value,
  for every variant and every nested structure (receipts, sources, probe results), so that what the
  MAC authenticates is the event itself.
\<close>

lemma map_of_skip_none [simp]:
  "map_of (skip_none k f x) k' = (if k' = k then map_option f x else None)"
  by (cases x) (simp_all add: skip_none_def)

lemma jopt_eq_iff: "(\<And>a. f a \<noteq> JNull) \<Longrightarrow> inj f \<Longrightarrow> jopt f x = jopt f y \<longleftrightarrow> x = y"
  by (cases x; cases y) (auto simp: jopt_def inj_eq dest: sym)

lemma jnat_eq_iff [simp]: "jnat m = jnat n \<longleftrightarrow> m = n"
  by (simp add: jnat_def)

lemma json_inj [simp]: "inj JStr" "inj JF32" "inj jnat"
  by (simp_all add: inj_def)

lemma jopt_inj [simp]:
  "jopt JStr x = jopt JStr y \<longleftrightarrow> x = y"
  "jopt jnat m = jopt jnat n \<longleftrightarrow> m = n"
  "jopt JF32 v = jopt JF32 w \<longleftrightarrow> v = w"
  by (simp_all add: jopt_eq_iff jnat_def json_inj[unfolded jnat_def])

lemma map_option_inj_iff [simp]: "inj f \<Longrightarrow> map_option f x = map_option f y \<longleftrightarrow> x = y"
  by (cases x; cases y) (auto simp: inj_eq)

lemma json_object_map_of:
  assumes "json_object xs = json_object ys" "distinct (map fst xs)" "distinct (map fst ys)"
  shows "map_of xs = map_of ys"
proof -
  have "set xs = set ys"
    using assms(1) unfolding json_object_def by (metis json.inject(7) set_sort)
  with assms(2,3) show ?thesis by (simp add: map_of_inject_set)
qed

text \<open>Two equal objects agree at every key.\<close>

lemma json_object_memberD:
  assumes "json_object xs = json_object ys" "distinct (map fst xs)" "distinct (map fst ys)"
  shows "map_of xs k = map_of ys k"
  using json_object_map_of[OF assms] by simp

lemma model_id_value_inj [dest!]: "model_id_value m = model_id_value m' \<Longrightarrow> m = m'"
  unfolding model_id_value_def
  using json_object_memberD[where k = "''name''"] json_object_memberD[where k = "''tag''"]
  by fastforce

lemma source_ref_value_inj:
  assumes "source_ref_value s = source_ref_value s'" shows "s = s'"
proof -
  note d = json_object_memberD[OF assms[unfolded source_ref_value_def]]
  show ?thesis
    using d[of "''chunk_id''"] d[of "''doc_id''"] d[of "''source''"] d[of "''doc_sha256''"]
      d[of "''chunk_hash''"] d[of "''score''"] by simp
qed

lemma env_fingerprint_value_inj:
  assumes "env_fingerprint_value s = env_fingerprint_value s'" shows "s = s'"
proof -
  note d = json_object_memberD[OF assms[unfolded env_fingerprint_value_def]]
  show ?thesis
    using d[of "''kernel_build_id''"] d[of "''thread_count''"] d[of "''device_class''"] by simp
qed

lemma decode_params_value_inj:
  assumes "decode_params_value s = decode_params_value s'" shows "s = s'"
proof -
  note d = json_object_memberD[OF assms[unfolded decode_params_value_def]]
  show ?thesis
    using d[of "''temperature''"] d[of "''top_k''"] d[of "''max_tokens''"] d[of "''seed''"]
      d[of "''deterministic''"] by simp
qed

lemma probe_result_value_inj:
  assumes "probe_result_value s = probe_result_value s'" shows "s = s'"
proof -
  note d = json_object_memberD[OF assms[unfolded probe_result_value_def]]
  show ?thesis
    using d[of "''host''"] d[of "''port''"] d[of "''reachable''"] by simp
qed

lemma import_source_value_inj [dest!]: "import_source_value s = import_source_value s' \<Longrightarrow> s = s'"
  by (cases s; cases s') (auto simp: json_object_def)

lemma isolation_mode_str_inj [dest!]: "isolation_mode_str m = isolation_mode_str m' \<Longrightarrow> m = m'"
  by (cases m; cases m') simp_all

lemma skip_none_distinct [simp]:
  "k \<in> fst ` set (skip_none k' f x) \<longleftrightarrow> k = k' \<and> x \<noteq> None"
  by (cases x) (auto simp: skip_none_def)

lemma distinct_receipt_fields: "distinct (map fst (receipt_fields r))"
  by (auto simp: receipt_fields_def skip_none_def split: option.splits)

lemma receipt_lookup:
  "map_of (receipt_fields r) ''version'' = Some (jnat (rc_version r))"
  "map_of (receipt_fields r) ''receipt_id'' = Some (JStr (rc_receipt_id r))"
  "map_of (receipt_fields r) ''request_id'' = Some (JStr (rc_request_id r))"
  "map_of (receipt_fields r) ''timestamp'' = Some (JTime (rc_timestamp r))"
  "map_of (receipt_fields r) ''model_id'' = Some (JStr (rc_model_id r))"
  "map_of (receipt_fields r) ''model_sha256'' = Some (JStr (rc_model_sha256 r))"
  "map_of (receipt_fields r) ''model_quant'' = map_option JStr (rc_model_quant r)"
  "map_of (receipt_fields r) ''input_sha256'' = Some (JStr (rc_input_sha256 r))"
  "map_of (receipt_fields r) ''output_sha256'' = Some (JStr (rc_output_sha256 r))"
  "map_of (receipt_fields r) ''decode_params'' = Some (decode_params_value (rc_decode_params r))"
  "map_of (receipt_fields r) ''tokens_in'' = Some (jnat (rc_tokens_in r))"
  "map_of (receipt_fields r) ''tokens_out'' = Some (jnat (rc_tokens_out r))"
  "map_of (receipt_fields r) ''signing_key_id'' = Some (JStr (rc_signing_key_id r))"
  "map_of (receipt_fields r) ''tpm_pcr'' = map_option JStr (rc_tpm_pcr r)"
  "map_of (receipt_fields r) ''env'' = Some (env_fingerprint_value (rc_env r))"
  "map_of (receipt_fields r) ''sources'' =
     (if rc_sources r = [] then None else Some (JArr (map source_ref_value (rc_sources r))))"
  "map_of (receipt_fields r) ''grounded'' = Some (JBool (rc_grounded r))"
  "map_of (receipt_fields r) ''signature'' = map_option JStr (rc_signature r)"
  by (simp_all add: receipt_fields_def map_add_def split: option.splits)

lemma receipt_value_inj:
  assumes "receipt_value r = receipt_value r'" shows "r = r'"
proof -
  have src: "map source_ref_value xs = map source_ref_value ys \<Longrightarrow> xs = ys" for xs ys
    using source_ref_value_inj by (metis injI list.inj_map_strong)
  have d: "map_of (receipt_fields r) k = map_of (receipt_fields r') k" for k
    using assms unfolding receipt_value_def
    by (rule json_object_memberD) (rule distinct_receipt_fields)+
  have sources: "rc_sources r = rc_sources r'"
    using d[of "''sources''"] src by (auto simp: receipt_lookup split: if_splits)
  have nested: "rc_decode_params r = rc_decode_params r'" "rc_env r = rc_env r'"
    using d[of "''decode_params''"] d[of "''env''"] decode_params_value_inj env_fingerprint_value_inj
    by (auto simp: receipt_lookup)
  show ?thesis
    using sources nested d[of "''version''"] d[of "''receipt_id''"] d[of "''request_id''"]
      d[of "''timestamp''"] d[of "''model_id''"] d[of "''model_sha256''"] d[of "''model_quant''"]
      d[of "''input_sha256''"] d[of "''output_sha256''"] d[of "''tokens_in''"] d[of "''tokens_out''"]
      d[of "''signing_key_id''"] d[of "''tpm_pcr''"] d[of "''grounded''"] d[of "''signature''"]
    by (simp add: receipt_lookup)
qed

lemma map_of_Cons_eqD:
  assumes "map_of ((k, v) # xs) = map_of ((k, w) # ys)"
    and "k \<notin> fst ` set xs" and "k \<notin> fst ` set ys"
  shows "v = w \<and> map_of xs = map_of ys"
proof -
  have "v = w" using fun_cong[OF assms(1), of k] by simp
  moreover have "map_of xs j = map_of ys j" for j
    using fun_cong[OF assms(1), of j] assms(2,3) map_of_eq_None_iff[of xs k] map_of_eq_None_iff[of ys k]
    by (cases "j = k") auto
  ultimately show ?thesis by auto
qed

lemma probe_results_inj: "map probe_result_value xs = map probe_result_value ys \<Longrightarrow> xs = ys"
  using probe_result_value_inj by (metis injI list.inj_map_strong)

lemma map_of_skip_none_eqD: "inj f \<Longrightarrow> map_of (skip_none k f x) = map_of (skip_none k f y) \<Longrightarrow> x = y"
  by (drule fun_cong[where x = k]) simp

lemma skip_none_mem [simp]:
  "(a, b) \<in> set (skip_none k f x) \<longleftrightarrow> a = k \<and> (\<exists>y. x = Some y \<and> b = f y)"
  by (cases x) (auto simp: skip_none_def)

lemma event_args_inj:
  "event_kind ev = event_kind ev' \<Longrightarrow> map_of (event_args ev) = map_of (event_args ev') \<Longrightarrow> ev = ev'"
  by (cases ev; (cases ev'; ((simp; fail) |
       (auto simp del: map_of.simps dest!: map_of_Cons_eqD dest: dev.as_str_inj receipt_value_inj
          probe_results_inj map_of_skip_none_eqD[OF json_inj(1)]))))

lemma event_value_inj: "event_value ev = event_value ev' \<Longrightarrow> ev = ev'"
proof -
  assume eq: "event_value ev = event_value ev'"
  have "map_of ((''event'', JStr (event_kind ev)) # event_args ev) =
        map_of ((''event'', JStr (event_kind ev')) # event_args ev')"
    using eq event_args_distinct unfolding event_value_def
    by (intro json_object_map_of) simp_all
  from map_of_Cons_eqD[OF this] have "event_kind ev = event_kind ev'"
    "map_of (event_args ev) = map_of (event_args ev')"
    using event_args_distinct[of ev] event_args_distinct[of ev'] by auto
  then show ?thesis by (rule event_args_inj)
qed

end
