(* ===== verification/Secure.thy ===== *)
theory Secure
  imports Maranode_Prelude
begin

section \<open>Comparison of secrets and digest syntax\<close>

text \<open>
  \<open>crates/maranode-common/src/secure.rs\<close>. \<open>subtle::ConstantTimeEq\<close> on slices of one length
  returns whether they are equal, in constant time; its result is all the model keeps. Strings
  here are their UTF-8 bytes.
\<close>

definition ct_eq :: "'a list \<Rightarrow> 'a list \<Rightarrow> bool" where
  "ct_eq a b = (if length a \<noteq> length b then False else a = b)"

definition ct_eq_str :: "string \<Rightarrow> string \<Rightarrow> bool" where
  "ct_eq_str a b = ct_eq a b"

definition hex_lower_digit :: "char \<Rightarrow> bool" where
  "hex_lower_digit c \<longleftrightarrow>
     (of_char (CHR ''0'') \<le> (of_char c :: nat) \<and> (of_char c :: nat) \<le> of_char (CHR ''9'')) \<or>
     (of_char (CHR ''a'') \<le> (of_char c :: nat) \<and> (of_char c :: nat) \<le> of_char (CHR ''f''))"

definition is_sha256_hex :: "string \<Rightarrow> bool" where
  "is_sha256_hex s \<longleftrightarrow> length s = 64 \<and> list_all hex_lower_digit s"

lemma ct_eq_iff [simp]: "ct_eq a b \<longleftrightarrow> a = b"
  by (auto simp: ct_eq_def)

lemma ct_eq_str_iff [simp]: "ct_eq_str a b \<longleftrightarrow> a = b"
  by (simp add: ct_eq_str_def)

text \<open>A digest that passes \<open>is_sha256_hex\<close> is no path: it has no separator and no dot.\<close>

lemma is_sha256_hex_no_path:
  assumes "is_sha256_hex s"
  shows "CHR ''/'' \<notin> set s" and "CHR ''.'' \<notin> set s"
proof -
  have "\<not> hex_lower_digit (CHR ''/'')" "\<not> hex_lower_digit (CHR ''.'')"
    by (simp_all add: hex_lower_digit_def)
  with assms show "CHR ''/'' \<notin> set s" and "CHR ''.'' \<notin> set s"
    by (auto simp: is_sha256_hex_def list_all_iff)
qed

end
