(* ===== verification/Audit_Chain.thy ===== *)
theory Audit_Chain
  imports Event_Codec Secure
begin

section \<open>The HMAC chain of the audit log\<close>

text \<open>
  \<open>crates/maranode-audit/src/chain.rs\<close> and the chain walk of \<open>verify.rs\<close>. What the crate takes
  from other crates is the record \<open>env\<close>: the HMAC-SHA256 in hex, the JSON text of a value, the
  text of a log line and its parser, SHA-256 and ZIP, and chrono's file stamp. A file is its
  text, a list of scalar values; the walk reads it line by line as \<open>str::lines\<close> gives it.

  \<open>chained\<close> is the abstract specification: a list of entries numbered without gap, each naming
  the MAC before it and carrying the MAC of its own body. The lemmas show that the walk accepts
  exactly such a list, that a log line whose keys clash is a parse error, and that two lists that
  verify under one key and end in the same MAC are equal entry by entry, or exhibit two bodies
  with one MAC.
\<close>

record env =
  hmac_hex :: "string \<Rightarrow> ustring \<Rightarrow> string"
  json_text :: "json \<Rightarrow> ustring"
  entry_text :: "audit_entry \<Rightarrow> ustring"
  entry_parse :: "ustring \<Rightarrow> audit_entry option"
  sha256_of :: "ustring \<Rightarrow> string"
  zip_pack :: "ustring \<Rightarrow> ustring"
  zip_unpack :: "ustring \<Rightarrow> ustring option"
  file_stamp :: "timestamp \<Rightarrow> string"

subsection \<open>chain.rs\<close>

definition chain_compute :: "env \<Rightarrow> string \<Rightarrow> ustring \<Rightarrow> string" where
  "chain_compute env key data = hmac_hex env key data"

definition chain_verify :: "env \<Rightarrow> string \<Rightarrow> ustring \<Rightarrow> string \<Rightarrow> bool" where
  "chain_verify env key data expected_hex = ct_eq_str (chain_compute env key data) expected_hex"

definition GENESIS_HMAC :: string where
  "GENESIS_HMAC = replicate 64 (CHR ''0'')"

text \<open>The body that is authenticated: built the same way by \<open>append\<close> and by the walk.\<close>

definition entry_body :: "timestamp \<Rightarrow> nat \<Rightarrow> string \<Rightarrow> string \<Rightarrow> audit_event \<Rightarrow> json" where
  "entry_body ts seq actor prev_hmac event = json_object
     [(''ts'', JTime ts), (''seq'', jnat seq), (''actor'', JStr actor),
      (''prev_hmac'', JStr prev_hmac), (''event'', event_value event)]"

definition body_of :: "audit_entry \<Rightarrow> json" where
  "body_of e = entry_body (ae_ts e) (ae_seq e) (ae_actor e) (ae_prev_hmac e) (ae_event e)"

subsection \<open>verify.rs: the walk\<close>

datatype violation_detail =
    JsonParseError nat
  | SequenceGap nat nat
  | PrevHmacMismatch string string
  | HmacMismatch
  | SegmentHmacMismatch string

record violation =
  vd_seq :: nat
  vd_detail :: violation_detail

record cursor =
  expected_seq :: nat
  prev_hmac :: string
  checked :: nat

text \<open>\<open>walk\<close> runs over the numbered lines and stops at the first violation; the cursor is the
  one at that point.\<close>

fun walk_lines :: "env \<Rightarrow> string \<Rightarrow> nat \<Rightarrow> ustring list \<Rightarrow> cursor \<Rightarrow> cursor \<times> violation option" where
  "walk_lines env key line_no [] cur = (cur, None)"
| "walk_lines env key line_no (line # rest) cur =
     (if is_blank line then walk_lines env key (Suc line_no) rest cur
      else case entry_parse env line of
        None \<Rightarrow>
          (cur, Some \<lparr>vd_seq = expected_seq cur, vd_detail = JsonParseError (line_no + 1)\<rparr>)
      | Some entry \<Rightarrow>
          if ae_seq entry \<noteq> expected_seq cur then
            (cur, Some \<lparr>vd_seq = ae_seq entry,
                        vd_detail = SequenceGap (expected_seq cur) (ae_seq entry)\<rparr>)
          else if ae_prev_hmac entry \<noteq> prev_hmac cur then
            (cur, Some \<lparr>vd_seq = ae_seq entry,
                        vd_detail = PrevHmacMismatch (prev_hmac cur) (ae_prev_hmac entry)\<rparr>)
          else if \<not> chain_verify env key (json_text env (body_of entry)) (ae_hmac entry) then
            (cur, Some \<lparr>vd_seq = ae_seq entry, vd_detail = HmacMismatch\<rparr>)
          else walk_lines env key (Suc line_no) rest
                 \<lparr>expected_seq = u64_add (ae_seq entry) 1, prev_hmac = ae_hmac entry,
                  checked = u64_add (checked cur) 1\<rparr>)"

definition walk :: "env \<Rightarrow> string \<Rightarrow> ustring \<Rightarrow> cursor \<Rightarrow> cursor \<times> violation option" where
  "walk env key content cur = walk_lines env key 0 (str_lines content) cur"

definition anchor :: "env \<Rightarrow> ustring \<Rightarrow> cursor" where
  "anchor env content =
     (let first = (case find (\<lambda>l. \<not> is_blank l) (str_lines content) of
                     None \<Rightarrow> None | Some l \<Rightarrow> entry_parse env l)
      in case first of
           Some e \<Rightarrow>
             if ae_seq e > 1
             then \<lparr>expected_seq = ae_seq e, prev_hmac = ae_prev_hmac e, checked = 0\<rparr>
             else \<lparr>expected_seq = 1, prev_hmac = GENESIS_HMAC, checked = 0\<rparr>
         | None \<Rightarrow> \<lparr>expected_seq = 1, prev_hmac = GENESIS_HMAC, checked = 0\<rparr>)"

record verify_result =
  entries_checked :: nat
  vr_ok :: bool
  first_violation :: "violation option"

text \<open>\<open>verify_log\<close> of a file that is absent (\<open>None\<close>) or present with its text.\<close>

definition verify_log :: "env \<Rightarrow> ustring option \<Rightarrow> string \<Rightarrow> verify_result" where
  "verify_log env log key =
     (case log of
        None \<Rightarrow> \<lparr>entries_checked = 0, vr_ok = True, first_violation = None\<rparr>
      | Some content \<Rightarrow>
          (let (cur, violation) = walk env key content (anchor env content)
           in \<lparr>entries_checked = checked cur, vr_ok = (violation = None),
               first_violation = violation\<rparr>))"

subsection \<open>The specification: chained entries\<close>

text \<open>What serde\_json and serde's derived code promise of the text of one entry: it is one
  non-blank line, and it is read back unless two of its keys are equal, which the derived
  deserialiser refuses as a duplicate field.\<close>

definition serde_line_ok :: "env \<Rightarrow> audit_entry \<Rightarrow> bool" where
  "serde_line_ok env e \<longleftrightarrow>
     10 \<notin> set (entry_text env e) \<and> \<not> is_blank (entry_text env e) \<and> last (entry_text env e) \<noteq> 13 \<and>
     entry_parse env (entry_text env e) = (if distinct (entry_keys e) then Some e else None)"

definition entry_mac :: "env \<Rightarrow> string \<Rightarrow> audit_entry \<Rightarrow> string" where
  "entry_mac env key e = chain_compute env key (json_text env (body_of e))"

fun chained :: "env \<Rightarrow> string \<Rightarrow> nat \<Rightarrow> string \<Rightarrow> audit_entry list \<Rightarrow> bool" where
  "chained env key n prev [] = True"
| "chained env key n prev (e # es) =
     (ae_seq e = n \<and> ae_prev_hmac e = prev \<and> ae_hmac e = entry_mac env key e \<and>
      chained env key (Suc n) (ae_hmac e) es)"

definition last_mac :: "string \<Rightarrow> audit_entry list \<Rightarrow> string" where
  "last_mac prev es = (if es = [] then prev else ae_hmac (last es))"

definition file_of :: "env \<Rightarrow> audit_entry list \<Rightarrow> ustring" where
  "file_of env es = concat (map (\<lambda>e. entry_text env e @ [10]) es)"

definition readable :: "env \<Rightarrow> audit_entry \<Rightarrow> bool" where
  "readable env e \<longleftrightarrow> serde_line_ok env e \<and> \<not> is_shredded (ae_event e)"

lemma last_mac_simps [simp]:
  "last_mac prev [] = prev"
  "last_mac prev (e # es) = last_mac (ae_hmac e) es"
  "last_mac prev (es @ [e]) = ae_hmac e"
  by (auto simp: last_mac_def)

lemma last_mac_append: "last_mac prev (xs @ ys) = last_mac (last_mac prev xs) ys"
  by (auto simp: last_mac_def)

lemma file_of_simps [simp]:
  "file_of env [] = []"
  "file_of env (e # es) = entry_text env e @ 10 # file_of env es"
  "file_of env (xs @ ys) = file_of env xs @ file_of env ys"
  by (simp_all add: file_of_def)

lemma readable_parse: "readable env e \<Longrightarrow> entry_parse env (entry_text env e) = Some e"
  by (simp add: readable_def serde_line_ok_def entry_keys_distinct)

lemma readable_line:
  "readable env e \<Longrightarrow> 10 \<notin> set (entry_text env e) \<and> \<not> is_blank (entry_text env e) \<and>
     last (entry_text env e) \<noteq> 13"
  by (simp add: readable_def serde_line_ok_def)

lemma str_lines_file:
  assumes "\<forall>e \<in> set es. readable env e"
  shows "str_lines (file_of env es @ rest) = map (entry_text env) es @ str_lines rest"
  using assms by (induction es) (auto dest: readable_line simp: str_lines_prefix)

lemma str_lines_file_of:
  "\<forall>e \<in> set es. readable env e \<Longrightarrow> str_lines (file_of env es) = map (entry_text env) es"
  using str_lines_file[of es env "[]"] by simp

lemma chained_append:
  "chained env key n prev (xs @ ys) \<longleftrightarrow>
     chained env key n prev xs \<and> chained env key (n + length xs) (last_mac prev xs) ys"
  by (induction xs arbitrary: n prev) auto

lemma chained_nth_seq: "chained env key n prev es \<Longrightarrow> i < length es \<Longrightarrow> ae_seq (es ! i) = n + i"
proof (induction es arbitrary: n prev i)
  case (Cons e es)
  then show ?case by (cases i) auto
qed simp

subsection \<open>The walk decides the specification\<close>

lemma walk_lines_readable:
  assumes "\<forall>e \<in> set es. readable env e"
    and "chained env key (expected_seq cur) (prev_hmac cur) es"
    and "expected_seq cur + length es < 2 ^ 64" and "checked cur + length es < 2 ^ 64"
  shows "walk_lines env key k (map (entry_text env) es) cur =
     (\<lparr>expected_seq = expected_seq cur + length es, prev_hmac = last_mac (prev_hmac cur) es,
       checked = checked cur + length es\<rparr>, None)"
  using assms
proof (induction es arbitrary: cur k)
  case (Cons e es)
  let ?cur = "\<lparr>expected_seq = expected_seq cur + 1, prev_hmac = ae_hmac e, checked = checked cur + 1\<rparr>"
  have e: "readable env e" and chain: "chained env key (Suc (expected_seq cur)) (ae_hmac e) es"
    and mac: "ae_hmac e = entry_mac env key e" "ae_seq e = expected_seq cur"
      "ae_prev_hmac e = prev_hmac cur"
    using Cons.prems(1,2) by auto
  have "walk_lines env key (Suc k) (map (entry_text env) es) ?cur =
     (\<lparr>expected_seq = expected_seq ?cur + length es, prev_hmac = last_mac (prev_hmac ?cur) es,
       checked = checked ?cur + length es\<rparr>, None)"
    using Cons.prems chain by (intro Cons.IH) auto
  then show ?case
    using Cons.prems(3,4) e mac readable_line[OF e] readable_parse[OF e]
    by (simp add: chain_verify_def entry_mac_def rust_arith)
qed simp

lemma walk_lines_sound:
  assumes "\<forall>e \<in> set es. readable env e"
    and "expected_seq cur + length es < 2 ^ 64"
    and "snd (walk_lines env key k (map (entry_text env) es) cur) = None"
  shows "chained env key (expected_seq cur) (prev_hmac cur) es"
  using assms
proof (induction es arbitrary: cur k)
  case (Cons e es)
  have e: "readable env e" using Cons.prems(1) by simp
  let ?cur = "\<lparr>expected_seq = u64_add (ae_seq e) 1, prev_hmac = ae_hmac e,
    checked = u64_add (checked cur) 1\<rparr>"
  have ok: "ae_seq e = expected_seq cur" "ae_prev_hmac e = prev_hmac cur"
      "ae_hmac e = entry_mac env key e"
    and rest: "snd (walk_lines env key (Suc k) (map (entry_text env) es) ?cur) = None"
    using Cons.prems(3) readable_line[OF e] readable_parse[OF e]
    by (auto simp: chain_verify_def entry_mac_def split: if_splits)
  have next_seq: "u64_add (ae_seq e) 1 = Suc (expected_seq cur)"
    using Cons.prems(2) ok(1) by (simp add: rust_arith)
  have "chained env key (expected_seq ?cur) (prev_hmac ?cur) es"
    using Cons.prems(1,2) rest next_seq by (intro Cons.IH[of ?cur "Suc k"]) auto
  with ok next_seq show ?case by simp
qed simp

lemma walk_lines_append:
  "walk_lines env key k (xs @ ys) cur =
     (case walk_lines env key k xs cur of
        (cur', None) \<Rightarrow> walk_lines env key (k + length xs) ys cur'
      | (cur', Some v) \<Rightarrow> (cur', Some v))"
  by (induction env key k xs cur rule: walk_lines.induct) (auto split: option.splits)

lemma walk_file:
  assumes "\<forall>e \<in> set es. readable env e"
    and "chained env key (expected_seq cur) (prev_hmac cur) es"
    and "expected_seq cur + length es < 2 ^ 64" and "checked cur + length es < 2 ^ 64"
  shows "walk env key (file_of env es) cur =
     (\<lparr>expected_seq = expected_seq cur + length es, prev_hmac = last_mac (prev_hmac cur) es,
       checked = checked cur + length es\<rparr>, None)"
  using assms by (simp add: walk_def str_lines_file_of walk_lines_readable)

lemma anchor_file:
  assumes "\<forall>e \<in> set es. readable env e" and "es \<noteq> []"
  shows "anchor env (file_of env es) =
     (if ae_seq (hd es) > 1
      then \<lparr>expected_seq = ae_seq (hd es), prev_hmac = ae_prev_hmac (hd es), checked = 0\<rparr>
      else \<lparr>expected_seq = 1, prev_hmac = GENESIS_HMAC, checked = 0\<rparr>)"
proof -
  obtain e es' where es: "es = e # es'" using assms(2) by (cases es) auto
  have lines: "str_lines (file_of env es) = map (entry_text env) es"
    using assms(1) by (rule str_lines_file_of)
  have "readable env e" using es assms(1) by simp
  then show ?thesis
    unfolding anchor_def lines using es readable_line[of env e] readable_parse[of env e] by simp
qed

subsection \<open>Bodies determine entries\<close>

lemma body_of_eqD:
  assumes "body_of e = body_of e'"
  shows "ae_ts e = ae_ts e' \<and> ae_seq e = ae_seq e' \<and> ae_actor e = ae_actor e' \<and>
     ae_prev_hmac e = ae_prev_hmac e' \<and> event_value (ae_event e) = event_value (ae_event e')"
proof -
  let ?kvs = "\<lambda>e. [(''ts'', JTime (ae_ts e)), (''seq'', jnat (ae_seq e)), (''actor'', JStr (ae_actor e)),
      (''prev_hmac'', JStr (ae_prev_hmac e)), (''event'', event_value (ae_event e))]"
  have "map_of (?kvs e) = map_of (?kvs e')"
    using assms unfolding body_of_def entry_body_def by (rule json_object_map_of) simp_all
  then have "map_of (?kvs e) k = map_of (?kvs e') k" for k by simp
  from this[of "''ts''"] this[of "''seq''"] this[of "''actor''"] this[of "''prev_hmac''"]
    this[of "''event''"] show ?thesis by (simp add: jnat_def)
qed

lemma body_of_inj:
  assumes "body_of e = body_of e'" and "ae_hmac e = ae_hmac e'"
  shows "e = e'"
  using body_of_eqD[OF assms(1)] event_value_inj assms(2) by (cases e; cases e') auto

subsection \<open>The verifier on logs it did not write\<close>

definition genesis_cursor :: cursor where
  "genesis_cursor = \<lparr>expected_seq = 1, prev_hmac = GENESIS_HMAC, checked = 0\<rparr>"

lemma genesis_cursor_simps [simp]:
  "expected_seq genesis_cursor = 1" "prev_hmac genesis_cursor = GENESIS_HMAC"
  "checked genesis_cursor = 0"
  by (simp_all add: genesis_cursor_def)

lemma verify_log_walk:
  "verify_log env (Some content) key =
     (let r = walk env key content (anchor env content)
      in \<lparr>entries_checked = checked (fst r), vr_ok = (snd r = None), first_violation = snd r\<rparr>)"
  by (simp add: verify_log_def Let_def split: prod.split)

lemma anchor_genesis:
  assumes "\<forall>e \<in> set es. readable env e" and "chained env key 1 GENESIS_HMAC es" and "es \<noteq> []"
  shows "anchor env (file_of env es) = genesis_cursor"
  using assms anchor_file[OF assms(1,3)] by (cases es) (auto simp: genesis_cursor_def)

lemma anchor_prefix:
  assumes "\<forall>e \<in> set xs. readable env e" and "xs \<noteq> []"
  shows "anchor env (file_of env xs @ rest) = anchor env (file_of env xs)"
proof -
  obtain e xs' where xs: "xs = e # xs'" using assms(2) by (cases xs) auto
  have "readable env e" using assms(1) xs by simp
  then show ?thesis
    unfolding anchor_def str_lines_file[OF assms(1)] str_lines_file_of[OF assms(1)]
    using xs readable_line[of env e] by simp
qed

text \<open>The verifier reaches the text behind a sound prefix with the cursor of that prefix.\<close>

lemma walk_after_prefix:
  assumes "\<forall>e \<in> set xs. readable env e" and "chained env key 1 GENESIS_HMAC xs"
    and "length xs + 1 < 2 ^ 64"
  shows "walk env key (file_of env xs @ rest) genesis_cursor =
     walk_lines env key (length xs) (str_lines rest)
       \<lparr>expected_seq = 1 + length xs, prev_hmac = last_mac GENESIS_HMAC xs, checked = length xs\<rparr>"
  using walk_lines_readable[of xs env key genesis_cursor 0] assms
  by (simp add: walk_def str_lines_file walk_lines_append)

lemma verify_log_stops:
  assumes "\<forall>e \<in> set xs. readable env e" and "chained env key 1 GENESIS_HMAC xs" and "xs \<noteq> []"
    and "length xs + 1 < 2 ^ 64"
    and "str_lines rest = line # lines" and "\<not> is_blank line"
  shows "verify_log env (Some (file_of env xs @ rest)) key =
     (let r = walk_lines env key (length xs) (line # lines)
            \<lparr>expected_seq = 1 + length xs, prev_hmac = last_mac GENESIS_HMAC xs, checked = length xs\<rparr>
      in \<lparr>entries_checked = checked (fst r), vr_ok = (snd r = None), first_violation = snd r\<rparr>)"
  unfolding verify_log_walk anchor_prefix[OF assms(1,3)] anchor_genesis[OF assms(1-3)]
    walk_after_prefix[OF assms(1,2,4)] assms(5) ..

text \<open>Where the verifier starts on a log whose first entry is not number 1.\<close>

definition start_seq :: "audit_entry list \<Rightarrow> nat" where
  "start_seq es = (if ae_seq (hd es) > 1 then ae_seq (hd es) else 1)"

definition start_prev :: "audit_entry list \<Rightarrow> string" where
  "start_prev es = (if ae_seq (hd es) > 1 then ae_prev_hmac (hd es) else GENESIS_HMAC)"

lemma verify_log_chained:
  assumes "\<forall>e \<in> set es. readable env e" and "es \<noteq> []"
    and "ae_seq (hd es) + length es + 1 < 2 ^ 64"
    and "chained env key (start_seq es) (start_prev es) es"
  shows "verify_log env (Some (file_of env es)) key =
     \<lparr>entries_checked = length es, vr_ok = True, first_violation = None\<rparr>"
proof -
  let ?cur = "\<lparr>expected_seq = start_seq es, prev_hmac = start_prev es, checked = 0\<rparr>"
  have "anchor env (file_of env es) = ?cur"
    using anchor_file[OF assms(1,2)] by (simp add: start_seq_def start_prev_def)
  moreover have "start_seq es + length es < 2 ^ 64" using assms(3) by (auto simp: start_seq_def)
  ultimately show ?thesis
    using walk_file[OF assms(1), of key ?cur] assms(4) by (simp add: verify_log_walk)
qed

lemma chained_start:
  "chained env key n prev es \<Longrightarrow> es \<noteq> [] \<Longrightarrow> n > 1 \<or> n = 1 \<and> prev = GENESIS_HMAC \<Longrightarrow>
     chained env key (start_seq es) (start_prev es) es"
  by (cases es) (auto simp: start_seq_def start_prev_def)

text \<open>C1: the verifier decides the chain. On a log of readable entries it reports success exactly
  when the entries are numbered without gap, each names the MAC before it and each carries the MAC
  of its own body, starting at entry 1 after the genesis MAC, or, when the first entry has a higher
  number (an older prefix was pruned), at what that entry says precedes it; and then it has counted
  every entry.\<close>

theorem verify_log_decides:
  assumes "\<forall>e \<in> set es. readable env e" and "es \<noteq> []"
    and "ae_seq (hd es) + length es + 1 < 2 ^ 64"
  shows "(vr_ok (verify_log env (Some (file_of env es)) key) \<longleftrightarrow>
            chained env key (start_seq es) (start_prev es) es) \<and>
         (vr_ok (verify_log env (Some (file_of env es)) key) \<longrightarrow>
            entries_checked (verify_log env (Some (file_of env es)) key) = length es)"
proof -
  let ?cur = "\<lparr>expected_seq = start_seq es, prev_hmac = start_prev es, checked = 0\<rparr>"
  have "anchor env (file_of env es) = ?cur"
    using anchor_file[OF assms(1,2)] by (simp add: start_seq_def start_prev_def)
  moreover have "start_seq es + length es < 2 ^ 64" using assms(3) by (auto simp: start_seq_def)
  ultimately have "vr_ok (verify_log env (Some (file_of env es)) key) \<Longrightarrow>
      chained env key (start_seq es) (start_prev es) es"
    using walk_lines_sound[OF assms(1), of ?cur key 0]
    by (simp add: verify_log_walk walk_def str_lines_file_of[OF assms(1)] Let_def)
  with verify_log_chained[OF assms, of key] show ?thesis by auto
qed

subsection \<open>A small instance of the parameters\<close>

text \<open>A line is one character made of the sequence number, the MAC of a body its sequence number
  and the length of its event's name.\<close>

definition demo_text :: "json \<Rightarrow> ustring" where
  "demo_text j =
     [unwrap_or 0 (json_as_u64 (json_get j ''seq'')),
      length (unwrap_or [] (json_as_str (json_get (json_get j ''event'') ''event'')))]"

definition demo_env :: "audit_entry list \<Rightarrow> env" where
  "demo_env es =
     \<lparr>hmac_hex = (\<lambda>key data. map char_of data), json_text = demo_text,
      entry_text = (\<lambda>e. [100 + ae_seq e]),
      entry_parse = (\<lambda>l. find (\<lambda>e. l = [100 + ae_seq e] \<and> \<not> is_shredded (ae_event e)) es),
      sha256_of = (\<lambda>text. map char_of text), zip_pack = (\<lambda>text. 0 # text),
      zip_unpack = (\<lambda>text. if text = [] then None else Some (tl text)),
      file_stamp = (\<lambda>t. [char_of (nat t)])\<rparr>"

definition demo_entry :: "nat \<Rightarrow> string \<Rightarrow> audit_event \<Rightarrow> audit_entry" where
  "demo_entry n prev ev =
     \<lparr>ae_ts = 0, ae_seq = n, ae_actor = ''system'', ae_event = ev, ae_prev_hmac = prev,
      ae_hmac = [char_of n, char_of (length (event_kind ev))]\<rparr>"

lemma demo_entry_simps [simp]:
  "ae_seq (demo_entry n prev ev) = n" "ae_prev_hmac (demo_entry n prev ev) = prev"
  "ae_event (demo_entry n prev ev) = ev" "ae_ts (demo_entry n prev ev) = 0"
  "ae_hmac (demo_entry n prev ev) = [char_of n, char_of (length (event_kind ev))]"
  by (simp_all add: demo_entry_def)

lemma demo_env_simps [simp]:
  "entry_text (demo_env es) e = [100 + ae_seq e]"
  "entry_parse (demo_env es) l =
     find (\<lambda>e. l = [100 + ae_seq e] \<and> \<not> is_shredded (ae_event e)) es"
  by (simp_all add: demo_env_def)

lemma demo_mac [simp]: "n < 2 ^ 64 \<Longrightarrow> entry_mac (demo_env es) key (demo_entry n prev ev) =
    [char_of n, char_of (length (event_kind ev))]"
proof -
  assume n: "n < 2 ^ 64"
  let ?e = "demo_entry n prev ev"
  have "json_get (body_of ?e) ''seq'' = jnat n" "json_get (body_of ?e) ''event'' = event_value ev"
    unfolding body_of_def entry_body_def by (rule json_get_object; simp)+
  with n show ?thesis
    by (simp add: entry_mac_def chain_compute_def demo_env_def demo_text_def jnat_def event_kind_value)
qed

lemma demo_serde_line_ok:
  assumes "find (\<lambda>e'. ae_seq e = ae_seq e' \<and> \<not> is_shredded (ae_event e')) es =
     (if is_shredded (ae_event e) then None else Some e)"
    and "\<not> uc_whitespace (100 + ae_seq e)"
  shows "serde_line_ok (demo_env es) e"
  using assms by (auto simp: serde_line_ok_def is_blank_iff entry_keys_distinct)

lemmas demo_eval = readable_def demo_serde_line_ok is_shredded_def uc_whitespace_def

definition demo_log :: "audit_entry list" where
  "demo_log =
     [demo_entry 1 GENESIS_HMAC (DaemonStart ''1.0'' True),
      demo_entry 2 [char_of (1 :: nat), char_of (12 :: nat)] (ConfigReloaded ''root''),
      demo_entry 3 [char_of (2 :: nat), char_of (15 :: nat)] (DaemonStop ''quit'')]"

lemma demo_log_readable: "\<forall>e \<in> set demo_log. readable (demo_env demo_log) e"
  by (simp add: demo_log_def demo_eval)

lemma demo_log_chained: "chained (demo_env es) key 1 GENESIS_HMAC demo_log"
  by (simp add: demo_log_def)

theorem verify_log_decides_witness:
  "vr_ok (verify_log (demo_env demo_log) (Some (file_of (demo_env demo_log) demo_log)) ''key'') \<and>
   entries_checked (verify_log (demo_env demo_log) (Some (file_of (demo_env demo_log) demo_log)) ''key'') = 3"
  using verify_log_decides[OF demo_log_readable, of "''key''"] demo_log_chained[of demo_log "''key''"]
  by (simp add: demo_log_def start_seq_def start_prev_def)

subsection \<open>What tampering the chain shows\<close>

lemma chained_collision:
  assumes "chained env key n prev xs" and "chained env key m prev' ys"
    and "xs \<noteq> []" and "ys \<noteq> []" and "n = m + k"
    and "last_mac prev xs = last_mac prev' ys"
    and no_collision: "\<forall>e \<in> set xs. \<forall>e' \<in> set ys.
      entry_mac env key e = entry_mac env key e' \<longrightarrow> body_of e = body_of e'"
  shows "\<exists>zs. ys = zs @ xs \<and> length zs = k"
  using assms(1-6) no_collision
proof (induction xs arbitrary: ys rule: rev_induct)
  case (snoc x xs)
  obtain ys' y where ys: "ys = ys' @ [y]" using snoc.prems(4) by (cases ys rule: rev_cases) auto
  have macs: "ae_hmac x = entry_mac env key x" "ae_hmac y = entry_mac env key y"
    "ae_seq x = n + length xs" "ae_seq y = m + length ys'"
    "ae_prev_hmac x = last_mac prev xs" "ae_prev_hmac y = last_mac prev' ys'"
    using snoc.prems(1,2) by (simp_all add: ys chained_append)
  have "body_of x = body_of y" using snoc.prems(6,7) macs(1,2) by (simp add: ys)
  then have xy: "x = y" using body_of_inj macs(1,2) by (simp add: entry_mac_def)
  have len: "length ys' = k + length xs" using macs(3,4) xy snoc.prems(5) by simp
  show ?case
  proof (cases "xs = []")
    case True
    then show ?thesis using ys xy len by simp
  next
    case False
    then have "ys' \<noteq> []" using len by auto
    then have "\<exists>zs. ys' = zs @ xs \<and> length zs = k"
      using snoc.prems macs(5,6) xy False by (intro snoc.IH) (auto simp: ys chained_append)
    then show ?thesis using ys xy by auto
  qed
qed simp



text \<open>A contiguous part of a log still verifies, whatever was cut from its front or its end:
  the verifier takes the first remaining entry as its anchor and knows of no last one. The chain
  alone does not show that an attacker removed the oldest or the newest entries.\<close>

lemma verify_log_accepts_slice:
  assumes "chained env key 1 GENESIS_HMAC (cut_front @ kept @ cut_back)" and "kept \<noteq> []"
    and "\<forall>e \<in> set kept. readable env e"
    and "length cut_front + 2 * length kept + 3 < 2 ^ 64"
  shows "verify_log env (Some (file_of env kept)) key =
     \<lparr>entries_checked = length kept, vr_ok = True, first_violation = None\<rparr>"
proof (rule verify_log_chained[OF assms(3,2)])
  have c: "chained env key (1 + length cut_front) (last_mac GENESIS_HMAC cut_front) kept"
    using assms(1) by (simp add: chained_append)
  show "chained env key (start_seq kept) (start_prev kept) kept"
    using c assms(2) by (rule chained_start) (cases cut_front; simp)
  show "ae_seq (hd kept) + length kept + 1 < 2 ^ 64"
    using c assms(2,4) by (cases kept) auto
qed

text \<open>A gap in the middle is found. When entries are deleted between two that stay, the
  verifier stops at the first entry behind the gap and reports the number it expected and the one
  it found, having counted exactly the entries before the gap.\<close>

lemma verify_log_finds_gap:
  assumes "chained env key 1 GENESIS_HMAC (xs @ deleted @ ys)"
    and "xs \<noteq> []" and "deleted \<noteq> []" and "ys \<noteq> []"
    and "\<forall>e \<in> set (xs @ ys). readable env e" and "length xs + 1 < 2 ^ 64"
  shows "verify_log env (Some (file_of env (xs @ ys))) key =
     \<lparr>entries_checked = length xs, vr_ok = False,
      first_violation = Some \<lparr>vd_seq = 1 + length xs + length deleted,
        vd_detail = SequenceGap (1 + length xs) (1 + length xs + length deleted)\<rparr>\<rparr>"
proof -
  obtain y ys' where ys: "ys = y # ys'" using assms(4) by (cases ys) auto
  have y: "readable env y" "ae_seq y = 1 + length xs + length deleted"
    using assms(1,5) by (simp_all add: ys chained_append)
  have xs: "\<forall>e \<in> set xs. readable env e" "chained env key 1 GENESIS_HMAC xs"
    using assms(1,5) by (auto simp: chained_append)
  have lines: "str_lines (file_of env ys) = entry_text env y # map (entry_text env) ys'"
    using assms(5) by (subst str_lines_file_of) (simp_all add: ys)
  show ?thesis
    using verify_log_stops[OF xs assms(2,6) lines] readable_line[OF y(1)] readable_parse[OF y(1)]
      y(2) assms(3) by simp
qed

text \<open>An edited entry is found. When one entry's timestamp, actor or event is changed and its
  number, previous MAC and MAC are kept, the verifier stops there with an HMAC mismatch after
  counting the entries before it, unless the edited body has the same MAC as the original.\<close>

lemma verify_log_finds_edit:
  assumes "chained env key 1 GENESIS_HMAC (xs @ e # ys)" and "xs \<noteq> []"
    and "ae_seq e' = ae_seq e" and "ae_prev_hmac e' = ae_prev_hmac e" and "ae_hmac e' = ae_hmac e"
    and "hmac_hex env key (json_text env (body_of e')) \<noteq> hmac_hex env key (json_text env (body_of e))"
    and "\<forall>x \<in> set (xs @ e' # ys). readable env x" and "length xs + 1 < 2 ^ 64"
  shows "verify_log env (Some (file_of env (xs @ e' # ys))) key =
     \<lparr>entries_checked = length xs, vr_ok = False,
      first_violation = Some \<lparr>vd_seq = 1 + length xs, vd_detail = HmacMismatch\<rparr>\<rparr>"
proof -
  have xs: "\<forall>e \<in> set xs. readable env e" "chained env key 1 GENESIS_HMAC xs"
    using assms(1,7) by (auto simp: chained_append)
  have e: "ae_seq e = 1 + length xs" "ae_prev_hmac e = last_mac GENESIS_HMAC xs"
    "ae_hmac e = hmac_hex env key (json_text env (body_of e))"
    using assms(1) by (simp_all add: chained_append entry_mac_def chain_compute_def)
  have e': "readable env e'" using assms(7) by simp
  have lines: "str_lines (file_of env (e' # ys)) = entry_text env e' # map (entry_text env) ys"
    using assms(7) by (subst str_lines_file_of) simp_all
  show ?thesis
    using verify_log_stops[OF xs assms(2,8) lines] readable_line[OF e'] readable_parse[OF e']
      e assms(3-6) by (simp add: chain_verify_def chain_compute_def)
qed

definition demo_edited :: audit_entry where
  "demo_edited = (demo_log ! 1) \<lparr>ae_event := DaemonStop ''forged''\<rparr>"

text \<open>The entry of a crypto-shred breaks verification. \<open>AuditEvent::WorkspaceShredded\<close> has a
  field \<open>actor\<close> and is flattened into \<open>AuditEntry\<close>, which has one too, so the written line holds
  the key twice and does not parse: the verifier fails there although every MAC is right.\<close>

lemma shredded_entry_breaks_log:
  assumes "chained env key 1 GENESIS_HMAC (xs @ e # ys)" and "xs \<noteq> []"
    and "\<forall>x \<in> set xs. readable env x" and "serde_line_ok env e"
    and "ae_event e = WorkspaceShredded slug actor statement"
    and "length xs + 1 < 2 ^ 64"
  shows "verify_log env (Some (file_of env (xs @ e # ys))) key =
     \<lparr>entries_checked = length xs, vr_ok = False,
      first_violation = Some \<lparr>vd_seq = 1 + length xs, vd_detail = JsonParseError (1 + length xs)\<rparr>\<rparr>"
proof -
  have xs: "chained env key 1 GENESIS_HMAC xs" using assms(1) by (simp add: chained_append)
  have e: "10 \<notin> set (entry_text env e)" "\<not> is_blank (entry_text env e)"
    "entry_parse env (entry_text env e) = None" "last (entry_text env e) \<noteq> 13"
    using assms(4,5) entry_keys_distinct[of e] by (simp_all add: serde_line_ok_def is_shredded_def)
  have lines: "str_lines (file_of env (e # ys)) = entry_text env e # str_lines (file_of env ys)"
    using e(1,4) by (simp add: str_lines_prefix)
  show ?thesis
    using verify_log_stops[OF assms(3) xs assms(2,6) lines e(2)] e by simp
qed

end
