(* ===== verification/Audit_Rotate.thy ===== *)
theory Audit_Rotate
  imports Audit_Chain
begin

section \<open>Segments, their manifest, and the verification of a whole audit directory\<close>

text \<open>
  \<open>crates/maranode-audit/src/rotate.rs\<close> and \<open>verify_all\<close> of \<open>verify.rs\<close>, over a small model of
  the directory they work in. The active log \<open>audit.jsonl\<close> is a path that names an inode, so that a
  handle that was opened before a rename keeps writing to the inode it had; the sealed segments are
  a map from file names to bytes; the manifest is missing, unreadable as JSON, or present. Reading
  and writing these files is taken to succeed, except where a file or the manifest is absent or
  malformed; one reading of the clock stands for the two that \<open>seal_segment\<close> makes.
\<close>

record rotate_config =
  max_bytes :: nat
  max_age_days :: nat

definition rotate_enabled :: "rotate_config \<Rightarrow> bool" where
  "rotate_enabled cfg \<longleftrightarrow> max_bytes cfg > 0 \<or> max_age_days cfg > 0"

record summary =
  sm_seq_start :: nat
  sm_seq_end :: nat
  sm_entries :: nat
  sm_first_prev_hmac :: string
  sm_last_hmac :: string
  sm_ts_first :: timestamp
  sm_ts_last :: timestamp

record segment =
  sg_file :: string
  sg_seq_start :: nat
  sg_seq_end :: nat
  sg_entries :: nat
  sg_first_prev_hmac :: string
  sg_last_hmac :: string
  sg_ts_first :: timestamp
  sg_ts_last :: timestamp
  sg_sha256 :: string
  sg_rotated_at :: timestamp

record manifest =
  mf_version :: nat
  mf_segments :: "segment list"

datatype manifest_file = MfMissing | MfCorrupt | MfPresent manifest

type_synonym inode = nat

record audit_dir =
  ad_log :: "inode option"
  ad_inodes :: "inode \<Rightarrow> ustring"
  ad_next :: inode
  ad_segments :: "string \<rightharpoonup> ustring"
  ad_manifest :: manifest_file

datatype audit_error =
    IoError
  | ManifestParse
  | SegmentMissing string
  | SegmentDigest string
  | SegmentArchive string
  | RetainDaysZero

definition log_text :: "audit_dir \<Rightarrow> ustring option" where
  "log_text d = map_option (ad_inodes d) (ad_log d)"

definition days :: "nat \<Rightarrow> timestamp" where
  "days n = int n * 86400 * 10 ^ 9"

subsection \<open>Reading a log as entries\<close>

definition load_manifest :: "audit_dir \<Rightarrow> (audit_error, manifest) result" where
  "load_manifest d = (case ad_manifest d of
      MfMissing \<Rightarrow> Inr \<lparr>mf_version = 1, mf_segments = []\<rparr>
    | MfCorrupt \<Rightarrow> Inl ManifestParse
    | MfPresent m \<Rightarrow> Inr m)"

definition save_manifest :: "manifest \<Rightarrow> audit_dir \<Rightarrow> audit_dir" where
  "save_manifest m d = d\<lparr>ad_manifest := MfPresent m\<rparr>"

text \<open>The loop of \<open>summarize\<close>: one step per line, blank and unreadable lines skipped. The option
  is \<open>None\<close> until the first entry (\<open>seq_start\<close> and \<open>ts_first\<close> are set together).\<close>

definition summarize_line :: "env \<Rightarrow> summary option \<Rightarrow> ustring \<Rightarrow> summary option" where
  "summarize_line env acc line =
     (if is_blank line then acc
      else case entry_parse env line of
        None \<Rightarrow> acc
      | Some e \<Rightarrow> Some (case acc of
            None \<Rightarrow> \<lparr>sm_seq_start = ae_seq e, sm_seq_end = ae_seq e, sm_entries = 1,
                      sm_first_prev_hmac = ae_prev_hmac e, sm_last_hmac = ae_hmac e,
                      sm_ts_first = ae_ts e, sm_ts_last = ae_ts e\<rparr>
          | Some s \<Rightarrow> s\<lparr>sm_seq_end := ae_seq e, sm_last_hmac := ae_hmac e, sm_ts_last := ae_ts e,
                        sm_entries := u64_add (sm_entries s) 1\<rparr>))"

definition summarize :: "env \<Rightarrow> ustring \<Rightarrow> summary option" where
  "summarize env content = foldl (summarize_line env) None (str_lines content)"

fun oldest_ts_lines :: "env \<Rightarrow> ustring list \<Rightarrow> timestamp option" where
  "oldest_ts_lines env [] = None"
| "oldest_ts_lines env (line # rest) =
     (if is_blank line then oldest_ts_lines env rest
      else case entry_parse env line of
        Some e \<Rightarrow> Some (ae_ts e)
      | None \<Rightarrow> oldest_ts_lines env rest)"

definition oldest_ts :: "env \<Rightarrow> ustring \<Rightarrow> timestamp option" where
  "oldest_ts env content = oldest_ts_lines env (str_lines content)"

subsection \<open>Sealing and reading segments\<close>

definition segment_file :: "env \<Rightarrow> timestamp \<Rightarrow> summary \<Rightarrow> string" where
  "segment_file env now sm =
     ''audit-'' @ show_nat (sm_seq_start sm) @ ''-'' @ show_nat (sm_seq_end sm) @ ''-''
       @ file_stamp env now @ ''.jsonl.zip''"

text \<open>The archive is written before the manifest is read: with a malformed manifest the call
  fails and the archive stays.\<close>

definition seal_segment ::
  "env \<Rightarrow> timestamp \<Rightarrow> ustring \<Rightarrow> summary \<Rightarrow> audit_dir \<Rightarrow> (audit_error, segment) result \<times> audit_dir" where
  "seal_segment env now log_bytes sm d =
     (let file = segment_file env now sm;
          bytes = zip_pack env log_bytes;
          d1 = d\<lparr>ad_segments := (ad_segments d)(file \<mapsto> bytes)\<rparr>;
          seg = \<lparr>sg_file = file, sg_seq_start = sm_seq_start sm, sg_seq_end = sm_seq_end sm,
                 sg_entries = sm_entries sm, sg_first_prev_hmac = sm_first_prev_hmac sm,
                 sg_last_hmac = sm_last_hmac sm, sg_ts_first = sm_ts_first sm,
                 sg_ts_last = sm_ts_last sm, sg_sha256 = sha256_of env bytes, sg_rotated_at = now\<rparr>
      in case load_manifest d1 of
           Inl e \<Rightarrow> (Inl e, d1)
         | Inr m \<Rightarrow>
             (let m1 = (if mf_version m = 0 then m\<lparr>mf_version := 1\<rparr> else m)
              in (Inr seg, save_manifest (m1\<lparr>mf_segments := mf_segments m1 @ [seg]\<rparr>) d1)))"

text \<open>\<open>Iterator::max_by_key\<close> returns the last of several greatest elements.\<close>

definition max_by_seq_end :: "segment list \<Rightarrow> segment option" where
  "max_by_seq_end segs = foldl (\<lambda>best s. case best of
       None \<Rightarrow> Some s
     | Some b \<Rightarrow> if sg_seq_end b \<le> sg_seq_end s then Some s else Some b) None segs"

definition recover_tail :: "audit_dir \<Rightarrow> (nat \<times> string) option" where
  "recover_tail d = (case load_manifest d of
      Inl _ \<Rightarrow> None
    | Inr m \<Rightarrow> map_option (\<lambda>s. (sg_seq_end s, sg_last_hmac s)) (max_by_seq_end (mf_segments m)))"

definition read_segment :: "env \<Rightarrow> audit_dir \<Rightarrow> segment \<Rightarrow> (audit_error, ustring) result" where
  "read_segment env d seg = (case ad_segments d (sg_file seg) of
      None \<Rightarrow> Inl (SegmentMissing (sg_file seg))
    | Some bytes \<Rightarrow>
        if \<not> ct_eq_str (sha256_of env bytes) (sg_sha256 seg) then Inl (SegmentDigest (sg_file seg))
        else (case zip_unpack env bytes of
            None \<Rightarrow> Inl (SegmentArchive (sg_file seg))
          | Some text \<Rightarrow> Inr text))"

definition enforce_segment_retention ::
  "timestamp \<Rightarrow> nat \<Rightarrow> audit_dir \<Rightarrow> (audit_error, nat) result \<times> audit_dir" where
  "enforce_segment_retention now retain_days d =
     (if retain_days = 0 then (Inr 0, d)
      else case load_manifest d of
        Inl e \<Rightarrow> (Inl e, d)
      | Inr m \<Rightarrow>
          if mf_segments m = [] then (Inr 0, d)
          else
            (let cutoff = now - days retain_days;
                 expired = filter (\<lambda>s. sg_ts_last s < cutoff) (mf_segments m);
                 keep = filter (\<lambda>s. \<not> sg_ts_last s < cutoff) (mf_segments m);
                 d1 = d\<lparr>ad_segments := ad_segments d |` (- sg_file ` set expired)\<rparr>;
                 removed = length expired
             in if removed > 0
                then (Inr removed, save_manifest (m\<lparr>mf_segments := keep\<rparr>) d1)
                else (Inr removed, d1)))"

subsection \<open>verify.rs: the whole directory\<close>

text \<open>The loop over the sorted segments: the cursor runs on from one segment to the next; an
  unreadable segment is an error, a violation ends the verification.\<close>

fun verify_segments ::
  "env \<Rightarrow> string \<Rightarrow> audit_dir \<Rightarrow> segment list \<Rightarrow> cursor \<Rightarrow> (audit_error, cursor \<times> violation option) result" where
  "verify_segments env key d [] cur = Inr (cur, None)"
| "verify_segments env key d (seg # segs) cur =
     rbind (read_segment env d seg) (\<lambda>content.
       (let (cur1, v) = walk env key content cur
        in case v of
             Some v \<Rightarrow> Inr (cur1, Some v)
           | None \<Rightarrow>
               if prev_hmac cur1 \<noteq> sg_last_hmac seg then
                 Inr (cur1, Some \<lparr>vd_seq = sg_seq_end seg, vd_detail = SegmentHmacMismatch (sg_file seg)\<rparr>)
               else verify_segments env key d segs cur1))"

definition verify_all :: "env \<Rightarrow> string \<Rightarrow> audit_dir \<Rightarrow> (audit_error, verify_result) result" where
  "verify_all env key d = rbind (load_manifest d) (\<lambda>m.
     (let segs = sort_key sg_seq_start (mf_segments m)
      in case segs of
           [] \<Rightarrow> Inr (verify_log env (log_text d) key)
         | first # _ \<Rightarrow>
             rbind (verify_segments env key d segs
                 \<lparr>expected_seq = sg_seq_start first,
                  prev_hmac = (if sg_seq_start first = 1 then GENESIS_HMAC else sg_first_prev_hmac first),
                  checked = 0\<rparr>) (\<lambda>(cur, v).
               case v of
                 Some v \<Rightarrow> Inr \<lparr>entries_checked = checked cur, vr_ok = False, first_violation = Some v\<rparr>
               | None \<Rightarrow>
                   (case log_text d of
                      None \<Rightarrow> Inr \<lparr>entries_checked = checked cur, vr_ok = True, first_violation = None\<rparr>
                    | Some content \<Rightarrow>
                        (let (cur1, v1) = walk env key content cur
                         in Inr \<lparr>entries_checked = checked cur1, vr_ok = (v1 = None), first_violation = v1\<rparr>)))))"

end
