(* ===== verification/Audit_Log.thy ===== *)
theory Audit_Log
  imports Audit_Rotate
begin

section \<open>The audit log handle\<close>

text \<open>
  \<open>crates/maranode-audit/src/log.rs\<close>, \<open>retention.rs\<close> and \<open>key.rs\<close>, and the periodic sweep of
  \<open>maranode-daemon\<close>. \<open>log_inner\<close> is \<open>LogInner\<close> behind its mutex: each operation below runs with
  the lock held, so a run of the system is a sequence of operations. The write of a line may be
  short, and the sync after it may fail; both return an error and leave the counters as they were.
\<close>

record log_inner =
  li_file :: inode
  li_seq :: nat
  li_last_hmac :: string
  li_key :: string
  li_rotate :: rotate_config

definition ROTATE_OFF :: rotate_config where
  "ROTATE_OFF = \<lparr>max_bytes = 0, max_age_days = 0\<rparr>"

datatype write_outcome = WriteOk | WriteShort nat | SyncFailed

subsection \<open>The file behind the handle\<close>

definition write_inode :: "inode \<Rightarrow> ustring \<Rightarrow> audit_dir \<Rightarrow> audit_dir" where
  "write_inode i text d = d\<lparr>ad_inodes := (ad_inodes d)(i := ad_inodes d i @ text)\<rparr>"

text \<open>\<open>OpenOptions\<close> with \<open>create\<close> and \<open>append\<close>: the inode the path names, or a fresh empty one.\<close>

definition open_append :: "audit_dir \<Rightarrow> inode \<times> audit_dir" where
  "open_append d = (case ad_log d of
      Some i \<Rightarrow> (i, d)
    | None \<Rightarrow> (ad_next d, d\<lparr>ad_log := Some (ad_next d), ad_next := Suc (ad_next d),
                           ad_inodes := (ad_inodes d)(ad_next d := [])\<rparr>))"

text \<open>\<open>OpenOptions\<close> with \<open>write\<close>, \<open>create\<close> and \<open>truncate\<close>: the same inode, emptied.\<close>

definition truncate_log :: "audit_dir \<Rightarrow> audit_dir" where
  "truncate_log d = (let (i, d1) = open_append d in d1\<lparr>ad_inodes := (ad_inodes d1)(i := [])\<rparr>)"

subsection \<open>log.rs\<close>

definition scan_line :: "env \<Rightarrow> nat \<times> string \<Rightarrow> ustring \<Rightarrow> nat \<times> string" where
  "scan_line env acc line =
     (if is_blank line then acc
      else case entry_parse env line of None \<Rightarrow> acc | Some e \<Rightarrow> (ae_seq e, ae_hmac e))"

definition scan_tail :: "env \<Rightarrow> audit_dir \<Rightarrow> nat \<times> string" where
  "scan_tail env d =
     (let (seq, last_hmac) = (case log_text d of
          None \<Rightarrow> (0, GENESIS_HMAC)
        | Some content \<Rightarrow> foldl (scan_line env) (0, GENESIS_HMAC) (str_lines content))
      in if seq = 0 then
           (case recover_tail d of Some (rseq, rhmac) \<Rightarrow> (rseq, rhmac) | None \<Rightarrow> (seq, last_hmac))
         else (seq, last_hmac))"

definition open_with_key :: "env \<Rightarrow> string \<Rightarrow> audit_dir \<Rightarrow> log_inner \<times> audit_dir" where
  "open_with_key env key d =
     (let (seq, last_hmac) = scan_tail env d;
          (file, d1) = open_append d
      in (\<lparr>li_file = file, li_seq = seq, li_last_hmac = last_hmac, li_key = key,
           li_rotate = ROTATE_OFF\<rparr>, d1))"

definition set_rotation :: "rotate_config \<Rightarrow> log_inner \<Rightarrow> log_inner" where
  "set_rotation cfg inner = inner\<lparr>li_rotate := cfg\<rparr>"

definition rotate_locked ::
  "env \<Rightarrow> timestamp \<Rightarrow> rotate_config \<Rightarrow> log_inner \<times> audit_dir \<Rightarrow>
     (audit_error, segment option) result \<times> log_inner \<times> audit_dir" where
  "rotate_locked env now cfg st =
     (case st of (inner, d) \<Rightarrow>
       if \<not> rotate_enabled cfg then (Inr None, inner, d)
       else let len = byte_len (ad_inodes d (li_file inner)) in
       if len = 0 then (Inr None, inner, d)
       else let hit = (max_bytes cfg > 0 \<and> len \<ge> max_bytes cfg) in
       if \<not> hit \<and> max_age_days cfg = 0 then (Inr None, inner, d)
       else case log_text d of
         None \<Rightarrow> (Inl IoError, inner, d)
       | Some content \<Rightarrow>
           (let hit1 = (if \<not> hit \<and> max_age_days cfg > 0
                        then (case oldest_ts env content of
                                None \<Rightarrow> hit
                              | Some ts \<Rightarrow> (if ts < now - days (max_age_days cfg) then True else hit))
                        else hit)
            in if \<not> hit1 then (Inr None, inner, d)
               else case summarize env content of
                 None \<Rightarrow> (Inr None, inner, d)
               | Some sm \<Rightarrow>
                   (case seal_segment env now content sm d of
                      (Inl e, d1) \<Rightarrow> (Inl e, inner, d1)
                    | (Inr seg, d1) \<Rightarrow>
                        (let (file, d2) = open_append (truncate_log d1)
                         in (Inr (Some seg), inner\<lparr>li_file := file\<rparr>, d2)))))"

definition maybe_rotate ::
  "env \<Rightarrow> timestamp \<Rightarrow> rotate_config \<Rightarrow> log_inner \<times> audit_dir \<Rightarrow>
     (audit_error, segment option) result \<times> log_inner \<times> audit_dir" where
  "maybe_rotate env now cfg st =
     (if \<not> rotate_enabled cfg then (Inr None, fst st, snd st) else rotate_locked env now cfg st)"

definition new_entry :: "env \<Rightarrow> timestamp \<Rightarrow> string \<Rightarrow> audit_event \<Rightarrow> log_inner \<Rightarrow> audit_entry" where
  "new_entry env now actor event inner =
     (let seq = u64_add (li_seq inner) 1;
          body = entry_body now seq actor (li_last_hmac inner) event
      in \<lparr>ae_ts = now, ae_seq = seq, ae_actor = actor, ae_event = event,
          ae_prev_hmac = li_last_hmac inner,
          ae_hmac = chain_compute env (li_key inner) (json_text env body)\<rparr>)"

definition append_entry ::
  "env \<Rightarrow> timestamp \<Rightarrow> write_outcome \<Rightarrow> string \<Rightarrow> audit_event \<Rightarrow> log_inner \<times> audit_dir \<Rightarrow>
     (audit_error, unit) result \<times> log_inner \<times> audit_dir" where
  "append_entry env now io actor event st =
     (case st of (inner, d) \<Rightarrow>
       let entry = new_entry env now actor event inner;
           line = entry_text env entry @ [10]
       in case io of
            WriteShort n \<Rightarrow> (Inl IoError, inner, write_inode (li_file inner) (take n line) d)
          | SyncFailed \<Rightarrow> (Inl IoError, inner, write_inode (li_file inner) line d)
          | WriteOk \<Rightarrow>
              (let d1 = write_inode (li_file inner) line d;
                   inner1 = inner\<lparr>li_seq := ae_seq entry, li_last_hmac := ae_hmac entry\<rparr>
               in if max_bytes (li_rotate inner1) > 0
                  then (Inr (), snd (rotate_locked env now
                          \<lparr>max_bytes = max_bytes (li_rotate inner1), max_age_days = 0\<rparr> (inner1, d1)))
                  else (Inr (), inner1, d1)))"

definition read_recent :: "env \<Rightarrow> audit_dir \<Rightarrow> nat \<Rightarrow> audit_entry list" where
  "read_recent env d limit = (case log_text d of
      None \<Rightarrow> []
    | Some content \<Rightarrow>
        (let entries = List.map_filter (entry_parse env) (filter (\<lambda>l. \<not> is_blank l) (str_lines content))
         in if length entries > limit then drop (length entries - limit) entries else entries))"

subsection \<open>retention.rs\<close>

definition prune_line :: "env \<Rightarrow> timestamp \<Rightarrow> ustring list \<times> nat \<Rightarrow> ustring \<Rightarrow> ustring list \<times> nat" where
  "prune_line env cutoff acc line =
     (if is_blank line then acc
      else case entry_parse env line of
        Some e \<Rightarrow> if ae_ts e < cutoff then (fst acc, u64_add (snd acc) 1)
                   else (fst acc @ [line], snd acc)
      | None \<Rightarrow> (fst acc @ [line], snd acc))"

text \<open>The kept lines are written to a new file that is renamed over the log: the path then names
  another inode.\<close>

definition prune_log ::
  "env \<Rightarrow> timestamp \<Rightarrow> nat \<Rightarrow> audit_dir \<Rightarrow> (audit_error, nat) result \<times> audit_dir" where
  "prune_log env now retain_days d =
     (if retain_days = 0 then (Inl RetainDaysZero, d)
      else case log_text d of
        None \<Rightarrow> (Inr 0, d)
      | Some content \<Rightarrow>
          (let (kept, pruned) = foldl (prune_line env (now - days retain_days)) ([], 0) (str_lines content)
           in if pruned > 0
              then (Inr pruned,
                    d\<lparr>ad_log := Some (ad_next d), ad_next := Suc (ad_next d),
                      ad_inodes := (ad_inodes d)(ad_next d := concat (map (\<lambda>l. l @ [10]) kept))\<rparr>)
              else (Inr pruned, d)))"

subsection \<open>The sweep of the daemon\<close>

definition sweep_audit_dir ::
  "env \<Rightarrow> timestamp \<Rightarrow> rotate_config \<Rightarrow> nat \<Rightarrow> log_inner \<times> audit_dir \<Rightarrow> log_inner \<times> audit_dir" where
  "sweep_audit_dir env now cfg retain_days st =
     (let inner0 = set_rotation cfg (fst st);
          (_, inner1, d1) = maybe_rotate env now cfg (inner0, snd st);
          (_, d2) = enforce_segment_retention now retain_days d1;
          d3 = (if retain_days > 0 then snd (prune_log env now retain_days d2) else d2)
      in (inner1, d3))"

subsection \<open>key.rs\<close>

definition KEY_LEN :: nat where
  "KEY_LEN = 32"

datatype key_error = KeyNotFound | KeyPermissions nat | KeyLength nat | KeyExists

text \<open>A key file is its permission bits and its bytes.\<close>

type_synonym key_file = "(nat \<times> nat list) option"

definition check_key_permissions :: "nat \<Rightarrow> (key_error, unit) result" where
  "check_key_permissions mode =
     (if and mode 63 \<noteq> 0 then Inl (KeyPermissions (and mode 4095)) else Inr ())"

definition key_load :: "key_file \<Rightarrow> (key_error, nat list) result" where
  "key_load f = (case f of
      None \<Rightarrow> Inl KeyNotFound
    | Some (mode, bytes) \<Rightarrow>
        rbind (check_key_permissions mode) (\<lambda>_.
          if length bytes \<noteq> KEY_LEN then Inl (KeyLength (length bytes)) else Inr bytes))"

text \<open>\<open>create_new\<close> with mode 0600 (384): the write fails when the file appeared meanwhile.\<close>

definition write_key :: "nat list \<Rightarrow> key_file \<Rightarrow> (key_error, unit) result \<times> key_file" where
  "write_key key f = (case f of
      None \<Rightarrow> (Inr (), Some (384, key))
    | Some _ \<Rightarrow> (Inl KeyExists, f))"

definition load_or_generate :: "nat list \<Rightarrow> key_file \<Rightarrow> (key_error, nat list) result \<times> key_file" where
  "load_or_generate random f = (case f of
      Some _ \<Rightarrow> (key_load f, f)
    | None \<Rightarrow>
        (case write_key random f of
           (Inr _, f1) \<Rightarrow> (Inr random, f1)
         | (Inl e, f1) \<Rightarrow> (Inl e, f1)))"


subsection \<open>Logs of readable entries\<close>

lemma summarize_more:
  assumes "\<forall>e \<in> set es. readable env e" and "es \<noteq> []" and "sm_entries s + length es < 2 ^ 64"
  shows "foldl (summarize_line env) (Some s) (map (entry_text env) es) =
     Some (s\<lparr>sm_seq_end := ae_seq (last es), sm_entries := sm_entries s + length es,
             sm_last_hmac := ae_hmac (last es), sm_ts_last := ae_ts (last es)\<rparr>)"
  using assms
proof (induction es arbitrary: s)
  case (Cons e es)
  have e: "readable env e" using Cons.prems(1) by simp
  show ?case
    using Cons readable_line[OF e] readable_parse[OF e]
    by (cases "es = []") (simp_all add: summarize_line_def rust_arith)
qed simp

definition summary_of :: "audit_entry list \<Rightarrow> summary" where
  "summary_of es = \<lparr>sm_seq_start = ae_seq (hd es), sm_seq_end = ae_seq (last es), sm_entries = length es,
     sm_first_prev_hmac = ae_prev_hmac (hd es), sm_last_hmac = ae_hmac (last es),
     sm_ts_first = ae_ts (hd es), sm_ts_last = ae_ts (last es)\<rparr>"

lemma summarize_file:
  assumes "\<forall>e \<in> set es. readable env e" and "length es < 2 ^ 64"
  shows "summarize env (file_of env es) = (if es = [] then None else Some (summary_of es))"
proof (cases es)
  case (Cons e es')
  have e: "readable env e" "\<forall>e \<in> set es'. readable env e" using assms(1) Cons by auto
  show ?thesis
    unfolding summarize_def str_lines_file_of[OF assms(1)]
    using assms(2) e readable_line[OF e(1)] readable_parse[OF e(1)] summarize_more[OF e(2)]
    by (cases "es' = []") (simp_all add: Cons summarize_line_def summary_of_def)
qed (simp add: summarize_def)

lemma scan_lines_file:
  assumes "\<forall>e \<in> set es. readable env e"
  shows "foldl (scan_line env) acc (map (entry_text env) es) =
     (if es = [] then acc else (ae_seq (last es), ae_hmac (last es)))"
  using assms
proof (induction es arbitrary: acc)
  case (Cons e es)
  have e: "readable env e" using Cons.prems by simp
  show ?case
    using Cons readable_line[OF e] readable_parse[OF e] by (simp add: scan_line_def)
qed simp

subsection \<open>Sealed segments\<close>

text \<open>What the manifest and the archive say of a segment that was sealed from the entries \<open>es\<close>.\<close>

definition sealed :: "env \<Rightarrow> (string \<rightharpoonup> ustring) \<Rightarrow> segment \<Rightarrow> audit_entry list \<Rightarrow> bool" where
  "sealed env files sg es \<longleftrightarrow>
     es \<noteq> [] \<and> sg_seq_start sg = ae_seq (hd es) \<and> sg_seq_end sg = ae_seq (last es) \<and>
     sg_first_prev_hmac sg = ae_prev_hmac (hd es) \<and> sg_last_hmac sg = ae_hmac (last es) \<and>
     sg_ts_last sg = ae_ts (last es) \<and>
     (\<exists>rest. sg_file sg = ''audit-'' @ show_nat (sg_seq_start sg) @ ''-'' @ rest) \<and>
     files (sg_file sg) = Some (zip_pack env (file_of env es)) \<and>
     sg_sha256 sg = sha256_of env (zip_pack env (file_of env es))"

lemma sealed_file_inj:
  "sealed env files a es \<Longrightarrow> sealed env files' b fs \<Longrightarrow> sg_file a = sg_file b \<Longrightarrow>
     sg_seq_start a = sg_seq_start b"
proof -
  assume a: "sealed env files a es" and b: "sealed env files' b fs" and eq: "sg_file a = sg_file b"
  obtain r where "sg_file a = ''audit-'' @ show_nat (sg_seq_start a) @ ''-'' @ r"
    using a unfolding sealed_def by blast
  moreover obtain r' where "sg_file b = ''audit-'' @ show_nat (sg_seq_start b) @ ''-'' @ r'"
    using b unfolding sealed_def by blast
  ultimately have eq: "show_nat (sg_seq_start a) @ CHR ''-'' # r = show_nat (sg_seq_start b) @ CHR ''-'' # r'"
    using eq by simp
  have "takeWhile (\<lambda>c. c \<noteq> CHR ''-'') (show_nat (sg_seq_start a) @ CHR ''-'' # r) =
        takeWhile (\<lambda>c. c \<noteq> CHR ''-'') (show_nat (sg_seq_start b) @ CHR ''-'' # r')"
    using eq by (rule arg_cong)
  then show ?thesis by simp
qed

definition seg_before :: "segment \<Rightarrow> segment \<Rightarrow> bool" where
  "seg_before a b \<longleftrightarrow> sg_seq_end a < sg_seq_start b \<and> sg_seq_end a < sg_seq_end b \<and>
     sg_seq_start a < sg_seq_start b"

lemma chained_last_seq:
  "chained env key n prev es \<Longrightarrow> es \<noteq> [] \<Longrightarrow> ae_seq (last es) + 1 = n + length es"
  by (cases es rule: rev_cases) (simp_all add: chained_append)

lemma sealed_seqs:
  assumes "sealed env files sg es" and "chained env key n prev es"
  shows "sg_seq_start sg = n" and "sg_seq_end sg + 1 = n + length es" and "0 < length es"
    and "sg_seq_start sg \<le> sg_seq_end sg"
  using assms chained_last_seq[OF assms(2)] by (cases es; auto simp: sealed_def)+

lemma sealed_ordered:
  assumes "list_all2 (sealed env files) segs css" and "chained env key n prev (concat css)"
  shows "sorted_wrt seg_before segs \<and> (\<forall>s \<in> set segs. n \<le> sg_seq_start s \<and> sg_seq_start s \<le> sg_seq_end s \<and>
     sg_seq_end s < n + length (concat css))"
  using assms
proof (induction segs css arbitrary: n prev rule: list_all2_induct)
  case (Cons sg segs es css)
  have es: "chained env key n prev es"
    and rest: "chained env key (n + length es) (last_mac prev es) (concat css)"
    using Cons.prems by (simp_all add: chained_append)
  note IH = Cons.IH[OF rest] and seqs = sealed_seqs[OF Cons.hyps(1) es]
  have "seg_before sg s" if "s \<in> set segs" for s
    using bspec[OF conjunct2[OF IH] that] seqs unfolding seg_before_def by linarith
  with IH seqs show ?case by auto
qed simp

lemma read_sealed:
  assumes "sealed env (ad_segments d) sg es" and "zip_unpack env (zip_pack env (file_of env es)) = Some (file_of env es)"
  shows "read_segment env d sg = Inr (file_of env es)"
  using assms by (simp add: sealed_def read_segment_def ct_eq_str_iff)

lemma verify_segments_sealed:
  assumes "list_all2 (sealed env (ad_segments d)) segs css"
    and "chained env key (expected_seq cur) (prev_hmac cur) (concat css)"
    and "\<forall>e \<in> set (concat css). readable env e"
    and "\<forall>t. zip_unpack env (zip_pack env t) = Some t"
    and "expected_seq cur + length (concat css) < 2 ^ 64" and "checked cur + length (concat css) < 2 ^ 64"
  shows "verify_segments env key d segs cur =
     Inr (\<lparr>expected_seq = expected_seq cur + length (concat css),
           prev_hmac = last_mac (prev_hmac cur) (concat css),
           checked = checked cur + length (concat css)\<rparr>, None)"
  using assms(1-3,5,6)
proof (induction segs css arbitrary: cur rule: list_all2_induct)
  case (Cons sg segs es css)
  let ?cur = "\<lparr>expected_seq = expected_seq cur + length es, prev_hmac = last_mac (prev_hmac cur) es,
    checked = checked cur + length es\<rparr>"
  have "walk env key (file_of env es) cur = (?cur, None)"
    using Cons.prems by (intro walk_file) (auto simp: chained_append)
  moreover have "sg_last_hmac sg = last_mac (prev_hmac cur) es"
    using Cons.hyps(1) by (simp add: sealed_def last_mac_def)
  moreover have "verify_segments env key d segs ?cur =
     Inr (\<lparr>expected_seq = expected_seq ?cur + length (concat css),
           prev_hmac = last_mac (prev_hmac ?cur) (concat css),
           checked = checked ?cur + length (concat css)\<rparr>, None)"
    using Cons.prems by (intro Cons.IH) (auto simp: chained_append)
  ultimately show ?case
    using read_sealed[OF Cons.hyps(1)] assms(4) by (simp add: last_mac_append)
qed simp

lemma max_by_seq_end_last:
  "sorted_wrt seg_before segs \<Longrightarrow> max_by_seq_end segs = (if segs = [] then None else Some (last segs))"
proof (induction segs rule: rev_induct)
  case (snoc s segs)
  then have "segs \<noteq> [] \<Longrightarrow> sg_seq_end (last segs) \<le> sg_seq_end s"
    by (simp add: sorted_wrt_append seg_before_def less_imp_le)
  with snoc show ?case
    by (cases "segs = []") (simp_all add: max_by_seq_end_def sorted_wrt_append)
qed (simp add: max_by_seq_end_def)

lemma seg_before_sort:
  "sorted_wrt seg_before segs \<Longrightarrow> sort_key sg_seq_start segs = segs"
  by (rule sort_key_id_if_sorted) (auto simp: sorted_map seg_before_def elim: sorted_wrt_mono_rel[rotated])


subsection \<open>The audit directory as a system\<close>

record audit_sys =
  as_clock :: timestamp
  as_inner :: log_inner
  as_dir :: audit_dir

datatype audit_op =
    OpAppend timestamp string audit_event
  | OpSetRotation rotate_config
  | OpRotate timestamp rotate_config
  | OpSegmentRetention timestamp nat
  | OpReopen

text \<open>One operation of the daemon: an append whose write succeeds, the rotation trigger, the
  clean-up of expired segments, or a restart that opens the log again with the same key.\<close>

definition audit_run_op :: "env \<Rightarrow> audit_op \<Rightarrow> audit_sys \<Rightarrow> audit_sys" where
  "audit_run_op env op s = (case op of
      OpAppend now actor ev \<Rightarrow>
        (let (inner, d) = snd (append_entry env now WriteOk actor ev (as_inner s, as_dir s))
         in s\<lparr>as_clock := now, as_inner := inner, as_dir := d\<rparr>)
    | OpSetRotation cfg \<Rightarrow> s\<lparr>as_inner := set_rotation cfg (as_inner s)\<rparr>
    | OpRotate now cfg \<Rightarrow>
        (let (inner, d) = snd (maybe_rotate env now cfg (as_inner s, as_dir s))
         in s\<lparr>as_inner := inner, as_dir := d\<rparr>)
    | OpSegmentRetention now retain_days \<Rightarrow>
        s\<lparr>as_dir := snd (enforce_segment_retention now retain_days (as_dir s))\<rparr>
    | OpReopen \<Rightarrow>
        (let (inner, d) = open_with_key env (li_key (as_inner s)) (as_dir s)
         in s\<lparr>as_inner := inner, as_dir := d\<rparr>))"

text \<open>The circumstances of an append: the clock does not go back, the sequence number stays below
  its 64 bits, and the entry's line is one that serde reads back.\<close>

definition audit_op_ok :: "env \<Rightarrow> audit_op \<Rightarrow> audit_sys \<Rightarrow> bool" where
  "audit_op_ok env op s = (case op of
      OpAppend now actor ev \<Rightarrow>
        as_clock s \<le> now \<and> li_seq (as_inner s) + 4 < 2 ^ 64 \<and>
        readable env (new_entry env now actor ev (as_inner s))
    | _ \<Rightarrow> True)"

text \<open>The abstraction: \<open>n\<close> entries that retention removed, ending in the MAC \<open>prev\<close>, then the
  entries of the sealed segments, then those of the active log.\<close>

definition audit_view ::
  "env \<Rightarrow> string \<Rightarrow> nat \<Rightarrow> string \<Rightarrow> audit_entry list list \<Rightarrow> audit_entry list \<Rightarrow> audit_sys \<Rightarrow> bool" where
  "audit_view env key n prev css active s \<longleftrightarrow>
     (n = 0 \<longrightarrow> prev = GENESIS_HMAC) \<and>
     chained env key (Suc n) prev (concat css @ active) \<and>
     (\<forall>e \<in> set (concat css @ active). readable env e \<and> ae_ts e \<le> as_clock s) \<and>
     sorted (map ae_ts (concat css @ active)) \<and>
     li_key (as_inner s) = key \<and>
     li_seq (as_inner s) = n + length (concat css @ active) \<and> li_seq (as_inner s) + 3 < 2 ^ 64 \<and>
     li_last_hmac (as_inner s) = last_mac prev (concat css @ active) \<and>
     ad_log (as_dir s) = Some (li_file (as_inner s)) \<and>
     ad_inodes (as_dir s) (li_file (as_inner s)) = file_of env active \<and>
     (\<exists>m. load_manifest (as_dir s) = Inr m \<and>
        list_all2 (sealed env (ad_segments (as_dir s))) (mf_segments m) css)"

lemma sealed_mem: "list_all2 (sealed env files) segs css \<Longrightarrow> sg \<in> set segs \<Longrightarrow> \<exists>es. sealed env files sg es"
  by (induction rule: list_all2_induct) auto

lemma sealed_upd:
  assumes "list_all2 (sealed env files) segs css"
    and "\<forall>s \<in> set segs. files' (sg_file s) = files (sg_file s)"
  shows "list_all2 (sealed env files') segs css"
  using assms by (induction rule: list_all2_induct) (auto simp: sealed_def)

definition segment_of :: "env \<Rightarrow> timestamp \<Rightarrow> audit_entry list \<Rightarrow> segment" where
  "segment_of env now es =
     \<lparr>sg_file = segment_file env now (summary_of es), sg_seq_start = ae_seq (hd es),
      sg_seq_end = ae_seq (last es), sg_entries = length es, sg_first_prev_hmac = ae_prev_hmac (hd es),
      sg_last_hmac = ae_hmac (last es), sg_ts_first = ae_ts (hd es), sg_ts_last = ae_ts (last es),
      sg_sha256 = sha256_of env (zip_pack env (file_of env es)), sg_rotated_at = now\<rparr>"

lemma seal_segment_ok:
  assumes "load_manifest d = Inr m"
  shows "\<exists>d1 m1. seal_segment env now (file_of env es) (summary_of es) d = (Inr (segment_of env now es), d1) \<and>
     load_manifest d1 = Inr m1 \<and> mf_segments m1 = mf_segments m @ [segment_of env now es] \<and>
     ad_log d1 = ad_log d \<and> ad_inodes d1 = ad_inodes d \<and>
     ad_segments d1 = (ad_segments d)(sg_file (segment_of env now es) \<mapsto> zip_pack env (file_of env es))"
  using assms
  by (auto simp: seal_segment_def Let_def load_manifest_def save_manifest_def summary_of_def
      segment_of_def split: manifest_file.splits)

lemma sealed_append:
  assumes segs: "list_all2 (sealed env files) segs css"
    and chain: "chained env key n prev (concat css @ es)" and ne: "es \<noteq> []"
  shows "list_all2 (sealed env (files(sg_file (segment_of env now es) \<mapsto> zip_pack env (file_of env es))))
     (segs @ [segment_of env now es]) (css @ [es])"
proof -
  let ?seg = "segment_of env now es"
  let ?files = "files(sg_file ?seg \<mapsto> zip_pack env (file_of env es))"
  have seg: "sealed env ?files ?seg es"
    using ne by (simp add: sealed_def segment_file_def summary_of_def segment_of_def)
  have css: "chained env key n prev (concat css)"
    and act: "chained env key (n + length (concat css)) (last_mac prev (concat css)) es"
    using chain by (simp_all only: chained_append)
  have "sg_file sg \<noteq> sg_file ?seg" if sg: "sg \<in> set segs" for sg
  proof
    assume eq: "sg_file sg = sg_file ?seg"
    obtain xs where "sealed env files sg xs" using sealed_mem[OF segs sg] by blast
    then have "sg_seq_start sg = sg_seq_start ?seg"
      using seg eq by (rule sealed_file_inj)
    then show False
      using bspec[OF conjunct2[OF sealed_ordered[OF segs css]] sg] sealed_seqs(1)[OF seg act]
      by linarith
  qed
  then have "list_all2 (sealed env ?files) segs css"
    by (intro sealed_upd[OF segs]) auto
  with seg show ?thesis by (intro list_all2_appendI) simp_all
qed

text \<open>A rotation leaves the view as it is or moves the whole active log into one new segment.\<close>

lemma rotate_locked_view:
  assumes view: "audit_view env key n prev css active s"
    and rot: "rotate_locked env now cfg (as_inner s, as_dir s) = (r, inner, d)"
  shows "audit_view env key n prev css active (s\<lparr>as_inner := inner, as_dir := d\<rparr>) \<or>
     active \<noteq> [] \<and> audit_view env key n prev (css @ [active]) [] (s\<lparr>as_inner := inner, as_dir := d\<rparr>)"
proof -
  have log: "ad_log (as_dir s) = Some (li_file (as_inner s))"
    "ad_inodes (as_dir s) (li_file (as_inner s)) = file_of env active"
    and chain: "chained env key (Suc n) prev (concat css @ active)"
    using view by (simp_all add: audit_view_def)
  obtain m where m: "load_manifest (as_dir s) = Inr m"
    "list_all2 (sealed env (ad_segments (as_dir s))) (mf_segments m) css"
    using view by (auto simp: audit_view_def)
  have content: "log_text (as_dir s) = Some (file_of env active)" using log by (simp add: log_text_def)
  have sum: "summarize env (file_of env active) = (if active = [] then None else Some (summary_of active))"
    using view by (intro summarize_file) (auto simp: audit_view_def)
  obtain d1 m1 where seal: "seal_segment env now (file_of env active) (summary_of active) (as_dir s) =
        (Inr (segment_of env now active), d1)"
    and d1: "load_manifest d1 = Inr m1" "mf_segments m1 = mf_segments m @ [segment_of env now active]"
      "ad_log d1 = ad_log (as_dir s)" "ad_inodes d1 = ad_inodes (as_dir s)"
      "ad_segments d1 = (ad_segments (as_dir s))(sg_file (segment_of env now active)
         \<mapsto> zip_pack env (file_of env active))"
    using seal_segment_ok[OF m(1)] by blast
  let ?d2 = "d1\<lparr>ad_inodes := (ad_inodes d1)(li_file (as_inner s) := [])\<rparr>"
  have reopened: "open_append (truncate_log d1) = (li_file (as_inner s), ?d2)"
    using d1(3) log(1) by (simp add: open_append_def truncate_log_def)
  have "(inner, d) = (as_inner s, as_dir s) \<or> active \<noteq> [] \<and> (inner, d) = (as_inner s, ?d2)"
    using rot sum seal reopened
    by (auto simp: rotate_locked_def content Let_def split: if_splits option.splits)
  then consider "inner = as_inner s" "d = as_dir s" | "active \<noteq> []" "inner = as_inner s" "d = ?d2"
    by auto
  then show ?thesis
  proof cases
    case 2
    have "load_manifest ?d2 = Inr m1" using d1(1) by (simp add: load_manifest_def)
    then have "audit_view env key n prev (css @ [active]) [] (s\<lparr>as_inner := inner, as_dir := d\<rparr>)"
      using view d1 log sealed_append[OF m(2) chain 2(1)] by (simp add: audit_view_def 2)
    with 2(1) show ?thesis by blast
  qed (use view in simp)
qed


lemma new_entry_mac:
  "ae_hmac (new_entry env now actor ev inner) = entry_mac env (li_key inner) (new_entry env now actor ev inner)"
  "ae_prev_hmac (new_entry env now actor ev inner) = li_last_hmac inner"
  "ae_ts (new_entry env now actor ev inner) = now"
  "ae_seq (new_entry env now actor ev inner) = u64_add (li_seq inner) 1"
  by (simp_all add: new_entry_def Let_def entry_mac_def body_of_def)

lemma sorted_map_snoc: "sorted (map f (xs @ [x])) \<longleftrightarrow> sorted (map f xs) \<and> (\<forall>y \<in> set xs. f y \<le> f x)"
  by (simp add: sorted_append)

text \<open>The write of an append adds the new entry to the active log.\<close>

lemma write_entry_view:
  assumes view: "audit_view env key n prev css active s" and ok: "audit_op_ok env (OpAppend now actor ev) s"
  defines "e \<equiv> new_entry env now actor ev (as_inner s)"
  shows "audit_view env key n prev css (active @ [e]) (s\<lparr>as_clock := now,
     as_inner := (as_inner s)\<lparr>li_seq := ae_seq e, li_last_hmac := ae_hmac e\<rparr>,
     as_dir := write_inode (li_file (as_inner s)) (entry_text env e @ [10]) (as_dir s)\<rparr>)"
proof -
  have now: "as_clock s \<le> now" "li_seq (as_inner s) + 4 < 2 ^ 64" "readable env e"
    using ok by (simp_all add: audit_op_ok_def e_def)
  have e: "ae_hmac e = entry_mac env key e" "ae_prev_hmac e = last_mac prev (concat css @ active)"
    "ae_ts e = now" "ae_seq e = n + length (concat css @ active) + 1"
    using view now(2) by (simp_all add: e_def new_entry_mac audit_view_def rust_arith)
  have old: "\<forall>x \<in> set (concat css @ active). readable env x \<and> ae_ts x \<le> now"
    using view order_trans[OF _ now(1)] unfolding audit_view_def by blast
  then have sorted: "sorted (map ae_ts ((concat css @ active) @ [e]))"
    using view e(3) unfolding audit_view_def sorted_map_snoc by blast
  have chain: "chained env key (Suc n) prev ((concat css @ active) @ [e])"
    using view e unfolding audit_view_def by (subst chained_append) simp
  have mac: "last_mac prev ((concat css @ active) @ [e]) = ae_hmac e" by (rule last_mac_simps(3))
  have all: "\<forall>x \<in> set ((concat css @ active) @ [e]). readable env x \<and> ae_ts x \<le> now"
    using old now e(3) by auto
  have manifest: "load_manifest (write_inode i t d) = load_manifest d"
    "ad_segments (write_inode i t d) = ad_segments d" "ad_log (write_inode i t d) = ad_log d" for i t d
    by (simp_all add: write_inode_def load_manifest_def)
  show ?thesis
    using view sorted chain mac all now(2) e(4) unfolding audit_view_def
    by (simp add: manifest) (simp add: write_inode_def)
qed

lemma append_view:
  assumes view: "audit_view env key n prev css active s" and ok: "audit_op_ok env (OpAppend now actor ev) s"
  shows "\<exists>css' active'. audit_view env key n prev css' active' (audit_run_op env (OpAppend now actor ev) s) \<and>
     length (concat css' @ active') = Suc (length (concat css @ active))"
proof -
  define e where "e = new_entry env now actor ev (as_inner s)"
  let ?inner = "(as_inner s)\<lparr>li_seq := ae_seq e, li_last_hmac := ae_hmac e\<rparr>"
  let ?d = "write_inode (li_file (as_inner s)) (entry_text env e @ [10]) (as_dir s)"
  let ?s = "s\<lparr>as_clock := now, as_inner := ?inner, as_dir := ?d\<rparr>"
  have written: "audit_view env key n prev css (active @ [e]) ?s"
    using write_entry_view[OF view ok] by (simp add: e_def)
  let ?cfg = "\<lparr>max_bytes = max_bytes (li_rotate ?inner), max_age_days = 0\<rparr>"
  obtain r inner' d' where rot: "rotate_locked env now ?cfg (as_inner ?s, as_dir ?s) = (r, inner', d')"
    by (metis prod_cases3)
  note rotated = rotate_locked_view[OF written rot]
  show ?thesis
  proof (cases "max_bytes (li_rotate ?inner) > 0")
    case True
    have "audit_run_op env (OpAppend now actor ev) s = ?s\<lparr>as_inner := inner', as_dir := d'\<rparr>"
      using rot True by (simp add: audit_run_op_def append_entry_def Let_def e_def)
    moreover have "length (concat css @ active @ [e]) = Suc (length (concat css @ active))"
      "length (concat (css @ [active @ [e]]) @ []) = Suc (length (concat css @ active))" by simp_all
    ultimately show ?thesis using rotated by metis
  next
    case False
    then have "audit_run_op env (OpAppend now actor ev) s = ?s"
      by (simp add: audit_run_op_def append_entry_def Let_def e_def)
    moreover have "length (concat css @ active @ [e]) = Suc (length (concat css @ active))" by simp
    ultimately show ?thesis using written by metis
  qed
qed

lemma rotate_view:
  assumes view: "audit_view env key n prev css active s"
  shows "\<exists>css' active'. audit_view env key n prev css' active' (audit_run_op env (OpRotate now cfg) s) \<and>
     length (concat css' @ active') = length (concat css @ active)"
proof -
  obtain r inner d where rot: "rotate_locked env now cfg (as_inner s, as_dir s) = (r, inner, d)"
    by (metis prod_cases3)
  show ?thesis
    using rotate_locked_view[OF view rot] view rot
    by (fastforce simp: audit_run_op_def maybe_rotate_def)
qed

text \<open>A restart finds the counters that the chain left.\<close>

lemma sealed_last:
  assumes "list_all2 (sealed env files) segs css" and "segs \<noteq> []"
  shows "sealed env files (last segs) (last css)" and "css \<noteq> []"
  using assms by (cases segs rule: rev_cases; auto simp: list_all2_append1 list_all2_Cons1)+

lemma scan_tail_view:
  assumes view: "audit_view env key n prev css active s"
  shows "scan_tail env (as_dir s) =
     (if concat css @ active = [] then (0, GENESIS_HMAC)
      else (li_seq (as_inner s), li_last_hmac (as_inner s)))"
proof -
  obtain m where m: "load_manifest (as_dir s) = Inr m"
    "list_all2 (sealed env (ad_segments (as_dir s))) (mf_segments m) css"
    using view by (auto simp: audit_view_def)
  have chain: "chained env key (Suc n) prev (concat css @ active)"
    and li: "li_seq (as_inner s) = n + length (concat css @ active)"
      "li_last_hmac (as_inner s) = last_mac prev (concat css @ active)"
    and readable: "\<forall>e \<in> set active. readable env e"
    and content: "log_text (as_dir s) = Some (file_of env active)"
    using view by (auto simp: audit_view_def log_text_def)
  have css: "chained env key (Suc n) prev (concat css)" using chain by (simp add: chained_append)
  have scan: "foldl (scan_line env) (0, GENESIS_HMAC) (str_lines (file_of env active)) =
      (if active = [] then (0, GENESIS_HMAC) else (ae_seq (last active), ae_hmac (last active)))"
    unfolding str_lines_file_of[OF readable] by (rule scan_lines_file[OF readable])
  show ?thesis
  proof (cases "active = []")
    case False
    then have "Suc (ae_seq (last active)) = Suc (n + length (concat css @ active))"
      using chained_last_seq[OF chain] by simp
    then show ?thesis
      using False li by (simp add: scan_tail_def content scan last_mac_def)
  next
    case True
    have tail: "recover_tail (as_dir s) = (if mf_segments m = [] then None
        else Some (sg_seq_end (last (mf_segments m)), sg_last_hmac (last (mf_segments m))))"
      using max_by_seq_end_last[OF conjunct1[OF sealed_ordered[OF m(2) css]]] m(1)
      by (simp add: recover_tail_def)
    show ?thesis
    proof (cases "mf_segments m = []")
      case True
      then show ?thesis using m(2) \<open>active = []\<close> tail by (simp add: scan_tail_def content)
    next
      case False
      note l = sealed_last[OF m(2) False]
      have ne: "last css \<noteq> []" "concat css \<noteq> []" "last (concat css) = last (last css)"
        using l by (cases css rule: rev_cases; auto simp: sealed_def)+
      then have "Suc (ae_seq (last (concat css))) = Suc (n + length (concat css))"
        using chained_last_seq[OF css] by simp
      then show ?thesis
        using l ne False \<open>active = []\<close> tail li
        by (auto simp: scan_tail_def content sealed_def last_mac_def)
    qed
  qed
qed

lemma reopen_view:
  assumes view: "audit_view env key n prev css active s"
  shows "\<exists>n' prev'. audit_view env key n' prev' css active (audit_run_op env OpReopen s) \<and> (n = 0 \<longrightarrow> n' = 0)"
proof -
  let ?gone = "concat css @ active = []"
  have "open_append (as_dir s) = (li_file (as_inner s), as_dir s)"
    using view by (simp add: audit_view_def open_append_def)
  then have run: "audit_run_op env OpReopen s = s\<lparr>as_inner := \<lparr>li_file = li_file (as_inner s),
      li_seq = fst (scan_tail env (as_dir s)), li_last_hmac = snd (scan_tail env (as_dir s)),
      li_key = li_key (as_inner s), li_rotate = ROTATE_OFF\<rparr>\<rparr>"
    by (simp add: audit_run_op_def open_with_key_def case_prod_beta Let_def)
  have "audit_view env key (if ?gone then 0 else n) (if ?gone then GENESIS_HMAC else prev) css active
      (audit_run_op env OpReopen s)"
  proof (cases ?gone)
    case True
    show ?thesis
      unfolding run scan_tail_view[OF view] using view unfolding audit_view_def True by simp
  next
    case False
    show ?thesis
      unfolding run scan_tail_view[OF view] if_not_P[OF False]
      using view unfolding audit_view_def by simp
  qed
  then show ?thesis by (metis (full_types))
qed


text \<open>With a clock that does not go back, the expired segments are the oldest ones.\<close>

lemma sorted_filter_split:
  "sorted (map f xs) \<Longrightarrow> \<exists>k. filter (\<lambda>x. f x < c) xs = take k xs \<and> filter (\<lambda>x. \<not> f x < c) xs = drop k xs"
proof (induction xs)
  case (Cons x xs)
  show ?case
  proof (cases "f x < c")
    case True
    obtain k where "filter (\<lambda>x. f x < c) xs = take k xs" "filter (\<lambda>x. \<not> f x < c) xs = drop k xs"
      using Cons by auto
    with True show ?thesis by (intro exI[of _ "Suc k"]) simp
  next
    case False
    with Cons.prems have "\<forall>y \<in> set xs. \<not> f y < c" by fastforce
    with False show ?thesis by (intro exI[of _ 0]) (simp add: filter_empty_conv)
  qed
qed simp

lemma sealed_times:
  assumes "list_all2 (sealed env files) segs css" and "sorted (map ae_ts (concat css))"
  shows "sorted (map sg_ts_last segs) \<and> (\<forall>s \<in> set segs. \<exists>e \<in> set (concat css). sg_ts_last s = ae_ts e)"
  using assms
proof (induction rule: list_all2_induct)
  case (Cons sg segs es css)
  have es: "last es \<in> set es" "sg_ts_last sg = ae_ts (last es)" using Cons.hyps(1) by (auto simp: sealed_def)
  have IH: "sorted (map sg_ts_last segs)" "\<forall>s \<in> set segs. \<exists>e \<in> set (concat css). sg_ts_last s = ae_ts e"
    using Cons by (auto simp: sorted_append)
  have le: "ae_ts (last es) \<le> ae_ts e" if "e \<in> set (concat css)" for e
    using Cons.prems es(1) that by (auto simp: sorted_append)
  have "\<forall>s \<in> set segs. sg_ts_last sg \<le> sg_ts_last s"
    using IH(2) le es(2) by metis
  moreover have "\<forall>s \<in> set (sg # segs). \<exists>e \<in> set (concat (es # css)). sg_ts_last s = ae_ts e"
    using IH(2) es by fastforce
  ultimately show ?case using IH(1) by simp
qed simp

lemma retention_view:
  assumes view: "audit_view env key n prev css active s"
  shows "\<exists>n' prev' css'. audit_view env key n' prev' css' active
     (audit_run_op env (OpSegmentRetention now retain_days) s)"
proof -
  obtain m where m: "load_manifest (as_dir s) = Inr m"
    "list_all2 (sealed env (ad_segments (as_dir s))) (mf_segments m) css"
    using view by (auto simp: audit_view_def)
  let ?d = "as_dir s" and ?cut = "now - days retain_days"
  have sorted: "sorted (map ae_ts (concat css))" and css: "chained env key (Suc n) prev (concat css)"
    using view by (simp_all add: audit_view_def sorted_append chained_append)
  obtain k where k: "filter (\<lambda>s. sg_ts_last s < ?cut) (mf_segments m) = take k (mf_segments m)"
    "filter (\<lambda>s. \<not> sg_ts_last s < ?cut) (mf_segments m) = drop k (mf_segments m)"
    using sorted_filter_split[of sg_ts_last "mf_segments m" ?cut] sealed_times[OF m(2) sorted] by blast
  let ?files = "ad_segments ?d |` (- sg_file ` set (take k (mf_segments m)))"
  let ?d1 = "save_manifest (m\<lparr>mf_segments := drop k (mf_segments m)\<rparr>) (?d\<lparr>ad_segments := ?files\<rparr>)"
  have result: "snd (enforce_segment_retention now retain_days ?d) = ?d \<or>
      snd (enforce_segment_retention now retain_days ?d) = ?d1"
    using m(1) k by (auto simp: enforce_segment_retention_def Let_def restrict_map_def)
  define gone where "gone = concat (take k css)"
  have kept: "audit_view env key (n + length gone) (last_mac prev gone)
      (drop k css) active (s\<lparr>as_dir := ?d1\<rparr>)"
  proof -
    have parts: "concat css = gone @ concat (drop k css)"
      unfolding gone_def by (metis append_take_drop_id concat_append)
    have names: "sg_file sg \<notin> sg_file ` set (take k (mf_segments m))"
      if "sg \<in> set (drop k (mf_segments m))" for sg
    proof
      assume "sg_file sg \<in> sg_file ` set (take k (mf_segments m))"
      then obtain sg' where sg': "sg' \<in> set (take k (mf_segments m))" "sg_file sg' = sg_file sg" by auto
      have "seg_before sg' sg"
        using conjunct1[OF sealed_ordered[OF m(2) css]] sg'(1) that
        by (metis append_take_drop_id sorted_wrt_append)
      moreover have "sg_seq_start sg' = sg_seq_start sg"
        using sealed_mem[OF m(2) in_set_dropD[OF that]] sealed_mem[OF m(2) in_set_takeD[OF sg'(1)]]
          sealed_file_inj sg'(2) by blast
      ultimately show False by (simp add: seg_before_def)
    qed
    have "list_all2 (sealed env (ad_segments ?d)) (drop k (mf_segments m)) (drop k css)"
      using m(2) by (rule list_all2_dropI)
    then have sealed: "list_all2 (sealed env ?files) (drop k (mf_segments m)) (drop k css)"
      using names by (elim sealed_upd) (auto simp: restrict_map_def)
    have "load_manifest ?d1 = Inr (m\<lparr>mf_segments := drop k (mf_segments m)\<rparr>)" "ad_segments ?d1 = ?files"
      "ad_log ?d1 = ad_log ?d" "ad_inodes ?d1 = ad_inodes ?d"
      by (simp_all add: load_manifest_def save_manifest_def)
    then show ?thesis
      using view sealed unfolding audit_view_def parts
      by (auto simp: chained_append last_mac_append sorted_append)
  qed
  have run: "audit_run_op env (OpSegmentRetention now retain_days) s =
      s\<lparr>as_dir := snd (enforce_segment_retention now retain_days ?d)\<rparr>"
    by (simp add: audit_run_op_def)
  show ?thesis
    using result
  proof
    assume "snd (enforce_segment_retention now retain_days ?d) = ?d"
    then show ?thesis unfolding run using view by auto
  next
    assume "snd (enforce_segment_retention now retain_days ?d) = ?d1"
    then show ?thesis unfolding run using kept by auto
  qed
qed

subsection \<open>Verification of the whole directory succeeds\<close>

lemma verify_all_view:
  assumes view: "audit_view env key n prev css active s" and zip: "\<forall>t. zip_unpack env (zip_pack env t) = Some t"
  shows "verify_all env key (as_dir s) =
     Inr \<lparr>entries_checked = length (concat css @ active), vr_ok = True, first_violation = None\<rparr>"
proof -
  obtain m where m: "load_manifest (as_dir s) = Inr m"
    "list_all2 (sealed env (ad_segments (as_dir s))) (mf_segments m) css"
    using view by (auto simp: audit_view_def)
  have content: "log_text (as_dir s) = Some (file_of env active)"
    and readable: "\<forall>e \<in> set active. readable env e" "\<forall>e \<in> set (concat css). readable env e"
    and css: "chained env key (Suc n) prev (concat css)"
    and act: "chained env key (Suc n + length (concat css)) (last_mac prev (concat css)) active"
    and bound: "n + length (concat css) + length active + 3 < 2 ^ 64"
    and genesis: "n = 0 \<longrightarrow> prev = GENESIS_HMAC"
    using view by (auto simp: audit_view_def log_text_def chained_append)
  note sorted = conjunct1[OF sealed_ordered[OF m(2) css]]
  show ?thesis
  proof (cases "mf_segments m")
    case Nil
    then have [simp]: "css = []" using m(2) by simp
    have "verify_log env (Some (file_of env active)) key =
        \<lparr>entries_checked = length active, vr_ok = True, first_violation = None\<rparr>"
    proof (cases "active = []")
      case True
      then show ?thesis by (simp add: verify_log_def walk_def anchor_def)
    next
      case False
      show ?thesis
        using readable(1) False
      proof (rule verify_log_chained)
        show "chained env key (start_seq active) (start_prev active) active"
          using act genesis False by (intro chained_start[of env key "Suc n" prev]) auto
        show "ae_seq (hd active) + length active + 1 < 2 ^ 64"
          using act bound False by (cases active) auto
      qed
    qed
    then show ?thesis using m(1) Nil by (simp add: verify_all_def content)
  next
    case (Cons first segs)
    obtain es css' where split: "css = es # css'" using m(2) Cons by (cases css) auto
    have first: "sealed env (ad_segments (as_dir s)) first es" "chained env key (Suc n) prev es"
      using m(2) css Cons split by (auto simp: chained_append)
    then have start: "sg_seq_start first = Suc n" "sg_first_prev_hmac first = prev"
      by (cases es; simp add: sealed_def)+
    let ?cur = "\<lparr>expected_seq = Suc n, prev_hmac = prev, checked = 0\<rparr>"
    have segs: "verify_segments env key (as_dir s) (mf_segments m) ?cur =
       Inr (\<lparr>expected_seq = Suc n + length (concat css), prev_hmac = last_mac prev (concat css),
             checked = length (concat css)\<rparr>, None)"
      using verify_segments_sealed[OF m(2), of key ?cur] css readable(2) zip bound by simp
    have "(if sg_seq_start first = 1 then GENESIS_HMAC else sg_first_prev_hmac first) = prev"
      using start genesis by simp
    moreover have "walk env key (file_of env active)
       \<lparr>expected_seq = Suc n + length (concat css), prev_hmac = last_mac prev (concat css),
        checked = length (concat css)\<rparr> =
       (\<lparr>expected_seq = Suc n + length (concat css) + length active,
         prev_hmac = last_mac (last_mac prev (concat css)) active,
         checked = length (concat css) + length active\<rparr>, None)"
      using walk_file[OF readable(1)] act bound by simp
    ultimately show ?thesis
      using m(1) segs seg_before_sort[OF sorted] start Cons
      by (simp add: verify_all_def content)
  qed
qed


definition is_append :: "audit_op \<Rightarrow> bool" where
  "is_append op = (case op of OpAppend _ _ _ \<Rightarrow> True | _ \<Rightarrow> False)"

definition is_retention :: "audit_op \<Rightarrow> bool" where
  "is_retention op = (case op of OpSegmentRetention _ _ \<Rightarrow> True | _ \<Rightarrow> False)"

lemma audit_op_view:
  assumes view: "audit_view env key n prev css active s" and ok: "audit_op_ok env op s"
  shows "\<exists>n' prev' css' active'. audit_view env key n' prev' css' active' (audit_run_op env op s) \<and>
     (\<not> is_retention op \<longrightarrow> (n = 0 \<longrightarrow> n' = 0) \<and>
        length (concat css' @ active') = length (concat css @ active) + (if is_append op then 1 else 0))"
proof (cases op)
  case (OpAppend now actor ev)
  then show ?thesis using append_view[OF view, of now actor ev] ok by (fastforce simp: is_append_def)
next
  case (OpSetRotation cfg)
  have "audit_view env key n prev css active (audit_run_op env op s)"
    using view by (simp add: OpSetRotation audit_run_op_def set_rotation_def audit_view_def)
  then show ?thesis by (fastforce simp: OpSetRotation is_append_def)
next
  case (OpRotate now cfg)
  then show ?thesis using rotate_view[OF view, of now cfg] by (fastforce simp: is_append_def)
next
  case (OpSegmentRetention now retain_days)
  then show ?thesis
    using retention_view[OF view, of now retain_days] by (fastforce simp: is_retention_def)
next
  case OpReopen
  then show ?thesis using reopen_view[OF view] by (fastforce simp: is_append_def)
qed

text \<open>An audit directory before its first entry, opened with \<open>key\<close>.\<close>

definition fresh_dir :: audit_dir where
  "fresh_dir = \<lparr>ad_log = None, ad_inodes = (\<lambda>_. []), ad_next = 0, ad_segments = Map.empty, ad_manifest = MfMissing\<rparr>"

definition audit_start :: "env \<Rightarrow> string \<Rightarrow> timestamp \<Rightarrow> audit_sys" where
  "audit_start env key now =
     (let (inner, d) = open_with_key env key fresh_dir in \<lparr>as_clock = now, as_inner = inner, as_dir = d\<rparr>)"

fun audit_run :: "env \<Rightarrow> audit_op list \<Rightarrow> audit_sys \<Rightarrow> audit_sys" where
  "audit_run env [] s = s"
| "audit_run env (op # ops) s = audit_run env ops (audit_run_op env op s)"

fun audit_run_ok :: "env \<Rightarrow> audit_op list \<Rightarrow> audit_sys \<Rightarrow> bool" where
  "audit_run_ok env [] s = True"
| "audit_run_ok env (op # ops) s = (audit_op_ok env op s \<and> audit_run_ok env ops (audit_run_op env op s))"

lemma audit_start_view: "audit_view env key 0 GENESIS_HMAC [] [] (audit_start env key now)"
  by (simp add: audit_start_def open_with_key_def open_append_def scan_tail_def log_text_def fresh_dir_def
      recover_tail_def load_manifest_def max_by_seq_end_def audit_view_def)

definition audit_inv :: "env \<Rightarrow> string \<Rightarrow> audit_sys \<Rightarrow> bool" where
  "audit_inv env key s \<longleftrightarrow> (\<exists>n prev css active. audit_view env key n prev css active s)"

definition audit_init :: "env \<Rightarrow> string \<Rightarrow> audit_sys \<Rightarrow> bool" where
  "audit_init env key s \<longleftrightarrow> (\<exists>now. s = audit_start env key now)"

definition audit_step :: "env \<Rightarrow> audit_sys \<Rightarrow> audit_sys \<Rightarrow> bool" where
  "audit_step env s t \<longleftrightarrow> (\<exists>op. audit_op_ok env op s \<and> t = audit_run_op env op s)"

interpretation audit: inv_system "audit_init env key" "audit_step env" "audit_inv env key"
  for env key
proof
  show "audit_inv env key s" if "audit_init env key s" for s
    using that audit_start_view unfolding audit_init_def audit_inv_def by blast
  show "audit_inv env key t" if "audit_inv env key s" "audit_step env s t" for s t
    using that audit_op_view unfolding audit_inv_def audit_step_def by blast
qed

lemma audit_run_view:
  assumes "audit_view env key n prev css active s" and "audit_run_ok env ops s"
  shows "\<exists>n' prev' css' active'. audit_view env key n' prev' css' active' (audit_run env ops s) \<and>
     (list_all (\<lambda>op. \<not> is_retention op) ops \<longrightarrow> n = 0 \<longrightarrow> n' = 0 \<and>
        length (concat css' @ active') = length (concat css @ active) + length (filter is_append ops))"
  using assms
proof (induction ops arbitrary: n prev css active s)
  case (Cons op ops)
  obtain n1 prev1 css1 active1 where v1: "audit_view env key n1 prev1 css1 active1 (audit_run_op env op s)"
    "\<not> is_retention op \<longrightarrow> (n = 0 \<longrightarrow> n1 = 0) \<and>
        length (concat css1 @ active1) = length (concat css @ active) + (if is_append op then 1 else 0)"
    using audit_op_view[OF Cons.prems(1), of op] Cons.prems(2) by auto
  obtain n2 prev2 css2 active2 where
    "audit_view env key n2 prev2 css2 active2 (audit_run env ops (audit_run_op env op s))"
    "list_all (\<lambda>op. \<not> is_retention op) ops \<longrightarrow> n1 = 0 \<longrightarrow> n2 = 0 \<and>
        length (concat css2 @ active2) = length (concat css1 @ active1) + length (filter is_append ops)"
    using Cons.IH[OF v1(1)] Cons.prems(2) by auto
  then show ?case using v1(2)
    by (intro exI[of _ n2] exI[of _ prev2] exI[of _ css2] exI[of _ active2]) auto
qed auto



lemma demo_new_entry:
  "li_seq inner + 1 < 2 ^ 64 \<Longrightarrow>
   new_entry (demo_env es) 0 ''system'' ev inner = demo_entry (li_seq inner + 1) (li_last_hmac inner) ev"
  using demo_mac[of "li_seq inner + 1" es "li_key inner" "li_last_hmac inner" ev]
  by (simp add: new_entry_def demo_entry_def entry_mac_def body_of_def Let_def rust_arith)

definition demo_ops :: "audit_op list" where
  "demo_ops = [OpAppend 0 ''system'' (DaemonStart ''1.0'' True), OpSetRotation \<lparr>max_bytes = 1, max_age_days = 0\<rparr>,
     OpAppend 0 ''system'' (ConfigReloaded ''root''), OpRotate 0 \<lparr>max_bytes = 1, max_age_days = 0\<rparr>,
     OpAppend 0 ''system'' (DaemonStop ''quit'')]"

lemma rotate_locked_inner:
  "li_seq (fst (snd (rotate_locked env now cfg st))) = li_seq (fst st)"
  "li_last_hmac (fst (snd (rotate_locked env now cfg st))) = li_last_hmac (fst st)"
  by (auto simp: rotate_locked_def Let_def split: prod.splits option.splits sum.splits)

text \<open>What an append leaves in the counters, whether or not it rotated the log.\<close>

lemma append_counters [simp]:
  "li_seq (as_inner (audit_run_op env (OpAppend now actor ev) s)) =
     ae_seq (new_entry env now actor ev (as_inner s))"
  "li_last_hmac (as_inner (audit_run_op env (OpAppend now actor ev) s)) =
     ae_hmac (new_entry env now actor ev (as_inner s))"
  "as_clock (audit_run_op env (OpAppend now actor ev) s) = now"
  by (simp_all add: audit_run_op_def append_entry_def Let_def rotate_locked_inner case_prod_beta)

lemma rotation_counters [simp]:
  "li_seq (as_inner (audit_run_op env (OpRotate now cfg) s)) = li_seq (as_inner s)"
  "li_last_hmac (as_inner (audit_run_op env (OpRotate now cfg) s)) = li_last_hmac (as_inner s)"
  "as_clock (audit_run_op env (OpRotate now cfg) s) = as_clock s"
  "li_seq (as_inner (audit_run_op env (OpSetRotation cfg) s)) = li_seq (as_inner s)"
  "li_last_hmac (as_inner (audit_run_op env (OpSetRotation cfg) s)) = li_last_hmac (as_inner s)"
  "as_clock (audit_run_op env (OpSetRotation cfg) s) = as_clock s"
  using rotate_locked_inner[of env now cfg "(as_inner s, as_dir s)"]
  by (auto simp: audit_run_op_def maybe_rotate_def set_rotation_def split: prod.splits)

lemma audit_start_counters [simp]:
  "li_seq (as_inner (audit_start env key now)) = 0"
  "li_last_hmac (as_inner (audit_start env key now)) = GENESIS_HMAC"
  "as_clock (audit_start env key now) = now"
  using audit_start_view[of env key now] unfolding audit_view_def
  by (simp_all add: audit_start_def split: prod.split)


subsection \<open>Reading, pruning and failing writes\<close>

lemma map_filter_readable:
  assumes "\<forall>e \<in> set es. readable env e"
  shows "List.map_filter (entry_parse env) (filter (\<lambda>l. \<not> is_blank l) (map (entry_text env) es)) = es"
  using assms
proof (induction es)
  case (Cons e es)
  have e: "readable env e" using Cons.prems by simp
  show ?case using Cons readable_line[OF e] readable_parse[OF e] by (simp add: map_filter_simps)
qed (simp add: map_filter_simps)

text \<open>\<open>read_recent\<close> returns the newest entries in order: of a log of readable entries, the last
  \<open>limit\<close> of them, or all when there are fewer.\<close>

lemma read_recent_newest:
  assumes "\<forall>e \<in> set es. readable env e" and "log_text d = Some (file_of env es)"
  shows "read_recent env d limit = drop (length es - limit) es"
  using assms(2) map_filter_readable[OF assms(1)]
  by (simp add: read_recent_def str_lines_file_of[OF assms(1)] Let_def)

lemma prune_lines_file:
  assumes "\<forall>e \<in> set es. readable env e" and "k + length es < 2 ^ 64"
  shows "foldl (prune_line env c) (kept, k) (map (entry_text env) es) =
     (kept @ map (entry_text env) (filter (\<lambda>e. \<not> ae_ts e < c) es), k + length (filter (\<lambda>e. ae_ts e < c) es))"
  using assms
proof (induction es arbitrary: kept k)
  case (Cons e es)
  have e: "readable env e" using Cons.prems by simp
  show ?case
    using Cons readable_line[OF e] readable_parse[OF e] by (simp add: prune_line_def rust_arith)
qed simp

lemma prune_log_file:
  assumes "\<forall>e \<in> set es. readable env e" and "length es < 2 ^ 64"
    and "log_text d = Some (file_of env es)" and "retain_days > 0"
  shows "fst (prune_log env now retain_days d) =
      Inr (length (filter (\<lambda>e. ae_ts e < now - days retain_days) es))"
    and "log_text (snd (prune_log env now retain_days d)) =
      Some (file_of env (filter (\<lambda>e. \<not> ae_ts e < now - days retain_days) es))"
proof -
  let ?keep = "filter (\<lambda>e. \<not> ae_ts e < now - days retain_days) es"
  let ?old = "filter (\<lambda>e. ae_ts e < now - days retain_days) es"
  have loop: "foldl (prune_line env (now - days retain_days)) ([], 0) (str_lines (file_of env es)) =
      (map (entry_text env) ?keep, length ?old)"
    using prune_lines_file[OF assms(1), of 0] assms(2) by (simp add: str_lines_file_of[OF assms(1)])
  have all: "?keep = es" if "?old = []"
    using that by (simp add: filter_empty_conv)
  show "fst (prune_log env now retain_days d) = Inr (length ?old)"
    using assms(3,4) by (simp add: prune_log_def loop)
  show "log_text (snd (prune_log env now retain_days d)) = Some (file_of env ?keep)"
  proof (cases "?old = []")
    case True
    then show ?thesis unfolding all[OF True] using assms(3,4) by (simp add: prune_log_def loop)
  next
    case False
    have "concat (map (\<lambda>l. l @ [10]) (map (entry_text env) ?keep)) = file_of env ?keep"
      by (simp add: file_of_def comp_def)
    then have "snd (prune_log env now retain_days d) = d\<lparr>ad_log := Some (ad_next d), ad_next := Suc (ad_next d),
        ad_inodes := (ad_inodes d)(ad_next d := file_of env ?keep)\<rparr>"
      using assms(3,4) False by (simp add: prune_log_def loop)
    then show ?thesis by (simp add: log_text_def)
  qed
qed

text \<open>Pruning keeps the log verifiable. On a complete log whose timestamps do not decrease,
  \<open>prune_log\<close> removes exactly the entries older than the limit, and what is left verifies with all of
  its entries counted, since the verifier takes its anchor from the first remaining entry (the
  comment of \<open>prune_log\<close> says that the chain is broken from that row on).\<close>

lemma prune_log_verifies:
  assumes "chained env key 1 GENESIS_HMAC es" and "\<forall>e \<in> set es. readable env e"
    and "sorted (map ae_ts es)" and "2 * length es + 3 < 2 ^ 64"
    and "log_text d = Some (file_of env es)" and "retain_days > 0"
    and "prune_log env now retain_days d = (r, d')"
  shows "\<exists>k. r = Inr (k :: nat) \<and> log_text d' = Some (file_of env (drop k es)) \<and>
     (\<forall>e \<in> set (take k es). ae_ts e < now - days retain_days) \<and>
     (\<forall>e \<in> set (drop k es). now - days retain_days \<le> ae_ts e) \<and>
     verify_log env (log_text d') key =
       \<lparr>entries_checked = length es - k, vr_ok = True, first_violation = None\<rparr>"
proof -
  let ?c = "now - days retain_days"
  obtain k0 where k0: "filter (\<lambda>e. ae_ts e < ?c) es = take k0 es" "filter (\<lambda>e. \<not> ae_ts e < ?c) es = drop k0 es"
    using sorted_filter_split[OF assms(3)] by blast
  define k where "k = min k0 (length es)"
  have k: "filter (\<lambda>e. ae_ts e < ?c) es = take k es" "filter (\<lambda>e. \<not> ae_ts e < ?c) es = drop k es" "k \<le> length es"
    using k0 by (auto simp: k_def min_def)
  have r: "r = Inr k" "log_text d' = Some (file_of env (drop k es))"
    using prune_log_file[OF assms(2) _ assms(5,6), of now] assms(4,7) k by (simp_all add: min_absorb2)
  have times: "\<forall>e \<in> set (take k es). ae_ts e < ?c" "\<forall>e \<in> set (drop k es). ?c \<le> ae_ts e"
    unfolding k(1)[symmetric] k(2)[symmetric] by auto
  have "verify_log env (Some (file_of env (drop k es))) key =
      \<lparr>entries_checked = length es - k, vr_ok = True, first_violation = None\<rparr>"
  proof (cases "drop k es = []")
    case True
    then show ?thesis by (simp add: verify_log_def walk_def anchor_def)
  next
    case False
    have "chained env key 1 GENESIS_HMAC (take k es @ drop k es)" using assms(1) by simp
    then have c: "chained env key (1 + k) (last_mac GENESIS_HMAC (take k es)) (drop k es)"
      using k(3) unfolding chained_append by (simp add: min_absorb2)
    have "verify_log env (Some (file_of env (drop k es))) key =
       \<lparr>entries_checked = length (drop k es), vr_ok = True, first_violation = None\<rparr>"
    proof (rule verify_log_chained)
      show "chained env key (start_seq (drop k es)) (start_prev (drop k es)) (drop k es)"
        using c False by (rule chained_start) (cases k; simp)
      have "ae_seq (hd (drop k es)) = 1 + k" using c False by (cases "drop k es") auto
      then show "ae_seq (hd (drop k es)) + length (drop k es) + 1 < 2 ^ 64"
        using assms(4) k(3) by simp
    qed (use assms(2) False in \<open>auto dest: in_set_dropD\<close>)
    then show ?thesis by simp
  qed
  with r times show ?thesis by auto
qed


text \<open>After a prune that removed something, the running daemon writes to a file that no path
  names. \<open>prune_log\<close> renames a new file over the log while \<open>AuditLog\<close> keeps its handle on the old one:
  a later append succeeds and advances the counters, and the log at the path stays as it was.\<close>

lemma append_after_prune_is_lost:
  assumes "ad_log d = Some (li_file inner)" and "li_file inner < ad_next d"
    and "prune_log env now retain_days d = (Inr k, d')" and "k > 0"
    and "max_bytes (li_rotate inner) = 0"
    and "append_entry env now' WriteOk actor ev (inner, d') = (r, inner'', d'')"
  shows "r = Inr () \<and> li_seq inner'' = u64_add (li_seq inner) 1 \<and> log_text d'' = log_text d'"
proof -
  have "ad_log d' = Some (ad_next d)" 
    using assms(3,4) by (auto simp: prune_log_def Let_def split: if_splits option.splits prod.splits)
  then show ?thesis
    using assms(2,5,6) by (auto simp: append_entry_def Let_def new_entry_mac log_text_def write_inode_def)
qed

text \<open>A sync that fails after its write leaves a log that no longer verifies. The line is in
  the file, \<open>append\<close> returns an error without advancing the counters, and the next append gives its
  entry the same number: the verifier then reports a sequence gap at that entry.\<close>

lemma failed_sync_breaks_log:
  assumes "chained env (li_key inner) 1 GENESIS_HMAC es" and "\<forall>e \<in> set es. readable env e"
    and "ad_inodes d (li_file inner) = file_of env es" and "ad_log d = Some (li_file inner)"
    and "li_seq inner = length es" and "li_last_hmac inner = last_mac GENESIS_HMAC es"
    and "length es + 3 < 2 ^ 64" and "max_bytes (li_rotate inner) = 0"
    and "readable env (new_entry env now actor ev inner)" and "readable env (new_entry env now' actor' ev' inner)"
    and "append_entry env now SyncFailed actor ev (inner, d) = (r1, inner1, d1)"
    and "append_entry env now' WriteOk actor' ev' (inner1, d1) = (r2, inner2, d2)"
  shows "r1 = Inl IoError \<and> r2 = Inr () \<and>
     verify_log env (log_text d2) (li_key inner) =
       \<lparr>entries_checked = length es + 1, vr_ok = False,
        first_violation = Some \<lparr>vd_seq = length es + 1,
          vd_detail = SequenceGap (length es + 2) (length es + 1)\<rparr>\<rparr>"
proof -
  define e1 e2 where "e1 = new_entry env now actor ev inner" and "e2 = new_entry env now' actor' ev' inner"
  note e = e1_def e2_def
  have seqs: "ae_seq e1 = length es + 1" "ae_seq e2 = length es + 1"
    using assms(5,7) by (simp_all add: e new_entry_mac rust_arith)
  have chain: "chained env (li_key inner) 1 GENESIS_HMAC (es @ [e1])"
    using assms(1,6) seqs by (simp add: chained_append e new_entry_mac)
  have readable: "\<forall>e \<in> set (es @ [e1]). readable env e" "readable env e2" using assms(2,9,10) by (auto simp: e)
  have content: "log_text d2 = Some (file_of env (es @ [e1]) @ file_of env [e2])" "r1 = Inl IoError" "r2 = Inr ()"
    using assms(3,4,8,11,12) by (auto simp: append_entry_def Let_def log_text_def write_inode_def e)
  have lines: "str_lines (file_of env [e2]) = entry_text env e2 # []"
    using readable(2) by (subst str_lines_file_of) simp_all
  show ?thesis
    using verify_log_stops[OF readable(1) chain _ _ lines] readable_line[OF readable(2)]
      readable_parse[OF readable(2)] seqs assms(7) content
    by simp
qed

text \<open>The audit key is private. A key that loads is 32 bytes long and its file gives no
  permission to group or other; a key that \<open>load_or_generate\<close> creates is read back by \<open>load\<close>.\<close>

lemma audit_key_private:
  "(\<forall>mode bytes k. key_load (Some (mode, bytes)) = Inr k \<longleftrightarrow> k = bytes \<and> length bytes = 32 \<and> and mode 63 = 0) \<and>
   key_load None = Inl KeyNotFound \<and>
   (\<forall>random. length random = 32 \<longrightarrow>
      fst (load_or_generate random None) = Inr random \<and>
      key_load (snd (load_or_generate random None)) = Inr random)"
  by (auto simp: key_load_def check_key_permissions_def load_or_generate_def write_key_def KEY_LEN_def)

end
