(* ===== verification/Audit_Export.thy ===== *)
theory Audit_Export
  imports Audit_Log
begin

section \<open>Exports of the audit log\<close>

text \<open>
  \<open>crates/maranode-audit/src/export.rs\<close>: the compliance reports (CSV) and the SIEM formats CEF and
  LEEF. A \<open>String\<close> is its bytes; every character the code looks for is ASCII. The texts of chrono
  and serde\_json (RFC 3339 of a timestamp, \<open>Display\<close> of a JSON value) are the record \<open>xenv\<close>.

  For the CSV reports a reader of RFC 4180 records is the specification: reading an export gives the
  header and one record per exported entry with the fields that went in, so that no actor or detail
  can add a row or a column.
\<close>

record xenv =
  rfc3339 :: "timestamp \<Rightarrow> string"
  show_json :: "json \<Rightarrow> string"

subsection \<open>Escapes\<close>

text \<open>\<open>str::replace\<close> with a character as pattern.\<close>

definition replace_char :: "char \<Rightarrow> string \<Rightarrow> string \<Rightarrow> string" where
  "replace_char c by s = concat (map (\<lambda>x. if x = c then by else [x]) s)"

abbreviation dquote :: char where "dquote \<equiv> CHR 0x22"
abbreviation newline :: char where "newline \<equiv> CHR 0x0A"
abbreviation tab :: char where "tab \<equiv> CHR 0x09"
abbreviation backslash :: char where "backslash \<equiv> CHR 0x5C"

definition csv_escape :: "string \<Rightarrow> string" where
  "csv_escape s =
     (if CHR '','' \<in> set s \<or> dquote \<in> set s \<or> newline \<in> set s
      then [dquote] @ replace_char dquote [dquote, dquote] s @ [dquote] else s)"

definition cef_val :: "string \<Rightarrow> string" where
  "cef_val s =
     replace_char newline [backslash, CHR ''n'']
       (replace_char (CHR ''='') [backslash, CHR ''=''] (replace_char backslash [backslash, backslash] s))"

definition leef_val :: "string \<Rightarrow> string" where
  "leef_val s = replace_char newline '' '' (replace_char tab '' '' s)"

fun join :: "string \<Rightarrow> string list \<Rightarrow> string" where
  "join sep [] = []"
| "join sep [x] = x"
| "join sep (x # y # xs) = x @ sep @ join sep (y # xs)"

subsection \<open>Selection\<close>

record export_filter =
  ef_workspace :: "string option"
  ef_from :: "timestamp option"
  ef_to :: "timestamp option"

definition export_keeps :: "export_filter \<Rightarrow> audit_entry \<Rightarrow> bool" where
  "export_keeps f e =
     (if (case ef_workspace f of Some ws \<Rightarrow> ae_actor e \<noteq> ws | None \<Rightarrow> False) then False
      else if (case ef_from f of Some from \<Rightarrow> ae_ts e < from | None \<Rightarrow> False) then False
      else if (case ef_to f of Some to \<Rightarrow> to < ae_ts e | None \<Rightarrow> False) then False
      else True)"

definition USIZE_MAX :: nat where
  "USIZE_MAX = 2 ^ 64 - 1"

definition load_entries :: "env \<Rightarrow> audit_dir \<Rightarrow> export_filter \<Rightarrow> audit_entry list" where
  "load_entries env d f = filter (export_keeps f) (read_recent env d USIZE_MAX)"

subsection \<open>CSV reports\<close>

definition event_name :: "json \<Rightarrow> string" where
  "event_name ev = unwrap_or ''unknown'' (json_as_str (json_get ev ''event''))"

fun json_members :: "json \<Rightarrow> (string \<times> json) list option" where
  "json_members (JObj kvs) = Some kvs"
| "json_members _ = None"

definition event_detail :: "xenv \<Rightarrow> json \<Rightarrow> string" where
  "event_detail x ev = unwrap_or [] (map_option
     (\<lambda>m. join ''; '' (map (\<lambda>(k, v). k @ ''='' @ show_json x v) (filter (\<lambda>(k, _). k \<noteq> ''event'') m)))
     (json_members ev))"

definition gdpr_header :: string where
  "gdpr_header = ''timestamp,seq,actor,activity,detail'' @ [newline]"

definition gdpr_row :: "xenv \<Rightarrow> audit_entry \<Rightarrow> string" where
  "gdpr_row x e =
     (let ev = event_value (ae_event e)
      in rfc3339 x (ae_ts e) @ '','' @ show_nat (ae_seq e) @ '','' @ csv_escape (ae_actor e) @ '',''
         @ csv_escape (event_name ev) @ '','' @ csv_escape (event_detail x ev) @ [newline])"

definition export_gdpr :: "env \<Rightarrow> xenv \<Rightarrow> audit_dir \<Rightarrow> export_filter \<Rightarrow> string" where
  "export_gdpr env x d f = gdpr_header @ concat (map (gdpr_row x) (load_entries env d f))"

definition hipaa_phi :: "string \<Rightarrow> bool" where
  "hipaa_phi kind \<longleftrightarrow>
     kind \<in> {''inference_start'', ''inference_complete'', ''rag_retrieval'', ''rag_document_ingested''}"

definition hipaa_detail :: "json \<Rightarrow> string" where
  "hipaa_detail ev =
     (let kind = event_name ev in
      if kind = ''inference_start'' then
        unwrap_or [] (map_option (\<lambda>s. ''prompt_sha256='' @ s) (json_as_str (json_get ev ''prompt_sha256'')))
      else if kind = ''inference_complete'' then
        ''tokens_in='' @ show_nat (unwrap_or 0 (json_as_u64 (json_get ev ''tokens_in'')))
          @ '' tokens_out='' @ show_nat (unwrap_or 0 (json_as_u64 (json_get ev ''tokens_out'')))
      else if kind = ''rag_retrieval'' then
        unwrap_or [] (map_option (\<lambda>s. ''query_sha256='' @ s) (json_as_str (json_get ev ''query_sha256'')))
      else [])"

definition hipaa_header :: string where
  "hipaa_header = ''timestamp,seq,actor,event_type,access_detail,phi_indicator'' @ [newline]"

definition hipaa_row :: "xenv \<Rightarrow> audit_entry \<Rightarrow> string" where
  "hipaa_row x e =
     (let ev = event_value (ae_event e); kind = event_name ev
      in rfc3339 x (ae_ts e) @ '','' @ show_nat (ae_seq e) @ '','' @ csv_escape (ae_actor e) @ '',''
         @ csv_escape kind @ '','' @ csv_escape (hipaa_detail ev) @ '',''
         @ (if hipaa_phi kind then ''yes'' else ''no'') @ [newline])"

definition export_hipaa :: "env \<Rightarrow> xenv \<Rightarrow> audit_dir \<Rightarrow> export_filter \<Rightarrow> string" where
  "export_hipaa env x d f = hipaa_header @ concat (map (hipaa_row x) (load_entries env d f))"

definition soc2_category :: "string \<Rightarrow> string" where
  "soc2_category kind =
     (if kind \<in> {''daemon_start'', ''daemon_stop''} then ''availability''
      else if kind \<in> {''isolation_applied'', ''config_reloaded''} then ''change_management''
      else if kind \<in> {''model_imported'', ''model_removed''} then ''change_management''
      else if kind \<in> {''inference_start'', ''inference_complete'', ''inference_failed''} then ''logical_access''
      else if kind \<in> {''rag_document_ingested'', ''rag_retrieval''} then ''logical_access''
      else if kind = ''audit_verified'' then ''monitoring''
      else ''other'')"

definition soc2_header :: string where
  "soc2_header = ''timestamp,seq,actor,category,event_type,detail'' @ [newline]"

definition soc2_row :: "xenv \<Rightarrow> audit_entry \<Rightarrow> string" where
  "soc2_row x e =
     (let ev = event_value (ae_event e); kind = event_name ev
      in rfc3339 x (ae_ts e) @ '','' @ show_nat (ae_seq e) @ '','' @ csv_escape (ae_actor e) @ '',''
         @ soc2_category kind @ '','' @ csv_escape kind @ '','' @ csv_escape (event_detail x ev) @ [newline])"

definition export_soc2 :: "env \<Rightarrow> xenv \<Rightarrow> audit_dir \<Rightarrow> export_filter \<Rightarrow> string" where
  "export_soc2 env x d f = soc2_header @ concat (map (soc2_row x) (load_entries env d f))"

definition iso_control :: "string \<Rightarrow> string \<times> string" where
  "iso_control kind =
     (if kind \<in> {''daemon_start'', ''daemon_stop''} then (''A.12.1'', ''operational'')
      else if kind = ''isolation_applied'' then (''A.13.1'', ''network_control'')
      else if kind = ''model_imported'' then (''A.12.5'', ''change'')
      else if kind = ''model_removed'' then (''A.12.5'', ''change'')
      else if kind \<in> {''inference_start'', ''inference_complete''} then (''A.9.4'', ''access'')
      else if kind = ''inference_failed'' then (''A.9.4'', ''failure'')
      else if kind \<in> {''rag_document_ingested'', ''rag_retrieval''} then (''A.9.4'', ''access'')
      else if kind = ''config_reloaded'' then (''A.12.1'', ''change'')
      else if kind = ''audit_verified'' then (''A.12.4'', ''monitoring'')
      else (''A.12.4'', ''other''))"

definition iso_header :: string where
  "iso_header = ''timestamp,seq,actor,control,event_type,outcome,detail'' @ [newline]"

definition iso_row :: "xenv \<Rightarrow> audit_entry \<Rightarrow> string" where
  "iso_row x e =
     (let ev = event_value (ae_event e); kind = event_name ev; (control, outcome) = iso_control kind
      in rfc3339 x (ae_ts e) @ '','' @ show_nat (ae_seq e) @ '','' @ csv_escape (ae_actor e) @ '',''
         @ control @ '','' @ csv_escape kind @ '','' @ outcome @ '','' @ csv_escape (event_detail x ev) @ [newline])"

definition export_iso27001 :: "env \<Rightarrow> xenv \<Rightarrow> audit_dir \<Rightarrow> export_filter \<Rightarrow> string" where
  "export_iso27001 env x d f = iso_header @ concat (map (iso_row x) (load_entries env d f))"

subsection \<open>CEF\<close>

definition cef_meta :: "string \<Rightarrow> nat \<times> string \<times> string" where
  "cef_meta kind = unwrap_or (2, ''Audit Event'', ''MRN-000'') (map_of
     [(''daemon_start'', (2, ''Daemon Started'', ''MRN-001'')),
      (''daemon_stop'', (2, ''Daemon Stopped'', ''MRN-002'')),
      (''isolation_applied'', (5, ''Isolation Mode Applied'', ''MRN-010'')),
      (''isolation_probe'', (5, ''Isolation Probe Result'', ''MRN-011'')),
      (''model_imported'', (3, ''Model Imported'', ''MRN-020'')),
      (''model_removed'', (3, ''Model Removed'', ''MRN-021'')),
      (''inference_start'', (2, ''Inference Started'', ''MRN-030'')),
      (''inference_complete'', (2, ''Inference Completed'', ''MRN-031'')),
      (''inference_failed'', (7, ''Inference Failed'', ''MRN-032'')),
      (''inference_receipt'', (3, ''Inference Receipt Issued'', ''MRN-033'')),
      (''rag_document_ingested'', (3, ''RAG Document Ingested'', ''MRN-040'')),
      (''rag_retrieval'', (2, ''RAG Retrieval Performed'', ''MRN-041'')),
      (''workspace_shredded'', (8, ''Workspace Crypto-Shredded'', ''MRN-050'')),
      (''config_reloaded'', (3, ''Config Reloaded'', ''MRN-060'')),
      (''audit_verified'', (2, ''Audit Chain Verified'', ''MRN-070'')),
      (''binary_attested'', (4, ''Binary Attested'', ''MRN-080''))] kind)"

definition opt_parts :: "'a option \<Rightarrow> ('a \<Rightarrow> string list) \<Rightarrow> string list" where
  "opt_parts v f = (case v of None \<Rightarrow> [] | Some a \<Rightarrow> f a)"

definition cef_extension :: "json \<Rightarrow> string \<Rightarrow> nat \<Rightarrow> string" where
  "cef_extension ev actor seq =
     (let kind = event_name ev;
          parts = [''act='' @ cef_val kind, ''src='' @ cef_val actor, ''cn1='' @ show_nat seq,
                   ''cn1Label=auditSeq''];
          more =
            (if kind \<in> {''inference_start'', ''inference_complete'', ''inference_failed''} then
               opt_parts (json_as_str (json_get ev ''request_id'')) (\<lambda>i. [''externalId='' @ cef_val i])
               @ opt_parts (json_as_str (json_get (json_get ev ''model'') ''name''))
                   (\<lambda>m. [''cs1='' @ cef_val m, ''cs1Label=modelName''])
               @ opt_parts (json_as_str (json_get ev ''prompt_sha256''))
                   (\<lambda>h. [''cs2='' @ cef_val h, ''cs2Label=promptSha256''])
             else if kind = ''isolation_probe'' then
               (let isolated = unwrap_or True (json_as_bool (json_get ev ''isolated''))
                in [''outcome='' @ (if isolated then ''success'' else ''failure''),
                    ''cs3='' @ cef_val (unwrap_or [] (json_as_str (json_get ev ''iptables_hash''))),
                    ''cs3Label=iptablesHash''])
             else if kind = ''workspace_shredded'' then
               opt_parts (json_as_str (json_get ev ''slug'')) (\<lambda>slug. [''fname='' @ cef_val slug])
             else if kind \<in> {''model_imported'', ''model_removed''} then
               opt_parts (json_as_str (json_get ev ''sha256'')) (\<lambda>sha. [''fileHash='' @ cef_val sha])
             else [])
      in join '' '' (parts @ more))"

definition show_int :: "int \<Rightarrow> string" where
  "show_int i = (if i < 0 then ''-'' @ show_nat (nat (- i)) else show_nat (nat i))"

definition timestamp_millis :: "timestamp \<Rightarrow> int" where
  "timestamp_millis ts = ts div 10 ^ 6"

text \<open>The format string ends in an escaped backslash and the letter n.\<close>

definition cef_line :: "audit_entry \<Rightarrow> string" where
  "cef_line e =
     (let ev = event_value (ae_event e); (severity, name, sig_id) = cef_meta (event_name ev)
      in ''CEF:0|Maranode|maranode-daemon|1.0|'' @ sig_id @ ''|'' @ name @ ''|'' @ show_nat severity
         @ ''|rt='' @ show_int (timestamp_millis (ae_ts e)) @ '' ''
         @ cef_extension ev (ae_actor e) (ae_seq e) @ [backslash, CHR ''n''])"

definition export_cef :: "env \<Rightarrow> audit_dir \<Rightarrow> export_filter \<Rightarrow> string" where
  "export_cef env d f = concat (map cef_line (load_entries env d f))"

subsection \<open>LEEF\<close>

definition leef_event_id :: "string \<Rightarrow> string" where
  "leef_event_id kind = unwrap_or ''AuditEvent'' (map_of
     [(''daemon_start'', ''DaemonStarted''),
      (''daemon_stop'', ''DaemonStopped''),
      (''isolation_applied'', ''IsolationApplied''),
      (''isolation_probe'', ''IsolationProbe''),
      (''model_imported'', ''ModelImported''),
      (''model_removed'', ''ModelRemoved''),
      (''inference_start'', ''InferenceStarted''),
      (''inference_complete'', ''InferenceCompleted''),
      (''inference_failed'', ''InferenceFailed''),
      (''inference_receipt'', ''InferenceReceipt''),
      (''rag_document_ingested'', ''RagDocIngested''),
      (''rag_retrieval'', ''RagRetrieval''),
      (''workspace_shredded'', ''WorkspaceShredded''),
      (''config_reloaded'', ''ConfigReloaded''),
      (''audit_verified'', ''AuditVerified''),
      (''binary_attested'', ''BinaryAttested'')] kind)"

definition show_bool :: "bool \<Rightarrow> string" where
  "show_bool b = (if b then ''true'' else ''false'')"

definition leef_attributes :: "xenv \<Rightarrow> json \<Rightarrow> string \<Rightarrow> nat \<Rightarrow> timestamp \<Rightarrow> string" where
  "leef_attributes x ev actor seq ts =
     (let kind = unwrap_or [] (json_as_str (json_get ev ''event''));
          parts = [''devTime='' @ rfc3339 x ts, ''usrName='' @ leef_val actor, ''src=maranode'',
                   ''auditSeq='' @ show_nat seq, ''eventType='' @ leef_val kind];
          more =
            (if kind \<in> {''inference_start'', ''inference_complete'', ''inference_failed''} then
               opt_parts (json_as_str (json_get ev ''request_id'')) (\<lambda>i. [''requestId='' @ leef_val i])
               @ opt_parts (json_as_str (json_get ev ''prompt_sha256'')) (\<lambda>h. [''promptSha256='' @ leef_val h])
               @ opt_parts (json_as_u64 (json_get ev ''tokens_in'')) (\<lambda>n. [''tokensIn='' @ show_nat n])
               @ opt_parts (json_as_u64 (json_get ev ''tokens_out'')) (\<lambda>n. [''tokensOut='' @ show_nat n])
             else if kind = ''isolation_probe'' then
               (let isolated = unwrap_or True (json_as_bool (json_get ev ''isolated''))
                in [''isolated='' @ show_bool isolated,
                    ''outcome='' @ (if isolated then ''success'' else ''failure'')])
             else if kind = ''workspace_shredded'' then
               opt_parts (json_as_str (json_get ev ''slug'')) (\<lambda>slug. [''resourceId='' @ leef_val slug])
             else [])
      in join [tab] (parts @ more))"

definition leef_line :: "xenv \<Rightarrow> audit_entry \<Rightarrow> string" where
  "leef_line x e =
     (let ev = event_value (ae_event e)
      in ''LEEF:2.0|Maranode|maranode-daemon|1.0|'' @ leef_event_id (event_name ev) @ ''|'' @ [tab]
         @ leef_attributes x ev (ae_actor e) (ae_seq e) (ae_ts e) @ [newline])"

definition export_leef :: "env \<Rightarrow> xenv \<Rightarrow> audit_dir \<Rightarrow> export_filter \<Rightarrow> string" where
  "export_leef env x d f = concat (map (leef_line x) (load_entries env d f))"

subsection \<open>The reader of CSV records\<close>

text \<open>A reader of RFC 4180 records as a machine over the characters: its mode, the field and the
  record under construction, and the records read so far.\<close>

datatype csv_mode = FieldStart | Plain | Quoted | QuoteSeen

type_synonym csv_state = "csv_mode \<times> string \<times> string list \<times> string list list"

definition csv_end :: "char \<Rightarrow> string \<Rightarrow> string list \<Rightarrow> string list list \<Rightarrow> csv_state" where
  "csv_end c f row rows =
     (if c = newline then (FieldStart, [], [], rows @ [row @ [f]]) else (FieldStart, [], row @ [f], rows))"

fun csv_step :: "csv_state \<Rightarrow> char \<Rightarrow> csv_state" where
  "csv_step (FieldStart, f, row, rows) c =
     (if c = dquote then (Quoted, f, row, rows)
      else if c = CHR '','' \<or> c = newline then csv_end c f row rows
      else (Plain, f @ [c], row, rows))"
| "csv_step (Plain, f, row, rows) c =
     (if c = CHR '','' \<or> c = newline then csv_end c f row rows else (Plain, f @ [c], row, rows))"
| "csv_step (Quoted, f, row, rows) c =
     (if c = dquote then (QuoteSeen, f, row, rows) else (Quoted, f @ [c], row, rows))"
| "csv_step (QuoteSeen, f, row, rows) c =
     (if c = dquote then (Quoted, f @ [c], row, rows)
      else if c = CHR '','' \<or> c = newline then csv_end c f row rows
      else (Plain, f @ [c], row, rows))"

definition csv_read :: "string \<Rightarrow> string list list" where
  "csv_read s = (case foldl csv_step (FieldStart, [], [], []) s of (_, _, _, rows) \<Rightarrow> rows)"

lemma csv_quoted_body:
  "foldl csv_step (Quoted, f, row, rows) (replace_char dquote [dquote, dquote] s) = (Quoted, f @ s, row, rows)"
  by (induction s arbitrary: f) (auto simp: replace_char_def)

lemma csv_plain_body:
  "CHR '','' \<notin> set s \<Longrightarrow> newline \<notin> set s \<Longrightarrow>
     foldl csv_step (Plain, f, row, rows) s = (Plain, f @ s, row, rows)"
  by (induction s arbitrary: f) auto

text \<open>An escaped field is read back whatever it holds.\<close>

lemma csv_field_read:
  assumes "c = CHR '','' \<or> c = newline"
  shows "csv_step (foldl csv_step (FieldStart, [], row, rows) (csv_escape s)) c = csv_end c s row rows"
proof (cases "CHR '','' \<in> set s \<or> dquote \<in> set s \<or> newline \<in> set s")
  case True
  then show ?thesis using assms by (auto simp: csv_escape_def csv_quoted_body)
next
  case False
  then show ?thesis using assms
    by (cases s) (auto simp: csv_escape_def csv_plain_body)
qed

definition csv_row :: "string list \<Rightarrow> string" where
  "csv_row flds = join '','' (map csv_escape flds) @ [newline]"

lemma csv_row_read:
  assumes "flds \<noteq> []"
  shows "foldl csv_step (FieldStart, [], row, rows) (csv_row flds) = (FieldStart, [], [], rows @ [row @ flds])"
  using assms
proof (induction flds arbitrary: row rule: list_nonempty_induct)
  case (single s)
  then show ?case using csv_field_read[of newline row rows s] by (simp add: csv_row_def csv_end_def)
next
  case (cons s flds)
  obtain t ts where flds: "flds = t # ts" using cons by (cases flds) auto
  have "csv_row (s # flds) = csv_escape s @ CHR '','' # csv_row flds"
    by (simp add: csv_row_def flds)
  then show ?case
    using csv_field_read[of "CHR '',''" row rows s] cons.IH[of "row @ [s]"] by (simp add: csv_end_def)
qed

lemma csv_rows_read:
  assumes "\<forall>flds \<in> set rs. flds \<noteq> []"
  shows "foldl csv_step (FieldStart, [], [], rows) (concat (map csv_row rs)) = (FieldStart, [], [], rows @ rs)"
  using assms by (induction rs arbitrary: rows) (auto simp: csv_row_read)

lemma csv_read_rows:
  "\<forall>flds \<in> set rs. flds \<noteq> [] \<Longrightarrow> csv_read (concat (map csv_row rs)) = rs"
  using csv_rows_read[of rs "[]"] by (simp add: csv_read_def)

lemma csv_escape_plain:
  "CHR '','' \<notin> set s \<Longrightarrow> dquote \<notin> set s \<Longrightarrow> newline \<notin> set s \<Longrightarrow> csv_escape s = s"
  by (simp add: csv_escape_def)

lemma csv_escape_nat [simp]: "csv_escape (show_nat n) = show_nat n"
  using show_nat_digits[of "CHR '',''" n] show_nat_digits[of dquote n] show_nat_digits[of newline n]
  by (intro csv_escape_plain) auto

lemma event_name_value [simp]: "event_name (event_value ev) = event_kind ev"
  by (simp add: event_name_def event_kind_value)

text \<open>What chrono promises: an RFC 3339 text has no comma, quote, tab or line break.\<close>

definition rfc3339_ok :: "xenv \<Rightarrow> bool" where
  "rfc3339_ok x \<longleftrightarrow> (\<forall>t. set (rfc3339 x t) \<inter> {CHR '','', dquote, newline, tab} = {})"

lemma rfc3339_plain: "rfc3339_ok x \<Longrightarrow> csv_escape (rfc3339 x t) = rfc3339 x t"
  by (intro csv_escape_plain) (auto simp: rfc3339_ok_def)

definition gdpr_fields :: "xenv \<Rightarrow> audit_entry \<Rightarrow> string list" where
  "gdpr_fields x e = [rfc3339 x (ae_ts e), show_nat (ae_seq e), ae_actor e, event_kind (ae_event e),
     event_detail x (event_value (ae_event e))]"

definition hipaa_fields :: "xenv \<Rightarrow> audit_entry \<Rightarrow> string list" where
  "hipaa_fields x e = [rfc3339 x (ae_ts e), show_nat (ae_seq e), ae_actor e, event_kind (ae_event e),
     hipaa_detail (event_value (ae_event e)), if hipaa_phi (event_kind (ae_event e)) then ''yes'' else ''no'']"

definition soc2_fields :: "xenv \<Rightarrow> audit_entry \<Rightarrow> string list" where
  "soc2_fields x e = [rfc3339 x (ae_ts e), show_nat (ae_seq e), ae_actor e, soc2_category (event_kind (ae_event e)),
     event_kind (ae_event e), event_detail x (event_value (ae_event e))]"

definition iso_fields :: "xenv \<Rightarrow> audit_entry \<Rightarrow> string list" where
  "iso_fields x e = [rfc3339 x (ae_ts e), show_nat (ae_seq e), ae_actor e, fst (iso_control (event_kind (ae_event e))),
     event_kind (ae_event e), snd (iso_control (event_kind (ae_event e))), event_detail x (event_value (ae_event e))]"

lemma category_plain [simp]:
  "csv_escape (soc2_category k) = soc2_category k"
  "csv_escape (fst (iso_control k)) = fst (iso_control k)"
  "csv_escape (snd (iso_control k)) = snd (iso_control k)"
  by (simp_all add: soc2_category_def iso_control_def csv_escape_def)

lemma csv_rows:
  assumes "rfc3339_ok x"
  shows "gdpr_row x e = csv_row (gdpr_fields x e)" "hipaa_row x e = csv_row (hipaa_fields x e)"
    "soc2_row x e = csv_row (soc2_fields x e)" "iso_row x e = csv_row (iso_fields x e)"
  using rfc3339_plain[OF assms]
  by (simp_all add: gdpr_row_def gdpr_fields_def hipaa_row_def hipaa_fields_def soc2_row_def soc2_fields_def
      iso_row_def iso_fields_def csv_row_def Let_def csv_escape_plain case_prod_beta)

definition csv_headers :: "string list list" where
  "csv_headers =
    [[''timestamp'', ''seq'', ''actor'', ''activity'', ''detail''],
     [''timestamp'', ''seq'', ''actor'', ''event_type'', ''access_detail'', ''phi_indicator''],
     [''timestamp'', ''seq'', ''actor'', ''category'', ''event_type'', ''detail''],
     [''timestamp'', ''seq'', ''actor'', ''control'', ''event_type'', ''outcome'', ''detail'']]"

lemma csv_headers_rows:
  "gdpr_header = csv_row (csv_headers ! 0)" "hipaa_header = csv_row (csv_headers ! 1)"
  "soc2_header = csv_row (csv_headers ! 2)" "iso_header = csv_row (csv_headers ! 3)"
  by (simp_all add: gdpr_header_def hipaa_header_def soc2_header_def iso_header_def csv_headers_def csv_row_def
      csv_escape_plain)

lemma csv_report_read:
  assumes "\<And>e. row e = csv_row (flds e)" and "\<And>e. flds e \<noteq> []" and "hdr \<noteq> []"
  shows "csv_read (csv_row hdr @ concat (map row es)) = hdr # map flds es"
proof -
  have "csv_row hdr @ concat (map row es) = concat (map csv_row (hdr # map flds es))"
    using ext[of row "\<lambda>e. csv_row (flds e)", OF assms(1)] by (simp add: comp_def)
  then show ?thesis using csv_read_rows[of "hdr # map flds es"] assms(2,3) by auto
qed

lemma load_entries_readable:
  assumes "\<forall>e \<in> set es. readable env e" and "log_text d = Some (file_of env es)" and "length es < 2 ^ 64"
  shows "load_entries env d f = filter (export_keeps f) es"
  using assms(2,3) map_filter_readable[OF assms(1)]
  by (simp add: load_entries_def read_recent_def str_lines_file_of[OF assms(1)] USIZE_MAX_def Let_def)


definition demo_xenv :: xenv where
  "demo_xenv = \<lparr>rfc3339 = (\<lambda>t. ''T''), show_json = (\<lambda>j. ''v,1'')\<rparr>"

definition demo_dir :: audit_dir where
  "demo_dir = fresh_dir\<lparr>ad_log := Some 0, ad_inodes := (\<lambda>_. file_of (demo_env demo_log) demo_log)\<rparr>"

definition any_entry :: export_filter where
  "any_entry = \<lparr>ef_workspace = None, ef_from = None, ef_to = None\<rparr>"

lemma demo_dir_log: "log_text demo_dir = Some (file_of (demo_env demo_log) demo_log)"
  by (simp add: demo_dir_def log_text_def)


subsection \<open>SIEM formats\<close>

text \<open>The inverse of the CEF escape.\<close>

fun cef_unval :: "string \<Rightarrow> string" where
  "cef_unval [] = []"
| "cef_unval [c] = [c]"
| "cef_unval (c # d # s) =
     (if c = backslash then (if d = CHR ''n'' then newline else d) # cef_unval s else c # cef_unval (d # s))"

lemma replace_char_simps [simp]:
  "replace_char c b [] = []"
  "replace_char c b (x # s) = (if x = c then b else [x]) @ replace_char c b s"
  "replace_char c b (s @ t) = replace_char c b s @ replace_char c b t"
  by (simp_all add: replace_char_def)

lemma cef_val_simps [simp]:
  "cef_val [] = []"
  "cef_val (x # s) = (if x = backslash then [backslash, backslash] else if x = CHR ''='' then [backslash, CHR ''='']
     else if x = newline then [backslash, CHR ''n''] else [x]) @ cef_val s"
  by (simp_all add: cef_val_def)

lemma cef_unval_plain: "x \<noteq> backslash \<Longrightarrow> cef_unval (x # s) = x # cef_unval s"
  by (cases s) auto

interpretation cef: lossless cef_val "\<lambda>s. Some (cef_unval s)"
proof
  show "Some (cef_unval (cef_val s)) = Some s" for s
    by (induction s) (auto simp: cef_unval_plain)
qed

lemma cef_val_no_newline [simp]: "newline \<notin> set (cef_val s)"
  by (induction s) auto

lemma leef_val_plain [simp]: "newline \<notin> set (leef_val s)" "tab \<notin> set (leef_val s)"
  by (induction s) (auto simp: leef_val_def)

lemma show_nat_plain [simp]: "newline \<notin> set (show_nat n)" "tab \<notin> set (show_nat n)"
  using show_nat_digits[of newline n] show_nat_digits[of tab n] by auto

lemma set_join: "c \<in> set (join sep xs) \<Longrightarrow> c \<in> set sep \<or> (\<exists>x \<in> set xs. c \<in> set x)"
  by (induction sep xs rule: join.induct) auto

lemma opt_parts_cases: "p \<in> set (opt_parts v f) \<Longrightarrow> \<exists>a. v = Some a \<and> p \<in> set (f a)"
  by (cases v) (auto simp: opt_parts_def)

lemma cef_extension_no_newline: "newline \<notin> set (cef_extension ev actor seq)"
  by (auto simp: cef_extension_def Let_def dest!: set_join opt_parts_cases split: if_splits)

lemma cef_meta_no_newline: "newline \<notin> set (fst (snd (cef_meta k)))" "newline \<notin> set (snd (snd (cef_meta k)))"
  by (simp_all add: cef_meta_def)

lemma cef_line_no_newline: "newline \<notin> set (cef_line e)"
proof -
  have "newline \<notin> set (show_int i)" for i by (simp add: show_int_def)
  then show ?thesis
    using cef_meta_no_newline[of "event_kind (ae_event e)"] cef_extension_no_newline
    by (auto simp: cef_line_def Let_def case_prod_beta)
qed

text \<open>The CEF export is one line. Values are escaped so that they can be read back and hold no
  line break, but each record is ended by a backslash and the letter n in place of a line break, so
  that the text of any number of entries has no line break at all.\<close>

lemma cef_export_single_line:
  "newline \<notin> set (export_cef env d f) \<and> cef_unval (cef_val s) = s"
  using cef_line_no_newline cef.dec_enc[of s] by (auto simp: export_cef_def)

lemma leef_attributes_no_newline:
  assumes "rfc3339_ok x" shows "newline \<notin> set (leef_attributes x ev actor seq ts)"
proof -
  have "newline \<notin> set (rfc3339 x ts)" using assms by (auto simp: rfc3339_ok_def)
  then show ?thesis
    by (auto simp: leef_attributes_def Let_def show_bool_def dest!: set_join opt_parts_cases split: if_splits)
qed

lemma leef_id_no_newline: "newline \<notin> set (leef_event_id k)"
  by (simp add: leef_event_id_def)

lemma leef_line_shape:
  assumes "rfc3339_ok x" obtains l where "leef_line x e = l @ [newline]" "newline \<notin> set l"
  using that[of "butlast (leef_line x e)"] leef_id_no_newline leef_attributes_no_newline[OF assms]
  by (simp add: leef_line_def Let_def butlast_append)

text \<open>The LEEF export has one line per selected entry: the number of line breaks is the number
  of entries, and each entry's text ends in the only one it has.\<close>

lemma leef_export_one_line_each:
  assumes "rfc3339_ok x"
  shows "length (filter (\<lambda>c. c = newline) (export_leef env x d f)) = length (load_entries env d f)"
proof -
  have one: "length (filter (\<lambda>c. c = newline) (leef_line x e)) = 1" for e
  proof -
    obtain l where l: "leef_line x e = l @ [newline]" "newline \<notin> set l"
      by (rule leef_line_shape[OF assms])
    then have "filter (\<lambda>c. c = newline) l = []" by (auto simp: filter_empty_conv)
    with l(1) show ?thesis by simp
  qed
  have "length (filter (\<lambda>c. c = newline) (concat (map (leef_line x) es))) = length es" for es
    by (induction es) (simp_all add: one)
  then show ?thesis unfolding export_leef_def by blast
qed

end
