(* ===== verification/User_Db.thy ===== *)
theory User_Db
  imports Events
begin

section \<open>Users, roles and sessions\<close>

text \<open>
  \<open>crates/maranode-common/src/user.rs\<close> and \<open>crates/maranode-store/src/user_db.rs\<close>. The SQLite tables
  of \<open>migrate_users.sql\<close> are lists of rows in the order of their row ids; an operation is the effect
  of its SQL statements, the constraints (primary keys, \<open>UNIQUE\<close>, and foreign keys where the
  connection enforces them) included. Timestamps are stored as RFC 3339 text of UTC, whose order as
  text is the order of time, so the model compares the times. A \<open>Uuid\<close> is its text. The tokens that
  \<open>Uuid::new_v4\<close> draws and the clock are arguments.
\<close>

subsection \<open>user.rs\<close>

datatype permission =
    Chat | RagIngest | RagManage | ModelManage | AuditView | AuditExport | AuditPrune | UserManage
  | WorkspaceManage | IncidentManage | DlpManage | ConfigManage

primrec permission_str :: "permission \<Rightarrow> string" where
  "permission_str Chat = ''chat''"
| "permission_str RagIngest = ''rag_ingest''"
| "permission_str RagManage = ''rag_manage''"
| "permission_str ModelManage = ''model_manage''"
| "permission_str AuditView = ''audit_view''"
| "permission_str AuditExport = ''audit_export''"
| "permission_str AuditPrune = ''audit_prune''"
| "permission_str UserManage = ''user_manage''"
| "permission_str WorkspaceManage = ''workspace_manage''"
| "permission_str IncidentManage = ''incident_manage''"
| "permission_str DlpManage = ''dlp_manage''"
| "permission_str ConfigManage = ''config_manage''"

datatype role = Admin | Operator | Auditor | Viewer

primrec role_permissions :: "role \<Rightarrow> permission list" where
  "role_permissions Admin =
     [Chat, RagIngest, RagManage, ModelManage, AuditView, AuditExport, AuditPrune, UserManage,
      WorkspaceManage, IncidentManage, DlpManage, ConfigManage]"
| "role_permissions Operator = [Chat, RagIngest, RagManage, ModelManage, AuditView]"
| "role_permissions Auditor = [Chat, AuditView, AuditExport]"
| "role_permissions Viewer = [Chat]"

definition role_has :: "role \<Rightarrow> permission \<Rightarrow> bool" where
  "role_has r p \<longleftrightarrow> p \<in> set (role_permissions r)"

definition can_manage_users :: "role \<Rightarrow> bool" where
  "can_manage_users r = role_has r UserManage"

definition can_manage_workspaces :: "role \<Rightarrow> bool" where
  "can_manage_workspaces r = role_has r WorkspaceManage"

definition can_manage_models :: "role \<Rightarrow> bool" where
  "can_manage_models r = role_has r ModelManage"

definition can_ingest_rag :: "role \<Rightarrow> bool" where
  "can_ingest_rag r = role_has r RagIngest"

definition can_view_audit :: "role \<Rightarrow> bool" where
  "can_view_audit r = role_has r AuditView"

definition can_export_compliance :: "role \<Rightarrow> bool" where
  "can_export_compliance r = role_has r AuditExport"

definition can_chat :: "role \<Rightarrow> bool" where
  "can_chat r = role_has r Chat"

primrec role_str :: "role \<Rightarrow> string" where
  "role_str Admin = ''admin''"
| "role_str Operator = ''operator''"
| "role_str Auditor = ''auditor''"
| "role_str Viewer = ''viewer''"

definition role_from_str :: "string \<Rightarrow> role option" where
  "role_from_str s =
     (if s = ''admin'' then Some Admin
      else if s = ''operator'' then Some Operator
      else if s = ''auditor'' then Some Auditor
      else if s = ''viewer'' then Some Viewer
      else None)"

datatype auth_provider = LocalLogin | Oidc | Ldap | Saml

primrec provider_str :: "auth_provider \<Rightarrow> string" where
  "provider_str LocalLogin = ''local''"
| "provider_str Oidc = ''oidc''"
| "provider_str Ldap = ''ldap''"
| "provider_str Saml = ''saml''"

definition provider_from_str :: "string \<Rightarrow> auth_provider option" where
  "provider_from_str s =
     (if s = ''local'' then Some LocalLogin
      else if s = ''oidc'' then Some Oidc
      else if s = ''ldap'' then Some Ldap
      else if s = ''saml'' then Some Saml
      else None)"

interpretation role: string_enum role_str role_from_str "\<lambda>s. s"
proof
  show "role_from_str (role_str r) = Some r" for r
    by (cases r) (simp_all add: role_from_str_def)
  show "s = role_str r" if "role_from_str s = Some r" for s r
    using that by (auto simp: role_from_str_def split: if_splits)
qed

interpretation provider: string_enum provider_str provider_from_str "\<lambda>s. s"
proof
  show "provider_from_str (provider_str p) = Some p" for p
    by (cases p) (simp_all add: provider_from_str_def)
  show "s = provider_str p" if "provider_from_str s = Some p" for s p
    using that by (auto simp: provider_from_str_def split: if_splits)
qed

record user =
  u_id :: string
  u_username :: string
  u_email :: "string option"
  u_password_hash :: "string option"
  u_role :: role
  u_provider :: auth_provider
  u_provider_sub :: "string option"
  u_active :: bool
  u_created_at :: timestamp
  u_last_login :: "timestamp option"

definition is_local :: "user \<Rightarrow> bool" where
  "is_local u \<longleftrightarrow> u_provider u = LocalLogin"

subsection \<open>Tables\<close>

record user_row =
  ur_id :: string
  ur_username :: string
  ur_email :: "string option"
  ur_password_hash :: "string option"
  ur_role :: string
  ur_provider :: string
  ur_provider_sub :: "string option"
  ur_active :: int
  ur_created_at :: timestamp
  ur_last_login :: "timestamp option"

record session_row =
  sr_token :: string
  sr_user_id :: string
  sr_created_at :: timestamp
  sr_expires_at :: timestamp

record reset_row =
  rr_token :: string
  rr_user_id :: string
  rr_expires_at :: timestamp

record user_db =
  db_users :: "user_row list"
  db_sessions :: "session_row list"
  db_resets :: "reset_row list"
  db_foreign_keys :: bool

datatype db_error = UniqueViolation | ForeignKeyViolation

definition row_to_user :: "user_row \<Rightarrow> user" where
  "row_to_user r =
     \<lparr>u_id = ur_id r, u_username = ur_username r, u_email = ur_email r,
      u_password_hash = ur_password_hash r, u_role = unwrap_or Viewer (role_from_str (ur_role r)),
      u_provider = unwrap_or LocalLogin (provider_from_str (ur_provider r)),
      u_provider_sub = ur_provider_sub r, u_active = (ur_active r \<noteq> 0),
      u_created_at = ur_created_at r, u_last_login = ur_last_login r\<rparr>"

definition user_to_row :: "user \<Rightarrow> user_row" where
  "user_to_row u =
     \<lparr>ur_id = u_id u, ur_username = u_username u, ur_email = u_email u,
      ur_password_hash = u_password_hash u, ur_role = role_str (u_role u),
      ur_provider = provider_str (u_provider u), ur_provider_sub = u_provider_sub u,
      ur_active = (if u_active u then 1 else 0), ur_created_at = u_created_at u,
      ur_last_login = u_last_login u\<rparr>"

text \<open>The constraints on one users row against another: a null email clashes with nothing.\<close>

definition user_clash :: "user_row \<Rightarrow> user_row \<Rightarrow> bool" where
  "user_clash a b \<longleftrightarrow>
     ur_id a = ur_id b \<or> ur_username a = ur_username b \<or> (ur_email a \<noteq> None \<and> ur_email a = ur_email b)"

subsection \<open>Users\<close>

definition user_count :: "user_db \<Rightarrow> nat" where
  "user_count db = length (db_users db)"

definition create_user :: "user \<Rightarrow> user_db \<Rightarrow> (db_error, user_db) result" where
  "create_user u db =
     (let r = user_to_row u
      in if \<exists>x \<in> set (db_users db). user_clash r x then Inl UniqueViolation
         else Inr (db\<lparr>db_users := db_users db @ [r]\<rparr>))"

definition list_users :: "user_db \<Rightarrow> user list" where
  "list_users db = map row_to_user (sort_key ur_created_at (db_users db))"

definition find_user :: "(user_row \<Rightarrow> bool) \<Rightarrow> user_db \<Rightarrow> user option" where
  "find_user p db = map_option row_to_user (find p (db_users db))"

definition get_by_id :: "string \<Rightarrow> user_db \<Rightarrow> user option" where
  "get_by_id i = find_user (\<lambda>r. ur_id r = i)"

definition get_by_email :: "string \<Rightarrow> user_db \<Rightarrow> user option" where
  "get_by_email e = find_user (\<lambda>r. ur_email r = Some e)"

definition get_by_username :: "string \<Rightarrow> user_db \<Rightarrow> user option" where
  "get_by_username n = find_user (\<lambda>r. ur_username r = n)"

definition get_by_provider_sub :: "string \<Rightarrow> string \<Rightarrow> user_db \<Rightarrow> user option" where
  "get_by_provider_sub p s = find_user (\<lambda>r. ur_provider r = p \<and> ur_provider_sub r = Some s)"

text \<open>\<open>UPDATE\<close> keeps the row's \<open>created_at\<close>; with no row of that id it changes nothing.\<close>

definition update_row :: "user \<Rightarrow> user_row \<Rightarrow> user_row" where
  "update_row u r = (if ur_id r = u_id u then (user_to_row u)\<lparr>ur_created_at := ur_created_at r\<rparr> else r)"

definition update_user :: "user \<Rightarrow> user_db \<Rightarrow> (db_error, user_db) result" where
  "update_user u db =
     (if (\<exists>r \<in> set (db_users db). ur_id r = u_id u) \<and>
         (\<exists>x \<in> set (db_users db). ur_id x \<noteq> u_id u \<and> user_clash (user_to_row u) x)
      then Inl UniqueViolation
      else Inr (db\<lparr>db_users := map (update_row u) (db_users db)\<rparr>))"

definition delete_user :: "string \<Rightarrow> user_db \<Rightarrow> bool \<times> user_db" where
  "delete_user i db =
     (let hit = (\<exists>r \<in> set (db_users db). ur_id r = i);
          db1 = db\<lparr>db_users := filter (\<lambda>r. ur_id r \<noteq> i) (db_users db)\<rparr>
      in (hit, if db_foreign_keys db \<and> hit
               then db1\<lparr>db_sessions := filter (\<lambda>s. sr_user_id s \<noteq> i) (db_sessions db),
                        db_resets := filter (\<lambda>s. rr_user_id s \<noteq> i) (db_resets db)\<rparr>
               else db1))"

subsection \<open>Sessions\<close>

definition hours :: "int \<Rightarrow> timestamp" where
  "hours n = n * 3600 * 10 ^ 9"

definition set_last_login :: "string \<Rightarrow> timestamp \<Rightarrow> user_row \<Rightarrow> user_row" where
  "set_last_login user_id now r = (if ur_id r = user_id then r\<lparr>ur_last_login := Some now\<rparr> else r)"

definition create_session ::
  "timestamp \<Rightarrow> string \<Rightarrow> string \<Rightarrow> int \<Rightarrow> user_db \<Rightarrow> (db_error, string) result \<times> user_db" where
  "create_session now token user_id ttl_hours db =
     (let db1 = db\<lparr>db_sessions := filter (\<lambda>s. \<not> (sr_user_id s = user_id \<and> sr_expires_at s < now)) (db_sessions db)\<rparr>
      in if token \<in> sr_token ` set (db_sessions db1) then (Inl UniqueViolation, db1)
         else if db_foreign_keys db \<and> user_id \<notin> ur_id ` set (db_users db) then (Inl ForeignKeyViolation, db1)
         else (Inr token,
           db1\<lparr>db_sessions := db_sessions db1 @
                 [\<lparr>sr_token = token, sr_user_id = user_id, sr_created_at = now, sr_expires_at = now + hours ttl_hours\<rparr>],
               db_users := map (set_last_login user_id now) (db_users db1)\<rparr>))"

text \<open>The join: the first session row with the token, not expired, whose user row exists and is
  active.\<close>

definition resolve_session :: "timestamp \<Rightarrow> string \<Rightarrow> user_db \<Rightarrow> user option" where
  "resolve_session now token db =
     (case [row_to_user r. s \<leftarrow> db_sessions db, r \<leftarrow> db_users db,
              sr_user_id s = ur_id r \<and> sr_token s = token \<and> now < sr_expires_at s \<and> ur_active r = 1] of
        [] \<Rightarrow> None | u # _ \<Rightarrow> Some u)"

definition delete_session :: "string \<Rightarrow> user_db \<Rightarrow> user_db" where
  "delete_session token db = db\<lparr>db_sessions := filter (\<lambda>s. sr_token s \<noteq> token) (db_sessions db)\<rparr>"

record session_record =
  sess_token_prefix :: string
  sess_user_id :: string
  sess_username :: "string option"
  sess_created_at :: timestamp
  sess_expires_at :: timestamp

definition row_to_session :: "session_row \<Rightarrow> session_record" where
  "row_to_session s =
     \<lparr>sess_token_prefix = take 8 (sr_token s), sess_user_id = sr_user_id s, sess_username = None,
      sess_created_at = sr_created_at s, sess_expires_at = sr_expires_at s\<rparr>"

definition newest_first :: "session_row list \<Rightarrow> session_row list" where
  "newest_first ss = sort_key (\<lambda>s. - sr_created_at s) ss"

definition list_sessions_for_user :: "timestamp \<Rightarrow> string \<Rightarrow> user_db \<Rightarrow> session_record list" where
  "list_sessions_for_user now user_id db =
     map row_to_session (newest_first (filter (\<lambda>s. sr_user_id s = user_id \<and> now < sr_expires_at s) (db_sessions db)))"

definition list_all_sessions :: "timestamp \<Rightarrow> user_db \<Rightarrow> session_record list" where
  "list_all_sessions now db =
     concat (map (\<lambda>s. map (\<lambda>r. (row_to_session s)\<lparr>sess_username := Some (ur_username r)\<rparr>)
                         (filter (\<lambda>r. ur_id r = sr_user_id s) (db_users db)))
       (newest_first (filter (\<lambda>s. now < sr_expires_at s) (db_sessions db))))"

text \<open>SQLite's \<open>LIKE\<close>: percent is any text, underscore any character, letters compare without
  regard to ASCII case.\<close>

definition ascii_lower :: "char \<Rightarrow> char" where
  "ascii_lower c = (let n = of_char c :: nat in if 65 \<le> n \<and> n \<le> 90 then char_of (n + 32) else c)"

fun sql_like :: "string \<Rightarrow> string \<Rightarrow> bool" where
  "sql_like [] t = (t = [])"
| "sql_like (p # ps) t =
     (if p = CHR ''%'' then sql_like ps t \<or> (case t of [] \<Rightarrow> False | _ # t' \<Rightarrow> sql_like (p # ps) t')
      else (case t of
          [] \<Rightarrow> False
        | c # t' \<Rightarrow> (p = CHR ''_'' \<or> ascii_lower p = ascii_lower c) \<and> sql_like ps t'))"

definition delete_session_by_prefix :: "string \<Rightarrow> string \<Rightarrow> user_db \<Rightarrow> user_db" where
  "delete_session_by_prefix user_id token_prefix db =
     db\<lparr>db_sessions := filter (\<lambda>s. \<not> (sr_user_id s = user_id \<and> sql_like (token_prefix @ ''%'') (sr_token s))) (db_sessions db)\<rparr>"

definition delete_sessions_for_user_except :: "string \<Rightarrow> string \<Rightarrow> user_db \<Rightarrow> nat \<times> user_db" where
  "delete_sessions_for_user_except user_id keep_token db =
     (length (filter (\<lambda>s. sr_user_id s = user_id \<and> sr_token s \<noteq> keep_token) (db_sessions db)),
      db\<lparr>db_sessions := filter (\<lambda>s. \<not> (sr_user_id s = user_id \<and> sr_token s \<noteq> keep_token)) (db_sessions db)\<rparr>)"

subsection \<open>Password reset tokens\<close>

definition minutes :: "int \<Rightarrow> timestamp" where
  "minutes n = n * 60 * 10 ^ 9"

definition create_reset_token ::
  "timestamp \<Rightarrow> string \<Rightarrow> string \<Rightarrow> user_db \<Rightarrow> (db_error, string) result \<times> user_db" where
  "create_reset_token now token user_id db =
     (let db1 = db\<lparr>db_resets := filter (\<lambda>r. \<not> rr_expires_at r < now) (db_resets db)\<rparr>
      in if token \<in> rr_token ` set (db_resets db1) then (Inl UniqueViolation, db1)
         else if db_foreign_keys db \<and> user_id \<notin> ur_id ` set (db_users db) then (Inl ForeignKeyViolation, db1)
         else (Inr token, db1\<lparr>db_resets := db_resets db1 @
                [\<lparr>rr_token = token, rr_user_id = user_id, rr_expires_at = now + minutes 30\<rparr>]\<rparr>))"

definition consume_reset_token :: "timestamp \<Rightarrow> string \<Rightarrow> user_db \<Rightarrow> string option \<times> user_db" where
  "consume_reset_token now token db =
     (case find (\<lambda>r. rr_token r = token \<and> now < rr_expires_at r) (db_resets db) of
        None \<Rightarrow> (None, db)
      | Some r \<Rightarrow> (Some (rr_user_id r), db\<lparr>db_resets := filter (\<lambda>x. rr_token x \<noteq> token) (db_resets db)\<rparr>))"

subsection \<open>Well-formed tables\<close>

lemma row_user_roundtrip [simp]: "row_to_user (user_to_row u) = u"
  by (simp add: row_to_user_def user_to_row_def role.parse_print provider.parse_print)

lemma user_to_row_keys [simp]: "ur_id (user_to_row u) = u_id u"
  "ur_username (user_to_row u) = u_username u" "ur_email (user_to_row u) = u_email u"
  by (simp_all add: user_to_row_def)

definition users_ok :: "user_row list \<Rightarrow> bool" where
  "users_ok rs \<longleftrightarrow> sorted_wrt (\<lambda>a b. \<not> user_clash a b) rs"

definition user_db_ok :: "user_db \<Rightarrow> bool" where
  "user_db_ok db \<longleftrightarrow>
     users_ok (db_users db) \<and> distinct (map sr_token (db_sessions db)) \<and> distinct (map rr_token (db_resets db)) \<and>
     (db_foreign_keys db \<longrightarrow> sr_user_id ` set (db_sessions db) \<subseteq> ur_id ` set (db_users db) \<and>
        rr_user_id ` set (db_resets db) \<subseteq> ur_id ` set (db_users db))"

lemma user_clash_sym: "user_clash a b \<longleftrightarrow> user_clash b a"
  unfolding user_clash_def by metis

lemma users_ok_snoc: "users_ok (rs @ [r]) \<longleftrightarrow> users_ok rs \<and> (\<forall>x \<in> set rs. \<not> user_clash r x)"
  using user_clash_sym by (auto simp: users_ok_def sorted_wrt_append)

lemma users_ok_filter: "users_ok rs \<Longrightarrow> users_ok (filter p rs)"
  by (simp add: users_ok_def sorted_wrt_filter)

lemma users_ok_ids: "users_ok rs \<Longrightarrow> distinct (map ur_id rs)"
  by (induction rs) (auto simp: users_ok_def user_clash_def)

lemma users_ok_names: "users_ok rs \<Longrightarrow> distinct (map ur_username rs)"
  by (induction rs) (auto simp: users_ok_def user_clash_def)

lemma find_key:
  "distinct (map f rs) \<Longrightarrow> r \<in> set rs \<Longrightarrow> find (\<lambda>x. f x = f r) rs = Some r"
proof (induction rs)
  case (Cons x rs)
  then show ?case by (cases "x = r") force+
qed simp

lemma users_ok_map:
  assumes "users_ok rs" and "\<And>a b. \<not> user_clash a b \<Longrightarrow> a \<in> set rs \<Longrightarrow> b \<in> set rs \<Longrightarrow> \<not> user_clash (f a) (f b)"
  shows "users_ok (map f rs)"
  using assms unfolding users_ok_def sorted_wrt_map by (auto elim: sorted_wrt_mono_rel[rotated])

lemma update_row_id [simp]: "ur_id (update_row u r) = ur_id r"
  by (simp add: update_row_def)

lemma set_last_login_keys [simp]:
  "ur_id (set_last_login i t r) = ur_id r" "ur_username (set_last_login i t r) = ur_username r"
  "ur_email (set_last_login i t r) = ur_email r" "ur_active (set_last_login i t r) = ur_active r"
  by (simp_all add: set_last_login_def)

lemma update_user_ok:
  assumes "users_ok rs"
    and "\<not> ((\<exists>r \<in> set rs. ur_id r = u_id u) \<and>
            (\<exists>x \<in> set rs. ur_id x \<noteq> u_id u \<and> user_clash (user_to_row u) x))"
  shows "users_ok (map (update_row u) rs)"
proof (rule users_ok_map[OF assms(1)])
  fix a b
  assume ab: "\<not> user_clash a b" "a \<in> set rs" "b \<in> set rs"
  have clash: "user_clash ((user_to_row u)\<lparr>ur_created_at := t\<rparr>) x = user_clash (user_to_row u) x"
    "user_clash x ((user_to_row u)\<lparr>ur_created_at := t\<rparr>) = user_clash x (user_to_row u)" for t x
    by (auto simp: user_clash_def)
  show "\<not> user_clash (update_row u a) (update_row u b)"
    using ab assms(2) user_clash_sym[of a "user_to_row u"]
    by (auto simp: clash update_row_def) (auto simp: user_clash_def)
qed

lemma set_last_login_ok: "users_ok rs \<Longrightarrow> users_ok (map (set_last_login i t) rs)"
  by (rule users_ok_map) (auto simp: user_clash_def)

lemma distinct_map_filter_key: "distinct (map f xs) \<Longrightarrow> distinct (map f (filter p xs))"
  by (induction xs) auto

subsection \<open>Every operation keeps the tables well formed\<close>

inductive user_db_step :: "user_db \<Rightarrow> user_db \<Rightarrow> bool" where
  step_create: "create_user u db = Inr db' \<Longrightarrow> user_db_step db db'"
| step_update: "update_user u db = Inr db' \<Longrightarrow> user_db_step db db'"
| step_delete: "user_db_step db (snd (delete_user i db))"
| step_session: "user_db_step db (snd (create_session now token i ttl db))"
| step_logout: "user_db_step db (delete_session token db)"
| step_revoke: "user_db_step db (delete_session_by_prefix i token_prefix db)"
| step_revoke_others: "user_db_step db (snd (delete_sessions_for_user_except i token db))"
| step_reset: "user_db_step db (snd (create_reset_token now token i db))"
| step_consume: "user_db_step db (snd (consume_reset_token now token db))"

definition empty_user_db :: "bool \<Rightarrow> user_db" where
  "empty_user_db fk = \<lparr>db_users = [], db_sessions = [], db_resets = [], db_foreign_keys = fk\<rparr>"

lemma user_db_step_ok: "user_db_step db db' \<Longrightarrow> user_db_ok db \<Longrightarrow> user_db_ok db'"
proof (induction rule: user_db_step.induct)
  case (step_create u db db')
  then show ?case
    by (auto simp: create_user_def user_db_ok_def Let_def users_ok_snoc image_subset_iff split: if_splits)
next
  case (step_update u db db')
  then have "db' = db\<lparr>db_users := map (update_row u) (db_users db)\<rparr>"
    and "users_ok (db_users db')"
    using update_user_ok[of "db_users db" u] by (auto simp: update_user_def user_db_ok_def split: if_splits)
  with step_update.prems show ?case by (auto simp: user_db_ok_def image_image)
next
  case (step_delete db i)
  then show ?case
    by (auto simp: delete_user_def user_db_ok_def Let_def users_ok_filter distinct_map_filter_key)
next
  case (step_session db now token i ttl)
  then show ?case
    by (auto simp: create_session_def user_db_ok_def Let_def distinct_map_filter_key set_last_login_ok
        image_image)
next
  case (step_reset db now token i)
  then show ?case
    by (auto simp: create_reset_token_def user_db_ok_def Let_def distinct_map_filter_key)
qed (auto simp: delete_session_def delete_session_by_prefix_def delete_sessions_for_user_except_def
      consume_reset_token_def user_db_ok_def distinct_map_filter_key split: option.split)

interpretation users: inv_system "\<lambda>db. \<exists>fk. db = empty_user_db fk" user_db_step user_db_ok
proof
  show "user_db_ok s" if "\<exists>fk. s = empty_user_db fk" for s
    using that by (auto simp: empty_user_db_def user_db_ok_def users_ok_def)
  show "user_db_ok t" if "user_db_ok s" "user_db_step s t" for s t
    using user_db_step_ok[OF that(2,1)] .
qed


text \<open>C4: the user database stays well formed. From the empty database, through any sequence of
  its operations, user ids, user names and non-null emails stay unique, as do session and reset
  tokens, and where foreign keys are enforced every session and reset token belongs to a user.\<close>

theorem user_db_invariant:
  assumes "user_db_step\<^sup>*\<^sup>* (empty_user_db fk) db"
  shows "user_db_ok db"
  using users.steps_inv[OF assms] users.inv_init by blast

definition demo_user :: user where
  "demo_user = \<lparr>u_id = ''1'', u_username = ''jane'', u_email = Some ''j@x'', u_password_hash = None,
     u_role = Operator, u_provider = Oidc, u_provider_sub = Some ''s'', u_active = True, u_created_at = 5,
     u_last_login = None\<rparr>"

definition demo_user_db :: user_db where
  "demo_user_db = (empty_user_db True)\<lparr>db_users := [user_to_row demo_user]\<rparr>"

theorem user_db_invariant_witness: "user_db_ok (delete_session ''t'' demo_user_db)"
proof -
  have "user_db_step (empty_user_db True) demo_user_db"
    by (rule step_create[of demo_user]) (simp add: create_user_def empty_user_db_def demo_user_db_def)
  then have "user_db_step\<^sup>*\<^sup>* (empty_user_db True) (delete_session ''t'' demo_user_db)"
    using step_logout[of demo_user_db "''t''"] by (intro rtranclp.rtrancl_into_rtrancl[OF r_into_rtranclp])
  then show ?thesis by (rule user_db_invariant)
qed

subsection \<open>Users that were stored are found\<close>

lemma find_appendI: "find p (xs @ ys) = (case find p xs of None \<Rightarrow> find p ys | Some x \<Rightarrow> Some x)"
  by (induction xs) auto

text \<open>A created user is found again. When \<open>create\<close> succeeds, \<open>get_by_id\<close>, \<open>get_by_username\<close> and
  (for a user with one) \<open>get_by_email\<close> return the user with the role and provider that were stored as
  text, and no other lookup by id or name changes; when one of its keys is taken, it fails.\<close>

lemma create_user_found:
  "case create_user u db of
     Inl e \<Rightarrow> (\<exists>x \<in> set (db_users db). u_id u = ur_id x \<or> u_username u = ur_username x \<or>
                 (u_email u \<noteq> None \<and> u_email u = ur_email x))
   | Inr db' \<Rightarrow> get_by_id (u_id u) db' = Some u \<and> get_by_username (u_username u) db' = Some u \<and>
       (case u_email u of None \<Rightarrow> True | Some e \<Rightarrow> get_by_email e db' = Some u) \<and>
       (\<forall>i. i = u_id u \<or> get_by_id i db' = get_by_id i db) \<and>
       (\<forall>n. n = u_username u \<or> get_by_username n db' = get_by_username n db)"
proof (cases "\<exists>x \<in> set (db_users db). user_clash (user_to_row u) x")
  case True
  then show ?thesis by (simp add: create_user_def user_clash_def)
next
  case False
  then have "find (\<lambda>r. ur_id r = u_id u) (db_users db) = None"
    "find (\<lambda>r. ur_username r = u_username u) (db_users db) = None"
    "u_email u = Some e \<Longrightarrow> find (\<lambda>r. ur_email r = Some e) (db_users db) = None" for e
    by (auto simp: find_None_iff user_clash_def)
  with False show ?thesis
    by (auto simp: create_user_def get_by_id_def get_by_username_def get_by_email_def find_user_def find_appendI
        split: option.split)
qed

subsection \<open>Sessions\<close>

text \<open>What a token stands for: with unique keys the join has at most one row.\<close>

lemma resolve_session_iff:
  assumes "user_db_ok db"
  shows "resolve_session now token db = Some u \<longleftrightarrow>
     (\<exists>s \<in> set (db_sessions db). \<exists>r \<in> set (db_users db).
        sr_token s = token \<and> sr_user_id s = ur_id r \<and> now < sr_expires_at s \<and> ur_active r = 1 \<and> u = row_to_user r)"
proof -
  let ?xs = "[row_to_user r. s \<leftarrow> db_sessions db, r \<leftarrow> db_users db,
      sr_user_id s = ur_id r \<and> sr_token s = token \<and> now < sr_expires_at s \<and> ur_active r = 1]"
  let ?P = "\<lambda>u. \<exists>s \<in> set (db_sessions db). \<exists>r \<in> set (db_users db).
        sr_token s = token \<and> sr_user_id s = ur_id r \<and> now < sr_expires_at s \<and> ur_active r = 1 \<and> u = row_to_user r"
  have members: "u \<in> set ?xs \<longleftrightarrow> ?P u" for u by (auto split: if_splits)
  have dist: "distinct (map sr_token (db_sessions db))" "distinct (map ur_id (db_users db))"
    using assms users_ok_ids by (auto simp: user_db_ok_def)
  have unique: "u = v" if "?P u" "?P v" for u v
    using that dist by (metis (mono_tags, lifting) distinct_map inj_on_def)
  show ?thesis
  proof (cases ?xs)
    case Nil
    then have "resolve_session now token db = None" unfolding resolve_session_def Nil by simp
    then show ?thesis using members[of u] unfolding Nil by simp
  next
    case (Cons v vs)
    have r: "resolve_session now token db = Some v" unfolding resolve_session_def Cons by simp
    have v: "?P v" using members[of v] unfolding Cons by simp
    show ?thesis
    proof
      assume "resolve_session now token db = Some u"
      then have "u = v" using r by simp
      then show "?P u" using v by (simp only:)
    next
      assume "?P u"
      then have "u = v" using v by (rule unique)
      then show "resolve_session now token db = Some u" using r by (simp only:)
    qed
  qed
qed

lemma resolve_session_None:
  assumes "user_db_ok db"
    and "\<And>s r. s \<in> set (db_sessions db) \<Longrightarrow> r \<in> set (db_users db) \<Longrightarrow> sr_token s = token \<Longrightarrow>
      sr_user_id s = ur_id r \<Longrightarrow> now < sr_expires_at s \<Longrightarrow> ur_active r \<noteq> 1"
  shows "resolve_session now token db = None"
  using resolve_session_iff[OF assms(1)] assms(2) by (cases "resolve_session now token db") blast+

lemma created_session:
  assumes "user_db_ok db" and "r \<in> set (db_users db)" and "ur_id r = i"
    and "create_session now token i ttl db = (Inr tok, db')"
  shows "tok = token \<and>
    resolve_session t token db' =
      (if t < now + hours ttl \<and> ur_active r = 1 then Some (row_to_user (r\<lparr>ur_last_login := Some now\<rparr>)) else None) \<and>
    resolve_session t token (delete_session token db') = None \<and>
    resolve_session t token (snd (delete_user i db')) = None"
proof -
  let ?s = "\<lparr>sr_token = token, sr_user_id = i, sr_created_at = now, sr_expires_at = now + hours ttl\<rparr>"
  have ok': "user_db_ok db'" using user_db_step_ok[OF step_session assms(1)] assms(4) by (metis snd_conv)
  have db': "tok = token" "?s \<in> set (db_sessions db')" "set_last_login i now r \<in> set (db_users db')"
    using assms(2,4) by (auto simp: create_session_def Let_def split: if_splits)
  have upd: "set_last_login i now r = r\<lparr>ur_last_login := Some now\<rparr>"
    using assms(3) by (simp add: set_last_login_def)
  have dist: "distinct (map sr_token (db_sessions db'))" "distinct (map ur_id (db_users db'))"
    using ok' users_ok_ids by (auto simp: user_db_ok_def)
  have "s = ?s" if "s \<in> set (db_sessions db')" "sr_token s = token" for s
    using that db'(2) dist(1) by (auto simp: distinct_map inj_on_def)
  from arg_cong[OF this, where f = sr_user_id] arg_cong[OF this, where f = sr_expires_at]
  have only: "sr_user_id s = i \<and> sr_expires_at s = now + hours ttl"
    if "s \<in> set (db_sessions db')" "sr_token s = token" for s using that by simp
  have "x = set_last_login i now r" if "x \<in> set (db_users db')" "ur_id x = i" for x
    using that db'(3) dist(2) assms(3) by (auto simp: distinct_map inj_on_def)
  from arg_cong[OF this, where f = ur_active]
  have only_user: "ur_active x = ur_active r" if "x \<in> set (db_users db')" "ur_id x = i" for x
    using that by simp
  have "resolve_session t token db' =
      (if t < now + hours ttl \<and> ur_active r = 1 then Some (row_to_user (set_last_login i now r)) else None)"
  proof (cases "t < now + hours ttl \<and> ur_active r = 1")
    case True
    have "resolve_session t token db' = Some (row_to_user (set_last_login i now r))"
      unfolding resolve_session_iff[OF ok']
      by (rule bexI[OF _ db'(2)], rule bexI[OF _ db'(3)]) (use True assms(3) in simp)
    then show ?thesis using True by simp
  next
    case False
    have "resolve_session t token db' = None"
      by (rule resolve_session_None[OF ok']) (use False only only_user in metis)
    with False show ?thesis by simp
  qed
  moreover have "resolve_session t token (delete_session token db') = None"
    using user_db_step_ok[OF step_logout ok'] by (rule resolve_session_None) (auto simp: delete_session_def)
  moreover have "resolve_session t token (snd (delete_user i db')) = None"
    using user_db_step_ok[OF step_delete ok'] only
    by (intro resolve_session_None) (auto simp: delete_user_def Let_def split: if_splits)
  ultimately show ?thesis using db'(1) upd by simp
qed

text \<open>C8: a session is good exactly as long as it should be. A successful \<open>create_session\<close> gives a
  token that resolves to the user (with its last login set) before the session's end when the
  account is active, and to nothing afterwards or when it is disabled; \<open>delete_session\<close>, and deleting
  the user, end it at once.\<close>

theorem session_lifecycle:
  assumes "user_db_ok db" and "r \<in> set (db_users db)" and "ur_id r = i"
    and "create_session now token i ttl db = (Inr tok, db')"
  shows "tok = token \<and>
    resolve_session t token db' =
      (if t < now + hours ttl \<and> ur_active r = 1 then Some (row_to_user (r\<lparr>ur_last_login := Some now\<rparr>)) else None) \<and>
    resolve_session t token (delete_session token db') = None \<and>
    resolve_session t token (snd (delete_user i db')) = None"
  using assms by (rule created_session)

theorem session_lifecycle_witness:
  "(let (r, db') = create_session 0 ''tok'' ''1'' 1 demo_user_db
    in r = Inr ''tok'' \<and>
       resolve_session 7 ''tok'' db' = Some (demo_user\<lparr>u_last_login := Some 0\<rparr>) \<and>
       resolve_session (hours 1) ''tok'' db' = None)"
proof -
  have ok: "user_db_ok demo_user_db"
    by (simp add: demo_user_db_def empty_user_db_def user_db_ok_def users_ok_def)
  have mem: "user_to_row demo_user \<in> set (db_users demo_user_db)" by (simp add: demo_user_db_def)
  obtain db' where db': "create_session 0 ''tok'' ''1'' 1 demo_user_db = (Inr ''tok'', db')"
    by (auto simp: create_session_def demo_user_db_def empty_user_db_def demo_user_def user_to_row_def)
  have user: "row_to_user ((user_to_row demo_user)\<lparr>ur_last_login := Some 0\<rparr>) = demo_user\<lparr>u_last_login := Some 0\<rparr>"
    by (simp add: row_to_user_def user_to_row_def demo_user_def role_from_str_def provider_from_str_def)
  note life = session_lifecycle[OF ok mem _ db']
  from life[of 7] life[of "hours 1"] show ?thesis
    by (simp add: db' user)
      (simp add: demo_user_def user_to_row_def hours_def row_to_user_def role_from_str_def provider_from_str_def)
qed

text \<open>A reset token works once. A token that \<open>create_reset_token\<close> gave out is exchanged for its
  user id within thirty minutes, and then never again; once they are over it is refused.\<close>

lemma reset_token_single_use:
  assumes "create_reset_token now token i db = (Inr tok, db')"
  shows "tok = token \<and>
    fst (consume_reset_token t token db') = (if t < now + minutes 30 then Some i else None) \<and>
    (fst (consume_reset_token t token db') \<noteq> None \<longrightarrow>
       fst (consume_reset_token t' token (snd (consume_reset_token t token db'))) = None)"
proof -
  let ?old = "filter (\<lambda>r. \<not> rr_expires_at r < now) (db_resets db)"
  let ?r = "\<lparr>rr_token = token, rr_user_id = i, rr_expires_at = now + minutes 30\<rparr>"
  have db': "tok = token" "db_resets db' = ?old @ [?r]" "token \<notin> rr_token ` set ?old"
    using assms by (auto simp: create_reset_token_def Let_def split: if_splits)
  have old: "find (\<lambda>r. rr_token r = token \<and> t < rr_expires_at r) ?old = None" for t
    using db'(3) by (auto simp: find_None_iff)
  have found: "find (\<lambda>r. rr_token r = token \<and> t < rr_expires_at r) (db_resets db') =
      (if t < now + minutes 30 then Some ?r else None)" for t
    using old by (simp add: db'(2) find_appendI)
  have gone: "find (\<lambda>r. rr_token r = token \<and> t' < rr_expires_at r)
      (filter (\<lambda>x. rr_token x \<noteq> token) (db_resets db')) = None"
    by (auto simp: find_None_iff)
  show ?thesis using db'(1) gone by (auto simp: consume_reset_token_def found split: option.splits)
qed

end
