(* ===== verification/Crypto.thy ===== *)
theory Crypto
  imports Maranode_Prelude
begin

section \<open>Keys at rest: the shared shape of sealed text\<close>

text \<open>
  Workspace keys (\<open>kek.rs\<close>) and document chunks (\<open>crypt.rs\<close>) are both stored as a prefix followed by
  the hex of a nonce and an AES-256-GCM ciphertext. AES-GCM (crate \<open>aes-gcm\<close>), the \<open>hex\<close> crate and
  SHA-256 are the record \<open>crypto\<close>; nonces and keys that the code draws at random are arguments. Byte
  strings are lists of characters, a \<open>String\<close> is one that is valid UTF-8.
\<close>

type_synonym bytes = string

record crypto =
  aead_seal :: "bytes \<Rightarrow> bytes \<Rightarrow> bytes \<Rightarrow> bytes"
  aead_open :: "bytes \<Rightarrow> bytes \<Rightarrow> bytes \<Rightarrow> bytes option"
  hex_encode :: "bytes \<Rightarrow> string"
  hex_decode :: "string \<Rightarrow> bytes option"
  sha256_hex :: "bytes \<Rightarrow> string"

text \<open>What the crates document: decryption with the key and nonce of encryption gives the plain text
  back, and hex decoding undoes hex encoding.\<close>

definition crypto_ok :: "crypto \<Rightarrow> bool" where
  "crypto_ok cr \<longleftrightarrow>
     (\<forall>k n p. aead_open cr k n (aead_seal cr k n p) = Some p) \<and> (\<forall>b. hex_decode cr (hex_encode cr b) = Some b)"

text \<open>\<open>String::from_utf8\<close>: the well-formed byte sequences of UTF-8.\<close>

definition utf8_cont :: "nat \<Rightarrow> bool" where
  "utf8_cont b \<longleftrightarrow> 128 \<le> b \<and> b \<le> 191"

fun utf8_valid :: "nat list \<Rightarrow> bool" where
  "utf8_valid [] = True"
| "utf8_valid (a # s) =
     (if a < 128 then utf8_valid s
      else case s of
        [] \<Rightarrow> False
      | b # s1 \<Rightarrow>
          if 194 \<le> a \<and> a \<le> 223 then utf8_cont b \<and> utf8_valid s1
          else case s1 of
            [] \<Rightarrow> False
          | c # s2 \<Rightarrow>
              if 224 \<le> a \<and> a \<le> 239 then
                (if a = 224 then 160 \<le> b \<and> b \<le> 191
                 else if a = 237 then 128 \<le> b \<and> b \<le> 159 else utf8_cont b)
                \<and> utf8_cont c \<and> utf8_valid s2
              else case s2 of
                [] \<Rightarrow> False
              | d # s3 \<Rightarrow>
                  240 \<le> a \<and> a \<le> 244 \<and>
                  (if a = 240 then 144 \<le> b \<and> b \<le> 191
                   else if a = 244 then 128 \<le> b \<and> b \<le> 143 else utf8_cont b)
                  \<and> utf8_cont c \<and> utf8_cont d \<and> utf8_valid s3)"

definition is_utf8 :: "bytes \<Rightarrow> bool" where
  "is_utf8 s = utf8_valid (ascii s)"

definition from_utf8 :: "bytes \<Rightarrow> string option" where
  "from_utf8 b = (if is_utf8 b then Some b else None)"

lemma utf8_ascii: "\<forall>c \<in> set s. c < 128 \<Longrightarrow> utf8_valid s"
  by (induction s) auto

text \<open>\<open>str::trim\<close> on UTF-8 text: the encodings of the white space characters are taken off both
  ends. UTF-8 is self-synchronising, so the reversed encodings may be matched from behind.\<close>

definition ws_utf8 :: "nat list list" where
  "ws_utf8 = map (\<lambda>b. [b]) [9, 10, 11, 12, 13, 32] @ [[194, 133], [194, 160], [225, 154, 128]]
     @ map (\<lambda>b. [226, 128, b]) ([128..<139] @ [168, 169, 175]) @ [[226, 129, 159], [227, 128, 128]]"

function strip_seqs :: "nat list list \<Rightarrow> nat list \<Rightarrow> nat list" where
  "strip_seqs ws s = (case find (\<lambda>w. w \<noteq> [] \<and> prefix w s) ws of
      None \<Rightarrow> s
    | Some w \<Rightarrow> strip_seqs ws (drop (length w) s))"
  by pat_completeness auto
termination
proof (relation "measure (length \<circ> snd)", goal_cases)
  case (2 ws s w)
  then show ?case by (auto simp: find_Some_iff dest: prefix_length_le) (metis diff_less length_greater_0_conv prefix_Nil)
qed simp

declare strip_seqs.simps [simp del]

definition str_trim :: "string \<Rightarrow> string" where
  "str_trim s = map char_of (rev (strip_seqs (map rev ws_utf8) (rev (strip_seqs ws_utf8 (ascii s)))))"

lemma strip_seqs_id: "\<forall>w \<in> set ws. w = [] \<or> \<not> prefix w s \<Longrightarrow> strip_seqs ws s = s"
  by (subst strip_seqs.simps) (auto simp: find_None_iff split: option.splits dest!: find_Some_iff[THEN iffD1])

lemma strip_graphic:
  assumes "\<forall>c \<in> set s. 33 \<le> c \<and> c < 127"
  shows "strip_seqs ws_utf8 s = s" "strip_seqs (map rev ws_utf8) s = s"
proof -
  have "\<not> prefix w s" if "w \<in> set ws_utf8 \<or> w \<in> set (map rev ws_utf8)" for w
  proof
    assume "prefix w s"
    then have "set w \<subseteq> set s" by (rule set_mono_prefix)
    moreover have "w \<noteq> [] \<and> (hd w < 33 \<or> 127 \<le> hd w)" 
      using that by (auto simp: ws_utf8_def)
    moreover from this have "hd w \<in> set w" by simp
    ultimately show False using assms by fastforce
  qed
  then show "strip_seqs ws_utf8 s = s" "strip_seqs (map rev ws_utf8) s = s"
    by (intro strip_seqs_id; blast)+
qed

lemma map_char_ascii [simp]: "map char_of (ascii s) = s"
  by (simp add: ascii_def comp_def)

lemma str_trim_graphic: "\<forall>c \<in> set s. 33 \<le> (of_char c :: nat) \<and> of_char c < (127 :: nat) \<Longrightarrow> str_trim s = s"
  by (simp add: str_trim_def strip_graphic ascii_def comp_def)

lemma str_trim_Nil [simp]: "str_trim [] = []"
  by (simp add: str_trim_graphic)

lemma str_trim_examples: "str_trim '' '' = []" "str_trim ''k '' = ''k''"
  by code_simp+

text \<open>\<open>str::strip_prefix\<close>.\<close>

fun strip_prefix :: "'a list \<Rightarrow> 'a list \<Rightarrow> 'a list option" where
  "strip_prefix [] s = Some s"
| "strip_prefix (p # ps) [] = None"
| "strip_prefix (p # ps) (c # cs) = (if p = c then strip_prefix ps cs else None)"

lemma strip_prefix_append [simp]: "strip_prefix p (p @ s) = Some s"
  by (induction p) auto

lemma strip_prefix_iff: "strip_prefix p s = Some r \<longleftrightarrow> s = p @ r"
  by (induction p s rule: strip_prefix.induct) auto

lemma strip_prefix_None: "strip_prefix p s = None \<longleftrightarrow> \<not> prefix p s"
  using strip_prefix_iff by (cases "strip_prefix p s") (auto simp: prefix_def)

definition starts_with :: "string \<Rightarrow> string \<Rightarrow> bool" where
  "starts_with p s \<longleftrightarrow> strip_prefix p s \<noteq> None"

lemma starts_with_append [simp]: "starts_with p (p @ s)"
  by (simp add: starts_with_def)

subsection \<open>The contract of sealed text\<close>

datatype seal_error = NoPrefix | BadHex | TooShort | OpenFailed | NotUtf8 | NoKey | BadKeyLength

locale sealed_text =
  fixes ok :: bool
    and wrap :: "bytes \<Rightarrow> bytes \<Rightarrow> string \<Rightarrow> string"
    and unwrap :: "bytes \<Rightarrow> string \<Rightarrow> (seal_error, string) result"
    and marked :: "string \<Rightarrow> bool"
  assumes unwrap_wrap: "ok \<Longrightarrow> length nonce = 12 \<Longrightarrow> is_utf8 s \<Longrightarrow> unwrap key (wrap key nonce s) = Inr s"
    and wrap_marked: "marked (wrap key nonce s)"
    and unwrap_marked: "\<not> marked t \<Longrightarrow> unwrap key t = Inl NoPrefix"
begin

text \<open>Reading a stored value that may or may not be sealed gives back what was stored, as long as
  values stored in the clear do not carry the mark.\<close>

definition read_stored :: "bytes \<Rightarrow> string \<Rightarrow> (seal_error, string) result" where
  "read_stored key t = (if marked t then unwrap key t else Inr t)"

lemma read_wrapped: "ok \<Longrightarrow> length nonce = 12 \<Longrightarrow> is_utf8 s \<Longrightarrow> read_stored key (wrap key nonce s) = Inr s"
  by (simp add: read_stored_def wrap_marked unwrap_wrap)

lemma read_clear: "\<not> marked s \<Longrightarrow> read_stored key s = Inr s"
  by (simp add: read_stored_def)

lemma wrap_inj: "ok \<Longrightarrow> length n = 12 \<Longrightarrow> length n' = 12 \<Longrightarrow> is_utf8 s \<Longrightarrow> is_utf8 s' \<Longrightarrow>
    wrap key n s = wrap key n' s' \<Longrightarrow> s = s'"
  using unwrap_wrap by (metis sum.inject(2))

end

definition demo_crypto :: crypto where
  "demo_crypto =
     \<lparr>aead_seal = (\<lambda>k n p. k @ p),
      aead_open = (\<lambda>k n c. strip_prefix k c),
      hex_encode = (\<lambda>b. b), hex_decode = (\<lambda>s. Some s), sha256_hex = (\<lambda>b. b)\<rparr>"

lemma demo_crypto_ok: "crypto_ok demo_crypto"
  by (simp add: crypto_ok_def demo_crypto_def)

end
