(* ===== verification/Workspace_Db.thy ===== *)
theory Workspace_Db
  imports Crypto Events
begin

section \<open>Workspaces and their data-encryption keys\<close>

text \<open>
  \<open>crates/maranode-common/src/workspace.rs\<close>, \<open>crates/maranode-store/src/workspace_db.rs\<close> and
  \<open>kek.rs\<close>. The table \<open>workspaces\<close> is a list of rows; a workspace's data key (DEK) is kept in its
  row, wrapped under the master key (KEK) when the database was opened with one. The lemmas show
  that a key is read back after creation and after a rotation of the master key, that destroying it
  is final, and what an interrupted rotation leaves behind.
\<close>

record workspace =
  ws_id :: string
  ws_slug :: string
  ws_name :: string
  ws_api_key_hash :: "string option"
  ws_model_allowlist :: "string list"
  ws_rate_limit_rpm :: "nat option"
  ws_system_prompt :: "string option"
  ws_created_at :: timestamp
  ws_net_namespace :: bool
  ws_max_concurrent_requests :: "nat option"
  ws_max_models :: "nat option"
  ws_max_memory_bytes :: "nat option"
  ws_dek :: "string option"

definition allows_model :: "workspace \<Rightarrow> string \<Rightarrow> bool" where
  "allows_model w name_tag \<longleftrightarrow> ws_model_allowlist w = [] \<or> (\<exists>m \<in> set (ws_model_allowlist w). m = name_tag)"

subsection \<open>kek.rs\<close>

abbreviation kek_prefix :: string where "kek_prefix \<equiv> ''wrapped:''"

definition wrap_dek :: "crypto \<Rightarrow> bytes \<Rightarrow> bytes \<Rightarrow> string \<Rightarrow> string" where
  "wrap_dek cr kek nonce dek_hex = kek_prefix @ hex_encode cr (nonce @ aead_seal cr kek nonce dek_hex)"

definition unwrap_dek :: "crypto \<Rightarrow> bytes \<Rightarrow> string \<Rightarrow> (seal_error, string) result" where
  "unwrap_dek cr kek wrapped =
     rbind (ok_or NoPrefix (strip_prefix kek_prefix wrapped)) (\<lambda>hex_part.
     rbind (ok_or BadHex (hex_decode cr hex_part)) (\<lambda>blob.
       if length blob < 12 then Inl TooShort
       else rbind (ok_or OpenFailed (aead_open cr kek (take 12 blob) (drop 12 blob))) (\<lambda>plain.
         ok_or NotUtf8 (from_utf8 plain))))"

definition is_wrapped :: "string \<Rightarrow> bool" where
  "is_wrapped value = starts_with kek_prefix value"

text \<open>The master key file: its text, or none. \<open>hex.trim()\<close> before decoding.\<close>

definition kek_load_or_create ::
  "crypto \<Rightarrow> bytes \<Rightarrow> string option \<Rightarrow> (seal_error, bytes) result \<times> string option" where
  "kek_load_or_create cr random file = (case file of
      Some hex \<Rightarrow>
        (rbind (ok_or BadHex (hex_decode cr (str_trim hex))) (\<lambda>b.
           if length b = 32 then Inr b else Inl BadKeyLength), file)
    | None \<Rightarrow> (Inr random, Some (hex_encode cr random)))"

interpretation dek: sealed_text "crypto_ok cr" "wrap_dek cr" "unwrap_dek cr" is_wrapped
  for cr
proof
  show "unwrap_dek cr key (wrap_dek cr key nonce s) = Inr s"
    if "crypto_ok cr" "length nonce = 12" "is_utf8 s" for key nonce s
    unfolding unwrap_dek_def wrap_dek_def strip_prefix_append
    using that by (simp add: crypto_ok_def from_utf8_def)
  show "is_wrapped (wrap_dek cr key nonce s)" for key nonce s
    unfolding is_wrapped_def wrap_dek_def by (rule starts_with_append)
  show "unwrap_dek cr key t = Inl NoPrefix" if "\<not> is_wrapped t" for t key
    using that by (simp add: unwrap_dek_def is_wrapped_def starts_with_def)
qed

subsection \<open>workspace\_db.rs\<close>

text \<open>A row holds the allow-list joined with commas and the DEK as stored.\<close>

record ws_row =
  wr_ws :: workspace
  wr_allowlist :: string
  wr_dek :: "string option"

record workspace_db =
  wd_rows :: "ws_row list"
  wd_kek :: "bytes option"

datatype ws_error = WsUnique | WsDefault | WsSeal seal_error

fun split_comma :: "string \<Rightarrow> string list" where
  "split_comma [] = [[]]"
| "split_comma (c # s) =
     (if c = CHR '','' then [] # split_comma s
      else case split_comma s of [] \<Rightarrow> [[c]] | p # ps \<Rightarrow> (c # p) # ps)"

definition parse_allowlist :: "string \<Rightarrow> string list" where
  "parse_allowlist s = filter (\<lambda>p. p \<noteq> []) (map str_trim (split_comma s))"

fun join_comma :: "string list \<Rightarrow> string" where
  "join_comma [] = []"
| "join_comma [x] = x"
| "join_comma (x # y # xs) = x @ '','' @ join_comma (y # xs)"

definition row_workspace :: "ws_row \<Rightarrow> workspace" where
  "row_workspace r = (wr_ws r)\<lparr>ws_model_allowlist := parse_allowlist (wr_allowlist r), ws_dek := wr_dek r\<rparr>"

definition ws_list :: "workspace_db \<Rightarrow> workspace list" where
  "ws_list db = map row_workspace (sort_key (\<lambda>r. ws_created_at (wr_ws r)) (wd_rows db))"

definition get_by_slug :: "string \<Rightarrow> workspace_db \<Rightarrow> workspace option" where
  "get_by_slug slug db = map_option row_workspace (find (\<lambda>r. ws_slug (wr_ws r) = slug) (wd_rows db))"

definition ws_create ::
  "crypto \<Rightarrow> bytes \<Rightarrow> string \<Rightarrow> workspace \<Rightarrow> workspace_db \<Rightarrow> (ws_error, workspace_db) result" where
  "ws_create cr nonce fresh_dek ws db =
     (let raw_dek = unwrap_or fresh_dek (ws_dek ws);
          dek = (case wd_kek db of Some kek \<Rightarrow> wrap_dek cr kek nonce raw_dek | None \<Rightarrow> raw_dek)
      in if \<exists>r \<in> set (wd_rows db). ws_id (wr_ws r) = ws_id ws \<or> ws_slug (wr_ws r) = ws_slug ws then Inl WsUnique
         else Inr (db\<lparr>wd_rows := wd_rows db @
                [\<lparr>wr_ws = ws, wr_allowlist = join_comma (ws_model_allowlist ws), wr_dek = Some dek\<rparr>]\<rparr>))"

text \<open>\<open>UPDATE\<close> leaves the id, the creation time and the DEK as they are.\<close>

definition ws_update_row :: "workspace \<Rightarrow> ws_row \<Rightarrow> ws_row" where
  "ws_update_row ws r =
     (if ws_slug (wr_ws r) = ws_slug ws
      then r\<lparr>wr_ws := ws\<lparr>ws_id := ws_id (wr_ws r), ws_created_at := ws_created_at (wr_ws r)\<rparr>,
             wr_allowlist := join_comma (ws_model_allowlist ws)\<rparr>
      else r)"

definition ws_update :: "workspace \<Rightarrow> workspace_db \<Rightarrow> bool \<times> workspace_db" where
  "ws_update ws db =
     (\<exists>r \<in> set (wd_rows db). ws_slug (wr_ws r) = ws_slug ws,
      db\<lparr>wd_rows := map (ws_update_row ws) (wd_rows db)\<rparr>)"

definition ws_delete :: "string \<Rightarrow> workspace_db \<Rightarrow> (ws_error, bool) result \<times> workspace_db" where
  "ws_delete slug db =
     (if slug = ''default'' then (Inl WsDefault, db)
      else (Inr (\<exists>r \<in> set (wd_rows db). ws_slug (wr_ws r) = slug),
            db\<lparr>wd_rows := filter (\<lambda>r. ws_slug (wr_ws r) \<noteq> slug) (wd_rows db)\<rparr>))"

definition get_dek_bytes ::
  "crypto \<Rightarrow> string \<Rightarrow> workspace_db \<Rightarrow> (seal_error, bytes option) result" where
  "get_dek_bytes cr slug db =
     (case (case find (\<lambda>r. ws_slug (wr_ws r) = slug) (wd_rows db) of None \<Rightarrow> None | Some r \<Rightarrow> wr_dek r) of
        None \<Rightarrow> Inr None
      | Some s \<Rightarrow>
          rbind (if is_wrapped s
                 then (case wd_kek db of Some kek \<Rightarrow> unwrap_dek cr kek s | None \<Rightarrow> Inl NoKey)
                 else Inr s) (\<lambda>hex.
          rbind (ok_or BadHex (hex_decode cr hex)) (\<lambda>bytes.
            if length bytes = 32 then Inr (Some bytes) else Inl BadKeyLength)))"

definition set_dek :: "string \<Rightarrow> string option \<Rightarrow> ws_row list \<Rightarrow> ws_row list" where
  "set_dek slug dek rows = map (\<lambda>r. if ws_slug (wr_ws r) = slug then r\<lparr>wr_dek := dek\<rparr> else r) rows"

definition destroy_dek :: "string \<Rightarrow> workspace_db \<Rightarrow> bool \<times> workspace_db" where
  "destroy_dek slug db =
     (\<exists>r \<in> set (wd_rows db). ws_slug (wr_ws r) = slug, db\<lparr>wd_rows := set_dek slug None (wd_rows db)\<rparr>)"

text \<open>\<open>rotate_all\<close>: the slugs and stored keys are read first; each is then unwrapped, wrapped again
  and written with a statement of its own, and the first failure ends the loop with the rows before
  it already written. The nonces are drawn one per key.\<close>

fun rotate_loop ::
  "crypto \<Rightarrow> (nat \<Rightarrow> bytes) \<Rightarrow> bytes \<Rightarrow> bytes \<Rightarrow> (string \<times> string) list \<Rightarrow> nat \<Rightarrow> ws_row list \<Rightarrow>
     (seal_error, nat) result \<times> ws_row list" where
  "rotate_loop cr nonces old_kek new_kek [] rotated rows = (Inr rotated, rows)"
| "rotate_loop cr nonces old_kek new_kek ((slug, stored) # rest) rotated rows =
     (case (if is_wrapped stored then unwrap_dek cr old_kek stored else Inr stored) of
        Inl e \<Rightarrow> (Inl e, rows)
      | Inr dek_hex \<Rightarrow>
          rotate_loop cr nonces old_kek new_kek rest (Suc rotated)
            (set_dek slug (Some (wrap_dek cr new_kek (nonces rotated) dek_hex)) rows))"

definition rotate_all ::
  "crypto \<Rightarrow> (nat \<Rightarrow> bytes) \<Rightarrow> bytes \<Rightarrow> bytes \<Rightarrow> ws_row list \<Rightarrow> (seal_error, nat) result \<times> ws_row list" where
  "rotate_all cr nonces old_kek new_kek rows =
     rotate_loop cr nonces old_kek new_kek
       (List.map_filter (\<lambda>r. map_option (\<lambda>d. (ws_slug (wr_ws r), d)) (wr_dek r)) rows) 0 rows"

definition rotate_kek ::
  "crypto \<Rightarrow> (nat \<Rightarrow> bytes) \<Rightarrow> bytes \<Rightarrow> bytes \<Rightarrow> workspace_db \<Rightarrow> (seal_error, nat) result \<times> workspace_db" where
  "rotate_kek cr nonces old_kek new_kek db =
     (case rotate_all cr nonces old_kek new_kek (wd_rows db) of
        (Inl e, rows) \<Rightarrow> (Inl e, db\<lparr>wd_rows := rows\<rparr>)
      | (Inr n, rows) \<Rightarrow> (Inr n, db\<lparr>wd_rows := rows, wd_kek := Some new_kek\<rparr>))"

subsection \<open>Reading a key back\<close>

definition slugs_ok :: "ws_row list \<Rightarrow> bool" where
  "slugs_ok rows \<longleftrightarrow> distinct (map (\<lambda>r. ws_slug (wr_ws r)) rows)"

abbreviation dek_of :: "string \<Rightarrow> ws_row list \<Rightarrow> string option" where
  "dek_of slug rows \<equiv> (case find (\<lambda>r. ws_slug (wr_ws r) = slug) rows of None \<Rightarrow> None | Some r \<Rightarrow> wr_dek r)"

definition dek_value :: "crypto \<Rightarrow> string \<Rightarrow> (seal_error, bytes option) result" where
  "dek_value cr hex = rbind (ok_or BadHex (hex_decode cr hex)) (\<lambda>bytes.
     if length bytes = 32 then Inr (Some bytes) else Inl BadKeyLength)"

lemma get_dek_unfold:
  "get_dek_bytes cr slug db = (case dek_of slug (wd_rows db) of
      None \<Rightarrow> Inr None
    | Some s \<Rightarrow> (case wd_kek db of
          Some kek \<Rightarrow> rbind (dek.read_stored cr kek s) (dek_value cr)
        | None \<Rightarrow> if is_wrapped s then Inl NoKey else dek_value cr s))"
  by (auto simp: get_dek_bytes_def dek.read_stored_def dek_value_def[abs_def] split: option.split)

lemma dek_of_set_dek:
  "dek_of slug (set_dek slug' d rows) =
     (if slug = slug' \<and> (\<exists>r \<in> set rows. ws_slug (wr_ws r) = slug) then d else dek_of slug rows)"
proof (induction rows)
  case (Cons r rows)
  then show ?case by (cases "ws_slug (wr_ws r) = slug"; cases "slug = slug'") (auto simp: set_dek_def)
qed (simp add: set_dek_def)

lemma dek_of_append:
  "\<forall>r \<in> set rows. ws_slug (wr_ws r) \<noteq> ws_slug (wr_ws x) \<Longrightarrow>
     dek_of slug (rows @ [x]) = (if slug = ws_slug (wr_ws x) then wr_dek x else dek_of slug rows)"
  by (induction rows) auto

text \<open>A workspace's key is read back. After \<open>create\<close> succeeds, \<open>get_dek_bytes\<close> returns the bytes of
  the key that was given or generated, whether it is stored wrapped under the master key or, with no
  master key, in the clear; the keys of the other workspaces are as before.\<close>

lemma created_dek_is_read_back:
  assumes "crypto_ok cr" and "length nonce = 12"
    and "raw = unwrap_or fresh_dek (ws_dek ws)" and "is_utf8 raw"
    and "hex_decode cr raw = Some bytes" and "length bytes = 32" and "\<not> is_wrapped raw"
    and "ws_create cr nonce fresh_dek ws db = Inr db'"
  shows "get_dek_bytes cr (ws_slug ws) db' = Inr (Some bytes) \<and>
    (\<forall>slug. slug = ws_slug ws \<or> get_dek_bytes cr slug db' = get_dek_bytes cr slug db)"
proof -
  let ?dek = "case wd_kek db of Some kek \<Rightarrow> wrap_dek cr kek nonce raw | None \<Rightarrow> raw"
  have db': "wd_rows db' = wd_rows db @ [\<lparr>wr_ws = ws, wr_allowlist = join_comma (ws_model_allowlist ws), wr_dek = Some ?dek\<rparr>]"
    "wd_kek db' = wd_kek db" "\<forall>r \<in> set (wd_rows db). ws_slug (wr_ws r) \<noteq> ws_slug ws"
    using assms(3,8) by (auto simp: ws_create_def Let_def split: if_splits)
  have look: "dek_of slug (wd_rows db') = (if slug = ws_slug ws then Some ?dek else dek_of slug (wd_rows db))" for slug
    using db'(3) dek_of_append[of "wd_rows db" "\<lparr>wr_ws = ws, wr_allowlist = join_comma (ws_model_allowlist ws), wr_dek = Some ?dek\<rparr>" slug]
    by (simp add: db'(1))
  have "dek_value cr raw = Inr (Some bytes)" using assms(5,6) by (simp add: dek_value_def)
  moreover have "dek.read_stored cr kek (wrap_dek cr kek nonce raw) = Inr raw" for kek
    using dek.read_wrapped[OF assms(1,2,4)] .
  ultimately show ?thesis
    unfolding get_dek_unfold look db'(2) using assms(7) by (auto split: option.split)
qed

definition demo_ws :: workspace where
  "demo_ws = \<lparr>ws_id = ''1'', ws_slug = ''a'', ws_name = ''A'', ws_api_key_hash = None, ws_model_allowlist = [''m''],
     ws_rate_limit_rpm = None, ws_system_prompt = None, ws_created_at = 0, ws_net_namespace = False,
     ws_max_concurrent_requests = None, ws_max_models = None, ws_max_memory_bytes = None, ws_dek = None\<rparr>"

definition demo_dek :: string where
  "demo_dek = replicate 32 (CHR ''d'')"

lemma demo_dek_ok: "is_utf8 demo_dek" "\<not> is_wrapped demo_dek" "length demo_dek = 32"
  unfolding is_utf8_def demo_dek_def is_wrapped_def starts_with_def
  by (simp_all add: ascii_def numeral_eq_Suc)

subsection \<open>Rotation of the master key\<close>

lemma find_slug: "slugs_ok rows \<Longrightarrow> r \<in> set rows \<Longrightarrow> find (\<lambda>x. ws_slug (wr_ws x) = ws_slug (wr_ws r)) rows = Some r"
  unfolding slugs_ok_def by (induction rows) (auto simp: image_iff)

lemma set_dek_slugs [simp]: "map (\<lambda>r. ws_slug (wr_ws r)) (set_dek s d rows) = map (\<lambda>r. ws_slug (wr_ws r)) rows"
  by (simp add: set_dek_def)

definition stored_deks :: "ws_row list \<Rightarrow> (string \<times> string) list" where
  "stored_deks rows = List.map_filter (\<lambda>r. map_option (\<lambda>d. (ws_slug (wr_ws r), d)) (wr_dek r)) rows"

lemma stored_deks_distinct: "slugs_ok rows \<Longrightarrow> distinct (map fst (stored_deks rows))"
proof (induction rows)
  case (Cons r rows)
  have "fst ` set (stored_deks rows) \<subseteq> (\<lambda>r. ws_slug (wr_ws r)) ` set rows"
    by (induction rows) (auto simp: stored_deks_def map_filter_simps split: option.splits)
  then show ?case using Cons
    by (auto simp: stored_deks_def slugs_ok_def map_filter_simps split: option.splits)
qed (simp add: stored_deks_def map_filter_simps)

lemma stored_deks_dek_of: "slugs_ok rows \<Longrightarrow> map_of (stored_deks rows) slug = dek_of slug rows"
proof (induction rows)
  case (Cons r rows)
  have "slug \<notin> (\<lambda>r. ws_slug (wr_ws r)) ` set rows \<Longrightarrow> map_of (stored_deks rows) slug = None"
    by (induction rows) (auto simp: stored_deks_def map_filter_simps split: option.splits)
  then show ?case using Cons
    by (auto simp: stored_deks_def slugs_ok_def map_filter_simps split: option.splits)
qed (simp add: stored_deks_def map_filter_simps)

lemma stored_slug_in: "(slug, d) \<in> set (stored_deks rows) \<Longrightarrow> \<exists>r \<in> set rows. ws_slug (wr_ws r) = slug"
  by (induction rows) (auto simp: stored_deks_def map_filter_simps split: option.splits)

text \<open>The loop over \<open>todo\<close>: each key in it is stored anew, wrapped under the new master key, and the
  others stay.\<close>

lemma rotate_loop_ok:
  assumes "rotate_loop cr nonces old new todo k rows = (Inr n, rows')" and "distinct (map fst todo)"
    and "\<forall>(slug, d) \<in> set todo. \<exists>r \<in> set rows. ws_slug (wr_ws r) = slug"
  shows "n = k + length todo \<and> (\<forall>slug. case map_of todo slug of
      None \<Rightarrow> dek_of slug rows' = dek_of slug rows
    | Some d \<Rightarrow> \<exists>j hex. dek.read_stored cr old d = Inr hex \<and> dek_of slug rows' = Some (wrap_dek cr new (nonces j) hex))"
  using assms
proof (induction cr nonces old new todo k rows rule: rotate_loop.induct)
  case (2 cr nonces old new slug stored rest k rows)
  obtain hex where hex: "dek.read_stored cr old stored = Inr hex"
    using 2(2) by (auto simp: dek.read_stored_def split: sum.splits if_splits)
  let ?rows = "set_dek slug (Some (wrap_dek cr new (nonces k) hex)) rows"
  have run: "rotate_loop cr nonces old new rest (Suc k) ?rows = (Inr n, rows')"
    using 2(2) hex by (auto simp: dek.read_stored_def split: sum.splits if_splits)
  have mem: "(\<exists>r \<in> set (set_dek s d rs). ws_slug (wr_ws r) = x) \<longleftrightarrow> (\<exists>r \<in> set rs. ws_slug (wr_ws r) = x)" for s d rs x
    by (induction rs) (auto simp: set_dek_def)
  have IH: "n = Suc k + length rest \<and> (\<forall>slug. case map_of rest slug of
      None \<Rightarrow> dek_of slug rows' = dek_of slug ?rows
    | Some d \<Rightarrow> \<exists>j hex. dek.read_stored cr old d = Inr hex \<and> dek_of slug rows' = Some (wrap_dek cr new (nonces j) hex))"
    using 2(1)[of hex] hex run 2(3,4) by (auto simp: dek.read_stored_def mem)
  show ?case
  proof (intro conjI allI)
    show "n = k + length ((slug, stored) # rest)" using IH by simp
    fix s
    have slug: "map_of rest slug = None" using 2(3) by (auto simp: map_of_eq_None_iff)
    show "case map_of ((slug, stored) # rest) s of
        None \<Rightarrow> dek_of s rows' = dek_of s rows
      | Some d \<Rightarrow> \<exists>j hex. dek.read_stored cr old d = Inr hex \<and> dek_of s rows' = Some (wrap_dek cr new (nonces j) hex)"
    proof (cases "s = slug")
      case True
      have "dek_of slug rows' = dek_of slug ?rows" using conjunct2[OF IH, rule_format, of slug] slug by simp
      also have "\<dots> = Some (wrap_dek cr new (nonces k) hex)" using 2(4) by (subst dek_of_set_dek) auto
      finally show ?thesis using hex True by auto
    next
      case False
      have same: "dek_of s ?rows = dek_of s rows" using False by (subst dek_of_set_dek) simp
      show ?thesis using conjunct2[OF IH, rule_format, of s] False unfolding same by simp
    qed
  qed
qed simp



definition demo_rows :: "ws_row list" where
  "demo_rows = [\<lparr>wr_ws = demo_ws, wr_allowlist = ''m'', wr_dek = Some demo_dek\<rparr>,
     \<lparr>wr_ws = demo_ws\<lparr>ws_id := ''2'', ws_slug := ''b''\<rparr>, wr_allowlist = [],
      wr_dek = Some (wrap_dek demo_crypto ''old'' ''123456789012'' demo_dek)\<rparr>]"

lemma demo_unwrap: "unwrap_dek demo_crypto ''old'' (wrap_dek demo_crypto ''old'' ''123456789012'' demo_dek) = Inr demo_dek"
  using demo_dek_ok(1) by (intro dek.unwrap_wrap[OF demo_crypto_ok]) simp_all


lemma rotate_keeps_none:
  "rotate_loop cr nonces old new todo k rows = (res, rows') \<Longrightarrow> s \<notin> fst ` set todo \<Longrightarrow>
     dek_of s rows' = dek_of s rows"
proof (induction cr nonces old new todo k rows rule: rotate_loop.induct)
  case (2 cr nonces old new slug stored rest k rows)
  then show ?case by (auto simp: dek_of_set_dek split: sum.splits if_splits)
qed simp

text \<open>A rotation that fails part-way makes keys unreadable. The rows are written one by one with no
  transaction, and the database keeps the old master key on an error: the key of a workspace whose row
  was already written is then refused, although it was readable before.\<close>

lemma failed_rotation_strands_dek:
  assumes "crypto_ok cr" and "length (nonces 0) = 12" and "slugs_ok (r # rows)" and "wr_dek r = Some d"
    and "dek.read_stored cr old d = Inr hex"
    and "aead_open cr old (nonces 0) (aead_seal cr new (nonces 0) hex) = None"
    and "wd_rows db = r # rows" and "wd_kek db = Some old"
    and "rotate_kek cr nonces old new db = (Inl e, db')"
  shows "get_dek_bytes cr (ws_slug (wr_ws r)) db' = Inl OpenFailed"
proof -
  let ?slug = "ws_slug (wr_ws r)"
  let ?rows = "set_dek ?slug (Some (wrap_dek cr new (nonces 0) hex)) (r # rows)"
  have todo: "stored_deks (r # rows) = (?slug, d) # stored_deks rows"
    using assms(4) by (simp add: stored_deks_def map_filter_simps)
  obtain rows' where run: "rotate_loop cr nonces old new (stored_deks rows) 1 ?rows = (Inl e, rows')"
    and db': "db' = db\<lparr>wd_rows := rows'\<rparr>"
    using assms(5,7,9) todo
    by (auto simp: rotate_kek_def rotate_all_def stored_deks_def[symmetric] dek.read_stored_def
        split: prod.splits sum.splits if_splits)
  have "?slug \<notin> fst ` set (stored_deks rows)"
    using stored_deks_distinct[OF assms(3)] todo by simp
  from rotate_keeps_none[OF run this] have stored: "dek_of ?slug rows' = Some (wrap_dek cr new (nonces 0) hex)"
    by (simp add: dek_of_set_dek)
  have "unwrap_dek cr old (wrap_dek cr new (nonces 0) hex) = Inl OpenFailed"
    unfolding unwrap_dek_def wrap_dek_def strip_prefix_append
    using assms(1,2,6) by (simp add: crypto_ok_def)
  then have "dek.read_stored cr old (wrap_dek cr new (nonces 0) hex) = Inl OpenFailed"
    by (simp add: dek.read_stored_def dek.wrap_marked)
  then show ?thesis unfolding get_dek_unfold using stored assms(8) by (simp add: db')
qed

subsection \<open>Crypto-shredding\<close>

lemma dek_of_update: "dek_of s (map (ws_update_row w) rows) = dek_of s rows"
  by (induction rows) (auto simp: ws_update_row_def)

text \<open>A destroyed key stays destroyed. After \<open>destroy_dek\<close> the workspace has no key, the other
  workspaces keep theirs, and neither an update of any workspace nor a rotation of the master key,
  successful or not, brings it back.\<close>

lemma destroyed_dek_stays_destroyed:
  assumes "slugs_ok (wd_rows db)" and "db1 = snd (destroy_dek slug db)"
  shows "get_dek_bytes cr slug db1 = Inr None \<and>
    (\<forall>s. s = slug \<or> get_dek_bytes cr s db1 = get_dek_bytes cr s db) \<and>
    (\<forall>w. get_dek_bytes cr slug (snd (ws_update w db1)) = Inr None) \<and>
    (\<forall>nonces old new. get_dek_bytes cr slug (snd (rotate_kek cr nonces old new db1)) = Inr None)"
proof -
  have rows: "wd_rows db1 = set_dek slug None (wd_rows db)" "wd_kek db1 = wd_kek db"
    using assms(2) by (simp_all add: destroy_dek_def)
  have gone: "dek_of slug (wd_rows db1) = None"
    unfolding rows(1) dek_of_set_dek by (auto simp: find_Some_iff split: option.splits)
  have others: "s = slug \<or> dek_of s (wd_rows db1) = dek_of s (wd_rows db)" for s
    unfolding rows(1) dek_of_set_dek by auto
  have "slug \<notin> fst ` set (stored_deks (wd_rows db1))"
  proof -
    have "slugs_ok (wd_rows db1)" using assms(1) by (simp add: rows(1) slugs_ok_def)
    from stored_deks_dek_of[OF this, of slug] gone show ?thesis by (simp add: map_of_eq_None_iff)
  qed
  then have rotated: "dek_of slug (wd_rows (snd (rotate_kek cr nonces old new db1))) = None" for nonces old new
    using rotate_keeps_none[of cr nonces old new "stored_deks (wd_rows db1)" 0 "wd_rows db1" _ _ slug] gone
    by (auto simp: rotate_kek_def rotate_all_def stored_deks_def[symmetric] split: prod.split sum.split)
  have "get_dek_bytes cr s db1 = get_dek_bytes cr s db" if "s \<noteq> slug" for s
    using others[of s] that unfolding get_dek_unfold rows(2) by simp
  then show ?thesis
    using gone rotated by (auto simp: get_dek_unfold[of cr slug] ws_update_def dek_of_update)
qed

subsection \<open>The model allow-list\<close>

lemma split_comma_plain: "CHR '','' \<notin> set s \<Longrightarrow> split_comma s = [s]"
  by (induction s) auto

lemma split_comma_cons: "CHR '','' \<notin> set x \<Longrightarrow> split_comma (x @ CHR '','' # s) = x # split_comma s"
  by (induction x) auto

lemma split_join: "xs \<noteq> [] \<Longrightarrow> \<forall>x \<in> set xs. CHR '','' \<notin> set x \<Longrightarrow> split_comma (join_comma xs) = xs"
  by (induction xs rule: join_comma.induct) (auto simp: split_comma_plain split_comma_cons)

definition plain_name :: "string \<Rightarrow> bool" where
  "plain_name s \<longleftrightarrow> s \<noteq> [] \<and> CHR '','' \<notin> set s \<and> str_trim s = s"

lemma parse_allowlist_join: "\<forall>x \<in> set xs. plain_name x \<Longrightarrow> parse_allowlist (join_comma xs) = xs"
proof (cases "xs = []")
  case True
  then show ?thesis by (simp add: parse_allowlist_def)
next
  case False
  assume "\<forall>x \<in> set xs. plain_name x"
  with False have "map str_trim xs = xs" "filter (\<lambda>p. p \<noteq> []) xs = xs" "split_comma (join_comma xs) = xs"
    by (auto simp: plain_name_def map_idI split_join)
  then show ?thesis by (simp add: parse_allowlist_def)
qed

text \<open>The allow-list of models is kept, and one of blank names is no restriction at all. For names
  that are not empty, hold no comma and have no outer white space, the workspace read back allows
  exactly the listed models; a list of names that are all blank is stored and read back as the empty
  list, which allows every model.\<close>

lemma allowlist_stored:
  assumes "ws_create cr nonce fresh_dek ws db = Inr db'"
  shows "(list_all plain_name (ws_model_allowlist ws) \<longrightarrow>
      (\<exists>w. get_by_slug (ws_slug ws) db' = Some w \<and> (\<forall>m. allows_model w m = allows_model ws m))) \<and>
    (list_all (\<lambda>x. CHR '','' \<notin> set x \<and> str_trim x = []) (ws_model_allowlist ws) \<longrightarrow>
      (\<exists>w. get_by_slug (ws_slug ws) db' = Some w \<and> (\<forall>m. allows_model w m)))"
proof -
  obtain dek where db': "wd_rows db' = wd_rows db @ [\<lparr>wr_ws = ws, wr_allowlist = join_comma (ws_model_allowlist ws), wr_dek = dek\<rparr>]"
    "\<forall>r \<in> set (wd_rows db). ws_slug (wr_ws r) \<noteq> ws_slug ws"
    using assms by (auto simp: ws_create_def Let_def split: if_splits)
  have last: "find (\<lambda>r. ws_slug (wr_ws r) = ws_slug ws) (rs @ [x]) = Some x"
    if "\<forall>r \<in> set rs. ws_slug (wr_ws r) \<noteq> ws_slug ws" "ws_slug (wr_ws x) = ws_slug ws" for rs x
    using that by (induction rs) auto
  have get: "get_by_slug (ws_slug ws) db' = Some (ws\<lparr>ws_model_allowlist := parse_allowlist (join_comma (ws_model_allowlist ws)), ws_dek := dek\<rparr>)"
    unfolding get_by_slug_def db'(1) by (subst last[OF db'(2)]) (simp_all add: row_workspace_def)
  have "parse_allowlist (join_comma xs) = []" if "list_all (\<lambda>x. CHR '','' \<notin> set x \<and> str_trim x = []) xs" for xs
  proof (cases "xs = []")
    case True
    then show ?thesis using parse_allowlist_join[of "[]"] by simp
  next
    case False
    then have "split_comma (join_comma xs) = xs" using that by (auto simp: list_all_iff intro: split_join)
    then show ?thesis using that by (auto simp: parse_allowlist_def list_all_iff filter_empty_conv)
  qed
  then show ?thesis
    using get parse_allowlist_join[of "ws_model_allowlist ws"] by (auto simp: allows_model_def list_all_iff)
qed

end
