(* ===== verification/Access.thy ===== *)
theory Access
  imports User_Db Workspace_Db Secure
begin

section \<open>Who may call what\<close>

text \<open>
  \<open>crates/maranode-api/src/user_ctx.rs\<close> and \<open>workspace_ctx.rs\<close>: the extractors that turn the headers of
  a request into a user, an administrator or a workspace, and the check of privileged endpoints. A
  request's headers are given by the values of the two headers the code reads, each absent (or not
  visible ASCII) or a string. The administrator's key is part of the runtime configuration. The user
  database is used through its contract \<open>session_store\<close>: a token resolves to an active user only.
\<close>

record headers =
  hd_authorization :: "string option"
  hd_workspace :: "string option"

datatype auth_error = MissingCredentials | InvalidToken | InactiveAccount | AuthForbidden

definition auth_status :: "auth_error \<Rightarrow> nat" where
  "auth_status e = (case e of
      MissingCredentials \<Rightarrow> 401 | InvalidToken \<Rightarrow> 401 | InactiveAccount \<Rightarrow> 403 | AuthForbidden \<Rightarrow> 403)"

datatype api_error = ApiForbidden string

definition bearer_from_headers :: "headers \<Rightarrow> string option" where
  "bearer_from_headers h =
     (case (case hd_authorization h of None \<Rightarrow> None | Some v \<Rightarrow> strip_prefix ''Bearer '' v) of
        None \<Rightarrow> None
      | Some v \<Rightarrow> (if str_trim v \<noteq> [] then Some (str_trim v) else None))"

definition admin_key_set :: "string option \<Rightarrow> bool" where
  "admin_key_set key \<longleftrightarrow> (case key of None \<Rightarrow> False | Some k \<Rightarrow> k \<noteq> [])"

definition is_admin_key :: "string option \<Rightarrow> string \<Rightarrow> bool" where
  "is_admin_key key token = (case key of None \<Rightarrow> False | Some ak \<Rightarrow> ak \<noteq> [] \<and> ct_eq_str token ak)"

text \<open>The session store as the extractors use it: \<open>resolve\<close> is \<open>resolve_session\<close> at the time of the
  request, with database errors as \<open>Inl\<close>.\<close>

type_synonym session_resolver = "string \<Rightarrow> (db_error, user option) result"

definition synthetic_admin :: "timestamp \<Rightarrow> user" where
  "synthetic_admin now =
     \<lparr>u_id = ''00000000-0000-0000-0000-000000000000'', u_username = ''admin'', u_email = None,
      u_password_hash = None, u_role = Admin, u_provider = LocalLogin, u_provider_sub = None,
      u_active = True, u_created_at = now, u_last_login = None\<rparr>"

definition user_from_request ::
  "session_resolver \<Rightarrow> string option \<Rightarrow> timestamp \<Rightarrow> headers \<Rightarrow> (auth_error, user) result" where
  "user_from_request resolve admin_key now h =
     rbind (ok_or MissingCredentials (bearer_from_headers h)) (\<lambda>token.
       if is_admin_key admin_key token then Inr (synthetic_admin now)
       else (case resolve token of
           Inl _ \<Rightarrow> Inl InvalidToken
         | Inr None \<Rightarrow> Inl InvalidToken
         | Inr (Some user) \<Rightarrow> if \<not> u_active user then Inl InactiveAccount else Inr user))"

definition admin_from_request ::
  "session_resolver \<Rightarrow> string option \<Rightarrow> timestamp \<Rightarrow> headers \<Rightarrow> (auth_error, user) result" where
  "admin_from_request resolve admin_key now h =
     rbind (user_from_request resolve admin_key now h) (\<lambda>user.
       if \<not> can_manage_users (u_role user) then Inl AuthForbidden else Inr user)"

definition user_require :: "user \<Rightarrow> permission \<Rightarrow> (api_error, unit) result" where
  "user_require u perm = (if role_has (u_role u) perm then Inr () else Inl (ApiForbidden ''insufficient permissions''))"

definition authorize_privileged ::
  "session_resolver \<Rightarrow> string option \<Rightarrow> (role \<Rightarrow> bool) \<Rightarrow> headers \<Rightarrow> (api_error, unit) result" where
  "authorize_privileged resolve admin_key perm h =
     (let token = bearer_from_headers h
      in if (case token of None \<Rightarrow> False | Some t \<Rightarrow> is_admin_key admin_key t) then Inr ()
         else if (case token of
                    None \<Rightarrow> False
                  | Some t \<Rightarrow> (case resolve t of
                        Inr (Some user) \<Rightarrow> u_active user \<and> perm (u_role user)
                      | _ \<Rightarrow> False)) then Inr ()
         else if \<not> admin_key_set admin_key then Inr ()
         else Inl (ApiForbidden ''admin privileges required''))"

definition authorize_permission ::
  "session_resolver \<Rightarrow> string option \<Rightarrow> permission \<Rightarrow> headers \<Rightarrow> (api_error, unit) result" where
  "authorize_permission resolve admin_key perm h = authorize_privileged resolve admin_key (\<lambda>r. role_has r perm) h"

subsection \<open>workspace\_ctx.rs\<close>

datatype ws_auth_error = WsNotFound string | WsInvalidKey

definition workspace_from_request ::
  "crypto \<Rightarrow> workspace_db \<Rightarrow> string option \<Rightarrow> headers \<Rightarrow> (ws_auth_error, workspace) result" where
  "workspace_from_request cr db admin_key h =
     (let slug = unwrap_or ''default'' (hd_workspace h);
          bearer = unwrap_or [] (case hd_authorization h of None \<Rightarrow> None | Some v \<Rightarrow> strip_prefix ''Bearer '' v)
      in if is_admin_key admin_key bearer
         then ok_or (WsNotFound slug) (get_by_slug slug db)
         else rbind (ok_or (WsNotFound slug) (get_by_slug slug db)) (\<lambda>ws.
           case ws_api_key_hash ws of
             None \<Rightarrow> Inr ws
           | Some expected_hash \<Rightarrow>
               if \<not> ct_eq_str (sha256_hex cr bearer) expected_hash then Inl WsInvalidKey else Inr ws))"

subsection \<open>The contract of the session store\<close>

locale session_store =
  fixes resolve :: session_resolver
  assumes resolve_active: "resolve t = Inr (Some u) \<Longrightarrow> u_active u"
begin

lemma never_inactive: "user_from_request resolve key now h \<noteq> Inl InactiveAccount"
  using resolve_active
  by (auto simp: user_from_request_def rbind_def ok_or_def split: option.splits sum.splits if_splits)

lemma user_from_request_active: "user_from_request resolve key now h = Inr u \<Longrightarrow> u_active u"
  by (auto simp: user_from_request_def rbind_def ok_or_def synthetic_admin_def
      split: option.splits sum.splits if_splits)

lemma privileged_iff:
  "authorize_privileged resolve key perm h = Inr () \<longleftrightarrow>
     \<not> admin_key_set key \<or>
     (\<exists>t. bearer_from_headers h = Some t \<and>
        (is_admin_key key t \<or> (\<exists>u. resolve t = Inr (Some u) \<and> perm (u_role u))))"
  using resolve_active
  by (auto simp: authorize_privileged_def Let_def split: option.splits sum.splits)

end

text \<open>The store of the daemon at a time: \<open>resolve_session\<close> on its user database.\<close>

definition db_resolver :: "timestamp \<Rightarrow> user_db \<Rightarrow> session_resolver" where
  "db_resolver now db t = Inr (resolve_session now t db)"

lemma first_mem: "(case xs of [] \<Rightarrow> None | u # _ \<Rightarrow> Some u) = Some u \<Longrightarrow> u \<in> set xs"
  by (cases xs) auto

lemma resolve_session_active: "resolve_session now t db = Some u \<Longrightarrow> u_active u"
proof -
  assume "resolve_session now t db = Some u"
  then have "u \<in> set [row_to_user r. s \<leftarrow> db_sessions db, r \<leftarrow> db_users db,
      sr_user_id s = ur_id r \<and> sr_token s = t \<and> now < sr_expires_at s \<and> ur_active r = 1]"
    unfolding resolve_session_def by (rule first_mem)
  then show ?thesis by (auto simp: row_to_user_def split: if_splits)
qed

interpretation daemon_sessions: session_store "db_resolver now db"
  for now db
  by unfold_locales (auto simp: db_resolver_def dest: resolve_session_active)

lemma is_admin_key_iff: "is_admin_key key t \<longleftrightarrow> key = Some t \<and> t \<noteq> []"
  by (auto simp: is_admin_key_def ct_eq_str_iff split: option.split)



text \<open>The separation of roles. Through the extractors, a request acts as an administrator exactly
  when it carries the administrator's key or a session of an active user with the role Admin, and the
  extractor never returns an inactive user; no other role holds the permissions to prune the audit log
  or to manage users, workspaces, incidents, DLP or the configuration.\<close>

lemma admin_request_role:
  "(\<forall>u. admin_from_request (db_resolver now db) key t h = Inr u \<longrightarrow>
      u_active u \<and> u_role u = Admin \<and>
      (\<exists>tok. bearer_from_headers h = Some tok \<and> (key = Some tok \<or> resolve_session now tok db = Some u))) \<and>
   (\<forall>r p. role_has r p \<and> p \<in> {AuditPrune, UserManage, WorkspaceManage, IncidentManage, DlpManage, ConfigManage}
      \<longrightarrow> r = Admin)"
proof -
  have roles: "r = Admin" if "role_has r p" "p \<in> {AuditPrune, UserManage, WorkspaceManage, IncidentManage, DlpManage, ConfigManage}" for r p
    using that by (cases r) (auto simp: role_has_def)
  have "u_active u \<and> u_role u = Admin \<and>
      (\<exists>tok. bearer_from_headers h = Some tok \<and> (key = Some tok \<or> resolve_session now tok db = Some u))"
    if u: "admin_from_request (db_resolver now db) key t h = Inr u" for u
  proof -
    have r: "user_from_request (db_resolver now db) key t h = Inr u" "role_has (u_role u) UserManage"
      using u by (auto simp: admin_from_request_def rbind_Inr_iff can_manage_users_def split: if_splits)
    have "\<exists>tok. bearer_from_headers h = Some tok \<and> (key = Some tok \<or> resolve_session now tok db = Some u)"
      using r(1) by (auto simp: user_from_request_def rbind_Inr_iff is_admin_key_iff db_resolver_def
          split: if_splits option.splits)
    then show ?thesis
      using daemon_sessions.user_from_request_active[OF r(1)] roles[OF r(2)] by blast
  qed
  with roles show ?thesis by blast
qed

text \<open>A workspace is reached with its key only. When the workspace has a key, a request gets it
  exactly when the bearer text hashes to the stored hash or is the administrator's key; a workspace
  that does not exist is refused; one with no key is open to every request.\<close>

lemma workspace_access:
  assumes "slug = unwrap_or ''default'' (hd_workspace h)"
    and "bearer = unwrap_or [] (case hd_authorization h of None \<Rightarrow> None | Some v \<Rightarrow> strip_prefix ''Bearer '' v)"
  shows "workspace_from_request cr db key h = (case get_by_slug slug db of
      None \<Rightarrow> Inl (WsNotFound slug)
    | Some ws \<Rightarrow>
        (if ws_api_key_hash ws = None \<or> ws_api_key_hash ws = Some (sha256_hex cr bearer) \<or> (key = Some bearer \<and> bearer \<noteq> [])
         then Inr ws else Inl WsInvalidKey))"
  using assms
  by (auto simp: workspace_from_request_def Let_def is_admin_key_iff ct_eq_str_iff split: option.split)

end
