(* ===== verification/Limits.thy ===== *)
theory Limits
  imports Workspace_Db
begin

section \<open>Quotas, rate limits and the inference queue\<close>

text \<open>
  \<open>crates/maranode-api/src/state.rs\<close> (\<open>WorkspaceUsage\<close>, the pending OIDC logins, \<open>client_ip\<close> and the
  limiter of login attempts), the admission checks of the chat route
  (\<open>crates/maranode-api/src/routes/chat.rs\<close>), and \<open>crates/maranode-inference/src/queue.rs\<close>. Each map is
  behind a mutex, so an operation on it is one step; the capacity check of the queue and the increment
  of its counter are two steps, since the counter is an atomic that other tasks change in between.
\<close>

subsection \<open>Workspace usage\<close>

record workspace_usage =
  wu_concurrent :: nat
  wu_models :: "string \<rightharpoonup> (nat \<times> nat)"

definition empty_usage :: workspace_usage where
  "empty_usage = \<lparr>wu_concurrent = 0, wu_models = Map.empty\<rparr>"

definition memory_bytes :: "workspace_usage \<Rightarrow> nat" where
  "memory_bytes u = (\<Sum>k \<in> dom (wu_models u). fst (the (wu_models u k))) mod 2 ^ 64"

definition model_count :: "workspace_usage \<Rightarrow> nat" where
  "model_count u = card (dom (wu_models u)) mod 2 ^ 32"

definition usage_acquire :: "string \<Rightarrow> nat \<Rightarrow> workspace_usage \<Rightarrow> workspace_usage" where
  "usage_acquire key size_bytes u =
     (let (sz, n) = unwrap_or (size_bytes, 0) (wu_models u key)
      in u\<lparr>wu_concurrent := u32_add (wu_concurrent u) 1, wu_models := (wu_models u)(key \<mapsto> (sz, u32_add n 1))\<rparr>)"

definition usage_release :: "string \<Rightarrow> workspace_usage \<Rightarrow> workspace_usage" where
  "usage_release key u =
     (let u1 = u\<lparr>wu_concurrent := wu_concurrent u - 1\<rparr>
      in case wu_models u1 key of
           None \<Rightarrow> u1
         | Some (sz, n) \<Rightarrow>
             (if n - 1 = 0 then u1\<lparr>wu_models := (wu_models u1)(key := None)\<rparr>
              else u1\<lparr>wu_models := (wu_models u1)(key \<mapsto> (sz, n - 1))\<rparr>))"

datatype quota_error = ConcurrentLimit nat | ModelLimit nat | MemoryQuota nat

text \<open>The admission of a chat request against the quotas of its workspace.\<close>

definition admit :: "workspace \<Rightarrow> string \<Rightarrow> nat \<Rightarrow> workspace_usage \<Rightarrow> (quota_error, workspace_usage) result" where
  "admit ws model_key size_bytes u =
     rbind (case ws_max_concurrent_requests ws of
        Some lim \<Rightarrow> if wu_concurrent u \<ge> lim then Inl (ConcurrentLimit lim) else Inr ()
      | None \<Rightarrow> Inr ()) (\<lambda>_.
     rbind (case ws_max_models ws of
        Some lim \<Rightarrow>
          (let is_new = (wu_models u model_key = None)
           in if is_new \<and> model_count u \<ge> lim then Inl (ModelLimit lim) else Inr ())
      | None \<Rightarrow> Inr ()) (\<lambda>_.
     rbind (case ws_max_memory_bytes ws of
        Some lim \<Rightarrow>
          (let is_new = (wu_models u model_key = None)
           in if is_new \<and> min (memory_bytes u + size_bytes) (2 ^ 64 - 1) > lim then Inl (MemoryQuota lim) else Inr ())
      | None \<Rightarrow> Inr ()) (\<lambda>_.
     Inr (usage_acquire model_key size_bytes u))))"

subsection \<open>Login attempts\<close>

record oidc_pending =
  op_verifier :: string
  op_nonce :: string
  op_expires :: nat

definition OIDC_PENDING_TTL :: nat where
  "OIDC_PENDING_TTL = 600"

definition oidc_pending_insert ::
  "nat \<Rightarrow> string \<Rightarrow> string \<Rightarrow> string \<Rightarrow> (string \<rightharpoonup> oidc_pending) \<Rightarrow> (string \<rightharpoonup> oidc_pending)" where
  "oidc_pending_insert now token verifier nonce m =
     (\<lambda>k. case m k of Some v \<Rightarrow> (if op_expires v > now then Some v else None) | None \<Rightarrow> None)
       (token \<mapsto> \<lparr>op_verifier = verifier, op_nonce = nonce, op_expires = now + OIDC_PENDING_TTL\<rparr>)"

definition oidc_pending_take ::
  "nat \<Rightarrow> string \<Rightarrow> (string \<rightharpoonup> oidc_pending) \<Rightarrow> oidc_pending option \<times> (string \<rightharpoonup> oidc_pending)" where
  "oidc_pending_take now token m = (case m token of
      None \<Rightarrow> (None, m)
    | Some e \<Rightarrow> (if op_expires e < now then None else Some e, m(token := None)))"

text \<open>The address a request is counted under: the first of the forwarded addresses, else the real
  address, else one name for all.\<close>

definition client_ip :: "string option \<Rightarrow> string option \<Rightarrow> string" where
  "client_ip forwarded_for real_ip =
     (let first = (case forwarded_for of None \<Rightarrow> [] | Some xff \<Rightarrow> str_trim (hd (split_comma xff)))
      in if first \<noteq> [] then first
         else let real = (case real_ip of None \<Rightarrow> [] | Some r \<Rightarrow> str_trim r)
              in if real \<noteq> [] then real else ''unknown'')"

text \<open>The limiter of the login endpoints and, with other constants, of workspaces: a count and the
  start of its window per key. \<open>prune_above\<close> is the size at which stale entries are dropped.\<close>

type_synonym rate_map = "string \<rightharpoonup> (nat \<times> nat)"

definition rate_prune :: "nat \<Rightarrow> nat \<Rightarrow> rate_map \<Rightarrow> rate_map" where
  "rate_prune prune_above now m =
     (if card (dom m) > prune_above
      then (\<lambda>k. case m k of Some (n, start) \<Rightarrow> (if now - start < 120 then Some (n, start) else None) | None \<Rightarrow> None)
      else m)"

definition check_rate :: "nat \<Rightarrow> nat \<Rightarrow> string \<Rightarrow> nat \<Rightarrow> rate_map \<Rightarrow> bool \<times> rate_map" where
  "check_rate prune_above now key max_per_minute m =
     (let m1 = rate_prune prune_above now m;
          (count, start) = unwrap_or (0, now) (m1 key)
      in if now - start \<ge> 60 then (True, m1(key \<mapsto> (1, now)))
         else (let n = u32_saturating_add count 1
               in (\<not> n > max_per_minute, m1(key \<mapsto> (n, start)))))"

definition check_auth_ip_rate :: "nat \<Rightarrow> string \<Rightarrow> nat \<Rightarrow> rate_map \<Rightarrow> bool \<times> rate_map" where
  "check_auth_ip_rate now ip max_per_minute m = check_rate 4096 now ip max_per_minute m"

definition check_workspace_rate :: "nat \<Rightarrow> string \<Rightarrow> nat \<Rightarrow> rate_map \<Rightarrow> bool \<times> rate_map" where
  "check_workspace_rate now slug rpm m = check_rate 1024 now slug rpm m"

subsection \<open>queue.rs\<close>

text \<open>A task in \<open>generate\<close>: it has passed the capacity check but not yet counted itself, it waits for a
  permit, or it runs with one. The counter \<open>iq_waiting\<close> is the atomic of the code.\<close>

datatype task_phase = CapacityChecked | AwaitingPermit | RunningInference

record inference_queue =
  iq_max_parallel :: nat
  iq_max_waiting :: nat
  iq_waiting :: nat
  iq_permits :: nat
  iq_tasks :: "nat \<rightharpoonup> task_phase"

definition queue_new :: "nat \<Rightarrow> nat \<Rightarrow> inference_queue" where
  "queue_new max_waiting max_parallel =
     (let parallel = max max_parallel 1
      in \<lparr>iq_max_parallel = parallel, iq_max_waiting = max_waiting, iq_waiting = 0, iq_permits = parallel,
          iq_tasks = Map.empty\<rparr>)"

definition check_capacity :: "inference_queue \<Rightarrow> bool" where
  "check_capacity q \<longleftrightarrow> \<not> (iq_max_waiting q \<noteq> 0 \<and> iq_waiting q \<ge> iq_max_waiting q)"

definition set_max_waiting :: "nat \<Rightarrow> inference_queue \<Rightarrow> inference_queue" where
  "set_max_waiting n q = q\<lparr>iq_max_waiting := n\<rparr>"

inductive queue_step :: "inference_queue \<Rightarrow> inference_queue \<Rightarrow> bool" where
  q_check: "iq_tasks q t = None \<Longrightarrow> check_capacity q \<Longrightarrow>
     queue_step q (q\<lparr>iq_tasks := (iq_tasks q)(t \<mapsto> CapacityChecked)\<rparr>)"
| q_count: "iq_tasks q t = Some CapacityChecked \<Longrightarrow>
     queue_step q (q\<lparr>iq_waiting := iq_waiting q + 1, iq_tasks := (iq_tasks q)(t \<mapsto> AwaitingPermit)\<rparr>)"
| q_permit: "iq_tasks q t = Some AwaitingPermit \<Longrightarrow> iq_permits q > 0 \<Longrightarrow>
     queue_step q (q\<lparr>iq_permits := iq_permits q - 1, iq_tasks := (iq_tasks q)(t \<mapsto> RunningInference)\<rparr>)"
| q_done: "iq_tasks q t = Some RunningInference \<Longrightarrow>
     queue_step q (q\<lparr>iq_waiting := iq_waiting q - 1, iq_permits := iq_permits q + 1, iq_tasks := (iq_tasks q)(t := None)\<rparr>)"
| q_cancel: "iq_tasks q t = Some AwaitingPermit \<Longrightarrow>
     queue_step q (q\<lparr>iq_waiting := iq_waiting q - 1, iq_tasks := (iq_tasks q)(t := None)\<rparr>)"
| q_limit: "queue_step q (set_max_waiting n q)"

subsection \<open>Quotas are respected\<close>

text \<open>A workspace's usage together with the model keys of the requests in flight, each of which holds a
  \<open>UsageGuard\<close> that releases its key once.\<close>

type_synonym usage_sys = "workspace_usage \<times> string list"

inductive usage_step :: "workspace \<Rightarrow> usage_sys \<Rightarrow> usage_sys \<Rightarrow> bool" for ws where
  u_admit: "admit ws key size_bytes u = Inr u' \<Longrightarrow> length flight + 1 < 2 ^ 32 \<Longrightarrow>
     usage_step ws (u, flight) (u', key # flight)"
| u_release: "key \<in> set flight \<Longrightarrow> usage_step ws (u, flight) (usage_release key u, remove1 key flight)"

definition total_memory :: "workspace_usage \<Rightarrow> nat" where
  "total_memory u = (\<Sum>k \<in> dom (wu_models u). fst (the (wu_models u k)))"

definition within :: "nat option \<Rightarrow> nat \<Rightarrow> bool" where
  "within lim n = (case lim of None \<Rightarrow> True | Some l \<Rightarrow> n \<le> l)"

text \<open>The counters agree with the requests in flight: a key is present exactly while some request uses
  it, with their number.\<close>

definition in_use :: "workspace_usage \<Rightarrow> string \<Rightarrow> nat option" where
  "in_use u k = map_option snd (wu_models u k)"

definition usage_counts :: "usage_sys \<Rightarrow> bool" where
  "usage_counts s = (case s of (u, flight) \<Rightarrow>
     wu_concurrent u = length flight \<and> length flight < 2 ^ 32 \<and>
     (\<forall>k. in_use u k = (if k \<in> set flight then Some (count_list flight k) else None)))"

definition usage_ok :: "workspace \<Rightarrow> usage_sys \<Rightarrow> bool" where
  "usage_ok ws s = (case s of (u, flight) \<Rightarrow>
     usage_counts (u, flight) \<and>
     within (ws_max_concurrent_requests ws) (wu_concurrent u) \<and>
     within (ws_max_models ws) (card (dom (wu_models u))) \<and>
     within (ws_max_memory_bytes ws) (total_memory u))"

lemma usage_dom: "usage_counts (u, flight) \<Longrightarrow> dom (wu_models u) = set flight"
proof -
  assume c: "usage_counts (u, flight)"
  have "k \<in> dom (wu_models u) \<longleftrightarrow> in_use u k \<noteq> None" for k by (auto simp: in_use_def dom_def)
  moreover have "in_use u k \<noteq> None \<longleftrightarrow> k \<in> set flight" for k using c by (simp add: usage_counts_def)
  ultimately show ?thesis by blast
qed

lemma count_list_pos: "k \<in> set xs \<Longrightarrow> 0 < count_list xs k"
  by (induction xs) auto

lemma count_list_remove1: "count_list (remove1 a xs) k = count_list xs k - (if k = a then 1 else 0)"
  by (induction xs) auto

lemma in_remove1_iff: "k \<in> set (remove1 a xs) \<longleftrightarrow> 0 < count_list (remove1 a xs) k"
  using count_list_0_iff[of "remove1 a xs" k] by auto

lemma count_list_le: "count_list xs k \<le> length xs"
  by (induction xs) auto

lemma in_use_acquire:
  "in_use (usage_acquire key sz u) k = (if k = key then Some (u32_add (unwrap_or 0 (in_use u key)) 1) else in_use u k)"
  by (cases "wu_models u key") (auto simp: in_use_def usage_acquire_def case_prod_beta)

lemma in_use_release:
  "in_use (usage_release key u) k =
     (if k = key then (case in_use u key of None \<Rightarrow> None | Some n \<Rightarrow> if n - 1 = 0 then None else Some (n - 1)) else in_use u k)"
  by (auto simp: in_use_def usage_release_def Let_def split: option.split)

lemma acquire_counts:
  assumes "usage_counts (u, flight)" and "length flight + 1 < 2 ^ 32"
  shows "usage_counts (usage_acquire key sz u, key # flight)"
proof -
  have n: "count_list flight key + 1 < 2 ^ 32" using count_list_le[of flight key] assms(2) by linarith
  have k: "in_use u k = (if k \<in> set flight then Some (count_list flight k) else None)" for k
    using assms(1) by (simp add: usage_counts_def)
  have conc: "wu_concurrent (usage_acquire key sz u) = length flight + 1"
    using assms by (simp add: usage_counts_def usage_acquire_def case_prod_beta rust_arith)
  show ?thesis
    using assms(2) n count_list_0_iff[of flight key]
    by (auto simp: usage_counts_def in_use_acquire k conc rust_arith)
qed

lemma release_counts:
  assumes "usage_counts (u, flight)" and "key \<in> set flight"
  shows "usage_counts (usage_release key u, remove1 key flight)"
proof -
  have k: "in_use u k = (if k \<in> set flight then Some (count_list flight k) else None)" for k
    using assms(1) by (simp add: usage_counts_def)
  have len: "length (remove1 key flight) = length flight - 1" "length flight < 2 ^ 32" "wu_concurrent u = length flight"
    using assms by (simp_all add: length_remove1 usage_counts_def)
  have conc: "wu_concurrent (usage_release key u) = wu_concurrent u - 1"
    by (auto simp: usage_release_def Let_def split: option.splits)
  have other: "k \<in> set (remove1 key flight) \<longleftrightarrow> k \<in> set flight" if "k \<noteq> key" for k
    using that by (simp add: in_set_remove1)
  have self: "key \<in> set (remove1 key flight) \<longleftrightarrow> count_list flight key - 1 \<noteq> 0"
    using in_remove1_iff[of key key flight] by (auto simp: count_list_remove1)
  have "in_use (usage_release key u) x =
      (if x \<in> set (remove1 key flight) then Some (count_list (remove1 key flight) x) else None)" for x
    using other[of x] self assms(2) by (cases "x = key") (simp_all add: in_use_release k count_list_remove1)
  then show ?thesis using len conc by (simp add: usage_counts_def)
qed

lemma total_memory_acquire:
  assumes "finite (dom (wu_models u))"
  shows "total_memory (usage_acquire key sz u) =
     (if wu_models u key = None then total_memory u + sz else total_memory u)"
proof (cases "wu_models u key")
  case None
  then have "key \<notin> dom (wu_models u)" by auto
  then show ?thesis using None assms
    by (simp add: total_memory_def usage_acquire_def) (rule sum.cong; auto)
next
  case (Some p)
  then have "dom (wu_models (usage_acquire key sz u)) = dom (wu_models u)"
    by (auto simp: usage_acquire_def case_prod_beta)
  then show ?thesis using Some
    by (auto simp: total_memory_def usage_acquire_def case_prod_beta intro!: sum.cong)
qed

lemma release_smaller:
  assumes "finite (dom (wu_models u))"
  shows "dom (wu_models (usage_release key u)) \<subseteq> dom (wu_models u)"
    and "total_memory (usage_release key u) \<le> total_memory u"
proof -
  let ?m = "wu_models (usage_release key u)"
  show sub: "dom ?m \<subseteq> dom (wu_models u)"
    by (auto simp: usage_release_def Let_def split: option.splits if_splits)
  have "fst (the (?m k)) = fst (the (wu_models u k))" if "k \<in> dom ?m" for k
    using that by (auto simp: usage_release_def Let_def split: option.splits if_splits)
  then have "total_memory (usage_release key u) = (\<Sum>k \<in> dom ?m. fst (the (wu_models u k)))"
    by (simp add: total_memory_def)
  also have "\<dots> \<le> total_memory u"
    unfolding total_memory_def using assms sub by (intro sum_mono2) auto
  finally show "total_memory (usage_release key u) \<le> total_memory u" .
qed

lemma admit_ok:
  assumes inv: "usage_ok ws (u, flight)" and adm: "admit ws key sz u = Inr u'"
    and len: "length flight + 1 < 2 ^ 32"
    and mem: "\<forall>l. ws_max_memory_bytes ws = Some l \<longrightarrow> l < 2 ^ 64 - 1"
  shows "usage_ok ws (u', key # flight)"
proof -
  have u': "u' = usage_acquire key sz u" using adm by (auto simp: admit_def rbind_Inr_iff)
  have counts: "usage_counts (u, flight)" using inv by (simp add: usage_ok_def)
  note counts' = acquire_counts[OF counts len, of key sz]
  have dom: "dom (wu_models u) = set flight" "dom (wu_models u') = set (key # flight)"
    using usage_dom[OF counts] usage_dom[OF counts'] by (simp_all add: u')
  have conc: "wu_concurrent u' = wu_concurrent u + 1"
    using counts len by (simp add: u' usage_acquire_def case_prod_beta usage_counts_def rust_arith)
  have "card (set flight) < 2 ^ 32" using card_length[of flight] len by linarith
  then have models: "model_count u = card (dom (wu_models u))" by (simp add: model_count_def dom)
  have "within (ws_max_concurrent_requests ws) (wu_concurrent u')"
    using adm by (auto simp: admit_def rbind_Inr_iff within_def conc split: option.splits if_splits)
  moreover have "within (ws_max_models ws) (card (dom (wu_models u')))"
  proof (cases "wu_models u key")
    case None
    then have "key \<notin> set flight" using dom(1) by auto
    then show ?thesis
      using adm None models by (auto simp: admit_def rbind_Inr_iff within_def dom split: option.splits if_splits)
  next
    case (Some p)
    then have "insert key (set flight) = set flight" using dom(1) by auto
    then show ?thesis using inv by (simp add: usage_ok_def dom)
  qed
  moreover have "within (ws_max_memory_bytes ws) (total_memory u')"
  proof (cases "ws_max_memory_bytes ws")
    case (Some l)
    have fin: "finite (dom (wu_models u))" by (simp add: dom)
    have old: "total_memory u \<le> l" using inv Some by (simp add: usage_ok_def within_def)
    then have exact: "memory_bytes u = total_memory u"
      using mem Some by (auto simp: memory_bytes_def total_memory_def)
    have "wu_models u key = None \<Longrightarrow> min (memory_bytes u + sz) (2 ^ 64 - 1) \<le> l"
      using adm Some by (auto simp: admit_def rbind_Inr_iff Let_def not_less split: option.splits if_splits)
    then show ?thesis
      using mem Some old exact by (auto simp: within_def u' total_memory_acquire[OF fin] min_def split: if_splits)
  qed (simp add: within_def)
  ultimately show ?thesis using counts' by (simp add: usage_ok_def u')
qed

lemma release_ok:
  assumes inv: "usage_ok ws (u, flight)" and mem: "key \<in> set flight"
  shows "usage_ok ws (usage_release key u, remove1 key flight)"
proof -
  have counts: "usage_counts (u, flight)" using inv by (simp add: usage_ok_def)
  have fin: "finite (dom (wu_models u))" using usage_dom[OF counts] by simp
  have "card (dom (wu_models (usage_release key u))) \<le> card (dom (wu_models u))"
    using fin release_smaller(1)[OF fin] by (rule card_mono)
  moreover have "wu_concurrent (usage_release key u) \<le> wu_concurrent u"
    by (auto simp: usage_release_def Let_def split: option.splits)
  moreover have "within l n \<Longrightarrow> m \<le> n \<Longrightarrow> within l m" for l m n by (auto simp: within_def split: option.splits)
  ultimately show ?thesis
    using inv release_counts[OF counts mem] release_smaller(2)[OF fin] unfolding usage_ok_def by auto
qed

definition quota_ws :: "workspace \<Rightarrow> bool" where
  "quota_ws ws \<longleftrightarrow> (\<forall>l. ws_max_memory_bytes ws = Some l \<longrightarrow> l < 2 ^ 64 - 1)"

interpretation usage: inv_system "\<lambda>s. s = (empty_usage, [])" "usage_step ws" "\<lambda>s. quota_ws ws \<longrightarrow> usage_ok ws s"
  for ws
proof
  show "quota_ws ws \<longrightarrow> usage_ok ws s" if "s = (empty_usage, [])" for s
    using that by (auto simp: usage_ok_def usage_counts_def empty_usage_def within_def total_memory_def in_use_def
        split: option.split)
  show "quota_ws ws \<longrightarrow> usage_ok ws t" if "quota_ws ws \<longrightarrow> usage_ok ws s" "usage_step ws s t" for s t
    using that(2,1) by (induction rule: usage_step.induct) (auto simp: quota_ws_def admit_ok release_ok)
qed

text \<open>C5: the quotas of a workspace hold at all times. Whatever requests are admitted and finished, the
  number in flight, the number of distinct models in use and their total size stay within the limits
  that are set (a memory limit below the greatest 64-bit number), the counters equal the requests in
  flight, and when the last one is done nothing is left behind.\<close>

theorem quotas_hold:
  assumes "(usage_step ws)\<^sup>*\<^sup>* (empty_usage, []) (u, flight)" and "quota_ws ws"
  shows "wu_concurrent u = length flight \<and> dom (wu_models u) = set flight \<and>
    within (ws_max_concurrent_requests ws) (length flight) \<and>
    within (ws_max_models ws) (card (set flight)) \<and>
    within (ws_max_memory_bytes ws) (total_memory u) \<and>
    (flight = [] \<longrightarrow> u = empty_usage)"
proof -
  have ok: "usage_ok ws (u, flight)"
    using usage.steps_inv[OF assms(1)] usage.inv_init assms(2) by blast
  then have counts: "usage_counts (u, flight)" by (simp add: usage_ok_def)
  have "u = empty_usage" if "flight = []"
    using usage_dom[OF counts] counts that by (cases u) (auto simp: empty_usage_def usage_counts_def)
  then show ?thesis
    using ok usage_dom[OF counts] counts by (auto simp: usage_ok_def usage_counts_def)
qed

theorem quotas_hold_witness:
  "within (Some 1) (length [''m'']) \<and> wu_concurrent (usage_acquire ''m'' 5 empty_usage) = 1"
proof -
  let ?ws = "demo_ws\<lparr>ws_max_concurrent_requests := Some 1, ws_max_memory_bytes := Some 9\<rparr>"
  have "admit ?ws ''m'' 5 empty_usage = Inr (usage_acquire ''m'' 5 empty_usage)"
    by (simp add: admit_def empty_usage_def demo_ws_def memory_bytes_def)
  then have "(usage_step ?ws)\<^sup>*\<^sup>* (empty_usage, []) (usage_acquire ''m'' 5 empty_usage, [''m''])"
    by (intro r_into_rtranclp u_admit) simp_all
  from quotas_hold[OF this] show ?thesis by (simp add: quota_ws_def)
qed

subsection \<open>The rate limit is one of fixed windows\<close>

text \<open>A sequence of attempts for one key at the given times, with the verdict of each.\<close>

fun rate_run :: "nat \<Rightarrow> string \<Rightarrow> nat \<Rightarrow> rate_map \<Rightarrow> nat list \<Rightarrow> bool list" where
  "rate_run prune_above key lim m [] = []"
| "rate_run prune_above key lim m (t # ts) =
     (let (ok, m1) = check_rate prune_above t key lim m in ok # rate_run prune_above key lim m1 ts)"

lemma rate_prune_keeps: "m key = Some (n, start) \<Longrightarrow> t - start < 60 \<Longrightarrow> rate_prune p t m key = Some (n, start)"
  by (simp add: rate_prune_def)

lemma check_rate_in_window:
  assumes "m key = Some (n, start)" and "t - start < 60"
  shows "fst (check_rate p t key lim m) = (u32_saturating_add n 1 \<le> lim)"
    and "snd (check_rate p t key lim m) key = Some (u32_saturating_add n 1, start)"
  using rate_prune_keeps[of m key n start t p, OF assms] assms(2) by (simp_all add: check_rate_def Let_def not_less)

lemma check_rate_fresh:
  assumes "m key = None"
  shows "fst (check_rate p t key lim m) = (1 \<le> lim)" and "snd (check_rate p t key lim m) key = Some (1, t)"
proof -
  have "rate_prune p t m key = None" using assms by (simp add: rate_prune_def)
  then show "fst (check_rate p t key lim m) = (1 \<le> lim)" "snd (check_rate p t key lim m) key = Some (1, t)"
    by (simp_all add: check_rate_def Let_def u32_saturating_add_def not_less)
qed

lemma check_rate_new_window:
  assumes "m key = Some (n, start)" and "60 \<le> t - start"
  shows "fst (check_rate p t key lim m) = (60 \<le> t - start \<and> rate_prune p t m key \<noteq> None \<or> 1 \<le> lim)"
    and "snd (check_rate p t key lim m) key = Some (1, t)"
  using assms by (auto simp: check_rate_def rate_prune_def Let_def u32_saturating_add_def)

lemma window_bound:
  assumes "m key = Some (n, start)" and "\<forall>t \<in> set ts. t - start < 60" and "lim < 2 ^ 32 - 1"
  shows "length (filter (\<lambda>b. b) (rate_run p key lim m ts)) \<le> lim - n"
  using assms
proof (induction ts arbitrary: m n)
  case (Cons t ts)
  have w: "t - start < 60" using Cons.prems(2) by simp
  let ?n = "u32_saturating_add n 1"
  let ?c = "check_rate p t key lim m"
  note step = check_rate_in_window[of m key n start t p lim, OF Cons.prems(1) w]
  have IH: "length (filter (\<lambda>b. b) (rate_run p key lim (snd ?c) ts)) \<le> lim - ?n"
    using Cons.IH[of "snd ?c" ?n, OF step(2)] Cons.prems(2,3) by simp
  have "?n \<le> lim \<Longrightarrow> ?n = n + 1" using Cons.prems(3) by (auto simp: u32_saturating_add_def min_def split: if_splits)
  moreover have "\<not> ?n \<le> lim \<Longrightarrow> lim - ?n = 0" by simp
  ultimately show ?case
    using IH step(1) by (cases "?n \<le> lim") (auto simp: case_prod_beta Let_def)
qed simp

lemma window_burst:
  assumes "m key = Some (n, start)" and "t - start < 60" and "n + k \<le> lim" and "lim < 2 ^ 32"
  shows "\<exists>m'. rate_run p key lim m (replicate k t @ ts) = replicate k True @ rate_run p key lim m' ts \<and>
     m' key = Some (n + k, start)"
  using assms
proof (induction k arbitrary: m n)
  case (Suc k)
  let ?c = "check_rate p t key lim m"
  have n: "u32_saturating_add n 1 = n + 1" using Suc.prems(3,4) by (simp add: rust_arith)
  have c: "fst ?c" "snd ?c key = Some (n + 1, start)"
    using check_rate_in_window[of m key n start t p lim, OF Suc.prems(1,2)] Suc.prems(3) n by simp_all
  obtain m' where "rate_run p key lim (snd ?c) (replicate k t @ ts) = replicate k True @ rate_run p key lim m' ts"
    "m' key = Some (n + 1 + k, start)"
    using Suc.IH[of "snd ?c" "n + 1", OF c(2)] Suc.prems(2,3,4) by auto
  with c(1) show ?case by (intro exI[of _ m']) (simp add: case_prod_beta Let_def)
qed auto

text \<open>The login limit counts in fixed windows. From the first attempt of an address, at most
  \<open>max_per_minute\<close> attempts of the next sixty seconds pass; but the window does not slide: a limit of
  two or more lets nearly twice as many pass within two seconds, half of them at the end of one
  window and half at the start of the next (the comment of \<open>check_auth_ip_rate\<close> calls it a sliding
  window).\<close>

lemma auth_rate_fixed_window:
  assumes "m ip = None" and "lim < 2 ^ 32 - 1"
  shows "((\<forall>t \<in> set ts. t < t0 + 60) \<longrightarrow>
      length (filter (\<lambda>b. b) (rate_run 4096 ip lim m (t0 # ts))) \<le> lim) \<and>
    (2 \<le> lim \<longrightarrow>
      rate_run 4096 ip lim m (t0 # replicate (lim - 1) (t0 + 59) @ replicate lim (t0 + 60)) = replicate (2 * lim) True)"
proof (intro conjI impI)
  let ?c = "check_rate 4096 t0 ip lim m"
  have c: "fst ?c = (1 \<le> lim)" "snd ?c ip = Some (1, t0)" by (rule check_rate_fresh[of m ip, OF assms(1)])+
  assume "\<forall>t \<in> set ts. t < t0 + 60"
  then have "length (filter (\<lambda>b. b) (rate_run 4096 ip lim (snd ?c) ts)) \<le> lim - 1"
    using c(2) assms(2) by (intro window_bound[of _ _ 1 t0]) auto
  then show "length (filter (\<lambda>b. b) (rate_run 4096 ip lim m (t0 # ts))) \<le> lim"
    using c(1) by (cases "1 \<le> lim") (auto simp: case_prod_beta Let_def)
next
  let ?c = "check_rate 4096 t0 ip lim m"
  assume lim: "2 \<le> lim"
  have c: "fst ?c" "snd ?c ip = Some (1, t0)" using check_rate_fresh[of m ip 4096 t0 lim] assms(1) lim by simp_all
  obtain m1 where m1: "rate_run 4096 ip lim (snd ?c) (replicate (lim - 1) (t0 + 59) @ replicate lim (t0 + 60)) =
      replicate (lim - 1) True @ rate_run 4096 ip lim m1 (replicate lim (t0 + 60))" "m1 ip = Some (1 + (lim - 1), t0)"
    using window_burst[of "snd ?c" ip 1 t0 "t0 + 59" "lim - 1" lim 4096 "replicate lim (t0 + 60)", OF c(2)] assms(2) lim by auto
  let ?d = "check_rate 4096 (t0 + 60) ip lim m1"
  have d: "fst ?d" "snd ?d ip = Some (1, t0 + 60)"
    using check_rate_new_window[of m1 ip "1 + (lim - 1)" t0 "t0 + 60" 4096 lim, OF m1(2)] lim by simp_all
  obtain m2 where "rate_run 4096 ip lim (snd ?d) (replicate (lim - 1) (t0 + 60) @ []) = replicate (lim - 1) True @ rate_run 4096 ip lim m2 []"
    using window_burst[of "snd ?d" ip 1 "t0 + 60" "t0 + 60" "lim - 1" lim 4096 "[]", OF d(2)] assms(2) lim by auto
  then have tail: "rate_run 4096 ip lim m1 (replicate lim (t0 + 60)) = replicate lim True"
    using d(1) lim by (cases lim) (simp_all add: case_prod_beta Let_def)
  have "rate_run 4096 ip lim m (t0 # replicate (lim - 1) (t0 + 59) @ replicate lim (t0 + 60)) =
      True # replicate (lim - 1) True @ replicate lim True"
    using c(1) m1(1) tail by (simp add: case_prod_beta Let_def)
  also have "\<dots> = replicate (Suc (lim - 1) + lim) True" by (simp only: replicate_add replicate_Suc append_Cons)
  also have "Suc (lim - 1) + lim = 2 * lim" using lim by simp
  finally show "rate_run 4096 ip lim m (t0 # replicate (lim - 1) (t0 + 59) @ replicate lim (t0 + 60)) = replicate (2 * lim) True" .
qed

subsection \<open>The inference queue\<close>

definition phase_count :: "(nat \<rightharpoonup> task_phase) \<Rightarrow> task_phase \<Rightarrow> nat" where
  "phase_count f p = card {t. f t = Some p}"

definition queue_ok :: "inference_queue \<Rightarrow> bool" where
  "queue_ok q \<longleftrightarrow> finite (dom (iq_tasks q)) \<and>
     iq_waiting q = phase_count (iq_tasks q) AwaitingPermit + phase_count (iq_tasks q) RunningInference \<and>
     iq_permits q + phase_count (iq_tasks q) RunningInference = iq_max_parallel q \<and> 1 \<le> iq_max_parallel q"

lemma phase_finite: "finite (dom f) \<Longrightarrow> finite {t. f t = Some p}"
  by (rule finite_subset[of _ "dom f"]) auto

lemma phase_count_upd:
  assumes "finite (dom f)"
  shows "phase_count (f(t := x)) p + (if f t = Some p then 1 else 0) = phase_count f p + (if x = Some p then 1 else 0)"
proof -
  let ?A = "{t. f t = Some p}"
  have fin: "finite ?A" by (rule phase_finite[OF assms])
  have upd: "{u. (f(t := x)) u = Some p} = (if x = Some p then insert t ?A else ?A - {t})" by auto
  show ?thesis
    unfolding phase_count_def upd using fin card_Suc_Diff1[of ?A t] by (auto simp: insert_absorb)
qed

lemma queue_step_ok: "queue_step q q' \<Longrightarrow> queue_ok q \<Longrightarrow> queue_ok q'"
proof (induction rule: queue_step.induct)
  case (q_limit q n)
  then show ?case by (simp add: queue_ok_def set_max_waiting_def)
next
  case (q_check q t)
  then show ?case
    using phase_count_upd[of "iq_tasks q" t "Some CapacityChecked" AwaitingPermit]
      phase_count_upd[of "iq_tasks q" t "Some CapacityChecked" RunningInference]
    by (simp add: queue_ok_def)
next
  case (q_count q t)
  then show ?case
    using phase_count_upd[of "iq_tasks q" t "Some AwaitingPermit" AwaitingPermit]
      phase_count_upd[of "iq_tasks q" t "Some AwaitingPermit" RunningInference]
    by (simp add: queue_ok_def)
next
  case (q_permit q t)
  then show ?case
    using phase_count_upd[of "iq_tasks q" t "Some RunningInference" AwaitingPermit]
      phase_count_upd[of "iq_tasks q" t "Some RunningInference" RunningInference]
    by (simp add: queue_ok_def)
next
  case (q_done q t)
  then show ?case
    using phase_count_upd[of "iq_tasks q" t None AwaitingPermit]
      phase_count_upd[of "iq_tasks q" t None RunningInference]
    by (simp add: queue_ok_def)
next
  case (q_cancel q t)
  then show ?case
    using phase_count_upd[of "iq_tasks q" t None AwaitingPermit]
      phase_count_upd[of "iq_tasks q" t None RunningInference]
    by (simp add: queue_ok_def)
qed

interpretation queue: inv_system "\<lambda>q. \<exists>w p. q = queue_new w p" queue_step queue_ok
proof
  show "queue_ok q" if "\<exists>w p. q = queue_new w p" for q
    using that by (auto simp: queue_ok_def queue_new_def phase_count_def Let_def)
  show "queue_ok t" if "queue_ok s" "queue_step s t" for s t
    using queue_step_ok[OF that(2,1)] .
qed

lemma queue_step_parallel: "queue_step q q' \<Longrightarrow> iq_max_parallel q' = iq_max_parallel q"
  by (induction rule: queue_step.induct) (simp_all add: set_max_waiting_def)

text \<open>The inference queue. Never more requests run than the configured parallelism (at least one),
  the counter equals the requests that wait or run, and when none is in flight all permits are back;
  but the bound on waiting requests is not exact: the check and the increment are two steps, and for
  every number of callers they can all pass the check of an empty queue with a limit of one.\<close>

lemma queue_bounds:
  "(\<forall>q. queue_step\<^sup>*\<^sup>* (queue_new w p) q \<longrightarrow>
      phase_count (iq_tasks q) RunningInference \<le> max p 1 \<and>
      iq_waiting q = phase_count (iq_tasks q) AwaitingPermit + phase_count (iq_tasks q) RunningInference \<and>
      (iq_tasks q = Map.empty \<longrightarrow> iq_waiting q = 0 \<and> iq_permits q = max p 1)) \<and>
   (\<exists>q. queue_step\<^sup>*\<^sup>* (queue_new 1 p) q \<and> iq_waiting q = n)"
proof (intro conjI allI impI)
  fix q
  assume run: "queue_step\<^sup>*\<^sup>* (queue_new w p) q"
  have ok: "queue_ok q" using queue.steps_inv[OF run] queue.inv_init by blast
  have par: "iq_max_parallel q = max p 1"
    using run by (induction rule: rtranclp_induct) (simp_all add: queue_step_parallel queue_new_def Let_def)
  show "phase_count (iq_tasks q) RunningInference \<le> max p 1" using ok par by (simp add: queue_ok_def)
  show "iq_waiting q = phase_count (iq_tasks q) AwaitingPermit + phase_count (iq_tasks q) RunningInference"
    using ok by (simp add: queue_ok_def)
  show "iq_waiting q = 0" "iq_permits q = max p 1" if "iq_tasks q = Map.empty"
    using ok par that by (simp_all add: queue_ok_def phase_count_def)
next
  let ?q = "queue_new 1 p"
  have checked: "queue_step\<^sup>*\<^sup>* ?q (?q\<lparr>iq_tasks := (\<lambda>t. if t < k then Some CapacityChecked else None)\<rparr>)" for k
  proof (induction k)
    case 0
    have "?q\<lparr>iq_tasks := (\<lambda>t. if t < 0 then Some CapacityChecked else None)\<rparr> = ?q"
      by (simp add: queue_new_def Let_def)
    then show ?case by simp
  next
    case (Suc k)
    let ?f = "\<lambda>t. if t < k then Some CapacityChecked else None"
    have step: "queue_step (?q\<lparr>iq_tasks := ?f\<rparr>) (?q\<lparr>iq_tasks := ?f(k \<mapsto> CapacityChecked)\<rparr>)"
      using q_check[of "?q\<lparr>iq_tasks := ?f\<rparr>" k] by (simp add: check_capacity_def queue_new_def Let_def)
    have next_tasks: "?f(k \<mapsto> CapacityChecked) = (\<lambda>t. if t < Suc k then Some CapacityChecked else None)" by auto
    show ?case using Suc step unfolding next_tasks by (rule rtranclp.rtrancl_into_rtrancl)
  qed
  let ?g = "\<lambda>j t. if t < j then Some AwaitingPermit else if t < n then Some CapacityChecked else (None :: task_phase option)"
  have "j \<le> n \<Longrightarrow> queue_step\<^sup>*\<^sup>* ?q (?q\<lparr>iq_waiting := j, iq_tasks := ?g j\<rparr>)" for j
  proof (induction j)
    case 0
    have "?q\<lparr>iq_waiting := 0, iq_tasks := ?g 0\<rparr> = ?q\<lparr>iq_tasks := (\<lambda>t. if t < n then Some CapacityChecked else None)\<rparr>"
      by (simp add: queue_new_def Let_def)
    then show ?case using checked[of n] by simp
  next
    case (Suc j)
    have "queue_step (?q\<lparr>iq_waiting := j, iq_tasks := ?g j\<rparr>) (?q\<lparr>iq_waiting := j + 1, iq_tasks := (?g j)(j \<mapsto> AwaitingPermit)\<rparr>)"
      using q_count[of "?q\<lparr>iq_waiting := j, iq_tasks := ?g j\<rparr>" j] Suc.prems by simp
    moreover have "(?g j)(j \<mapsto> AwaitingPermit) = ?g (Suc j)" using Suc.prems by auto
    ultimately show ?case using Suc by (simp add: rtranclp.rtrancl_into_rtrancl)
  qed
  from this[of n] show "\<exists>q. queue_step\<^sup>*\<^sup>* ?q q \<and> iq_waiting q = n"
    by (intro exI[of _ "?q\<lparr>iq_waiting := n, iq_tasks := ?g n\<rparr>"]) simp
qed

end
