(* ===== verification/Accounts.thy ===== *)
theory Accounts
  imports Access Limits
begin

section \<open>Accounts: login, users, sessions and password reset\<close>

text \<open>
  \<open>crates/maranode-api/src/routes/users.rs\<close> and \<open>reset.rs\<close> over the tables of \<open>User_Db\<close> and the extractors of \<open>Access\<close>.
  A route gets the time, the headers and what the daemon draws at random; it returns its answer and the state. The
  hash of a password (argon2) and \<open>str::to_lowercase\<close> are the record \<open>acc_env\<close>; the mail that carries a reset token
  is returned as a value, sent or not. Time is given twice: \<open>ck_secs\<close> is the monotonic clock of the rate limiter,
  \<open>ck_now\<close> the time of day.
\<close>

record acc_env =
  pw_hash :: "string \<Rightarrow> string \<Rightarrow> string option"
  pw_verify :: "string \<Rightarrow> string \<Rightarrow> bool option"
  acc_lower :: "string \<Rightarrow> string"

text \<open>What argon2 documents: a hash verifies the password it was made of. That it verifies no other is what the
  login relies on.\<close>

definition pw_ok :: "acc_env \<Rightarrow> bool" where
  "pw_ok env \<longleftrightarrow> (\<forall>salt pw h. pw_hash env salt pw = Some h \<longrightarrow> (\<forall>pw'. pw_verify env pw' h = Some (pw' = pw)))"

record clock =
  ck_secs :: nat
  ck_now :: timestamp

record acc_state =
  as_db :: user_db
  as_ips :: rate_map

record acc_cfg =
  ac_admin_key :: "string option"
  ac_session_hours :: int
  ac_smtp :: bool

datatype acc_error =
    AccAuth auth_error | AccUnauthorized | AccForbidden | AccBadRequest | AccNotFound | AccConflict | AccInternal | AccTooMany

type_synonym 'a acc_result = "(acc_error, 'a) result \<times> acc_state"

definition as_user :: "acc_cfg \<Rightarrow> clock \<Rightarrow> headers \<Rightarrow> acc_state \<Rightarrow> (acc_error, user) result" where
  "as_user cfg ck h st = map_sum AccAuth id (user_from_request (db_resolver (ck_now ck) (as_db st)) (ac_admin_key cfg) (ck_now ck) h)"

definition as_admin :: "acc_cfg \<Rightarrow> clock \<Rightarrow> headers \<Rightarrow> acc_state \<Rightarrow> (acc_error, user) result" where
  "as_admin cfg ck h st = map_sum AccAuth id (admin_from_request (db_resolver (ck_now ck) (as_db st)) (ac_admin_key cfg) (ck_now ck) h)"

text \<open>A route behind an extractor.\<close>

definition guarded :: "(acc_error, 'u) result \<Rightarrow> ('u \<Rightarrow> 'a acc_result) \<Rightarrow> acc_state \<Rightarrow> 'a acc_result" where
  "guarded who body st = (case who of Inl e \<Rightarrow> (Inl e, st) | Inr u \<Rightarrow> body u)"

subsection \<open>login, logout, me\<close>

record user_view =
  uv_id :: string
  uv_username :: string
  uv_email :: "string option"
  uv_role :: string
  uv_permissions :: "string list"
  uv_provider :: string
  uv_active :: bool
  uv_created_at :: timestamp
  uv_last_login :: "timestamp option"

definition user_view_of :: "user \<Rightarrow> user_view" where
  "user_view_of u = \<lparr>uv_id = u_id u, uv_username = u_username u, uv_email = u_email u, uv_role = role_str (u_role u),
     uv_permissions = map permission_str (role_permissions (u_role u)), uv_provider = provider_str (u_provider u),
     uv_active = u_active u, uv_created_at = u_created_at u, uv_last_login = u_last_login u\<rparr>"

text \<open>The account that may log in with a password, or why it may not.\<close>

definition check_login :: "acc_env \<Rightarrow> string \<Rightarrow> string \<Rightarrow> user_db \<Rightarrow> (acc_error, user) result" where
  "check_login env username password db =
     (case get_by_username username db of
        None \<Rightarrow> Inl AccUnauthorized
      | Some u \<Rightarrow>
          if \<not> u_active u then Inl AccForbidden
          else if u_provider u \<noteq> LocalLogin then Inl AccBadRequest
          else (case u_password_hash u of
             None \<Rightarrow> Inl AccInternal
           | Some h \<Rightarrow>
               (case pw_verify env password h of
                  None \<Rightarrow> Inl AccInternal
                | Some ok \<Rightarrow> if \<not> ok then Inl AccUnauthorized else Inr u)))"

definition open_session :: "acc_cfg \<Rightarrow> clock \<Rightarrow> string \<Rightarrow> user \<Rightarrow> acc_state \<Rightarrow> string acc_result" where
  "open_session cfg ck token u st =
     (case create_session (ck_now ck) token (u_id u) (ac_session_hours cfg) (as_db st) of
        (Inl _, db) \<Rightarrow> (Inl AccInternal, st\<lparr>as_db := db\<rparr>)
      | (Inr t, db) \<Rightarrow> (Inr t, st\<lparr>as_db := db\<rparr>))"

definition login ::
  "acc_env \<Rightarrow> acc_cfg \<Rightarrow> clock \<Rightarrow> string \<Rightarrow> string \<Rightarrow> string \<Rightarrow> string \<Rightarrow> acc_state \<Rightarrow> (string \<times> user_view) acc_result" where
  "login env cfg ck ip token username password st =
     (let (admitted, ips) = check_auth_ip_rate (ck_secs ck) ip 20 (as_ips st); st1 = st\<lparr>as_ips := ips\<rparr>
      in if \<not> admitted then (Inl AccTooMany, st1)
         else case check_login env username password (as_db st1) of
           Inl e \<Rightarrow> (Inl e, st1)
         | Inr u \<Rightarrow> (let (r, st2) = open_session cfg ck token u st1 in (map_sum id (\<lambda>t. (t, user_view_of u)) r, st2)))"

definition raw_bearer :: "headers \<Rightarrow> string option" where
  "raw_bearer h = Option.bind (hd_authorization h) (strip_prefix ''Bearer '')"

definition logout :: "acc_cfg \<Rightarrow> clock \<Rightarrow> headers \<Rightarrow> acc_state \<Rightarrow> unit acc_result" where
  "logout cfg ck h st = guarded (as_user cfg ck h st) (\<lambda>_.
     (Inr (), case raw_bearer h of None \<Rightarrow> st | Some t \<Rightarrow> st\<lparr>as_db := delete_session t (as_db st)\<rparr>)) st"

definition me :: "acc_cfg \<Rightarrow> clock \<Rightarrow> headers \<Rightarrow> acc_state \<Rightarrow> user_view acc_result" where
  "me cfg ck h st = guarded (as_user cfg ck h st) (\<lambda>u. (Inr (user_view_of u), st)) st"

subsection \<open>Management of users\<close>

definition route_list_users :: "acc_cfg \<Rightarrow> clock \<Rightarrow> headers \<Rightarrow> acc_state \<Rightarrow> user_view list acc_result" where
  "route_list_users cfg ck h st = guarded (as_admin cfg ck h st) (\<lambda>_. (Inr (map user_view_of (list_users (as_db st))), st)) st"

definition route_get_user :: "acc_cfg \<Rightarrow> clock \<Rightarrow> headers \<Rightarrow> string \<Rightarrow> acc_state \<Rightarrow> user_view acc_result" where
  "route_get_user cfg ck h i st = guarded (as_admin cfg ck h st) (\<lambda>_.
     (map_sum id user_view_of (ok_or AccNotFound (get_by_id i (as_db st))), st)) st"

record create_user_req =
  cu_username :: string
  cu_password :: "string option"
  cu_email :: "string option"
  cu_role :: string

definition new_user :: "acc_env \<Rightarrow> timestamp \<Rightarrow> string \<Rightarrow> create_user_req \<Rightarrow> role \<Rightarrow> string option \<Rightarrow> user" where
  "new_user env now uuid req r h = \<lparr>u_id = uuid, u_username = acc_lower env (str_trim (cu_username req)), u_email = cu_email req,
     u_password_hash = h, u_role = r, u_provider = LocalLogin, u_provider_sub = None, u_active = True, u_created_at = now,
     u_last_login = None\<rparr>"

definition route_create_user ::
  "acc_env \<Rightarrow> acc_cfg \<Rightarrow> clock \<Rightarrow> headers \<Rightarrow> string \<Rightarrow> string \<Rightarrow> create_user_req \<Rightarrow> acc_state \<Rightarrow> user_view acc_result" where
  "route_create_user env cfg ck h uuid salt req st = guarded (as_admin cfg ck h st) (\<lambda>_.
     case role_from_str (cu_role req) of
       None \<Rightarrow> (Inl AccBadRequest, st)
     | Some r \<Rightarrow>
         (case (case cu_password req of None \<Rightarrow> Some None | Some pw \<Rightarrow> map_option Some (pw_hash env salt pw)) of
            None \<Rightarrow> (Inl AccInternal, st)
          | Some hash \<Rightarrow>
              (let u = new_user env (ck_now ck) uuid req r hash in
               case create_user u (as_db st) of
                 Inl _ \<Rightarrow> (Inl AccConflict, st)
               | Inr db \<Rightarrow> (Inr (user_view_of u), st\<lparr>as_db := db\<rparr>)))) st"

record update_user_req =
  uu_email :: "string option"
  uu_role :: "string option"
  uu_active :: "bool option"

definition patch_user :: "update_user_req \<Rightarrow> user \<Rightarrow> (acc_error, user) result" where
  "patch_user req u =
     (let u1 = (case uu_email req of None \<Rightarrow> u | Some e \<Rightarrow> u\<lparr>u_email := Some e\<rparr>);
          u2 = (case uu_active req of None \<Rightarrow> u1 | Some a \<Rightarrow> u1\<lparr>u_active := a\<rparr>)
      in case uu_role req of
           None \<Rightarrow> Inr u2
         | Some s \<Rightarrow> rbind (ok_or AccBadRequest (role_from_str s)) (\<lambda>r. Inr (u2\<lparr>u_role := r\<rparr>)))"

text \<open>\<open>db.update\<close> with its error as an internal one.\<close>

definition store_user :: "user \<Rightarrow> 'a \<Rightarrow> acc_state \<Rightarrow> 'a acc_result" where
  "store_user u answer st = (case update_user u (as_db st) of
      Inl _ \<Rightarrow> (Inl AccInternal, st)
    | Inr db \<Rightarrow> (Inr answer, st\<lparr>as_db := db\<rparr>))"

definition route_update_user :: "acc_cfg \<Rightarrow> clock \<Rightarrow> headers \<Rightarrow> string \<Rightarrow> update_user_req \<Rightarrow> acc_state \<Rightarrow> user_view acc_result" where
  "route_update_user cfg ck h i req st = guarded (as_admin cfg ck h st) (\<lambda>_.
     case rbind (ok_or AccNotFound (get_by_id i (as_db st))) (patch_user req) of
       Inl e \<Rightarrow> (Inl e, st)
     | Inr u \<Rightarrow> store_user u (user_view_of u) st) st"

definition del_user :: "acc_cfg \<Rightarrow> clock \<Rightarrow> headers \<Rightarrow> string \<Rightarrow> acc_state \<Rightarrow> unit acc_result" where
  "del_user cfg ck h i st = guarded (as_admin cfg ck h st) (\<lambda>_.
     let (deleted, db) = delete_user i (as_db st) in (if deleted then Inr () else Inl AccNotFound, st\<lparr>as_db := db\<rparr>)) st"

definition change_password :: "acc_env \<Rightarrow> string \<Rightarrow> string \<Rightarrow> string \<Rightarrow> acc_state \<Rightarrow> unit acc_result" where
  "change_password env salt i password st =
     (case get_by_id i (as_db st) of
        None \<Rightarrow> (Inl AccNotFound, st)
      | Some u \<Rightarrow>
          (case pw_hash env salt password of
             None \<Rightarrow> (Inl AccInternal, st)
           | Some hash \<Rightarrow> store_user (u\<lparr>u_password_hash := Some hash\<rparr>) () st))"

definition set_password :: "acc_env \<Rightarrow> acc_cfg \<Rightarrow> clock \<Rightarrow> headers \<Rightarrow> string \<Rightarrow> string \<Rightarrow> string \<Rightarrow> acc_state \<Rightarrow> unit acc_result" where
  "set_password env cfg ck h salt i password st = guarded (as_admin cfg ck h st) (\<lambda>_. change_password env salt i password st) st"

subsection \<open>Sessions\<close>

record session_view =
  sv_token_prefix :: string
  sv_created_at :: timestamp
  sv_expires_at :: timestamp
  sv_is_current :: bool
  sv_username :: "string option"

definition current_token :: "headers \<Rightarrow> string" where
  "current_token h = unwrap_or [] (raw_bearer h)"

definition visible_sessions :: "timestamp \<Rightarrow> user \<Rightarrow> user_db \<Rightarrow> session_record list" where
  "visible_sessions now u db = (if can_manage_users (u_role u) then list_all_sessions now db else list_sessions_for_user now (u_id u) db)"

definition list_sessions :: "acc_cfg \<Rightarrow> clock \<Rightarrow> headers \<Rightarrow> acc_state \<Rightarrow> session_view list acc_result" where
  "list_sessions cfg ck h st = guarded (as_user cfg ck h st) (\<lambda>u.
     (Inr (map (\<lambda>s. \<lparr>sv_token_prefix = sess_token_prefix s, sv_created_at = sess_created_at s, sv_expires_at = sess_expires_at s,
         sv_is_current = (sess_token_prefix s = take 8 (current_token h)), sv_username = sess_username s\<rparr>)
       (visible_sessions (ck_now ck) u (as_db st))), st)) st"

definition revoke_session :: "acc_cfg \<Rightarrow> clock \<Rightarrow> headers \<Rightarrow> string \<Rightarrow> acc_state \<Rightarrow> unit acc_result" where
  "revoke_session cfg ck h token_prefix st = guarded (as_user cfg ck h st) (\<lambda>u.
     case find (\<lambda>s. sess_token_prefix s = token_prefix) (visible_sessions (ck_now ck) u (as_db st)) of
       None \<Rightarrow> (Inl AccNotFound, st)
     | Some s \<Rightarrow> (Inr (), st\<lparr>as_db := delete_session_by_prefix (sess_user_id s) token_prefix (as_db st)\<rparr>)) st"

definition revoke_other_sessions :: "acc_cfg \<Rightarrow> clock \<Rightarrow> headers \<Rightarrow> acc_state \<Rightarrow> nat acc_result" where
  "revoke_other_sessions cfg ck h st = guarded (as_user cfg ck h st) (\<lambda>u.
     let (n, db) = delete_sessions_for_user_except (u_id u) (current_token h) (as_db st) in (Inr n, st\<lparr>as_db := db\<rparr>)) st"

subsection \<open>reset.rs\<close>

text \<open>The answer is the same whether or not there is an account; the mail, with its address and token, goes out only
  for an active one.\<close>

definition request_reset :: "acc_cfg \<Rightarrow> clock \<Rightarrow> string \<Rightarrow> string \<Rightarrow> string \<Rightarrow> acc_state \<Rightarrow> (string \<times> string) option \<times> unit acc_result" where
  "request_reset cfg ck ip token email st =
     (let (admitted, ips) = check_auth_ip_rate (ck_secs ck) ip 10 (as_ips st); st1 = st\<lparr>as_ips := ips\<rparr>
      in if \<not> admitted then (None, Inl AccTooMany, st1)
         else if \<not> ac_smtp cfg then (None, Inl AccBadRequest, st1)
         else case get_by_email email (as_db st1) of
           None \<Rightarrow> (None, Inr (), st1)
         | Some u \<Rightarrow>
             if \<not> u_active u then (None, Inr (), st1)
             else (case create_reset_token (ck_now ck) token (u_id u) (as_db st1) of
                (Inl _, db) \<Rightarrow> (None, Inl AccInternal, st1\<lparr>as_db := db\<rparr>)
              | (Inr t, db) \<Rightarrow> (Some (email, t), Inr (), st1\<lparr>as_db := db\<rparr>)))"

definition confirm_reset :: "acc_env \<Rightarrow> clock \<Rightarrow> string \<Rightarrow> string \<Rightarrow> string \<Rightarrow> acc_state \<Rightarrow> unit acc_result" where
  "confirm_reset env ck salt token password st =
     (if length password < 8 then (Inl AccBadRequest, st)
      else case consume_reset_token (ck_now ck) token (as_db st) of
        (None, db) \<Rightarrow> (Inl AccUnauthorized, st\<lparr>as_db := db\<rparr>)
      | (Some i, db) \<Rightarrow> change_password env salt i password (st\<lparr>as_db := db\<rparr>))"

subsection \<open>Every route keeps the tables\<close>

inductive acc_step :: "acc_state \<Rightarrow> acc_state \<Rightarrow> bool" where
  step_login: "acc_step st (snd (login env cfg ck ip token username password st))"
| step_logout: "acc_step st (snd (logout cfg ck h st))"
| step_create: "acc_step st (snd (route_create_user env cfg ck h uuid salt req st))"
| step_update: "acc_step st (snd (route_update_user cfg ck h i ureq st))"
| step_delete: "acc_step st (snd (del_user cfg ck h i st))"
| step_password: "acc_step st (snd (set_password env cfg ck h salt i password st))"
| step_revoke: "acc_step st (snd (revoke_session cfg ck h token st))"
| step_revoke_others: "acc_step st (snd (revoke_other_sessions cfg ck h st))"
| step_request: "acc_step st (snd (snd (request_reset cfg ck ip token email st)))"
| step_confirm: "acc_step st (snd (confirm_reset env ck salt token password st))"

lemma guarded_cases: "snd (guarded who body st) = st \<or> (\<exists>u. who = Inr u \<and> snd (guarded who body st) = snd (body u))"
  by (cases who) (auto simp: guarded_def)

definition flags_ok :: "user_db \<Rightarrow> bool" where
  "flags_ok db \<longleftrightarrow> (\<forall>r \<in> set (db_users db). ur_active r = 0 \<or> ur_active r = 1)"

definition acc_inv :: "acc_state \<Rightarrow> bool" where
  "acc_inv st \<longleftrightarrow> user_db_ok (as_db st) \<and> flags_ok (as_db st)"

lemma flags_db_step: "user_db_step db db' \<Longrightarrow> flags_ok db \<Longrightarrow> flags_ok db'"
  by (induction rule: user_db_step.induct)
    (auto simp: flags_ok_def create_user_def update_user_def delete_user_def create_session_def delete_session_def
      delete_session_by_prefix_def delete_sessions_for_user_except_def create_reset_token_def consume_reset_token_def
      user_to_row_def update_row_def Let_def split: if_splits option.splits)

lemma store_user_step: "user_db_step\<^sup>*\<^sup>* (as_db st) (as_db (snd (store_user u a st)))"
  by (auto simp: store_user_def split: sum.split intro: user_db_step.step_update)

lemma open_session_step: "user_db_step\<^sup>*\<^sup>* (as_db st) (as_db (snd (open_session cfg ck token u st)))"
proof -
  have "as_db (snd (open_session cfg ck token u st)) = snd (create_session (ck_now ck) token (u_id u) (ac_session_hours cfg) (as_db st))"
    by (simp add: open_session_def split: prod.split sum.split)
  then show ?thesis using user_db_step.step_session by (metis r_into_rtranclp)
qed

lemma change_password_step: "user_db_step\<^sup>*\<^sup>* (as_db st) (as_db (snd (change_password env salt i password st)))"
  by (auto simp: change_password_def split: option.split intro: store_user_step)

lemma acc_step_db: "acc_step st st' \<Longrightarrow> user_db_step\<^sup>*\<^sup>* (as_db st) (as_db st')"
proof (induction rule: acc_step.induct)
  case (step_login st env cfg ck ip token username password)
  then show ?case
    using open_session_step[of "st\<lparr>as_ips := snd (check_auth_ip_rate (ck_secs ck) ip 20 (as_ips st))\<rparr>" cfg ck token]
    by (auto simp: login_def Let_def split: prod.splits sum.splits) (metis snd_conv)
next
  case (step_create st env cfg ck h uuid salt req)
  show ?case
    by (auto simp: route_create_user_def guarded_def Let_def split: sum.split option.split intro: user_db_step.step_create)
next
  case (step_update st cfg ck h i ureq)
  show ?case using store_user_step by (auto simp: route_update_user_def guarded_def split: sum.split)
next
  case (step_delete st cfg ck h i)
  show ?case using user_db_step.step_delete by (auto simp: del_user_def guarded_def Let_def split: sum.split prod.split) (metis r_into_rtranclp snd_conv)
next
  case (step_password st env cfg ck h salt i password)
  show ?case using change_password_step by (auto simp: set_password_def guarded_def split: sum.split)
next
  case (step_request st cfg ck ip token email)
  show ?case
    using user_db_step.step_reset
    by (auto simp: request_reset_def Let_def split: prod.split sum.split option.split) (metis r_into_rtranclp snd_conv)+
next
  case (step_confirm st env ck salt token password)
  show ?case
  proof (cases "consume_reset_token (ck_now ck) token (as_db st)")
    case (Pair r db)
    then have "user_db_step (as_db st) db" using user_db_step.step_consume by (metis snd_conv)
    then show ?thesis using change_password_step[of "st\<lparr>as_db := db\<rparr>"] Pair
      by (auto simp: confirm_reset_def split: option.split intro: converse_rtranclp_into_rtranclp)
  qed
next
  case (step_revoke_others st cfg ck h)
  show ?case using user_db_step.step_revoke_others
    by (auto simp: revoke_other_sessions_def guarded_def Let_def split: sum.split prod.split) (metis r_into_rtranclp snd_conv)
qed (auto simp: logout_def revoke_session_def guarded_def split: sum.split option.split intro!: r_into_rtranclp
      intro: user_db_step.step_logout user_db_step.step_revoke)

lemma db_steps_inv: "user_db_step\<^sup>*\<^sup>* db db' \<Longrightarrow> user_db_ok db \<Longrightarrow> flags_ok db \<Longrightarrow> user_db_ok db' \<and> flags_ok db'"
  by (induction rule: rtranclp_induct) (auto dest: user_db_step_ok flags_db_step)

interpretation accounts: inv_system "\<lambda>st. \<exists>fk. as_db st = empty_user_db fk" acc_step acc_inv
proof
  show "acc_inv st" if "\<exists>fk. as_db st = empty_user_db fk" for st
    using that by (auto simp: acc_inv_def empty_user_db_def user_db_ok_def users_ok_def flags_ok_def)
  show "acc_inv st'" if "acc_inv st" "acc_step st st'" for st st'
    using that acc_step_db db_steps_inv by (auto simp: acc_inv_def)
qed

subsection \<open>Login\<close>

lemma find_user_row: "find_user P db = Some u \<Longrightarrow> \<exists>r \<in> set (db_users db). u = row_to_user r \<and> P r"
  by (auto simp: find_user_def find_Some_iff)

lemma row_to_user_sel [simp]:
  "u_id (row_to_user r) = ur_id r" "u_active (row_to_user r) = (ur_active r \<noteq> 0)" "u_username (row_to_user r) = ur_username r"
  "u_password_hash (row_to_user r) = ur_password_hash r"
  by (simp_all add: row_to_user_def)

lemma row_to_user_login: "row_to_user (r\<lparr>ur_last_login := t\<rparr>) = (row_to_user r)\<lparr>u_last_login := t\<rparr>"
  by (simp add: row_to_user_def)

text \<open>The account that a name and a password open.\<close>

definition may_login :: "acc_env \<Rightarrow> string \<Rightarrow> string \<Rightarrow> user_db \<Rightarrow> user \<Rightarrow> bool" where
  "may_login env username password db u \<longleftrightarrow> get_by_username username db = Some u \<and> u_active u \<and> u_provider u = LocalLogin \<and>
     (\<exists>h. u_password_hash u = Some h \<and> pw_verify env password h = Some True)"

lemma check_login_iff: "check_login env username password db = Inr u \<longleftrightarrow> may_login env username password db u"
  by (auto simp: check_login_def may_login_def split: option.splits if_splits)

lemma open_session_fresh:
  assumes "acc_inv st" "r \<in> set (db_users (as_db st))" "token \<notin> sr_token ` set (db_sessions (as_db st))"
  obtains db where "open_session cfg ck token (row_to_user r) st = (Inr token, st\<lparr>as_db := db\<rparr>)"
    "create_session (ck_now ck) token (ur_id r) (ac_session_hours cfg) (as_db st) = (Inr token, db)"
proof -
  obtain db where "create_session (ck_now ck) token (ur_id r) (ac_session_hours cfg) (as_db st) = (Inr token, db)"
    using assms by (fastforce simp: create_session_def Let_def)
  with that show thesis by (simp add: open_session_def)
qed

lemma session_request:
  assumes "hd_authorization h = Some (''Bearer '' @ token)" "str_trim token = token" "token \<noteq> []" "ac_admin_key cfg \<noteq> Some token"
  shows "as_user cfg ck h st = (case resolve_session (ck_now ck) token (as_db st) of None \<Rightarrow> Inl (AccAuth InvalidToken) | Some u \<Rightarrow> Inr u)"
proof -
  have "bearer_from_headers h = Some token" using assms(1-3) by (simp add: bearer_from_headers_def)
  moreover have "\<not> is_admin_key (ac_admin_key cfg) token" using assms(4) by (simp add: is_admin_key_iff)
  ultimately show ?thesis
    using resolve_session_active by (auto simp: as_user_def user_from_request_def db_resolver_def split: option.split)
qed

text \<open>C9: a login succeeds exactly for an active local account whose password verifies, while the address is within its
  limit. The token it returns is then the credential of that account, with the permissions of its role, until the
  session ends; a login that fails changes no table.\<close>

theorem login_opens_session:
  assumes "acc_step\<^sup>*\<^sup>* (st0\<lparr>as_db := empty_user_db fk\<rparr>) st" "token \<notin> sr_token ` set (db_sessions (as_db st))"
    and "str_trim token = token" "token \<noteq> []" "ac_admin_key cfg \<noteq> Some token"
  shows "((\<exists>v st'. login env cfg ck ip token username password st = (Inr v, st')) \<longleftrightarrow>
       fst (check_auth_ip_rate (ck_secs ck) ip 20 (as_ips st)) \<and> (\<exists>u. may_login env username password (as_db st) u)) \<and>
     (\<forall>e st'. login env cfg ck ip token username password st = (Inl e, st') \<longrightarrow> as_db st' = as_db st) \<and>
     (\<forall>t v st'. login env cfg ck ip token username password st = (Inr (t, v), st') \<longrightarrow> t = token \<and>
       (\<exists>u. may_login env username password (as_db st) u \<and> v = user_view_of u \<and>
          (\<forall>ck' h. hd_authorization h = Some (''Bearer '' @ token) \<longrightarrow> as_user cfg ck' h st' =
             (if ck_now ck' < ck_now ck + hours (ac_session_hours cfg) then Inr (u\<lparr>u_last_login := Some (ck_now ck)\<rparr>)
              else Inl (AccAuth InvalidToken)))))"
proof -
  have inv: "acc_inv st" using accounts.steps_inv[OF assms(1)] accounts.inv_init[of "st0\<lparr>as_db := empty_user_db fk\<rparr>"] by (auto simp: exI[of _ fk])
  obtain adm ips where c: "check_auth_ip_rate (ck_secs ck) ip 20 (as_ips st) = (adm, ips)" by force
  let ?st = "st\<lparr>as_ips := ips\<rparr>"
  have inv1: "acc_inv ?st" using inv by (simp add: acc_inv_def)
  have good: "\<exists>st'. login env cfg ck ip token username password st = (Inr (token, user_view_of u), st') \<and>
      (\<forall>ck' h. hd_authorization h = Some (''Bearer '' @ token) \<longrightarrow> as_user cfg ck' h st' =
             (if ck_now ck' < ck_now ck + hours (ac_session_hours cfg) then Inr (u\<lparr>u_last_login := Some (ck_now ck)\<rparr>)
              else Inl (AccAuth InvalidToken)))" if ok: "adm" "may_login env username password (as_db st) u" for u
  proof -
    obtain r where r: "r \<in> set (db_users (as_db st))" "u = row_to_user r"
      using ok(2) find_user_row[of "\<lambda>r. ur_username r = username" "as_db st" u] by (auto simp: may_login_def get_by_username_def)
    have act: "ur_active r = 1" using ok(2) inv r by (auto simp: may_login_def acc_inv_def flags_ok_def)
    obtain db where db: "open_session cfg ck token (row_to_user r) ?st = (Inr token, ?st\<lparr>as_db := db\<rparr>)"
      "create_session (ck_now ck) token (ur_id r) (ac_session_hours cfg) (as_db ?st) = (Inr token, db)"
      using open_session_fresh[OF inv1, of r token cfg ck] r(1) assms(2) by auto
    have res: "resolve_session t token db = (if t < ck_now ck + hours (ac_session_hours cfg) then Some (u\<lparr>u_last_login := Some (ck_now ck)\<rparr>) else None)" for t
      using created_session[OF _ r(1) refl, of "ck_now ck" token "ac_session_hours cfg" token db t] inv db(2) act
      by (simp add: acc_inv_def r(2) row_to_user_login)
    have "login env cfg ck ip token username password st = (Inr (token, user_view_of u), ?st\<lparr>as_db := db\<rparr>)"
      using ok c db(1) check_login_iff[of env username password "as_db st" u] by (simp add: login_def r(2))
    then show ?thesis using session_request[OF _ assms(3-5)] res by (intro exI[of _ "?st\<lparr>as_db := db\<rparr>"]) auto
  qed
  have bad: "\<exists>e. login env cfg ck ip token username password st = (Inl e, ?st)" if "\<not> (adm \<and> (\<exists>u. may_login env username password (as_db st) u))"
  proof (cases "check_login env username password (as_db st)")
    case (Inl e)
    then show ?thesis using c by (auto simp: login_def Let_def)
  next
    case (Inr u)
    then show ?thesis using that c by (auto simp: login_def Let_def check_login_iff)
  qed
  show ?thesis
  proof (cases "adm \<and> (\<exists>u. may_login env username password (as_db st) u)")
    case True
    then obtain u where u: "may_login env username password (as_db st) u" by blast
    with good True obtain st' where st': "login env cfg ck ip token username password st = (Inr (token, user_view_of u), st')"
      "\<forall>ck' h. hd_authorization h = Some (''Bearer '' @ token) \<longrightarrow> as_user cfg ck' h st' =
             (if ck_now ck' < ck_now ck + hours (ac_session_hours cfg) then Inr (u\<lparr>u_last_login := Some (ck_now ck)\<rparr>)
              else Inl (AccAuth InvalidToken))" by blast
    then show ?thesis using True u c by auto
  next
    case False
    with bad c show ?thesis by auto
  qed
qed

definition demo_acc_env :: acc_env where
  "demo_acc_env = \<lparr>pw_hash = (\<lambda>salt pw. Some pw), pw_verify = (\<lambda>pw h. Some (pw = h)), acc_lower = (\<lambda>s. s)\<rparr>"

definition demo_acc_cfg :: acc_cfg where
  "demo_acc_cfg = \<lparr>ac_admin_key = Some ''root'', ac_session_hours = 1, ac_smtp = True\<rparr>"

definition demo_headers :: "string \<Rightarrow> headers" where
  "demo_headers t = \<lparr>hd_authorization = Some (''Bearer '' @ t), hd_workspace = None\<rparr>"

definition demo_new_user :: create_user_req where
  "demo_new_user = \<lparr>cu_username = ''ann'', cu_password = Some ''secret123'', cu_email = Some ''a@x'', cu_role = ''viewer''\<rparr>"

definition demo_acc :: acc_state where
  "demo_acc = snd (route_create_user demo_acc_env demo_acc_cfg \<lparr>ck_secs = 0, ck_now = 0\<rparr> (demo_headers ''root'') ''7'' [] demo_new_user
     \<lparr>as_db = empty_user_db True, as_ips = Map.empty\<rparr>)"

lemma str_trim_plain: "list_all (\<lambda>c. 33 \<le> (of_char c :: nat) \<and> of_char c < (127 :: nat)) s \<Longrightarrow> str_trim s = s"
  by (rule str_trim_graphic) (simp add: list_all_iff)

lemma demo_admin: "as_admin demo_acc_cfg ck (demo_headers ''root'') st = Inr (synthetic_admin (ck_now ck))"
proof -
  have "bearer_from_headers (demo_headers ''root'') = Some ''root''" by (simp add: demo_headers_def bearer_from_headers_def str_trim_plain)
  then show ?thesis
    by (simp add: as_admin_def admin_from_request_def user_from_request_def demo_acc_cfg_def is_admin_key_iff synthetic_admin_def
        can_manage_users_def role_has_def)
qed

lemma demo_acc_users: "demo_acc = \<lparr>as_db = (empty_user_db True)\<lparr>db_users := [\<lparr>ur_id = ''7'', ur_username = ''ann'', ur_email = Some ''a@x'',
    ur_password_hash = Some ''secret123'', ur_role = ''viewer'', ur_provider = ''local'', ur_provider_sub = None, ur_active = 1, ur_created_at = 0,
    ur_last_login = None\<rparr>]\<rparr>, as_ips = Map.empty\<rparr>"
  by (simp add: demo_acc_def route_create_user_def guarded_def demo_admin demo_new_user_def role_from_str_def demo_acc_env_def new_user_def
      str_trim_plain create_user_def empty_user_db_def user_to_row_def Let_def)

lemma demo_acc_reached: "acc_step\<^sup>*\<^sup>* (\<lparr>as_db = empty_user_db False, as_ips = Map.empty\<rparr>\<lparr>as_db := empty_user_db True\<rparr>) demo_acc"
  unfolding demo_acc_def by (simp add: r_into_rtranclp acc_step.step_create)

theorem login_opens_session_witness:
  "\<exists>v st'. login demo_acc_env demo_acc_cfg \<lparr>ck_secs = 1, ck_now = 1\<rparr> ''ip'' ''tok'' ''ann'' ''secret123'' demo_acc = (Inr v, st')"
proof -
  have adm: "fst (check_auth_ip_rate 1 ''ip'' 20 (as_ips demo_acc))"
    by (simp add: demo_acc_users check_auth_ip_rate_def check_rate_def rate_prune_def u32_saturating_add_def)
  have "may_login demo_acc_env ''ann'' ''secret123'' (as_db demo_acc) (row_to_user (hd (db_users (as_db demo_acc))))"
    by (simp add: may_login_def demo_acc_users get_by_username_def find_user_def demo_acc_env_def row_to_user_def provider_from_str_def)
  with adm show ?thesis
    using login_opens_session[OF demo_acc_reached, of "''tok''" demo_acc_cfg demo_acc_env "\<lparr>ck_secs = 1, ck_now = 1\<rparr>" "''ip''" "''ann''" "''secret123''"]
    by (auto simp: demo_acc_users empty_user_db_def str_trim_plain demo_acc_cfg_def)
qed

subsection \<open>Resetting a password\<close>

lemma find_map: "find P (map f xs) = map_option f (find (P \<circ> f) xs)"
  by (induction xs) auto

lemma find_cong_set: "(\<And>x. x \<in> set xs \<Longrightarrow> P x = Q x) \<Longrightarrow> find P xs = find Q xs"
  by (induction xs) auto

definition with_hash :: "string \<Rightarrow> user_row \<Rightarrow> user" where
  "with_hash h r = (row_to_user r)\<lparr>u_password_hash := Some h\<rparr>"

lemma with_hash_sel [simp]:
  "u_id (with_hash h r) = ur_id r" "u_username (with_hash h r) = ur_username r" "u_email (with_hash h r) = ur_email r"
  "u_active (with_hash h r) = (ur_active r \<noteq> 0)" "u_password_hash (with_hash h r) = Some h"
  "u_provider (with_hash h r) = u_provider (row_to_user r)"
  by (simp_all add: with_hash_def row_to_user_def)

lemma update_row_with_hash: "row_to_user (update_row (with_hash h r) r) = with_hash h r"
  by (simp add: update_row_def with_hash_def user_to_row_def row_to_user_def role.parse_print provider.parse_print)

lemma users_ok_mem: "users_ok rs \<Longrightarrow> x \<in> set rs \<Longrightarrow> y \<in> set rs \<Longrightarrow> x \<noteq> y \<Longrightarrow> \<not> user_clash x y"
  unfolding users_ok_def by (induction rs) (auto simp: user_clash_sym)

lemma stored_hash:
  fixes h :: string
  assumes "acc_inv st" "r \<in> set (db_users (as_db st))"
  defines "db' \<equiv> (as_db st)\<lparr>db_users := map (update_row (with_hash h r)) (db_users (as_db st))\<rparr>"
  shows "store_user (with_hash h r) a st = (Inr a, st\<lparr>as_db := db'\<rparr>)"
    "get_by_username (ur_username r) db' = Some (with_hash h r)"
    "resolve_session now t (as_db st) = Some v \<Longrightarrow> u_id v = ur_id r \<Longrightarrow> resolve_session now t db' = Some (with_hash h r)"
proof -
  have ok: "users_ok (db_users (as_db st))" "user_db_ok (as_db st)" using assms(1) by (simp_all add: acc_inv_def user_db_ok_def)
  have only: "x = r" if "x \<in> set (db_users (as_db st))" "ur_id x = ur_id r" for x
    using users_ok_ids[OF ok(1)] that assms(2) by (auto simp: distinct_map inj_on_def)
  have clash: "\<not> user_clash (user_to_row (with_hash h r)) x" if "x \<in> set (db_users (as_db st))" "ur_id x \<noteq> ur_id r" for x
  proof -
    have "user_clash (user_to_row (with_hash h r)) x = user_clash r x" by (simp add: user_clash_def)
    moreover have "x \<noteq> r" using that by auto
    ultimately show ?thesis using users_ok_mem[OF ok(1) assms(2) that(1)] by auto
  qed
  have upd: "update_user (with_hash h r) (as_db st) = Inr db'" using clash by (auto simp: update_user_def db'_def)
  then show "store_user (with_hash h r) a st = (Inr a, st\<lparr>as_db := db'\<rparr>)" by (simp add: store_user_def)
  have same: "ur_username (update_row (with_hash h r) x) = ur_username x" if "x \<in> set (db_users (as_db st))" for x
    using only[OF that] by (auto simp: update_row_def)
  have "find (\<lambda>x. ur_username (update_row (with_hash h r) x) = ur_username r) (db_users (as_db st)) = Some r"
    using find_cong_set[of "db_users (as_db st)" "\<lambda>x. ur_username (update_row (with_hash h r) x) = ur_username r" "\<lambda>x. ur_username x = ur_username r"]
      find_key[OF users_ok_names[OF ok(1)] assms(2)] same by simp
  then have "find (\<lambda>x. ur_username x = ur_username r) (db_users db') = Some (update_row (with_hash h r) r)"
    by (simp add: db'_def find_map comp_def)
  then show "get_by_username (ur_username r) db' = Some (with_hash h r)"
    by (simp add: get_by_username_def find_user_def update_row_with_hash)
  have ok': "user_db_ok db'" using user_db_step_ok[OF user_db_step.step_update[OF upd] ok(2)] .
  show "resolve_session now t db' = Some (with_hash h r)" if rs: "resolve_session now t (as_db st) = Some v" "u_id v = ur_id r"
  proof -
    obtain s where s: "s \<in> set (db_sessions (as_db st))" "sr_token s = t" "sr_user_id s = ur_id r" "now < sr_expires_at s" "ur_active r = 1"
    proof -
      obtain s r' where s: "s \<in> set (db_sessions (as_db st))" "r' \<in> set (db_users (as_db st))" "sr_token s = t" "sr_user_id s = ur_id r'"
          "now < sr_expires_at s" "ur_active r' = 1" "v = row_to_user r'"
        using rs(1) unfolding resolve_session_iff[OF ok(2)] by blast
      with only[of r'] rs(2) have "r' = r" by simp
      with s that show thesis by simp
    qed
    have "update_row (with_hash h r) r \<in> set (db_users db')" using assms(2) by (simp add: db'_def)
    moreover have "ur_active (update_row (with_hash h r) r) = 1" using s(5) by (simp add: update_row_def user_to_row_def)
    moreover have "s \<in> set (db_sessions db')" using s(1) by (simp add: db'_def)
    ultimately show ?thesis unfolding resolve_session_iff[OF ok'] using s(2-4) update_row_with_hash[of h r] by (metis update_row_id)
  qed
qed

lemma request_reset_sent:
  assumes "request_reset cfg ck ip token email st = (Some m, r, st1)"
  obtains u db ips where "m = (email, token)" "r = Inr ()" "get_by_email email (as_db st) = Some u" "u_active u" "st1 = st\<lparr>as_ips := ips, as_db := db\<rparr>"
    "create_reset_token (ck_now ck) token (u_id u) (as_db st) = (Inr token, db)"
proof -
  have tok: "t = token" if "create_reset_token n token i db = (Inr t, db')" for n i db t db'
    using that by (auto simp: create_reset_token_def Let_def split: if_splits)
  show thesis using assms that tok by (auto simp: request_reset_def Let_def split: prod.splits if_splits option.splits sum.splits)
qed

lemma create_reset_keeps:
  "create_reset_token n token i db = (Inr t, db') \<Longrightarrow> db_users db' = db_users db \<and> db_sessions db' = db_sessions db"
  by (auto simp: create_reset_token_def Let_def split: if_splits)

lemma consume_keeps:
  "consume_reset_token n token db = (x, db') \<Longrightarrow> db_users db' = db_users db \<and> db_sessions db' = db_sessions db"
  by (auto simp: consume_reset_token_def split: option.splits)

lemma consumed_gone:
  "consume_reset_token n token db = (Some i, db') \<Longrightarrow> consume_reset_token n' token (db'\<lparr>db_users := us\<rparr>) = (None, db'\<lparr>db_users := us\<rparr>)"
proof -
  assume "consume_reset_token n token db = (Some i, db')"
  then have "db_resets db' = filter (\<lambda>x. rr_token x \<noteq> token) (db_resets db)"
    by (auto simp: consume_reset_token_def split: option.splits)
  then have "find (\<lambda>r. rr_token r = token \<and> n' < rr_expires_at r) (db_resets db') = None" by (auto simp: find_None_iff)
  then show ?thesis by (simp add: consume_reset_token_def)
qed

text \<open>C12: a password reset changes the password of the account with the address, once, within thirty minutes of a
  request, and to a password of at least eight bytes: afterwards exactly the new password opens it. The sessions that
  were open stay open.\<close>

theorem password_reset:
  assumes "acc_step\<^sup>*\<^sup>* (st0\<lparr>as_db := empty_user_db fk\<rparr>) st" "pw_ok env"
    and "request_reset cfg ck ip token email st = (Some m, r, st1)" "confirm_reset env ck' salt token password st1 = (Inr (), st2)"
  shows "\<exists>u. get_by_email email (as_db st) = Some u \<and> u_active u \<and> m = (email, token) \<and>
     ck_now ck' < ck_now ck + minutes 30 \<and> 8 \<le> length password \<and>
     (u_provider u = LocalLogin \<longrightarrow> (\<forall>pw. (\<exists>v. may_login env (u_username u) pw (as_db st2) v) \<longleftrightarrow> pw = password)) \<and>
     (\<forall>ck'' salt' pw. fst (confirm_reset env ck'' salt' token pw st2) = Inl (if length pw < 8 then AccBadRequest else AccUnauthorized)) \<and>
     (\<forall>now t v. resolve_session now t (as_db st) = Some v \<and> u_id v = u_id u \<longrightarrow>
        (\<exists>v'. resolve_session now t (as_db st2) = Some v' \<and> u_id v' = u_id u \<and> u_role v' = u_role u))"
proof -
  have inv: "acc_inv st" using accounts.steps_inv[OF assms(1)] accounts.inv_init[of "st0\<lparr>as_db := empty_user_db fk\<rparr>"] by (auto simp: exI[of _ fk])
  obtain u db ips where rq: "m = (email, token)" "get_by_email email (as_db st) = Some u" "u_active u" "st1 = st\<lparr>as_ips := ips, as_db := db\<rparr>"
      "create_reset_token (ck_now ck) token (u_id u) (as_db st) = (Inr token, db)"
    using request_reset_sent[OF assms(3)] by metis
  obtain x db1 where co: "consume_reset_token (ck_now ck') token db = (x, db1)" by force
  have len: "8 \<le> length password" using assms(4) by (auto simp: confirm_reset_def split: if_splits)
  obtain i where i: "x = Some i" "change_password env salt i password (st1\<lparr>as_db := db1\<rparr>) = (Inr (), st2)"
    using assms(4) len co by (auto simp: confirm_reset_def rq(4) split: option.splits)
  have time: "ck_now ck' < ck_now ck + minutes 30" "i = u_id u"
    using reset_token_single_use[OF rq(5), of "ck_now ck'"] co i(1) by (auto split: if_splits)
  have tabs: "db_users db1 = db_users (as_db st)" "db_sessions db1 = db_sessions (as_db st)"
    using create_reset_keeps[OF rq(5)] consume_keeps[OF co] by simp_all
  let ?st = "st1\<lparr>as_db := db1\<rparr>"
  have inv1: "acc_inv ?st"
    using inv user_db_step_ok[OF user_db_step.step_reset, of "as_db st" "ck_now ck" token "u_id u"]
      user_db_step_ok[OF user_db_step.step_consume, of db "ck_now ck'" token] rq(5) co tabs
    by (simp add: acc_inv_def flags_ok_def)
  obtain r where row: "r \<in> set (db_users (as_db st))" "u = row_to_user r"
    using rq(2) find_user_row by (auto simp: get_by_email_def dest!: find_user_row)
  have same: "get_by_id (u_id u) db1 = Some u"
    using find_key[OF users_ok_ids row(1)] inv tabs row(2) by (simp add: acc_inv_def user_db_ok_def get_by_id_def find_user_def)
  obtain h where h: "pw_hash env salt password = Some h" "store_user (with_hash h r) () ?st = (Inr (), st2)"
    using i(2) same by (auto simp: change_password_def time(2) row(2) with_hash_def split: option.splits)
  have "r \<in> set (db_users (as_db ?st))" using row(1) tabs by simp
  note st = stored_hash[OF inv1 this, where h = h, simplified]
  have st2: "as_db st2 = db1\<lparr>db_users := map (update_row (with_hash h r)) (db_users (as_db st))\<rparr>"
    using st(1)[of "()"] h(2) tabs by simp
  have login: "(\<exists>v. may_login env (u_username u) pw (as_db st2) v) \<longleftrightarrow> pw = password" if "u_provider u = LocalLogin" for pw
    using st(2) h(1) assms(2) rq(3) that by (simp add: may_login_def st2 tabs row(2) pw_ok_def)
  have once: "fst (confirm_reset env ck'' salt' token pw st2) = Inl (if length pw < 8 then AccBadRequest else AccUnauthorized)" for ck'' salt' pw
    using consumed_gone[OF co[unfolded i(1)]] by (simp add: confirm_reset_def st2)
  have "resolve_session now t db1 = resolve_session now t (as_db st)" for now t by (simp add: resolve_session_def tabs)
  with st(3) have keep: "resolve_session now t (as_db st2) = Some (with_hash h r)"
    if "resolve_session now t (as_db st) = Some v" "u_id v = u_id u" for now t v
    using that by (simp add: st2 tabs row(2))
  have "u_role (with_hash h r) = u_role u" by (simp add: with_hash_def row(2))
  with login once keep rq time len row show ?thesis by (intro exI[of _ u]) auto
qed

theorem password_reset_witness:
  "\<exists>m r st1 st2 u v. request_reset demo_acc_cfg \<lparr>ck_secs = 1, ck_now = 1\<rparr> ''ip'' ''rst'' ''a@x'' demo_acc = (Some m, r, st1) \<and>
     confirm_reset demo_acc_env \<lparr>ck_secs = 2, ck_now = 2\<rparr> [] ''rst'' ''fresh-password'' st1 = (Inr (), st2) \<and>
     get_by_email ''a@x'' (as_db demo_acc) = Some u \<and> may_login demo_acc_env (u_username u) ''fresh-password'' (as_db st2) v"
proof -
  obtain m r st1 where rq: "request_reset demo_acc_cfg \<lparr>ck_secs = 1, ck_now = 1\<rparr> ''ip'' ''rst'' ''a@x'' demo_acc = (Some m, r, st1)"
      "st1 = demo_acc\<lparr>as_ips := [''ip'' \<mapsto> (1, 1)], as_db := (as_db demo_acc)\<lparr>db_resets := [\<lparr>rr_token = ''rst'', rr_user_id = ''7'', rr_expires_at = 1 + minutes 30\<rparr>]\<rparr>\<rparr>"
    by (simp add: request_reset_def demo_acc_users demo_acc_cfg_def check_auth_ip_rate_def check_rate_def rate_prune_def u32_saturating_add_def
        get_by_email_def find_user_def create_reset_token_def empty_user_db_def row_to_user_def Let_def)
  obtain st2 where co: "confirm_reset demo_acc_env \<lparr>ck_secs = 2, ck_now = 2\<rparr> [] ''rst'' ''fresh-password'' st1 = (Inr (), st2)"
    by (simp add: rq(2) confirm_reset_def demo_acc_users empty_user_db_def consume_reset_token_def minutes_def change_password_def
        get_by_id_def find_user_def demo_acc_env_def store_user_def update_user_def row_to_user_def)
  have "pw_ok demo_acc_env" by (simp add: pw_ok_def demo_acc_env_def)
  from password_reset[OF demo_acc_reached this rq(1) co] obtain u where u: "get_by_email ''a@x'' (as_db demo_acc) = Some u"
      "u_provider u = LocalLogin \<longrightarrow> (\<forall>pw. (\<exists>v. may_login demo_acc_env (u_username u) pw (as_db st2) v) \<longleftrightarrow> pw = ''fresh-password'')" by blast
  moreover have "u_provider u = LocalLogin"
    using u(1) by (simp add: demo_acc_users get_by_email_def find_user_def row_to_user_def provider_from_str_def empty_user_db_def) (auto simp: provider_from_str_def)
  ultimately obtain v where "may_login demo_acc_env (u_username u) ''fresh-password'' (as_db st2) v" by blast
  with rq(1) co u(1) show ?thesis by blast
qed

text \<open>The name of a new account is trimmed and put in lower case; the name at a login is taken as it is.\<close>

lemma login_name_not_folded:
  assumes "acc_inv st" "route_create_user env cfg ck h uuid salt req st = (Inr v, st')" "get_by_username (cu_username req) (as_db st) = None"
    and "cu_username req \<noteq> acc_lower env (str_trim (cu_username req))"
  shows "check_login env (cu_username req) password (as_db st') = Inl AccUnauthorized"
proof -
  obtain r hash db where c: "create_user (new_user env (ck_now ck) uuid req r hash) (as_db st) = Inr db" "st' = st\<lparr>as_db := db\<rparr>"
    using assms(2) by (auto simp: route_create_user_def guarded_def Let_def split: sum.splits option.splits)
  then have "get_by_username (cu_username req) db = None"
    using create_user_found[where u = "new_user env (ck_now ck) uuid req r hash" and db = "as_db st"] assms(3,4) by (auto simp: new_user_def)
  then show ?thesis using c(2) by (simp add: check_login_def)
qed

text \<open>Extractors trim the token; logging out does not: with a space more the session outlives the logout.\<close>

lemma logout_keeps_session:
  assumes "hd_authorization h = Some (''Bearer  '' @ token)" "CHR '' '' # token \<notin> sr_token ` set (db_sessions (as_db st))"
  shows "as_db (snd (logout cfg ck h st)) = as_db st"
proof -
  have "raw_bearer h = Some (CHR '' '' # token)" using assms(1) by (simp add: raw_bearer_def)
  moreover have "filter (\<lambda>s. sr_token s \<noteq> CHR '' '' # token) (db_sessions (as_db st)) = db_sessions (as_db st)"
    using assms(2) by (intro filter_True) (metis image_eqI)
  then have "delete_session (CHR '' '' # token) (as_db st) = as_db st" by (simp add: delete_session_def)
  ultimately show ?thesis by (simp add: logout_def guarded_def split: sum.split)
qed

end
