(* ===== verification/Identity.thy ===== *)
theory Identity
  imports Accounts
begin

section \<open>Single sign-on\<close>

text \<open>
  \<open>crates/maranode-api/src/routes/identity.rs\<close>: the OIDC, LDAP and SAML logins and the account and session they lead to. The
  exchanges with an identity provider or a directory are parameters, as are base64, X.509, RSA and the XML reader,
  which gives the events of a document up to its end or to an error. What the code itself does with the text of a
  SAML response, the search for elements and the escape of LDAP filters, is modelled byte by byte.
\<close>

subsection \<open>The account and the session\<close>

definition sso_account ::
  "clock \<Rightarrow> string \<Rightarrow> auth_provider \<Rightarrow> string \<Rightarrow> string \<Rightarrow> string option \<Rightarrow> role \<Rightarrow> user_db \<Rightarrow> (db_error, user \<times> user_db) result" where
  "sso_account ck uuid provider sub username email role db =
     (case get_by_provider_sub (provider_str provider) sub db of
        Some existing \<Rightarrow>
          (let u = (case email of None \<Rightarrow> existing | Some e \<Rightarrow> existing\<lparr>u_email := Some e\<rparr>)
           in map_sum id (\<lambda>db'. (u, db')) (update_user u db))
      | None \<Rightarrow>
          (let u = \<lparr>u_id = uuid, u_username = username, u_email = email, u_password_hash = None, u_role = role, u_provider = provider,
                 u_provider_sub = Some sub, u_active = True, u_created_at = ck_now ck, u_last_login = None\<rparr>
           in map_sum id (\<lambda>db'. (u, db')) (create_user u db)))"

definition upsert_sso_user_and_session ::
  "acc_cfg \<Rightarrow> clock \<Rightarrow> string \<Rightarrow> string \<Rightarrow> auth_provider \<Rightarrow> string \<Rightarrow> string \<Rightarrow> string option \<Rightarrow> string \<Rightarrow> acc_state \<Rightarrow> string acc_result" where
  "upsert_sso_user_and_session cfg ck uuid token provider sub username email role_text st =
     (case role_from_str role_text of
        None \<Rightarrow> (Inl AccBadRequest, st)
      | Some role \<Rightarrow>
          (case sso_account ck uuid provider sub username email role (as_db st) of
             Inl _ \<Rightarrow> (Inl AccInternal, st)
           | Inr (u, db) \<Rightarrow>
               if \<not> u_active u then (Inl AccForbidden, st\<lparr>as_db := db\<rparr>)
               else open_session cfg ck token u (st\<lparr>as_db := db\<rparr>)))"

subsection \<open>OIDC\<close>

record id_state =
  is_acc :: acc_state
  is_oidc :: "string \<rightharpoonup> oidc_pending"

datatype id_error = IdAcc acc_error | IdUnauthorized | IdNotFound | IdInternal | IdTooMany | IdNotImplemented

record oidc_claims =
  oc_subject :: string
  oc_email :: "string option"
  oc_preferred_username :: "string option"

text \<open>The provider: what discovery and the start of a flow give (address, state, verifier, nonce), and the claims for
  a code, a verifier and a nonce.\<close>

record oidc_idp =
  oi_default_role :: string
  oi_start :: "(string \<times> string \<times> string \<times> string) option"
  oi_exchange :: "string \<Rightarrow> string \<Rightarrow> string \<Rightarrow> oidc_claims option"

record providers_resp =
  pv_local :: bool
  pv_oidc :: bool
  pv_ldap :: bool
  pv_saml :: bool

definition list_providers :: "bool \<Rightarrow> 'o option \<Rightarrow> 'l option \<Rightarrow> 's option \<Rightarrow> providers_resp" where
  "list_providers ldap_feature oidc ldap saml =
     \<lparr>pv_local = True, pv_oidc = (oidc \<noteq> None), pv_ldap = (ldap_feature \<and> ldap \<noteq> None), pv_saml = (saml \<noteq> None)\<rparr>"

definition oidc_login :: "clock \<Rightarrow> oidc_idp option \<Rightarrow> id_state \<Rightarrow> (id_error, string) result \<times> id_state" where
  "oidc_login ck idp st = (case idp of
      None \<Rightarrow> (Inl IdNotFound, st)
    | Some p \<Rightarrow>
        (case oi_start p of
           None \<Rightarrow> (Inl IdInternal, st)
         | Some (auth_url, csrf, verifier, nonce) \<Rightarrow>
             (Inr auth_url, st\<lparr>is_oidc := oidc_pending_insert (ck_secs ck) csrf verifier nonce (is_oidc st)\<rparr>)))"

definition with_acc :: "'a acc_result \<Rightarrow> id_state \<Rightarrow> (id_error, 'a) result \<times> id_state" where
  "with_acc r st = (map_sum IdAcc id (fst r), st\<lparr>is_acc := snd r\<rparr>)"

definition oidc_callback ::
  "acc_cfg \<Rightarrow> clock \<Rightarrow> string \<Rightarrow> string \<Rightarrow> oidc_idp option \<Rightarrow> string \<Rightarrow> string option \<Rightarrow> id_state \<Rightarrow> (id_error, string) result \<times> id_state" where
  "oidc_callback cfg ck uuid token idp code state st = (case state of
      None \<Rightarrow> (Inl IdUnauthorized, st)
    | Some s \<Rightarrow>
        (case oidc_pending_take (ck_secs ck) s (is_oidc st) of
           (None, m) \<Rightarrow> (Inl IdUnauthorized, st\<lparr>is_oidc := m\<rparr>)
         | (Some pending, m) \<Rightarrow>
             (let st1 = st\<lparr>is_oidc := m\<rparr> in
              case idp of
                None \<Rightarrow> (Inl IdNotFound, st1)
              | Some p \<Rightarrow>
                  (case oi_exchange p code (op_verifier pending) (op_nonce pending) of
                     None \<Rightarrow> (Inl IdInternal, st1)
                   | Some c \<Rightarrow>
                       (let username = (case oc_preferred_username c of Some n \<Rightarrow> n | None \<Rightarrow> unwrap_or (oc_subject c) (oc_email c))
                        in with_acc (upsert_sso_user_and_session cfg ck uuid token Oidc (oc_subject c) username (oc_email c)
                             (oi_default_role p) (is_acc st1)) st1)))))"

subsection \<open>LDAP\<close>

text \<open>\<open>str::replace\<close> of one character.\<close>

definition replace_chr :: "char \<Rightarrow> string \<Rightarrow> string \<Rightarrow> string" where
  "replace_chr c by s = concat (map (\<lambda>x. if x = c then by else [x]) s)"

definition ldap_escape :: "string \<Rightarrow> string" where
  "ldap_escape s =
     replace_chr (CHR 0x00) [CHR 0x5C, CHR ''0'', CHR ''0'']
       (replace_chr (CHR '')'') [CHR 0x5C, CHR ''2'', CHR ''9'']
         (replace_chr (CHR ''('') [CHR 0x5C, CHR ''2'', CHR ''8'']
           (replace_chr (CHR ''*'') [CHR 0x5C, CHR ''2'', CHR ''a'']
             (replace_chr (CHR 0x5C) [CHR 0x5C, CHR ''5'', CHR ''c''] s))))"

text \<open>The directory: whether a bind succeeds (\<open>None\<close> when it cannot be asked), and the entries that a filter finds with
  their attributes.\<close>

record ldap_cfg =
  ld_bind_dn :: string
  ld_bind_pw :: string
  ld_uid_attr :: string
  ld_group_role_map :: "(string \<times> string) list"
  ld_default_role :: string
  ld_connects :: bool
  ld_bind :: "string \<Rightarrow> string \<Rightarrow> bool"
  ld_search :: "string \<Rightarrow> (string \<times> (string \<rightharpoonup> string list)) list option"

definition eq_ignore_ascii_case :: "string \<Rightarrow> string \<Rightarrow> bool" where
  "eq_ignore_ascii_case a b \<longleftrightarrow> map ascii_lower a = map ascii_lower b"

definition ldap_role :: "ldap_cfg \<Rightarrow> string list \<Rightarrow> string" where
  "ldap_role l member_of = (case find (\<lambda>(g, _). \<exists>m \<in> set member_of. eq_ignore_ascii_case m g) (ld_group_role_map l) of
      Some (_, r) \<Rightarrow> r | None \<Rightarrow> ld_default_role l)"

definition ldap_filter :: "ldap_cfg \<Rightarrow> string \<Rightarrow> string" where
  "ldap_filter l username = ''('' @ ld_uid_attr l @ ''='' @ ldap_escape username @ '')''"

definition ldap_login ::
  "acc_cfg \<Rightarrow> clock \<Rightarrow> string \<Rightarrow> string \<Rightarrow> bool \<Rightarrow> ldap_cfg option \<Rightarrow> string \<Rightarrow> string \<Rightarrow> string \<Rightarrow> acc_state \<Rightarrow> (id_error, string) result \<times> acc_state" where
  "ldap_login cfg ck uuid token feature ldap ip username password st =
     (if \<not> feature then (Inl IdNotImplemented, st)
      else let (admitted, ips) = check_auth_ip_rate (ck_secs ck) ip 20 (as_ips st); st1 = st\<lparr>as_ips := ips\<rparr> in
        if \<not> admitted then (Inl IdTooMany, st1)
        else case ldap of
          None \<Rightarrow> (Inl IdNotFound, st1)
        | Some l \<Rightarrow>
            if \<not> ld_connects l \<or> \<not> ld_bind l (ld_bind_dn l) (ld_bind_pw l) then (Inl IdInternal, st1)
            else case ld_search l (ldap_filter l username) of
              None \<Rightarrow> (Inl IdInternal, st1)
            | Some [] \<Rightarrow> (Inl IdUnauthorized, st1)
            | Some ((dn, attrs) # _) \<Rightarrow>
                if \<not> ld_bind l dn password then (Inl IdUnauthorized, st1)
                else let (r, st2) = upsert_sso_user_and_session cfg ck uuid token Ldap dn username
                           (Option.bind (attrs ''mail'') (\<lambda>v. case v of [] \<Rightarrow> None | m # _ \<Rightarrow> Some m))
                           (ldap_role l (unwrap_or [] (attrs ''memberOf''))) st1
                     in (map_sum IdAcc id r, st2))"

subsection \<open>SAML\<close>

datatype xml_event =
    XStart string "(string \<times> string) list"
  | XEmpty string "(string \<times> string) list"
  | XEnd string
  | XText "string option"
  | XOther

text \<open>Names and keys are local names, attributes that cannot be read are left out, and a text that cannot be unescaped is
  \<open>None\<close>. A document is its events and whether the reader came to its end.\<close>

record saml_env =
  xml_events :: "string \<Rightarrow> xml_event list \<times> bool"
  std_decode :: "string \<Rightarrow> bytes option"
  cert_key :: "bytes \<Rightarrow> bytes option"
  sig_wellformed :: "bytes \<Rightarrow> bool"
  rsa_verify :: "bytes \<Rightarrow> bytes \<Rightarrow> bytes \<Rightarrow> bool"
  saml_lower :: "string \<Rightarrow> string"
  entity_base :: "string \<Rightarrow> (string \<times> string option) option"
  deflate_encode :: "string \<Rightarrow> string"

record saml_cfg =
  sm_metadata :: "string option"
  sm_sp_entity_id :: string
  sm_idp_cert :: "string option"
  sm_default_role :: string

fun find_bytes :: "'a list \<Rightarrow> 'a list \<Rightarrow> nat option" where
  "find_bytes [] needle = (if needle = [] then Some 0 else None)"
| "find_bytes (c # cs) needle = (if prefix needle (c # cs) then Some 0 else map_option Suc (find_bytes cs needle))"

text \<open>The first element with one of two tags, as the code looks for it: the opening of the first pair that is found and
  closed.\<close>

definition signed_info_between :: "string \<Rightarrow> string \<Rightarrow> string \<Rightarrow> string option" where
  "signed_info_between open' close' xml =
     Option.bind (find_bytes xml open') (\<lambda>start.
       map_option (\<lambda>rel_end. take (rel_end + length close') (drop start xml)) (find_bytes (drop start xml) close'))"

definition extract_signed_info_bytes :: "string \<Rightarrow> string option" where
  "extract_signed_info_bytes xml =
     (case signed_info_between ''<ds:SignedInfo'' ''</ds:SignedInfo>'' xml of
        Some b \<Rightarrow> Some b
      | None \<Rightarrow> signed_info_between ''<SignedInfo'' ''</SignedInfo>'' xml)"

definition element_between :: "string \<Rightarrow> string \<Rightarrow> string \<Rightarrow> string option" where
  "element_between open' close' xml =
     Option.bind (find_bytes xml open') (\<lambda>s.
     Option.bind (find_bytes (drop s xml) ''>'') (\<lambda>gt.
       let content = drop (s + gt + 1) xml in
       map_option (\<lambda>e. str_trim (take e content)) (find_bytes content close')))"

definition xml_element_text :: "string \<Rightarrow> string \<Rightarrow> string option" where
  "xml_element_text xml local =
     (case element_between (''<ds:'' @ local) (''</ds:'' @ local @ ''>'') xml of
        Some t \<Rightarrow> Some t
      | None \<Rightarrow> element_between (''<'' @ local) (''</'' @ local @ ''>'') xml)"

definition strip_breaks :: "string \<Rightarrow> string" where
  "strip_breaks s = filter (\<lambda>c. c \<notin> {CHR 0x0A, CHR 0x0D, CHR '' ''}) s"

definition strip_pem :: "string \<Rightarrow> string" where
  "strip_pem s = filter (\<lambda>c. c \<noteq> CHR '' '')
     (concat (map (map char_of) (filter (\<lambda>l. \<not> prefix (ascii ''-----'') l) (str_lines (ascii s)))))"

datatype saml_error = NoSignedInfo | NoSignatureValue | SignatureBase64 | NoCertificate | CertBase64 | CertParse | SignatureParse | SignatureFailed
  | NoNameId | XmlError

definition saml_verify_signature :: "saml_env \<Rightarrow> string \<Rightarrow> string option \<Rightarrow> (saml_error, unit) result" where
  "saml_verify_signature env xml configured_cert =
     rbind (ok_or NoSignedInfo (extract_signed_info_bytes xml)) (\<lambda>signed_info.
     rbind (ok_or NoSignatureValue (xml_element_text xml ''SignatureValue'')) (\<lambda>sig_raw.
     rbind (ok_or SignatureBase64 (std_decode env (strip_breaks sig_raw))) (\<lambda>sig.
     rbind (case configured_cert of
         Some c \<Rightarrow> Inr (strip_pem c)
       | None \<Rightarrow> rbind (ok_or NoCertificate (xml_element_text xml ''X509Certificate'')) (\<lambda>t. Inr (strip_breaks t))) (\<lambda>cert_b64.
     rbind (ok_or CertBase64 (std_decode env cert_b64)) (\<lambda>cert_der.
     rbind (ok_or CertParse (cert_key env cert_der)) (\<lambda>key.
       if \<not> sig_wellformed env sig then Inl SignatureParse
       else if rsa_verify env key signed_info sig then Inr () else Inl SignatureFailed))))))"

record saml_scan =
  sc_name_id :: string
  sc_email :: "string option"
  sc_username :: "string option"
  sc_in_name_id :: bool
  sc_attr_name :: string
  sc_in_value :: bool

definition saml_event :: "saml_env \<Rightarrow> saml_scan \<Rightarrow> xml_event \<Rightarrow> saml_scan" where
  "saml_event env s ev = (case ev of
      XStart name attrs \<Rightarrow>
        if name = ''NameID'' then s\<lparr>sc_in_name_id := True\<rparr>
        else if name = ''Attribute'' then s\<lparr>sc_attr_name := unwrap_or [] (map_option snd (find (\<lambda>a. fst a = ''Name'') attrs))\<rparr>
        else if name = ''AttributeValue'' then s\<lparr>sc_in_value := True\<rparr>
        else s
    | XEnd name \<Rightarrow>
        if name = ''NameID'' then s\<lparr>sc_in_name_id := False\<rparr>
        else if name = ''AttributeValue'' then s\<lparr>sc_in_value := False\<rparr>
        else s
    | XText t \<Rightarrow>
        (let txt = unwrap_or [] t;
             s1 = (if sc_in_name_id s \<and> txt \<noteq> [] then s\<lparr>sc_name_id := txt\<rparr> else s)
         in if sc_in_value s1
            then let name_lower = saml_lower env (sc_attr_name s1);
                     s2 = (if contains_str name_lower ''email'' \<or> contains_str name_lower ''mail'' then s1\<lparr>sc_email := Some txt\<rparr> else s1)
                 in if contains_str name_lower ''uid'' \<or> contains_str name_lower ''username'' \<or> contains_str name_lower ''login''
                       \<or> contains_str name_lower ''samaccountname''
                    then s2\<lparr>sc_username := Some txt\<rparr> else s2
            else s1)
    | _ \<Rightarrow> s)"

definition scan_start :: saml_scan where
  "scan_start = \<lparr>sc_name_id = [], sc_email = None, sc_username = None, sc_in_name_id = False, sc_attr_name = [], sc_in_value = False\<rparr>"

definition saml_parse_assertion :: "saml_env \<Rightarrow> string \<Rightarrow> (saml_error, string \<times> string option \<times> string) result" where
  "saml_parse_assertion env xml =
     (let (evs, complete) = xml_events env xml; s = foldl (saml_event env) scan_start evs in
      if \<not> complete then Inl XmlError
      else if sc_name_id s = [] then Inl NoNameId
      else Inr (sc_name_id s, sc_email s,
        case sc_username s of Some u \<Rightarrow> u | None \<Rightarrow> unwrap_or (sc_name_id s) (sc_email s)))"

definition saml_callback ::
  "saml_env \<Rightarrow> acc_cfg \<Rightarrow> clock \<Rightarrow> string \<Rightarrow> string \<Rightarrow> saml_cfg option \<Rightarrow> string \<Rightarrow> acc_state \<Rightarrow> (id_error, string) result \<times> acc_state" where
  "saml_callback env cfg ck uuid token saml saml_response st = (case saml of
      None \<Rightarrow> (Inl IdNotFound, st)
    | Some m \<Rightarrow>
        (case Option.bind (std_decode env saml_response) from_utf8 of
           None \<Rightarrow> (Inl IdUnauthorized, st)
         | Some xml \<Rightarrow>
             (case rbind (saml_verify_signature env xml (sm_idp_cert m)) (\<lambda>_. saml_parse_assertion env xml) of
                Inl _ \<Rightarrow> (Inl IdUnauthorized, st)
              | Inr (subject, email, username) \<Rightarrow>
                  (let (r, st1) = upsert_sso_user_and_session cfg ck uuid token Saml subject username email (sm_default_role m) st
                   in (map_sum IdAcc id r, st1)))))"

text \<open>The address of the redirect binding in the provider's metadata.\<close>

definition sso_location :: "xml_event \<Rightarrow> string option" where
  "sso_location ev = (case ev of
      XStart name attrs \<Rightarrow> if name = ''SingleSignOnService'' \<and>
          contains_str (unwrap_or [] (map_option snd (find (\<lambda>a. fst a = ''Binding'') attrs))) ''HTTP-Redirect''
        then map_option snd (find (\<lambda>a. fst a = ''Location'') attrs) else None
    | XEmpty name attrs \<Rightarrow> if name = ''SingleSignOnService'' \<and>
          contains_str (unwrap_or [] (map_option snd (find (\<lambda>a. fst a = ''Binding'') attrs))) ''HTTP-Redirect''
        then map_option snd (find (\<lambda>a. fst a = ''Location'') attrs) else None
    | _ \<Rightarrow> None)"

fun first_location :: "xml_event list \<Rightarrow> string option" where
  "first_location [] = None"
| "first_location (ev # evs) = (case sso_location ev of Some l \<Rightarrow> Some l | None \<Rightarrow> first_location evs)"

definition saml_idp_sso_url :: "saml_env \<Rightarrow> string option \<Rightarrow> (id_error, string) result" where
  "saml_idp_sso_url env metadata =
     rbind (ok_or IdInternal metadata) (\<lambda>xml. ok_or IdInternal (first_location (fst (xml_events env xml))))"

definition base_url_from_entity :: "saml_env \<Rightarrow> string \<Rightarrow> string" where
  "base_url_from_entity env entity_id = (case entity_base env entity_id of
      Some (scheme, host) \<Rightarrow> scheme @ ''://'' @ unwrap_or ''localhost'' host
    | None \<Rightarrow> entity_id)"

definition dq :: string where "dq = [CHR 0x22]"

definition authn_request :: "saml_env \<Rightarrow> string \<Rightarrow> string \<Rightarrow> string \<Rightarrow> string \<Rightarrow> string" where
  "authn_request env i now sso entity =
     ''<samlp:AuthnRequest xmlns:samlp='' @ dq @ ''urn:oasis:names:tc:SAML:2.0:protocol'' @ dq
     @ '' xmlns:saml='' @ dq @ ''urn:oasis:names:tc:SAML:2.0:assertion'' @ dq
     @ '' ID='' @ dq @ i @ dq @ '' Version='' @ dq @ ''2.0'' @ dq @ '' IssueInstant='' @ dq @ now @ dq
     @ '' Destination='' @ dq @ sso @ dq
     @ '' AssertionConsumerServiceURL='' @ dq @ base_url_from_entity env entity @ ''/v1/auth/saml/callback'' @ dq
     @ '' ProtocolBinding='' @ dq @ ''urn:oasis:names:tc:SAML:2.0:bindings:HTTP-POST'' @ dq
     @ ''><saml:Issuer>'' @ entity @ ''</saml:Issuer></samlp:AuthnRequest>''"

text \<open>\<open>deflate_encode\<close> compresses, encodes in base64 and escapes for an address.\<close>

definition saml_login :: "saml_env \<Rightarrow> string \<Rightarrow> string \<Rightarrow> saml_cfg option \<Rightarrow> (id_error, string) result" where
  "saml_login env uuid now saml =
     rbind (ok_or IdNotFound saml) (\<lambda>m.
     rbind (saml_idp_sso_url env (sm_metadata m)) (\<lambda>sso_url.
       Inr (sso_url @ ''?SAMLRequest='' @ deflate_encode env (authn_request env (CHR ''_'' # filter (\<lambda>c. c \<noteq> CHR ''-'') uuid) now sso_url (sm_sp_entity_id m)))))"

subsection \<open>The LDAP filter\<close>

definition escape_chr :: "char \<Rightarrow> string" where
  "escape_chr c =
     (if c = CHR 0x5C then [CHR 0x5C, CHR ''5'', CHR ''c''] else if c = CHR ''*'' then [CHR 0x5C, CHR ''2'', CHR ''a'']
      else if c = CHR ''('' then [CHR 0x5C, CHR ''2'', CHR ''8''] else if c = CHR '')'' then [CHR 0x5C, CHR ''2'', CHR ''9'']
      else if c = CHR 0x00 then [CHR 0x5C, CHR ''0'', CHR ''0''] else [c])"

lemma replace_chr_simps [simp]:
  "replace_chr c by [] = []" "replace_chr c by (x # s) = (if x = c then by else [x]) @ replace_chr c by s"
  "replace_chr c by (s @ t) = replace_chr c by s @ replace_chr c by t"
  by (simp_all add: replace_chr_def)

lemma ldap_escape_chars: "ldap_escape s = concat (map escape_chr s)"
  by (induction s) (simp_all add: ldap_escape_def escape_chr_def)

text \<open>How a directory reads the value in a filter (RFC 4515): a backslash and two hexadecimal digits stand for a byte.\<close>

definition hex_val :: "char \<Rightarrow> nat option" where
  "hex_val c = (let n = of_char c :: nat in
     if 48 \<le> n \<and> n \<le> 57 then Some (n - 48) else if 97 \<le> n \<and> n \<le> 102 then Some (n - 87) else if 65 \<le> n \<and> n \<le> 70 then Some (n - 55) else None)"

fun ldap_value :: "string \<Rightarrow> string option" where
  "ldap_value [] = Some []"
| "ldap_value (c # s) =
     (if c = CHR 0x5C
      then (case s of
          a # b # t \<Rightarrow> (case (hex_val a, hex_val b) of
              (Some x, Some y) \<Rightarrow> map_option (\<lambda>r. char_of (16 * x + y) # r) (ldap_value t)
            | _ \<Rightarrow> None)
        | _ \<Rightarrow> None)
      else if c = CHR ''('' \<or> c = CHR '')'' \<or> c = CHR ''*'' then None
      else map_option (\<lambda>r. c # r) (ldap_value s))"

lemma ldap_value_escape: "ldap_value (escape_chr c @ t) = map_option (\<lambda>r. c # r) (ldap_value t)"
proof -
  consider "c = CHR 0x5C" | "c = CHR ''*''" | "c = CHR ''(''" | "c = CHR '')''" | "c = CHR 0x00" | "escape_chr c = [c]" "c \<noteq> CHR 0x5C" "c \<noteq> CHR ''*''" "c \<noteq> CHR ''(''" "c \<noteq> CHR '')''"
    unfolding escape_chr_def by presburger
  moreover have "char_of (92 :: nat) = CHR 0x5C" "char_of (42 :: nat) = CHR ''*''" "char_of (40 :: nat) = CHR ''(''" "char_of (41 :: nat) = CHR '')''"
    "char_of (0 :: nat) = CHR 0x00" by code_simp+
  ultimately show ?thesis by cases (simp_all add: escape_chr_def hex_val_def)
qed

text \<open>The name in the filter is read back as it was typed, and nothing in it can end the filter or match more than itself.\<close>

lemma ldap_escape_read: "ldap_value (ldap_escape s) = Some s \<and> {CHR ''('', CHR '')'', CHR ''*'', CHR 0x00} \<inter> set (ldap_escape s) = {}"
proof
  show "ldap_value (ldap_escape s) = Some s"
    unfolding ldap_escape_chars by (induction s) (simp_all add: ldap_value_escape del: ldap_value.simps(2))
  show "{CHR ''('', CHR '')'', CHR ''*'', CHR 0x00} \<inter> set (ldap_escape s) = {}"
    unfolding ldap_escape_chars by (induction s) (auto simp: escape_chr_def split: if_splits)
qed

subsection \<open>The account of a subject\<close>

lemma map_sum_Inr_iff: "map_sum f g x = Inr y \<longleftrightarrow> (\<exists>z. x = Inr z \<and> y = g z)"
  by (cases x) auto

lemma sso_account_step: "sso_account ck uuid p sub n e r db = Inr (u, db') \<Longrightarrow> user_db_step db db'"
  unfolding sso_account_def
  by (cases "get_by_provider_sub (provider_str p) sub db"; cases e)
    (auto simp: Let_def map_sum_Inr_iff intro: user_db_step.step_update user_db_step.step_create)

lemma upsert_step: "user_db_step\<^sup>*\<^sup>* (as_db st) (as_db (snd (upsert_sso_user_and_session cfg ck uuid token p sub n e r st)))"
proof (cases "role_from_str r")
  case (Some role)
  show ?thesis
  proof (cases "sso_account ck uuid p sub n e role (as_db st)")
    case (Inr x)
    obtain u db where x: "x = (u, db)" by force
    have "user_db_step (as_db st) db" using sso_account_step Inr x by blast
    then show ?thesis using open_session_step[of "st\<lparr>as_db := db\<rparr>" cfg ck token u] Some Inr x
      by (auto simp: upsert_sso_user_and_session_def intro: converse_rtranclp_into_rtranclp)
  qed (simp add: upsert_sso_user_and_session_def Some)
qed (simp add: upsert_sso_user_and_session_def)

definition of_subject :: "auth_provider \<Rightarrow> string \<Rightarrow> user_row \<Rightarrow> bool" where
  "of_subject p sub r \<longleftrightarrow> ur_provider r = provider_str p \<and> ur_provider_sub r = Some sub"

lemma get_by_provider_sub_find: "get_by_provider_sub (provider_str p) sub db = map_option row_to_user (find (of_subject p sub) (db_users db))"
proof -
  have "of_subject p sub = (\<lambda>r. ur_provider r = provider_str p \<and> ur_provider_sub r = Some sub)" by (simp add: fun_eq_iff of_subject_def)
  then show ?thesis by (simp add: get_by_provider_sub_def find_user_def)
qed

lemma find_id_update: "i \<noteq> u_id u \<Longrightarrow> find (\<lambda>x. ur_id x = i) (map (update_row u) rs) = find (\<lambda>x. ur_id x = i) rs"
  by (induction rs) (auto simp: update_row_def)

text \<open>What the account step leaves: the row of the subject is the user that it returns, and no other row changed.\<close>

lemma sso_account_row:
  assumes "acc_inv st" "sso_account ck uuid p sub n e role (as_db st) = Inr (u, db)"
  obtains r where "find (of_subject p sub) (db_users db) = Some r" "row_to_user r = u" "r \<in> set (db_users db)"
    "\<forall>i. i \<noteq> u_id u \<longrightarrow> get_by_id i db = get_by_id i (as_db st)"
    "case get_by_provider_sub (provider_str p) sub (as_db st) of Some old \<Rightarrow> u_id u = u_id old \<and> u_role u = u_role old | None \<Rightarrow> u_id u = uuid \<and> u_role u = role"
proof (cases "find (of_subject p sub) (db_users (as_db st))")
  case None
  let ?u = "\<lparr>u_id = uuid, u_username = n, u_email = e, u_password_hash = None, u_role = role, u_provider = p,
                 u_provider_sub = Some sub, u_active = True, u_created_at = ck_now ck, u_last_login = None\<rparr>"
  have c: "u = ?u" "create_user ?u (as_db st) = Inr db"
    using assms(2) by (auto simp: sso_account_def get_by_provider_sub_find None Let_def map_sum_Inr_iff)
  then have db: "db_users db = db_users (as_db st) @ [user_to_row ?u]" by (auto simp: create_user_def Let_def split: if_splits)
  have "find (of_subject p sub) (db_users db) = Some (user_to_row ?u)"
    by (simp add: db find_appendI None of_subject_def user_to_row_def)
  moreover have "\<forall>i. i \<noteq> u_id u \<longrightarrow> get_by_id i db = get_by_id i (as_db st)"
    using create_user_found[where u = ?u and db = "as_db st"] c by auto
  ultimately show thesis using that[of "user_to_row ?u"] c by (simp add: db get_by_provider_sub_find None)
next
  case (Some r)
  have r: "r \<in> set (db_users (as_db st))" "of_subject p sub r" using Some by (auto simp: find_Some_iff)
  have u: "u_id u = ur_id r" "u_role u = u_role (row_to_user r)" "update_user u (as_db st) = Inr db" "of_subject p sub (update_row u r)"
      "row_to_user (update_row u r) = u"
    using assms(2) r(2)
    by (cases e; simp add: sso_account_def get_by_provider_sub_find Some Let_def map_sum_Inr_iff of_subject_def update_row_def user_to_row_def
        row_to_user_def role.parse_print provider.parse_print; fail | clarsimp)+
  have only: "x = r" if "x \<in> set (db_users (as_db st))" "ur_id x = ur_id r" for x
    using users_ok_ids that r(1) assms(1) by (auto simp: acc_inv_def user_db_ok_def distinct_map inj_on_def)
  have db: "db_users db = map (update_row u) (db_users (as_db st))" using u(3) by (auto simp: update_user_def split: if_splits)
  have "of_subject p sub (update_row u x) = of_subject p sub x" if "x \<in> set (db_users (as_db st))" for x
    using only[OF that] u(1,4) r(2) by (auto simp: update_row_def)
  then have "find (of_subject p sub) (db_users db) = Some (update_row u r)"
    using find_cong_set[of "db_users (as_db st)" "of_subject p sub \<circ> update_row u" "of_subject p sub"] Some
    by (simp add: db find_map)
  moreover have "\<forall>i. i \<noteq> u_id u \<longrightarrow> get_by_id i db = get_by_id i (as_db st)"
    by (simp add: get_by_id_def find_user_def db find_id_update)
  ultimately show thesis using that[of "update_row u r"] u r(1) by (simp add: db get_by_provider_sub_find Some)
qed

text \<open>A session opened on a fresh token: it stands for the row's user, and nothing but the time of the last login changes.\<close>

lemma open_session_account:
  assumes "acc_inv st" "r \<in> set (db_users (as_db st))" "ur_active r = 1" "token \<notin> sr_token ` set (db_sessions (as_db st))"
    and "str_trim token = token" "token \<noteq> []" "ac_admin_key cfg \<noteq> Some token"
  obtains st' where "open_session cfg ck token (row_to_user r) st = (Inr token, st')" "acc_inv st'"
    "db_users (as_db st') = map (set_last_login (ur_id r) (ck_now ck)) (db_users (as_db st))"
    "\<And>ck' h. hd_authorization h = Some (''Bearer '' @ token) \<Longrightarrow> as_user cfg ck' h st' =
        (if ck_now ck' < ck_now ck + hours (ac_session_hours cfg) then Inr ((row_to_user r)\<lparr>u_last_login := Some (ck_now ck)\<rparr>)
         else Inl (AccAuth InvalidToken))"
proof -
  obtain db where db: "open_session cfg ck token (row_to_user r) st = (Inr token, st\<lparr>as_db := db\<rparr>)"
    "create_session (ck_now ck) token (ur_id r) (ac_session_hours cfg) (as_db st) = (Inr token, db)"
    using open_session_fresh[OF assms(1,2,4)] by metis
  have "resolve_session t token db = (if t < ck_now ck + hours (ac_session_hours cfg) then Some ((row_to_user r)\<lparr>u_last_login := Some (ck_now ck)\<rparr>) else None)" for t
    using created_session[OF _ assms(2) refl db(2), of t] assms(1,3) by (simp add: acc_inv_def row_to_user_login)
  then have user: "as_user cfg ck' h (st\<lparr>as_db := db\<rparr>) =
        (if ck_now ck' < ck_now ck + hours (ac_session_hours cfg) then Inr ((row_to_user r)\<lparr>u_last_login := Some (ck_now ck)\<rparr>)
         else Inl (AccAuth InvalidToken))" if "hd_authorization h = Some (''Bearer '' @ token)" for ck' h
    using session_request[OF that assms(5-7)] by simp
  have "acc_inv (st\<lparr>as_db := db\<rparr>)"
    using open_session_step[of st cfg ck token "row_to_user r"] db(1) db_steps_inv[of "as_db st" db] assms(1) by (simp add: acc_inv_def)
  moreover have "db_users db = map (set_last_login (ur_id r) (ck_now ck)) (db_users (as_db st))"
    using db(2) by (auto simp: create_session_def Let_def split: if_splits)
  ultimately show thesis using that[of "st\<lparr>as_db := db\<rparr>"] db(1) user by simp
qed

lemma find_set_last_login:
  "(\<And>x. P (set_last_login i t x) = P x) \<Longrightarrow> find P (map (set_last_login i t) rs) = map_option (set_last_login i t) (find P rs)"
  by (simp add: find_map comp_def)

text \<open>C10: a sign-on opens a session of the account with the provider and the subject, and of no other. A new subject gets an
  account with the configured role; a known one keeps its account and its role, whatever the provider now says. The
  token is then the credential of that account until the session ends; a disabled account gets none, and no other
  account changes.\<close>

theorem sso_session:
  assumes "acc_inv st" "token \<notin> sr_token ` set (db_sessions (as_db st))" "str_trim token = token" "token \<noteq> []" "ac_admin_key cfg \<noteq> Some token"
    and "upsert_sso_user_and_session cfg ck uuid token p sub username email role_text st = (Inr t, st')"
  shows "t = token \<and> acc_inv st' \<and> (\<exists>u role. role_from_str role_text = Some role \<and>
     get_by_provider_sub (provider_str p) sub (as_db st') = Some u \<and> u_active u \<and>
     (case get_by_provider_sub (provider_str p) sub (as_db st) of
        Some old \<Rightarrow> u_id u = u_id old \<and> u_role u = u_role old
      | None \<Rightarrow> u_id u = uuid \<and> u_role u = role) \<and>
     (\<forall>ck' h. hd_authorization h = Some (''Bearer '' @ token) \<longrightarrow> as_user cfg ck' h st' =
        (if ck_now ck' < ck_now ck + hours (ac_session_hours cfg) then Inr u else Inl (AccAuth InvalidToken))) \<and>
     (\<forall>i. i \<noteq> u_id u \<longrightarrow> get_by_id i (as_db st') = get_by_id i (as_db st)))"
proof -
  obtain role u db where a: "role_from_str role_text = Some role" "sso_account ck uuid p sub username email role (as_db st) = Inr (u, db)" "u_active u"
      "open_session cfg ck token u (st\<lparr>as_db := db\<rparr>) = (Inr t, st')"
    using assms(6) by (auto simp: upsert_sso_user_and_session_def split: option.splits sum.splits if_splits)
  let ?st = "st\<lparr>as_db := db\<rparr>"
  obtain r where r: "find (of_subject p sub) (db_users db) = Some r" "row_to_user r = u" "r \<in> set (db_users db)"
    "\<forall>i. i \<noteq> u_id u \<longrightarrow> get_by_id i db = get_by_id i (as_db st)"
    "case get_by_provider_sub (provider_str p) sub (as_db st) of Some old \<Rightarrow> u_id u = u_id old \<and> u_role u = u_role old | None \<Rightarrow> u_id u = uuid \<and> u_role u = role"
    using sso_account_row[OF assms(1) a(2)] by blast
  have inv: "acc_inv ?st"
    using sso_account_step[OF a(2)] db_steps_inv[of "as_db st" db] assms(1) by (auto simp: acc_inv_def)
  have act: "ur_active r = 1" using inv r(2,3) a(3) by (auto simp: acc_inv_def flags_ok_def)
  have "db_sessions db = db_sessions (as_db st)"
    using a(2) by (auto simp: sso_account_def create_user_def update_user_def Let_def map_sum_Inr_iff split: option.splits if_splits)
  then have fresh: "token \<notin> sr_token ` set (db_sessions (as_db ?st))" using assms(2) by simp
  obtain st1 where o: "open_session cfg ck token (row_to_user r) ?st = (Inr token, st1)" "acc_inv st1"
    "db_users (as_db st1) = map (set_last_login (ur_id r) (ck_now ck)) (db_users db)"
    and user: "\<And>ck' h. hd_authorization h = Some (''Bearer '' @ token) \<Longrightarrow> as_user cfg ck' h st1 =
        (if ck_now ck' < ck_now ck + hours (ac_session_hours cfg) then Inr ((row_to_user r)\<lparr>u_last_login := Some (ck_now ck)\<rparr>)
         else Inl (AccAuth InvalidToken))"
    using open_session_account[OF inv, of r token cfg ck] r(3) act fresh assms(3-5) by auto
  have st': "t = token" "st' = st1" using a(4) o(1) r(2) by auto
  let ?u = "u\<lparr>u_last_login := Some (ck_now ck)\<rparr>"
  have "row_to_user (set_last_login (ur_id r) (ck_now ck) r) = ?u" using r(2) row_to_user_login by (simp add: set_last_login_def)
  moreover have "of_subject p sub (set_last_login (ur_id r) (ck_now ck) x) = of_subject p sub x" for x by (simp add: of_subject_def set_last_login_def)
  ultimately have found: "get_by_provider_sub (provider_str p) sub (as_db st') = Some ?u"
    by (simp add: get_by_provider_sub_find st'(2) o(3) find_set_last_login r(1))
  have others: "get_by_id i (as_db st') = get_by_id i (as_db st)" if "i \<noteq> u_id u" for i
  proof -
    have "find (\<lambda>x. ur_id x = i) (map (set_last_login (ur_id r) (ck_now ck)) rs) = find (\<lambda>x. ur_id x = i) rs" for rs
      using that r(2) by (induction rs) (auto simp: set_last_login_def)
    then have "get_by_id i (as_db st') = get_by_id i db" by (simp add: get_by_id_def find_user_def st'(2) o(3))
    with r(4) that show ?thesis by simp
  qed
  from found r(5) user others a(1,3) st' o(2) r(2) show ?thesis by (intro conjI exI[of _ ?u] exI[of _ role]) (auto split: option.splits)
qed

theorem sso_session_witness:
  "\<exists>st' u. upsert_sso_user_and_session demo_acc_cfg \<lparr>ck_secs = 1, ck_now = 1\<rparr> ''9'' ''tok'' Saml ''jd'' ''jane'' None ''auditor'' demo_acc = (Inr ''tok'', st') \<and>
     get_by_provider_sub ''saml'' ''jd'' (as_db st') = Some u \<and> u_id u = ''9'' \<and> u_role u = Auditor"
proof -
  have inv: "acc_inv demo_acc" by (simp add: demo_acc_users acc_inv_def empty_user_db_def user_db_ok_def users_ok_def flags_ok_def)
  obtain st' where up: "upsert_sso_user_and_session demo_acc_cfg \<lparr>ck_secs = 1, ck_now = 1\<rparr> ''9'' ''tok'' Saml ''jd'' ''jane'' None ''auditor'' demo_acc = (Inr ''tok'', st')"
    by (simp add: upsert_sso_user_and_session_def sso_account_def demo_acc_users get_by_provider_sub_def find_user_def role_from_str_def create_user_def
        empty_user_db_def user_clash_def user_to_row_def open_session_def create_session_def Let_def)
  have "token \<notin> sr_token ` set (db_sessions (as_db demo_acc))" for token by (simp add: demo_acc_users empty_user_db_def)
  from sso_session[OF inv this _ _ _ up] up show ?thesis
    by (auto simp: demo_acc_cfg_def str_trim_plain role_from_str_def demo_acc_users get_by_provider_sub_def find_user_def empty_user_db_def)
qed

subsection \<open>What the signature of a response covers\<close>

lemma find_bytes_append: "find_bytes xs p = Some i \<Longrightarrow> find_bytes (xs @ ys) p = Some i"
proof (induction xs arbitrary: i)
  case Nil
  then show ?case by (cases ys) (auto split: if_splits)
next
  case (Cons x xs)
  have "prefix p (x # xs @ ys)" if "prefix p (x # xs)" using that by (metis append_Cons prefix_append)
  moreover have "find_bytes xs p = Some j \<Longrightarrow> \<not> prefix p (x # xs) \<Longrightarrow> \<not> prefix p (x # xs @ ys)" for j
  proof -
    assume j: "find_bytes xs p = Some j" "\<not> prefix p (x # xs)"
    have "length p \<le> length xs" using j(1)
    proof (induction xs arbitrary: j)
      case (Cons y xs)
      then show ?case by (auto dest: prefix_length_le split: if_splits)
    qed (auto split: if_splits)
    with j(2) show ?thesis using prefix_length_prefix[of p "x # xs @ ys" "x # xs"] by auto
  qed
  ultimately show ?case using Cons by (auto split: if_splits)
qed

lemma find_bytes_bound: "find_bytes xs p = Some i \<Longrightarrow> i + length p \<le> length xs"
  by (induction xs arbitrary: i) (auto dest: prefix_length_le split: if_splits)

lemma signed_info_append: "signed_info_between a b xml = Some s \<Longrightarrow> signed_info_between a b (xml @ extra) = Some s"
proof -
  assume "signed_info_between a b xml = Some s"
  then obtain i j where ij: "find_bytes xml a = Some i" "find_bytes (drop i xml) b = Some j" "s = take (j + length b) (drop i xml)"
    by (auto simp: signed_info_between_def bind_eq_Some_conv)
  have "drop i (xml @ extra) = drop i xml @ extra" using find_bytes_bound[OF ij(1)] by simp
  then show ?thesis
    using find_bytes_append[OF ij(1)] find_bytes_append[OF ij(2)] find_bytes_bound[OF ij(2)] ij(3)
    by (simp add: signed_info_between_def)
qed

lemma element_append: "element_between a b xml = Some s \<Longrightarrow> element_between a b (xml @ extra) = Some s"
proof -
  assume "element_between a b xml = Some s"
  then obtain i j k where ij: "find_bytes xml a = Some i" "find_bytes (drop i xml) ''>'' = Some j"
      "find_bytes (drop (i + j + 1) xml) b = Some k" "s = str_trim (take k (drop (i + j + 1) xml))"
    by (auto simp: element_between_def bind_eq_Some_conv Let_def)
  have "i + j + 1 \<le> length xml" using find_bytes_bound[OF ij(2)] find_bytes_bound[OF ij(1)] by simp
  then have "drop i (xml @ extra) = drop i xml @ extra" "drop (i + j + 1) (xml @ extra) = drop (i + j + 1) xml @ extra"
    using find_bytes_bound[OF ij(1)] by simp_all
  then show ?thesis
    using find_bytes_append[OF ij(1)] find_bytes_append[OF ij(2)] find_bytes_append[OF ij(3)] find_bytes_bound[OF ij(3)] ij(4)
    by (simp add: element_between_def Let_def)
qed

text \<open>The elements of a signature carry the usual prefix.\<close>

definition ds_signed :: "string \<Rightarrow> bool" where
  "ds_signed xml \<longleftrightarrow> signed_info_between ''<ds:SignedInfo'' ''</ds:SignedInfo>'' xml \<noteq> None \<and>
     element_between ''<ds:SignatureValue'' ''</ds:SignatureValue>'' xml \<noteq> None"

lemma verify_append:
  assumes "ds_signed xml" "saml_verify_signature env xml (Some cert) = Inr ()"
  shows "saml_verify_signature env (xml @ extra) (Some cert) = Inr ()"
proof -
  obtain s v where s: "signed_info_between ''<ds:SignedInfo'' ''</ds:SignedInfo>'' xml = Some s"
      "element_between ''<ds:SignatureValue'' ''</ds:SignatureValue>'' xml = Some v"
    using assms(1) by (auto simp: ds_signed_def)
  have "extract_signed_info_bytes (xml @ extra) = extract_signed_info_bytes xml" "xml_element_text (xml @ extra) ''SignatureValue'' = xml_element_text xml ''SignatureValue''"
    using signed_info_append[OF s(1)] element_append[OF s(2)] s by (simp_all add: extract_signed_info_bytes_def xml_element_text_def)
  then show ?thesis using assms(2) by (simp add: saml_verify_signature_def)
qed

text \<open>C11: a genuine SAML response is a key to every account. The check covers the bytes of \<open>SignedInfo\<close> and not the digest of the
  assertion that is in them, and the reader of the assertion takes the last subject: with a name identifier written
  after a signed response, which still verifies, the callback signs on whoever it names.\<close>

theorem saml_forgeable:
  assumes "ds_signed xml" "sm_idp_cert m = Some cert" "saml_verify_signature env xml (Some cert) = Inr ()"
    and "xml_events env xml = (evs, True)" "\<not> sc_in_value (foldl (saml_event env) scan_start evs)"
    and "extra = ''<NameID>'' @ victim @ ''</NameID>''"
    and "xml_events env (xml @ extra) = (evs @ [XStart ''NameID'' [], XText (Some victim), XEnd ''NameID''], True)"
    and "std_decode env response = Some (xml @ extra)" "is_utf8 (xml @ extra)" "victim \<noteq> []"
  shows "let s = foldl (saml_event env) scan_start evs in saml_callback env cfg ck uuid token (Some m) response st =
    (let (r, st') = upsert_sso_user_and_session cfg ck uuid token Saml victim
           (case sc_username s of Some u \<Rightarrow> u | None \<Rightarrow> unwrap_or victim (sc_email s)) (sc_email s) (sm_default_role m) st
     in (map_sum IdAcc id r, st'))"
proof -
  define s where "s = foldl (saml_event env) scan_start evs"
  have "foldl (saml_event env) scan_start (evs @ [XStart ''NameID'' [], XText (Some victim), XEnd ''NameID''])
      = s\<lparr>sc_name_id := victim, sc_in_name_id := False\<rparr>"
    using assms(5,10) by (simp add: s_def saml_event_def Let_def)
  then have "saml_parse_assertion env (xml @ extra) =
      Inr (victim, sc_email s, case sc_username s of Some u \<Rightarrow> u | None \<Rightarrow> unwrap_or victim (sc_email s))"
    using assms(7,10) by (simp add: saml_parse_assertion_def Let_def split: option.split)
  moreover have "saml_verify_signature env (xml @ extra) (sm_idp_cert m) = Inr ()"
    unfolding assms(2) by (rule verify_append[OF assms(1,3)])
  ultimately show ?thesis unfolding s_def[symmetric] using assms(8,9) by (simp add: Let_def saml_callback_def from_utf8_def)
qed

definition demo_xml :: string where
  "demo_xml = ''<ds:SignedInfo></ds:SignedInfo><ds:SignatureValue>QQ</ds:SignatureValue>''"

definition demo_saml_env :: saml_env where
  "demo_saml_env = \<lparr>xml_events = (\<lambda>x. if x = demo_xml then ([], True)
       else ([XStart ''NameID'' [], XText (Some ''boss''), XEnd ''NameID''], True)),
     std_decode = Some, cert_key = Some, sig_wellformed = (\<lambda>_. True), rsa_verify = (\<lambda>k m s. m = ''<ds:SignedInfo></ds:SignedInfo>''),
     saml_lower = (\<lambda>s. s), entity_base = (\<lambda>_. None), deflate_encode = (\<lambda>s. s)\<rparr>"

definition demo_saml_cfg :: saml_cfg where
  "demo_saml_cfg = \<lparr>sm_metadata = None, sm_sp_entity_id = [], sm_idp_cert = Some ''CERT'', sm_default_role = ''viewer''\<rparr>"

theorem saml_forgeable_witness:
  "fst (saml_callback demo_saml_env demo_acc_cfg \<lparr>ck_secs = 1, ck_now = 1\<rparr> ''9'' ''tok'' (Some demo_saml_cfg) (demo_xml @ ''<NameID>boss</NameID>'') demo_acc) = Inr ''tok''"
proof -
  have signed: "ds_signed demo_xml" "saml_verify_signature demo_saml_env demo_xml (Some ''CERT'') = Inr ()" by code_simp+
  have utf: "is_utf8 (demo_xml @ ''<NameID>boss</NameID>'')" by code_simp
  have "saml_callback demo_saml_env demo_acc_cfg \<lparr>ck_secs = 1, ck_now = 1\<rparr> ''9'' ''tok'' (Some demo_saml_cfg) (demo_xml @ ''<NameID>boss</NameID>'') demo_acc =
    (let (r, st') = upsert_sso_user_and_session demo_acc_cfg \<lparr>ck_secs = 1, ck_now = 1\<rparr> ''9'' ''tok'' Saml ''boss'' ''boss'' None ''viewer'' demo_acc in (map_sum IdAcc id r, st'))"
    using saml_forgeable[OF signed(1) _ signed(2), of demo_saml_cfg "[]" "''<NameID>boss</NameID>''" "''boss''" "demo_xml @ ''<NameID>boss</NameID>''" demo_acc_cfg
        "\<lparr>ck_secs = 1, ck_now = 1\<rparr>" "''9''" "''tok''" demo_acc] utf
    by (simp add: demo_saml_env_def demo_saml_cfg_def scan_start_def Let_def)
  moreover have "fst (upsert_sso_user_and_session demo_acc_cfg \<lparr>ck_secs = 1, ck_now = 1\<rparr> ''9'' ''tok'' Saml ''boss'' ''boss'' None ''viewer'' demo_acc) = Inr ''tok''"
    by (simp add: upsert_sso_user_and_session_def sso_account_def demo_acc_users get_by_provider_sub_def find_user_def role_from_str_def create_user_def
        empty_user_db_def user_clash_def user_to_row_def open_session_def create_session_def Let_def)
  ultimately show ?thesis by (simp add: case_prod_unfold Let_def)
qed

end
