(* ===== verification/Isolation.thy ===== *)
theory Isolation
  imports Maranode_Prelude
begin

section \<open>Network isolation\<close>

text \<open>
  The crate \<open>maranode-isolation\<close> (\<open>state.rs\<close>, \<open>iptables.rs\<close>, \<open>probe.rs\<close>, \<open>netns.rs\<close>): the rules
  that the isolator installs with the \<open>iptables\<close> command, their verification and the network
  namespaces of workspaces. The command itself is a parameter; what the code relies on is
  \<open>iptables_ok\<close>, the documented effect of \<open>-P\<close>, \<open>-A\<close>, \<open>-C\<close> and \<open>-F\<close> on the policies and
  the rule lists of the chains. Which packets a rule matches is a parameter of the theorems.
\<close>

subsection \<open>state.rs, the configuration\<close>

datatype air_gap_mode = AirGap | Whitelist | Disabled

record whitelist_entry =
  wl_host :: string
  wl_port :: nat
  wl_comment :: string

record isolation_config =
  iso_mode :: air_gap_mode
  api_port :: nat
  api_allowed_sources :: "string list"
  whitelist :: "whitelist_entry list"

definition default_isolation :: isolation_config where
  "default_isolation = \<lparr>iso_mode = AirGap, api_port = 11984,
     api_allowed_sources = [''127.0.0.1'', ''::1''], whitelist = []\<rparr>"

subsection \<open>iptables.rs\<close>

record firewall =
  fw_policy :: "string \<Rightarrow> string"
  fw_rules :: "string \<Rightarrow> string list list"

text \<open>A run of the command gives its success status and the new state of the firewall, or
  \<open>None\<close> when it cannot be started.\<close>

type_synonym iptables = "string list \<Rightarrow> firewall \<Rightarrow> (bool \<times> firewall) option"

datatype iso_error = NotStarted | ExitStatus "string list"

type_synonym fw_result = "(iso_error, unit) result \<times> firewall"

definition CHAIN_COMMENT :: string where
  "CHAIN_COMMENT = ''maranode-managed''"

definition run_iptables :: "iptables \<Rightarrow> string list \<Rightarrow> firewall \<Rightarrow> fw_result" where
  "run_iptables ipt args fw = (case ipt args fw of
      None \<Rightarrow> (Inl NotStarted, fw)
    | Some (success, fw1) \<Rightarrow> (if success then Inr () else Inl (ExitStatus args), fw1))"

definition insert_if_absent :: "iptables \<Rightarrow> string list \<Rightarrow> firewall \<Rightarrow> fw_result" where
  "insert_if_absent ipt add_args fw =
     (let check_args = map (\<lambda>a. if a = ''-A'' then ''-C'' else a) add_args
      in case ipt check_args fw of
           None \<Rightarrow> (Inl NotStarted, fw)
         | Some (success, fw1) \<Rightarrow> if success then (Inr (), fw1) else run_iptables ipt add_args fw1)"

text \<open>The question mark: the next command runs on the state left by one that succeeded.\<close>

definition and_then :: "fw_result \<Rightarrow> (firewall \<Rightarrow> fw_result) \<Rightarrow> fw_result" where
  "and_then r f = (case r of (Inl e, fw) \<Rightarrow> (Inl e, fw) | (Inr _, fw) \<Rightarrow> f fw)"

fun for_each :: "('a \<Rightarrow> firewall \<Rightarrow> fw_result) \<Rightarrow> 'a list \<Rightarrow> firewall \<Rightarrow> fw_result" where
  "for_each f [] fw = (Inr (), fw)"
| "for_each f (x # xs) fw = and_then (f x fw) (for_each f xs)"

definition source_rule :: "string \<Rightarrow> string \<Rightarrow> string list" where
  "source_rule port source =
     [''-A'', ''INPUT'', ''-p'', ''tcp'', ''--dport'', port, ''-s'', source, ''-j'', ''ACCEPT'',
      ''-m'', ''comment'', ''--comment'', CHAIN_COMMENT]"

definition apply_air_gap :: "iptables \<Rightarrow> isolation_config \<Rightarrow> firewall \<Rightarrow> fw_result" where
  "apply_air_gap ipt config fw =
     and_then (for_each (run_iptables ipt)
        [[''-P'', ''OUTPUT'', ''DROP''], [''-P'', ''INPUT'', ''DROP''], [''-P'', ''FORWARD'', ''DROP'']] fw) (\<lambda>fw.
     and_then (for_each (insert_if_absent ipt)
        [[''-A'', ''INPUT'', ''-i'', ''lo'', ''-j'', ''ACCEPT''],
         [''-A'', ''OUTPUT'', ''-o'', ''lo'', ''-j'', ''ACCEPT''],
         [''-A'', ''INPUT'', ''-m'', ''state'', ''--state'', ''ESTABLISHED,RELATED'', ''-j'', ''ACCEPT'']] fw)
     (for_each (\<lambda>source. insert_if_absent ipt (source_rule (show_nat (api_port config)) source))
        (api_allowed_sources config)))"

definition whitelist_rule :: "whitelist_entry \<Rightarrow> string list" where
  "whitelist_rule entry =
     [''-A'', ''OUTPUT'', ''-p'', ''tcp'', ''--dport'', show_nat (wl_port entry), ''-d'', wl_host entry,
      ''-j'', ''ACCEPT'', ''-m'', ''comment'', ''--comment'', CHAIN_COMMENT]"

definition apply_whitelist :: "iptables \<Rightarrow> isolation_config \<Rightarrow> firewall \<Rightarrow> fw_result" where
  "apply_whitelist ipt config fw =
     and_then (apply_air_gap ipt config fw)
       (for_each (\<lambda>entry. insert_if_absent ipt (whitelist_rule entry)) (whitelist config))"

text \<open>\<open>iptables-save\<close>: the text it prints, or \<open>None\<close> when it cannot be started.\<close>

definition check_rules_present :: "(firewall \<Rightarrow> string option) \<Rightarrow> firewall \<Rightarrow> (iso_error, bool) result" where
  "check_rules_present save fw = (case save fw of
      None \<Rightarrow> Inl NotStarted
    | Some stdout \<Rightarrow> Inr (contains_str stdout CHAIN_COMMENT))"

definition remove_rules :: "iptables \<Rightarrow> firewall \<Rightarrow> fw_result" where
  "remove_rules ipt fw =
     (Inr (), fold (\<lambda>args fw. snd (run_iptables ipt args fw))
        [[''-F''], [''-P'', ''INPUT'', ''ACCEPT''], [''-P'', ''OUTPUT'', ''ACCEPT''], [''-P'', ''FORWARD'', ''ACCEPT'']] fw)"

subsection \<open>probe.rs\<close>

definition PROBE_TARGETS :: "(string \<times> nat) list" where
  "PROBE_TARGETS = [(''1.1.1.1'', 53), (''8.8.8.8'', 53)]"

text \<open>\<open>to_socket_addrs\<close> and \<open>connect_timeout\<close> of the standard library depend on the network and
  are arguments.\<close>

fun probe_targets :: "(string \<Rightarrow> 'sock list option) \<Rightarrow> ('sock \<Rightarrow> bool) \<Rightarrow> (string \<times> nat) list \<Rightarrow> bool" where
  "probe_targets resolve connect [] = True"
| "probe_targets resolve connect ((host, port) # rest) =
     (case resolve (host @ '':'' @ show_nat port) of
        None \<Rightarrow> probe_targets resolve connect rest
      | Some addrs \<Rightarrow>
          (case addrs of
             addr # _ \<Rightarrow> if connect addr then False else probe_targets resolve connect rest
           | [] \<Rightarrow> probe_targets resolve connect rest))"

definition probe_external_blocked :: "(string \<Rightarrow> 'sock list option) \<Rightarrow> ('sock \<Rightarrow> bool) \<Rightarrow> bool" where
  "probe_external_blocked resolve connect = probe_targets resolve connect PROBE_TARGETS"

subsection \<open>state.rs, the isolator\<close>

record isolator =
  isor_config :: isolation_config

datatype verify_detail = AllBlocked | RulesMissing | ProbeSucceeded

record verify_outcome =
  vo_mode :: air_gap_mode
  rules_present :: bool
  external_probe_blocked :: bool
  vo_detail :: verify_detail

definition outcome_is_ok :: "verify_outcome \<Rightarrow> bool" where
  "outcome_is_ok v \<longleftrightarrow> rules_present v \<and> (vo_mode v = Disabled \<or> external_probe_blocked v)"

definition isolator_apply :: "iptables \<Rightarrow> isolator \<Rightarrow> firewall \<Rightarrow> fw_result" where
  "isolator_apply ipt self fw = (case iso_mode (isor_config self) of
      AirGap \<Rightarrow> apply_air_gap ipt (isor_config self) fw
    | Whitelist \<Rightarrow> apply_whitelist ipt (isor_config self) fw
    | Disabled \<Rightarrow> (Inr (), fw))"

definition isolator_verify ::
  "(firewall \<Rightarrow> string option) \<Rightarrow> (string \<Rightarrow> 'sock list option) \<Rightarrow> ('sock \<Rightarrow> bool) \<Rightarrow>
     isolator \<Rightarrow> firewall \<Rightarrow> (iso_error, verify_outcome) result" where
  "isolator_verify save resolve connect self fw =
     rbind (check_rules_present save fw) (\<lambda>present.
       let blocked = probe_external_blocked resolve connect;
           detail = (if present \<and> blocked then AllBlocked
                     else if \<not> present then RulesMissing else ProbeSucceeded)
       in Inr \<lparr>vo_mode = iso_mode (isor_config self), rules_present = present,
               external_probe_blocked = blocked, vo_detail = detail\<rparr>)"

definition isolator_teardown :: "iptables \<Rightarrow> firewall \<Rightarrow> fw_result" where
  "isolator_teardown ipt fw = remove_rules ipt fw"

definition reconfigure ::
  "iptables \<Rightarrow> isolation_config \<Rightarrow> isolator \<times> firewall \<Rightarrow> (iso_error, unit) result \<times> isolator \<times> firewall" where
  "reconfigure ipt config st = (case st of (self, fw) \<Rightarrow>
     let old = isor_config self;
         mode_changed = (iso_mode old \<noteq> iso_mode config);
         fw1 = (if mode_changed \<or> api_port old \<noteq> api_port config then snd (remove_rules ipt fw) else fw);
         self1 = self\<lparr>isor_config := config\<rparr>;
         (r, fw2) = isolator_apply ipt self1 fw1
     in (r, self1, fw2))"

subsection \<open>netns.rs\<close>

text \<open>The command \<open>ip\<close> is a parameter like \<open>iptables\<close>, over a state of its own.\<close>

definition NS_PREFIX :: string where
  "NS_PREFIX = ''maranode-ws-''"

definition ns_name :: "string \<Rightarrow> string" where
  "ns_name slug = NS_PREFIX @ slug"

definition run_ip ::
  "(string list \<Rightarrow> 'ns \<Rightarrow> (bool \<times> 'ns) option) \<Rightarrow> string list \<Rightarrow> 'ns \<Rightarrow> (iso_error, unit) result \<times> 'ns" where
  "run_ip ip args ns = (case ip args ns of
      None \<Rightarrow> (Inl NotStarted, ns)
    | Some (success, ns1) \<Rightarrow> (if success then Inr () else Inl (ExitStatus args), ns1))"

definition ns_create ::
  "(string list \<Rightarrow> 'ns \<Rightarrow> (bool \<times> 'ns) option) \<Rightarrow> string \<Rightarrow> 'ns \<Rightarrow> (iso_error, unit) result \<times> 'ns" where
  "ns_create ip slug = run_ip ip [''netns'', ''add'', ns_name slug]"

definition ns_delete ::
  "(string list \<Rightarrow> 'ns \<Rightarrow> (bool \<times> 'ns) option) \<Rightarrow> string \<Rightarrow> 'ns \<Rightarrow> (iso_error, unit) result \<times> 'ns" where
  "ns_delete ip slug = run_ip ip [''netns'', ''del'', ns_name slug]"

definition first_word :: "ustring \<Rightarrow> ustring option" where
  "first_word l = (let w = takeWhile (\<lambda>c. \<not> uc_whitespace c) (trim_start l)
                   in if w = [] then None else Some w)"

definition ns_list :: "ustring \<Rightarrow> ustring list" where
  "ns_list text =
     map (drop (length NS_PREFIX))
       (filter (prefix (ascii NS_PREFIX)) (List.map_filter first_word (str_lines text)))"

subsection \<open>What the code relies on of iptables\<close>

definition iptables_ok :: "iptables \<Rightarrow> bool" where
  "iptables_ok ipt \<longleftrightarrow>
     (\<forall>fw c t fw1. ipt [''-P'', c, t] fw = Some (True, fw1) \<longrightarrow>
        fw1 = fw\<lparr>fw_policy := (fw_policy fw)(c := t)\<rparr>) \<and>
     (\<forall>fw c r fw1. ipt (''-A'' # c # r) fw = Some (True, fw1) \<longrightarrow>
        fw1 = fw\<lparr>fw_rules := (fw_rules fw)(c := fw_rules fw c @ [r])\<rparr>) \<and>
     (\<forall>fw c r b fw1. ipt (''-C'' # c # r) fw = Some (b, fw1) \<longrightarrow>
        fw1 = fw \<and> b = (r \<in> set (fw_rules fw c))) \<and>
     (\<forall>fw fw1. ipt [''-F''] fw = Some (True, fw1) \<longrightarrow> fw1 = fw\<lparr>fw_rules := \<lambda>_. []\<rparr>)"

text \<open>The fate of a packet in a chain: the target of the first rule that matches it, or the
  policy of the chain.\<close>

definition rule_target :: "string list \<Rightarrow> string" where
  "rule_target r = (case dropWhile (\<lambda>a. a \<noteq> ''-j'') r of _ # t # _ \<Rightarrow> t | _ \<Rightarrow> [])"

definition verdict :: "(string list \<Rightarrow> 'p \<Rightarrow> bool) \<Rightarrow> firewall \<Rightarrow> string \<Rightarrow> 'p \<Rightarrow> string" where
  "verdict matches fw chain p = (case find (\<lambda>r. matches r p) (fw_rules fw chain) of
      None \<Rightarrow> fw_policy fw chain
    | Some r \<Rightarrow> rule_target r)"

subsection \<open>The effect of the commands\<close>

definition add_rule :: "string list \<Rightarrow> firewall \<Rightarrow> firewall" where
  "add_rule args fw = (case args of
      _ # c # r \<Rightarrow> if r \<in> set (fw_rules fw c) then fw
                   else fw\<lparr>fw_rules := (fw_rules fw)(c := fw_rules fw c @ [r])\<rparr>
    | _ \<Rightarrow> fw)"

lemma and_then_ok: "and_then r f = (Inr (), fw2) \<longleftrightarrow> (\<exists>fw1. r = (Inr (), fw1) \<and> f fw1 = (Inr (), fw2))"
  by (auto simp: and_then_def split: prod.splits sum.splits)

lemma insert_if_absent_ok:
  assumes "iptables_ok ipt" "insert_if_absent ipt (''-A'' # c # r) fw = (Inr (), fw1)"
    "c \<noteq> ''-A''" "''-A'' \<notin> set r"
  shows "fw1 = add_rule (''-A'' # c # r) fw"
proof -
  have args: "map (\<lambda>a. if a = ''-A'' then ''-C'' else a) (''-A'' # c # r) = ''-C'' # c # r"
    using assms(3,4) by (auto intro!: map_idI)
  from assms(2) obtain b fw0 where c: "ipt (''-C'' # c # r) fw = Some (b, fw0)"
    unfolding insert_if_absent_def args Let_def by (auto split: option.splits)
  then have [simp]: "fw0 = fw" and b: "b = (r \<in> set (fw_rules fw c))"
    using assms(1) unfolding iptables_ok_def by blast+
  show ?thesis
  proof (cases b)
    case True
    then show ?thesis
      using assms(2) b c unfolding insert_if_absent_def args Let_def by (simp add: add_rule_def)
  next
    case False
    then have "run_iptables ipt (''-A'' # c # r) fw = (Inr (), fw1)"
      using assms(2) c unfolding insert_if_absent_def args Let_def by simp
    then have "ipt (''-A'' # c # r) fw = Some (True, fw1)"
      by (auto simp: run_iptables_def split: option.splits prod.splits if_splits)
    then have "fw1 = fw\<lparr>fw_rules := (fw_rules fw)(c := fw_rules fw c @ [r])\<rparr>"
      using assms(1) unfolding iptables_ok_def by blast
    then show ?thesis using False b by (simp add: add_rule_def)
  qed
qed

lemma for_each_ok:
  assumes "\<And>x fw fw1. x \<in> set xs \<Longrightarrow> f x fw = (Inr (), fw1) \<Longrightarrow> fw1 = g x fw"
  shows "for_each f xs fw = (Inr (), fw1) \<Longrightarrow> fw1 = fold g xs fw"
  using assms
proof (induction xs arbitrary: fw)
  case (Cons x xs)
  then obtain fw0 where "f x fw = (Inr (), fw0)" "for_each f xs fw0 = (Inr (), fw1)"
    by (auto simp: and_then_ok)
  with Cons show ?case by fastforce
qed simp

definition set_policy :: "string list \<Rightarrow> firewall \<Rightarrow> firewall" where
  "set_policy args fw = (case args of
      _ # c # t # _ \<Rightarrow> fw\<lparr>fw_policy := (fw_policy fw)(c := t)\<rparr> | _ \<Rightarrow> fw)"

lemma run_policy_ok:
  assumes "iptables_ok ipt" "run_iptables ipt [''-P'', c, t] fw = (Inr (), fw1)"
  shows "fw1 = set_policy [''-P'', c, t] fw"
proof -
  have "ipt [''-P'', c, t] fw = Some (True, fw1)"
    using assms(2) by (auto simp: run_iptables_def split: option.splits prod.splits if_splits)
  then show ?thesis using assms(1) unfolding iptables_ok_def set_policy_def by auto
qed

definition drop_policies :: "string list list" where
  "drop_policies = [[''-P'', ''OUTPUT'', ''DROP''], [''-P'', ''INPUT'', ''DROP''], [''-P'', ''FORWARD'', ''DROP'']]"

definition base_rules :: "string list list" where
  "base_rules = [[''-A'', ''INPUT'', ''-i'', ''lo'', ''-j'', ''ACCEPT''],
     [''-A'', ''OUTPUT'', ''-o'', ''lo'', ''-j'', ''ACCEPT''],
     [''-A'', ''INPUT'', ''-m'', ''state'', ''--state'', ''ESTABLISHED,RELATED'', ''-j'', ''ACCEPT'']]"

definition config_rules :: "isolation_config \<Rightarrow> string list list" where
  "config_rules config = base_rules @
     map (source_rule (show_nat (api_port config))) (api_allowed_sources config) @
     (if iso_mode config = Whitelist then map whitelist_rule (whitelist config) else [])"

text \<open>A source or host with the text of an option of the rule would be rewritten by the check
  (\<open>-A\<close>) or taken for one (\<open>-j\<close>).\<close>

definition plain_config :: "isolation_config \<Rightarrow> bool" where
  "plain_config config \<longleftrightarrow>
     (\<forall>h \<in> set (api_allowed_sources config) \<union> wl_host ` set (whitelist config). h \<noteq> ''-A'' \<and> h \<noteq> ''-j'')"

lemma show_nat_not_option [simp]:
  "show_nat n \<noteq> ''-A''" "''-A'' \<noteq> show_nat n" "show_nat n \<noteq> ''-j''" "''-j'' \<noteq> show_nat n"
  using show_nat_no_dash[of n] by (metis list.set_intros(1))+

lemma base_rules_ok:
  "iptables_ok ipt \<Longrightarrow> x \<in> set base_rules \<Longrightarrow> insert_if_absent ipt x fw = (Inr (), fw1) \<Longrightarrow> fw1 = add_rule x fw"
  using insert_if_absent_ok[of ipt _ _ fw fw1] by (auto simp: base_rules_def)

lemma apply_air_gap_ok:
  assumes "iptables_ok ipt" "plain_config config" "apply_air_gap ipt config fw = (Inr (), fw1)"
  shows "fw1 = fold add_rule (base_rules @ map (source_rule (show_nat (api_port config))) (api_allowed_sources config))
                 (fold set_policy drop_policies fw)"
proof -
  let ?src = "\<lambda>source. source_rule (show_nat (api_port config)) source"
  from assms(3) obtain f1 f2 where
    1: "for_each (run_iptables ipt) drop_policies fw = (Inr (), f1)" and
    2: "for_each (insert_if_absent ipt) base_rules f1 = (Inr (), f2)" and
    3: "for_each (\<lambda>s. insert_if_absent ipt (?src s)) (api_allowed_sources config) f2 = (Inr (), fw1)"
    unfolding apply_air_gap_def and_then_ok drop_policies_def base_rules_def by blast
  have a: "f1 = fold set_policy drop_policies fw"
    by (rule for_each_ok[OF _ 1]) (auto simp: drop_policies_def intro: run_policy_ok[OF assms(1)])
  have b: "f2 = fold add_rule base_rules f1"
    by (rule for_each_ok[OF _ 2]) (rule base_rules_ok[OF assms(1)])
  have "fw1 = fold (\<lambda>s. add_rule (?src s)) (api_allowed_sources config) f2"
  proof (rule for_each_ok[OF _ 3])
    fix s g g1 assume "s \<in> set (api_allowed_sources config)" "insert_if_absent ipt (?src s) g = (Inr (), g1)"
    then show "g1 = add_rule (?src s) g"
      unfolding source_rule_def using assms(2)
      by (intro insert_if_absent_ok[OF assms(1)]) (auto simp: plain_config_def CHAIN_COMMENT_def)
  qed
  then show ?thesis using a b by (simp add: fold_map comp_def)
qed

lemma isolator_apply_ok:
  assumes "iptables_ok ipt" "plain_config config" "iso_mode config \<noteq> Disabled"
    "isolator_apply ipt \<lparr>isor_config = config\<rparr> fw = (Inr (), fw1)"
  shows "fw1 = fold add_rule (config_rules config) (fold set_policy drop_policies fw)"
proof (cases "iso_mode config")
  case AirGap
  then show ?thesis using apply_air_gap_ok[OF assms(1,2)] assms(4)
    by (simp add: isolator_apply_def config_rules_def)
next
  case Whitelist
  then obtain f1 where 1: "apply_air_gap ipt config fw = (Inr (), f1)" and
    2: "for_each (\<lambda>e. insert_if_absent ipt (whitelist_rule e)) (whitelist config) f1 = (Inr (), fw1)"
    using assms(4) by (auto simp: isolator_apply_def apply_whitelist_def and_then_ok)
  have "fw1 = fold (\<lambda>e. add_rule (whitelist_rule e)) (whitelist config) f1"
  proof (rule for_each_ok[OF _ 2])
    fix e g g1 assume "e \<in> set (whitelist config)" "insert_if_absent ipt (whitelist_rule e) g = (Inr (), g1)"
    then show "g1 = add_rule (whitelist_rule e) g"
      unfolding whitelist_rule_def using assms(2)
      by (intro insert_if_absent_ok[OF assms(1)]) (auto simp: plain_config_def CHAIN_COMMENT_def)
  qed
  then show ?thesis using apply_air_gap_ok[OF assms(1,2) 1] Whitelist
    by (simp add: config_rules_def fold_map comp_def)
qed (use assms(3) in simp)

lemma add_rule_policy [simp]: "fw_policy (add_rule args fw) = fw_policy fw"
  by (simp add: add_rule_def split: list.splits)

lemma fold_add_rule_policy [simp]: "fw_policy (fold add_rule rs fw) = fw_policy fw"
  by (induction rs arbitrary: fw) simp_all

lemma fold_set_policy_rules [simp]: "fw_rules (fold set_policy ps fw) = fw_rules fw"
  by (induction ps arbitrary: fw) (simp_all add: set_policy_def split: list.splits)

definition rules_for :: "string \<Rightarrow> string list list \<Rightarrow> string list set" where
  "rules_for c rs = {r. \<exists>a. a # c # r \<in> set rs}"

lemma add_rule_set: "set (fw_rules (add_rule args fw) c) = set (fw_rules fw c) \<union> rules_for c [args]"
  by (auto simp: add_rule_def rules_for_def split: list.splits)

lemma rules_for_Cons: "rules_for c (r # rs) = rules_for c [r] \<union> rules_for c rs"
  by (auto simp: rules_for_def)

lemma fold_add_rule_set: "set (fw_rules (fold add_rule rs fw) c) = set (fw_rules fw c) \<union> rules_for c rs"
proof (induction rs arbitrary: fw)
  case Nil
  then show ?case by (simp add: rules_for_def)
next
  case (Cons r rs)
  then show ?case using rules_for_Cons[of c r rs] by (auto simp: add_rule_set)
qed

lemma fold_add_rule_present:
  "(\<And>c r. r \<in> rules_for c rs \<Longrightarrow> r \<in> set (fw_rules fw c)) \<Longrightarrow> fold add_rule rs fw = fw"
proof (induction rs)
  case (Cons x rs)
  have "add_rule x fw = fw"
    using Cons.prems by (auto simp: add_rule_def rules_for_def split: list.splits)
  moreover have "fold add_rule rs fw = fw"
    using Cons.prems rules_for_Cons[of _ x rs] by (intro Cons.IH) blast
  ultimately show ?case by simp
qed simp

lemma verdict_accepting:
  assumes "\<And>r. r \<in> set (fw_rules fw c) \<Longrightarrow> rule_target r = ''ACCEPT''"
  shows "verdict m fw c p = (if \<exists>r \<in> set (fw_rules fw c). m r p then ''ACCEPT'' else fw_policy fw c)"
proof (cases "find (\<lambda>r. m r p) (fw_rules fw c)")
  case None
  then have "\<not> (\<exists>r \<in> set (fw_rules fw c). m r p)" by (auto simp: find_None_iff)
  with None show ?thesis by (simp add: verdict_def del: bex_simps)
next
  case (Some r)
  then have "r \<in> set (fw_rules fw c)" "m r p" by (auto simp: find_Some_iff)
  with Some assms show ?thesis by (auto simp: verdict_def)
qed

abbreviation lo_out :: "string list" where "lo_out \<equiv> [''-o'', ''lo'', ''-j'', ''ACCEPT'']"
abbreviation lo_in :: "string list" where "lo_in \<equiv> [''-i'', ''lo'', ''-j'', ''ACCEPT'']"
abbreviation established :: "string list" where
  "established \<equiv> [''-m'', ''state'', ''--state'', ''ESTABLISHED,RELATED'', ''-j'', ''ACCEPT'']"

lemma config_rules_for:
  "rules_for ''OUTPUT'' (config_rules config) =
     insert lo_out (if iso_mode config = Whitelist then (drop 2 \<circ> whitelist_rule) ` set (whitelist config) else {})"
  "rules_for ''INPUT'' (config_rules config) =
     {lo_in, established} \<union> (\<lambda>s. drop 2 (source_rule (show_nat (api_port config)) s)) ` set (api_allowed_sources config)"
  "c \<noteq> ''OUTPUT'' \<Longrightarrow> c \<noteq> ''INPUT'' \<Longrightarrow> rules_for c (config_rules config) = {}"
  by (auto simp: rules_for_def config_rules_def base_rules_def whitelist_rule_def source_rule_def)

lemma config_rule_target:
  "plain_config config \<Longrightarrow> r \<in> rules_for c (config_rules config) \<Longrightarrow> rule_target r = ''ACCEPT''"
  by (auto simp: plain_config_def rules_for_def config_rules_def base_rules_def whitelist_rule_def source_rule_def rule_target_def
      split: if_splits)

lemma drop_policy:
  "c \<in> {''OUTPUT'', ''INPUT'', ''FORWARD''} \<Longrightarrow> fw_policy (fold set_policy drop_policies fw) c = ''DROP''"
  by (auto simp: drop_policies_def set_policy_def)

lemma set_policy_again:
  "fold set_policy drop_policies (fold add_rule rs (fold set_policy drop_policies fw))
     = fold add_rule rs (fold set_policy drop_policies fw)"
proof -
  have "fold set_policy drop_policies g = g" if "fw_policy g = fw_policy (fold set_policy drop_policies fw)" for g
    using that by (cases g) (auto simp: drop_policies_def set_policy_def)
  then show ?thesis by simp
qed

lemma applied_verdict:
  assumes "iptables_ok ipt" "plain_config config" "iso_mode config \<noteq> Disabled"
    "isolator_apply ipt \<lparr>isor_config = config\<rparr> fw = (Inr (), fw1)"
    and c: "c \<in> {''OUTPUT'', ''INPUT'', ''FORWARD''}"
    and old: "\<And>r. r \<in> set (fw_rules fw c) \<Longrightarrow> rule_target r = ''ACCEPT''"
  shows "verdict m fw1 c p =
           (if \<exists>r \<in> set (fw_rules fw c) \<union> rules_for c (config_rules config). m r p then ''ACCEPT'' else ''DROP'')"
proof -
  have fw1: "fw1 = fold add_rule (config_rules config) (fold set_policy drop_policies fw)"
    by (rule isolator_apply_ok[OF assms(1-4)])
  have rules: "set (fw_rules fw1 c) = set (fw_rules fw c) \<union> rules_for c (config_rules config)"
    by (simp add: fw1 fold_add_rule_set)
  have "verdict m fw1 c p = (if \<exists>r \<in> set (fw_rules fw1 c). m r p then ''ACCEPT'' else fw_policy fw1 c)"
    using old rules config_rule_target[OF assms(2)] by (intro verdict_accepting) blast
  then show ?thesis using drop_policy[OF c, of fw] by (simp only: rules) (simp add: fw1)
qed

lemma isolation_enforced_parts:
  assumes "iptables_ok ipt" "plain_config config" "iso_mode config \<noteq> Disabled"
    and "fw_rules fw = (\<lambda>_. [])"
    and "isolator_apply ipt \<lparr>isor_config = config\<rparr> fw = (Inr (), fw1)"
  shows "verdict m fw1 ''OUTPUT'' p =
      (if m lo_out p \<or> (iso_mode config = Whitelist \<and> (\<exists>e. e \<in> set (whitelist config) \<and> m (drop 2 (whitelist_rule e)) p))
       then ''ACCEPT'' else ''DROP'')"
    and "verdict m fw1 ''INPUT'' p =
      (if m lo_in p \<or> m established p \<or>
          (\<exists>s. s \<in> set (api_allowed_sources config) \<and> m (drop 2 (source_rule (show_nat (api_port config)) s)) p)
       then ''ACCEPT'' else ''DROP'')"
    and "verdict m fw1 ''FORWARD'' p = ''DROP''"
    and "isolator_apply ipt \<lparr>isor_config = config\<rparr> fw1 = (Inr (), fw2) \<Longrightarrow> fw2 = fw1"
proof -
  note v = applied_verdict[OF assms(1-3,5), of _ m p, unfolded assms(4)]
  show "verdict m fw1 ''OUTPUT'' p =
      (if m lo_out p \<or> (iso_mode config = Whitelist \<and> (\<exists>e. e \<in> set (whitelist config) \<and> m (drop 2 (whitelist_rule e)) p))
       then ''ACCEPT'' else ''DROP'')"
    using v[of "''OUTPUT''"] by (auto simp: config_rules_for)
  show "verdict m fw1 ''INPUT'' p =
      (if m lo_in p \<or> m established p \<or>
          (\<exists>s. s \<in> set (api_allowed_sources config) \<and> m (drop 2 (source_rule (show_nat (api_port config)) s)) p)
       then ''ACCEPT'' else ''DROP'')"
    using v[of "''INPUT''"] by (auto simp: config_rules_for)
  show "verdict m fw1 ''FORWARD'' p = ''DROP''"
    using v[of "''FORWARD''"] by (auto simp: config_rules_for)
  assume again: "isolator_apply ipt \<lparr>isor_config = config\<rparr> fw1 = (Inr (), fw2)"
  have fw1: "fw1 = fold add_rule (config_rules config) (fold set_policy drop_policies fw)"
    by (rule isolator_apply_ok[OF assms(1-3,5)])
  then have "fold set_policy drop_policies fw1 = fw1" by (simp add: set_policy_again)
  moreover have "fold add_rule (config_rules config) fw1 = fw1"
    by (rule fold_add_rule_present) (simp add: fw1 fold_add_rule_set)
  ultimately show "fw2 = fw1" using isolator_apply_ok[OF assms(1-3) again] by simp
qed


definition demo_iptables :: iptables where
  "demo_iptables args fw = (case args of
      cmd # rest \<Rightarrow>
        if cmd = ''-F'' then Some (True, fw\<lparr>fw_rules := \<lambda>_. []\<rparr>)
        else (case rest of
          c # r \<Rightarrow>
            if cmd = ''-P'' then Some (True, case r of t # _ \<Rightarrow> fw\<lparr>fw_policy := (fw_policy fw)(c := t)\<rparr> | [] \<Rightarrow> fw)
            else if cmd = ''-A'' then Some (True, fw\<lparr>fw_rules := (fw_rules fw)(c := fw_rules fw c @ [r])\<rparr>)
            else if cmd = ''-C'' then Some (r \<in> set (fw_rules fw c), fw)
            else None
        | [] \<Rightarrow> None)
    | [] \<Rightarrow> None)"

definition open_firewall :: firewall where
  "open_firewall = \<lparr>fw_policy = (\<lambda>_. ''ACCEPT''), fw_rules = (\<lambda>_. [])\<rparr>"

lemma demo_iptables_ok: "iptables_ok demo_iptables"
  by (simp add: iptables_ok_def demo_iptables_def split: list.splits)

lemma demo_insert: 
  "insert_if_absent demo_iptables (''-A'' # c # r) fw =
     (Inr (), add_rule (''-A'' # c # r) fw)" if "c \<noteq> ''-A''" "''-A'' \<notin> set r"
proof -
  have "map (\<lambda>a. if a = ''-A'' then ''-C'' else a) (''-A'' # c # r) = ''-C'' # c # r"
    using that by (auto intro!: map_idI)
  then show ?thesis
    by (simp only: insert_if_absent_def Let_def)
      (simp add: demo_iptables_def run_iptables_def add_rule_def)
qed

definition demo_config :: "whitelist_entry list \<Rightarrow> isolation_config" where
  "demo_config wl = \<lparr>iso_mode = Whitelist, api_port = 11984, api_allowed_sources = [''10.0.0.5''], whitelist = wl\<rparr>"

definition demo_peer :: whitelist_entry where
  "demo_peer = \<lparr>wl_host = ''10.0.0.9'', wl_port = 443, wl_comment = []\<rparr>"

lemma demo_config_plain: "plain_config (demo_config [])" "plain_config (demo_config [demo_peer])"
  by (simp_all add: plain_config_def demo_config_def demo_peer_def)

lemma demo_policy: "run_iptables demo_iptables [''-P'', c, t] fw = (Inr (), fw\<lparr>fw_policy := (fw_policy fw)(c := t)\<rparr>)"
  by (simp add: run_iptables_def demo_iptables_def)

lemma demo_apply:
  assumes "wl = [] \<or> wl = [demo_peer]"
  shows "isolator_apply demo_iptables \<lparr>isor_config = demo_config wl\<rparr> fw =
           (Inr (), snd (isolator_apply demo_iptables \<lparr>isor_config = demo_config wl\<rparr> fw))"
  using assms
  by (elim disjE)
    (simp_all add: isolator_apply_def demo_config_def demo_peer_def apply_whitelist_def apply_air_gap_def
      whitelist_rule_def source_rule_def CHAIN_COMMENT_def demo_insert demo_policy and_then_def)


text \<open>A host taken off the whitelist stays reachable. \<open>reconfigure\<close> flushes the rules only
  when the mode or the API port changes; with both kept, the rule of an entry that the new
  configuration no longer has is still there and still lets its packets out.\<close>

lemma reconfigure_keeps_removed_entry:
  assumes "iptables_ok ipt" "plain_config old" "plain_config new"
    and "iso_mode old = Whitelist" "iso_mode new = Whitelist" "api_port new = api_port old"
    and "fw_rules fw = (\<lambda>_. [])"
    and "isolator_apply ipt \<lparr>isor_config = old\<rparr> fw = (Inr (), fw1)"
    and "reconfigure ipt new (\<lparr>isor_config = old\<rparr>, fw1) = (Inr (), self2, fw2)"
    and "e \<in> set (whitelist old)" "m (drop 2 (whitelist_rule e)) p"
  shows "isor_config self2 = new \<and> verdict m fw2 ''OUTPUT'' p = ''ACCEPT''"
proof -
  have apply2: "isolator_apply ipt \<lparr>isor_config = new\<rparr> fw1 = (Inr (), fw2)" "self2 = \<lparr>isor_config = new\<rparr>"
    using assms(4-6,9) by (auto simp: reconfigure_def Let_def split: prod.splits)
  have "fw1 = fold add_rule (config_rules old) (fold set_policy drop_policies fw)"
    using isolator_apply_ok[OF assms(1,2) _ assms(8)] assms(4) by simp
  then have rules: "set (fw_rules fw1 ''OUTPUT'') = rules_for ''OUTPUT'' (config_rules old)"
    using assms(7) by (simp add: fold_add_rule_set)
  then have "drop 2 (whitelist_rule e) \<in> set (fw_rules fw1 ''OUTPUT'')"
    using assms(4,10) by (simp add: config_rules_for)
  moreover have "verdict m fw2 ''OUTPUT'' p =
    (if \<exists>r \<in> set (fw_rules fw1 ''OUTPUT'') \<union> rules_for ''OUTPUT'' (config_rules new). m r p then ''ACCEPT'' else ''DROP'')"
    using rules config_rule_target[OF assms(2)] assms(5) by (intro applied_verdict[OF assms(1,3) _ apply2(1)]) auto
  ultimately show ?thesis using assms(11) apply2(2) by auto
qed

end
