(* ===== verification/Rag_Chunk.thy ===== *)
theory Rag_Chunk
  imports Maranode_Prelude
begin

section \<open>Chunking of documents\<close>

text \<open>
  \<open>crates/maranode-rag/src/chunk.rs\<close>: plain text is cut into overlapping windows at paragraph,
  sentence or word ends, source code into units at top-level definitions. Text is a list of Unicode
  scalar values. Which scalar values are alphabetic or alphanumeric and how a string is put into
  lower case are tables of the Unicode standard, the record \<open>unicode\<close>. The loop of \<open>chunk_text\<close> is a
  \<open>partial_function\<close>, so that its termination is a theorem. The brace depth is an unbounded integer:
  to leave the range of \<open>i32\<close> a file needs more than two thousand million braces.
\<close>

record unicode =
  uni_alphabetic :: "uchar \<Rightarrow> bool"
  uni_alphanumeric :: "uchar \<Rightarrow> bool"
  uni_lowercase :: "ustring \<Rightarrow> ustring"

record rich_chunk =
  rc_text :: ustring
  rc_page_number :: nat
  rc_section :: "ustring option"

record page =
  pg_number :: nat
  pg_text :: ustring

record document_meta =
  dm_title :: "ustring option"
  dm_author :: "ustring option"
  dm_page_count :: nat

record document_content =
  dc_pages :: "page list"
  dc_meta :: document_meta
  dc_full_text :: ustring

definition from_plain :: "ustring \<Rightarrow> document_content" where
  "from_plain text = \<lparr>dc_pages = [\<lparr>pg_number = 1, pg_text = text\<rparr>],
     dc_meta = \<lparr>dm_title = None, dm_author = None, dm_page_count = 1\<rparr>, dc_full_text = text\<rparr>"

subsection \<open>Plain text\<close>

definition ellipsis :: uchar where
  "ellipsis = 8230"

definition find_break :: "ustring \<Rightarrow> nat \<Rightarrow> nat \<Rightarrow> nat" where
  "find_break chars start hard_end =
     (let window = hard_end - start;
          min_len = (window * 6) div 10;
          range = rev [start + min_len..<hard_end]
      in case find (\<lambda>i. chars ! i = 10 \<and> i > start \<and> chars ! (i - 1) = 10) range of
           Some i \<Rightarrow> i + 1
         | None \<Rightarrow>
             (case find (\<lambda>i. (chars ! i = 46 \<or> chars ! i = 33 \<or> chars ! i = 63 \<or> chars ! i = ellipsis) \<and>
                             (if i + 1 < length chars then uc_whitespace (chars ! (i + 1)) else True)) range of
                Some i \<Rightarrow> i + 1
              | None \<Rightarrow>
                  (case find (\<lambda>i. uc_whitespace (chars ! i)) range of
                     Some i \<Rightarrow> i + 1
                   | None \<Rightarrow> hard_end)))"

definition slice :: "ustring \<Rightarrow> nat \<Rightarrow> nat \<Rightarrow> ustring" where
  "slice chars a b = take (b - a) (drop a chars)"

definition push_trimmed :: "ustring \<Rightarrow> ustring list \<Rightarrow> ustring list" where
  "push_trimmed piece chunks = (let trimmed = trim piece in if trimmed \<noteq> [] then chunks @ [trimmed] else chunks)"

partial_function (option) chunk_loop :: "ustring \<Rightarrow> nat \<Rightarrow> nat \<Rightarrow> nat \<Rightarrow> ustring list \<Rightarrow> ustring list option" where
  "chunk_loop chars sz overlap start chunks =
     (if start < length chars then
        (let hard_end = min (start + sz) (length chars);
             end' = (if hard_end = length chars then hard_end else find_break chars start hard_end);
             chunks1 = push_trimmed (slice chars start end') chunks
         in if end' \<ge> length chars then Some chunks1
            else (let next' = end' - overlap
                  in chunk_loop chars sz overlap (if next' > start then next' else end') chunks1))
      else Some chunks)"

definition chunk_text :: "ustring \<Rightarrow> nat \<Rightarrow> nat \<Rightarrow> ustring list option" where
  "chunk_text text sz overlap =
     (if text = [] then Some []
      else (let sz = max sz 1;
                overlap = min overlap (sz - 1)
            in if length text \<le> sz
               then Some (push_trimmed text [])
               else chunk_loop text sz overlap 0 []))"

subsection \<open>Source code\<close>

datatype code_lang = Braces | Python

text \<open>\<open>str::split\<close> at the characters that satisfy a predicate.\<close>

fun tokens_by :: "(uchar \<Rightarrow> bool) \<Rightarrow> ustring \<Rightarrow> ustring list" where
  "tokens_by sep [] = [[]]"
| "tokens_by sep (c # cs) = (if sep c then [] # tokens_by sep cs
     else case tokens_by sep cs of [] \<Rightarrow> [[c]] | w # ws \<Rightarrow> (c # w) # ws)"

text \<open>\<open>Path::file_name\<close> and \<open>Path::extension\<close> of a Unix path.\<close>

definition path_file_name :: "ustring \<Rightarrow> ustring option" where
  "path_file_name p =
     (let comps = filter (\<lambda>c. c \<noteq> [] \<and> c \<noteq> [46]) (tokens_by (\<lambda>c. c = 47) p)
      in if comps = [] \<or> last comps = [46, 46] then None else Some (last comps))"

definition path_extension :: "ustring \<Rightarrow> ustring option" where
  "path_extension p = (case path_file_name p of
      None \<Rightarrow> None
    | Some name \<Rightarrow>
        (let after = rev (takeWhile (\<lambda>c. c \<noteq> 46) (rev name));
             before = take (length name - length after - 1) name
         in if 46 \<notin> set name \<or> before = [] then None else Some after))"

definition lang_for :: "unicode \<Rightarrow> ustring \<Rightarrow> code_lang option" where
  "lang_for uni source = (case path_extension source of
      None \<Rightarrow> None
    | Some e \<Rightarrow>
        (let ext = uni_lowercase uni e
         in if ext \<in> set (map ascii [''py'', ''pyi'']) then Some Python
            else if ext \<in> set (map ascii [''rs'', ''js'', ''mjs'', ''cjs'', ''jsx'', ''ts'', ''tsx'', ''go'',
                   ''java'', ''c'', ''h'', ''cc'', ''cpp'', ''cxx'', ''hpp'', ''hh'', ''hxx'', ''cs'', ''kt'', ''kts'',
                   ''swift'', ''scala'', ''php'', ''dart'', ''proto'']) then Some Braces
            else None))"

definition mk_chunk :: "ustring \<Rightarrow> ustring option \<Rightarrow> rich_chunk" where
  "mk_chunk buf section' = \<lparr>rc_text = trim buf, rc_page_number = 1, rc_section = section'\<rparr>"

text \<open>The state is the list of units and the current one.\<close>

definition push_unit :: "ustring list \<times> ustring \<Rightarrow> ustring list \<times> ustring" where
  "push_unit st = (case st of (units, cur) \<Rightarrow> if trim cur = [] then (units, []) else (units @ [cur], []))"

fun brace_scan :: "ustring \<Rightarrow> bool \<Rightarrow> int \<Rightarrow> int" where
  "brace_scan [] in_str depth = depth"
| "brace_scan (c # cs) True depth =
     (if c = 92 then brace_scan (tl cs) True depth
      else if c = 34 then brace_scan cs False depth else brace_scan cs True depth)"
| "brace_scan (c # cs) False depth =
     (if c = 47 \<and> cs \<noteq> [] \<and> hd cs = 47 then depth
      else if c = 34 then brace_scan cs True depth
      else if c = 123 then brace_scan cs False (depth + 1)
      else if c = 125 then brace_scan cs False (depth - 1)
      else brace_scan cs False depth)"

definition brace_delta :: "ustring \<Rightarrow> int" where
  "brace_delta line = brace_scan line False 0"

definition ends_with_char :: "uchar \<Rightarrow> ustring \<Rightarrow> bool" where
  "ends_with_char c s \<longleftrightarrow> s \<noteq> [] \<and> last s = c"

fun brace_lines :: "ustring list \<Rightarrow> int \<Rightarrow> ustring list \<times> ustring \<Rightarrow> ustring list \<times> ustring" where
  "brace_lines [] depth st = st"
| "brace_lines (line # rest) depth st =
     (let st1 = (fst st, snd st @ line @ [10]);
          depth1 = depth + brace_delta line;
          depth2 = (if depth1 < 0 then 0 else depth1);
          trimmed = trim_end line
      in brace_lines rest depth2
           (if depth2 = 0 \<and> (ends_with_char 125 trimmed \<or> ends_with_char 59 trimmed) then push_unit st1 else st1))"

definition brace_units :: "ustring \<Rightarrow> ustring list" where
  "brace_units text = fst (push_unit (brace_lines (str_lines text) 0 ([], [])))"

definition starts_whitespace :: "ustring \<Rightarrow> bool" where
  "starts_whitespace s \<longleftrightarrow> s \<noteq> [] \<and> uc_whitespace (hd s)"

definition py_top_def :: "ustring \<Rightarrow> bool" where
  "py_top_def line =
     (if starts_whitespace line then False
      else (let t = trim_start line
            in prefix (ascii ''def '') t \<or> prefix (ascii ''class '') t \<or> prefix (ascii ''async def '') t
               \<or> prefix [64] t))"

fun python_lines :: "ustring list \<Rightarrow> bool \<Rightarrow> ustring list \<times> ustring \<Rightarrow> ustring list \<times> ustring" where
  "python_lines [] prev_decorator st = st"
| "python_lines (line # rest) prev_decorator st =
     (let st1 = (if py_top_def line \<and> \<not> prev_decorator \<and> trim (snd st) \<noteq> [] then push_unit st else st)
      in python_lines rest (\<not> starts_whitespace line \<and> prefix [64] (trim_start line))
           (fst st1, snd st1 @ line @ [10]))"

definition python_units :: "ustring \<Rightarrow> ustring list" where
  "python_units text = fst (push_unit (python_lines (str_lines text) False ([], [])))"

definition is_ident :: "unicode \<Rightarrow> ustring \<Rightarrow> bool" where
  "is_ident uni s = (case s of
      [] \<Rightarrow> False
    | c # _ \<Rightarrow> (uni_alphabetic uni c \<or> c = 95) \<and> list_all (\<lambda>c. uni_alphanumeric uni c \<or> c = 95) s)"

definition def_keywords :: "code_lang \<Rightarrow> ustring list" where
  "def_keywords lang = map ascii (case lang of
      Python \<Rightarrow> [''def'', ''class'']
    | Braces \<Rightarrow> [''fn'', ''function'', ''func'', ''class'', ''struct'', ''enum'', ''trait'', ''interface'', ''type'',
                 ''mod'', ''impl'', ''const'', ''let'', ''var'', ''val''])"

fun def_pairs :: "unicode \<Rightarrow> ustring list \<Rightarrow> ustring list \<Rightarrow> ustring option" where
  "def_pairs uni kws (a # b # rest) =
     (if a \<in> set kws \<and> is_ident uni b then Some b else def_pairs uni kws (b # rest))"
| "def_pairs uni kws _ = None"

definition def_name :: "unicode \<Rightarrow> ustring \<Rightarrow> code_lang \<Rightarrow> ustring option" where
  "def_name uni line lang =
     (let tokens = filter (\<lambda>s. s \<noteq> []) (tokens_by (\<lambda>c. \<not> (uni_alphanumeric uni c \<or> c = 95)) line)
      in def_pairs uni (def_keywords lang) tokens)"

fun label_lines :: "unicode \<Rightarrow> code_lang \<Rightarrow> ustring list \<Rightarrow> ustring option" where
  "label_lines uni lang [] = None"
| "label_lines uni lang (line # rest) =
     (let t = trim line
      in if t = [] \<or> prefix (ascii ''//'') t \<or> prefix (ascii ''/*'') t \<or> prefix (ascii ''*'') t
         then label_lines uni lang rest
         else case def_name uni t lang of
                Some name \<Rightarrow> Some name
              | None \<Rightarrow> label_lines uni lang rest)"

definition symbol_label :: "unicode \<Rightarrow> ustring \<Rightarrow> code_lang \<Rightarrow> ustring option" where
  "symbol_label uni unit lang = label_lines uni lang (take 10 (str_lines unit))"

text \<open>The loop over the units carries the chunks made so far, the buffer and its label.\<close>

fun chunk_units ::
  "unicode \<Rightarrow> code_lang \<Rightarrow> nat \<Rightarrow> nat \<Rightarrow> ustring list \<Rightarrow> rich_chunk list \<times> ustring \<times> ustring option \<Rightarrow>
     (rich_chunk list \<times> ustring \<times> ustring option) option" where
  "chunk_units uni lang sz overlap [] st = Some st"
| "chunk_units uni lang sz overlap (unit # rest) (out, buf, label) =
     (if length unit > sz then
        (let (out1, label1) = (if trim buf \<noteq> [] then (out @ [mk_chunk buf label], None) else (out, label));
             unit_label = symbol_label uni unit lang
         in Option.bind (chunk_text unit sz overlap) (\<lambda>pieces.
              chunk_units uni lang sz overlap rest
                (out1 @ map (\<lambda>p. \<lparr>rc_text = p, rc_page_number = 1, rc_section = unit_label\<rparr>) pieces, [], label1)))
      else
        (let (out1, buf1, label1) =
               (if buf \<noteq> [] \<and> length buf + length unit > sz then (out @ [mk_chunk buf label], [], None)
                else (out, buf, label));
             label2 = (if label1 = None then symbol_label uni unit lang else label1)
         in chunk_units uni lang sz overlap rest (out1, buf1 @ unit, label2)))"

definition chunk_code :: "unicode \<Rightarrow> ustring \<Rightarrow> code_lang \<Rightarrow> nat \<Rightarrow> nat \<Rightarrow> rich_chunk list option" where
  "chunk_code uni text lang sz overlap =
     (let units = (case lang of Braces \<Rightarrow> brace_units text | Python \<Rightarrow> python_units text)
      in Option.bind (chunk_units uni lang sz overlap units ([], [], None)) (\<lambda>(out, buf, label).
           Some (if trim buf \<noteq> [] then out @ [mk_chunk buf label] else out)))"

subsection \<open>Documents\<close>

definition trim_start_matches :: "uchar \<Rightarrow> ustring \<Rightarrow> ustring" where
  "trim_start_matches x s = dropWhile (\<lambda>c. c = x) s"

fun heading_lines :: "ustring list \<Rightarrow> ustring option" where
  "heading_lines [] = None"
| "heading_lines (line # rest) =
     (let t = trim line
      in if t = [] then heading_lines rest
         else if prefix [35] t then Some (trim (trim_start_matches 35 t))
         else if byte_len t \<le> 60 \<and> \<not> ends_with_char 46 t \<and> \<not> ends_with_char 44 t then Some t
         else None)"

definition extract_heading :: "ustring \<Rightarrow> ustring option" where
  "extract_heading text = heading_lines (str_lines text)"

fun chunk_pages :: "page list \<Rightarrow> nat \<Rightarrow> nat \<Rightarrow> rich_chunk list option" where
  "chunk_pages [] sz overlap = Some []"
| "chunk_pages (p # ps) sz overlap =
     (let section' = extract_heading (pg_text p)
      in Option.bind (chunk_text (pg_text p) sz overlap) (\<lambda>pieces.
         Option.bind (chunk_pages ps sz overlap) (\<lambda>more.
           Some (map (\<lambda>t. \<lparr>rc_text = t, rc_page_number = pg_number p, rc_section = section'\<rparr>) pieces @ more))))"

definition chunk_document :: "unicode \<Rightarrow> document_content \<Rightarrow> ustring \<Rightarrow> nat \<Rightarrow> nat \<Rightarrow> rich_chunk list option" where
  "chunk_document uni doc source sz overlap = (case lang_for uni source of
      None \<Rightarrow> chunk_pages (dc_pages doc) sz overlap
    | Some lang \<Rightarrow>
        Option.bind (chunk_code uni (dc_full_text doc) lang sz overlap) (\<lambda>coded.
          if coded \<noteq> [] then Some coded else chunk_pages (dc_pages doc) sz overlap))"

subsection \<open>Windows\<close>

text \<open>The specification of the loop: windows of at most \<open>sz\<close> characters from one position to the end
  of the text, each starting behind the start of the one before, not after its end, and at most \<open>ov\<close>
  characters before it.\<close>

fun windows_ok :: "nat \<Rightarrow> nat \<Rightarrow> nat \<Rightarrow> (nat \<times> nat) list \<Rightarrow> bool" where
  "windows_ok sz ov n [] = False"
| "windows_ok sz ov n [(a, b)] = (a < b \<and> b \<le> a + sz \<and> b = n)"
| "windows_ok sz ov n ((a, b) # (c, d) # ws) =
     (a < b \<and> b \<le> a + sz \<and> b < n \<and> a < c \<and> c \<le> b \<and> b \<le> c + ov \<and> windows_ok sz ov n ((c, d) # ws))"

definition window_texts :: "ustring \<Rightarrow> (nat \<times> nat) list \<Rightarrow> ustring list" where
  "window_texts chars ws = filter (\<lambda>t. t \<noteq> []) (map (\<lambda>(a, b). trim (slice chars a b)) ws)"

lemma find_range: "find P (rev [a..<b]) = Some i \<Longrightarrow> a \<le> i \<and> i < b"
  by (auto dest!: find_Some_iff[THEN iffD1]) (metis add.commute add_diff_cancel_left' atLeastLessThan_iff
      length_rev nth_mem set_rev set_upt length_upt)+

lemma find_break_bounds:
  assumes "start < hard_end"
  shows "start < find_break chars start hard_end" "find_break chars start hard_end \<le> hard_end"
  using assms by (auto simp: find_break_def Let_def split: option.splits dest!: find_range)

lemma push_trimmed_texts: "push_trimmed (slice chars a b) cs = cs @ window_texts chars [(a, b)]"
  by (simp add: push_trimmed_def window_texts_def Let_def)

lemma window_texts_Cons: "window_texts chars (w # ws) = window_texts chars [w] @ window_texts chars ws"
  by (simp add: window_texts_def)

lemma chunk_loop_windows:
  assumes "0 < sz" "start < length chars"
  shows "\<exists>b ws. windows_ok sz ov (length chars) ((start, b) # ws) \<and>
           chunk_loop chars sz ov start cs = Some (cs @ window_texts chars ((start, b) # ws))"
  using assms(2)
proof (induction "length chars - start" arbitrary: start cs rule: less_induct)
  case less
  define h where "h = min (start + sz) (length chars)"
  define e where "e = (if h = length chars then h else find_break chars start h)"
  have h: "start < h" "h \<le> start + sz" "h \<le> length chars" using less.prems assms(1) by (auto simp: h_def)
  have e: "start < e" "e \<le> start + sz" "e \<le> length chars"
    using find_break_bounds[OF h(1), of chars] h by (auto simp: e_def)
  let ?cs = "cs @ window_texts chars [(start, e)]"
  let ?next = "if e - ov > start then e - ov else e"
  have unfold: "chunk_loop chars sz ov start cs =
      (if e \<ge> length chars then Some ?cs else chunk_loop chars sz ov ?next ?cs)"
    by (subst chunk_loop.simps) (use less.prems in \<open>simp add: Let_def push_trimmed_texts flip: h_def e_def\<close>)
  show ?case
  proof (cases "e \<ge> length chars")
    case True
    then show ?thesis using e unfold by (intro exI[of _ e] exI[of _ "[]"]) auto
  next
    case False
    then have "length chars - ?next < length chars - start" "?next < length chars" using e by auto
    from less.hyps[OF this, of ?cs] obtain b ws where
      "windows_ok sz ov (length chars) ((?next, b) # ws)"
      "chunk_loop chars sz ov ?next ?cs = Some (?cs @ window_texts chars ((?next, b) # ws))" by blast
    then have "windows_ok sz ov (length chars) ((start, e) # (?next, b) # ws) \<and>
        chunk_loop chars sz ov start cs = Some (cs @ window_texts chars ((start, e) # (?next, b) # ws))"
      using e False unfold window_texts_Cons[of chars "(start, e)" "(?next, b) # ws"] by auto
    then show ?thesis by blast
  qed
qed

lemma chunk_text_windows:
  assumes "text \<noteq> []"
  shows "\<exists>b ws. windows_ok (max sz 1) (min ov (max sz 1 - 1)) (length text) ((0, b) # ws) \<and>
           chunk_text text sz ov = Some (window_texts text ((0, b) # ws))"
proof (cases "length text \<le> max sz 1")
  case True
  then have "chunk_text text sz ov = Some (window_texts text [(0, length text)])"
    using assms by (simp add: chunk_text_def push_trimmed_def window_texts_def slice_def Let_def)
  then show ?thesis using True assms by (intro exI[of _ "length text"] exI[of _ "[]"]) simp
next
  case False
  then have "chunk_text text sz ov = chunk_loop text (max sz 1) (min ov (max sz 1 - 1)) 0 []"
    using assms by (simp add: chunk_text_def Let_def)
  then show ?thesis
    using chunk_loop_windows[of "max sz 1" 0 "text" "min ov (max sz 1 - 1)" "[]"] assms by auto
qed

lemma windows_length: "windows_ok sz ov n ws \<Longrightarrow> (a, b) \<in> set ws \<Longrightarrow> b - a \<le> sz"
  by (induction sz ov n ws rule: windows_ok.induct) auto

lemma window_texts_bound:
  assumes "windows_ok sz ov n ws" "t \<in> set (window_texts chars ws)"
  shows "t \<noteq> [] \<and> length t \<le> sz"
proof -
  from assms(2) obtain a b where ab: "(a, b) \<in> set ws" "t = trim (slice chars a b)" "t \<noteq> []"
    by (auto simp: window_texts_def)
  have "length t \<le> length (slice chars a b)" using ab trim_length by blast
  also have "\<dots> \<le> b - a" by (simp add: slice_def)
  also have "\<dots> \<le> sz" using windows_length[OF assms(1) ab(1)] .
  finally show ?thesis using ab by simp
qed

lemma chunk_text_total: "\<exists>cs. chunk_text text sz ov = Some cs \<and> (\<forall>t \<in> set cs. t \<noteq> [] \<and> length t \<le> max sz 1)"
proof (cases "text = []")
  case False
  then show ?thesis using chunk_text_windows[OF False, of sz ov] window_texts_bound by blast
qed (simp add: chunk_text_def)

subsection \<open>Units\<close>

definition units_ok :: "ustring list \<Rightarrow> bool" where
  "units_ok us \<longleftrightarrow> (\<forall>u \<in> set us. \<not> is_blank u)"

lemma push_unit_ok: "units_ok (fst st) \<Longrightarrow> units_ok (fst (push_unit st))"
  by (cases st) (auto simp: push_unit_def units_ok_def is_blank_def)

lemma brace_lines_ok: "units_ok (fst st) \<Longrightarrow> units_ok (fst (brace_lines ls d st))"
proof (induction ls d st rule: brace_lines.induct)
  case (2 line rest depth st)
  then show ?case using push_unit_ok[of "(fst st, snd st @ line @ [10])"] by (auto simp: Let_def)
qed simp

lemma python_lines_ok: "units_ok (fst st) \<Longrightarrow> units_ok (fst (python_lines ls d st))"
proof (induction ls d st rule: python_lines.induct)
  case (2 line rest prev_decorator st)
  then show ?case using push_unit_ok[of st] by (auto simp: Let_def)
qed simp

lemma units_are_ok: "units_ok (brace_units text)" "units_ok (python_units text)"
  unfolding brace_units_def python_units_def
  by (intro push_unit_ok brace_lines_ok python_lines_ok, simp add: units_ok_def)+

definition nonblank :: "ustring \<Rightarrow> ustring" where
  "nonblank s = filter (\<lambda>c. \<not> uc_whitespace c) s"

lemma nonblank_simps [simp]:
  "nonblank [] = []" "nonblank (s @ t) = nonblank s @ nonblank t" "nonblank [10] = []"
  by (simp_all add: nonblank_def uc_whitespace_def)

lemma nonblank_empty: "nonblank s = [] \<longleftrightarrow> is_blank s"
  by (auto simp: nonblank_def is_blank_iff filter_empty_conv)

lemma nonblank_dropWhile [simp]: "nonblank (dropWhile uc_whitespace s) = nonblank s"
  by (induction s) (auto simp: nonblank_def)

lemma nonblank_rev: "nonblank (rev s) = rev (nonblank s)"
  by (simp add: nonblank_def rev_filter)

lemma nonblank_trim [simp]: "nonblank (trim s) = nonblank s"
  by (simp add: trim_def trim_end_def trim_start_def nonblank_rev)

lemma nonblank_strip_cr [simp]: "nonblank (strip_cr l) = nonblank l"
proof (cases "l \<noteq> [] \<and> last l = 13")
  case True
  then have "l = butlast l @ [13]" by (metis append_butlast_last_id)
  then have "nonblank l = nonblank (butlast l) @ nonblank [13]" by (metis nonblank_simps(2))
  then show ?thesis using True by (simp add: strip_cr_def nonblank_def uc_whitespace_def)
qed (auto simp: strip_cr_def)

lemma nonblank_lines: "concat (map nonblank (str_lines s)) = nonblank s"
proof (induction s rule: str_lines.induct)
  case (1 s)
  show ?case
  proof (cases "dropWhile (\<lambda>c. c \<noteq> 10) s")
    case Nil
    then show ?thesis by (subst str_lines.simps) (simp del: dropWhile_eq_Nil_conv)
  next
    case (Cons x rest)
    have x: "x = 10" using Cons hd_dropWhile[of "\<lambda>c. c \<noteq> 10" s] by simp
    have s: "s = takeWhile (\<lambda>c. c \<noteq> 10) s @ [10] @ rest"
      using takeWhile_dropWhile_id[of "\<lambda>c. c \<noteq> 10" s] Cons x by simp
    have "s \<noteq> []" using Cons by auto
    then have "concat (map nonblank (str_lines s)) = nonblank (takeWhile (\<lambda>c. c \<noteq> 10) s) @ nonblank rest"
      using 1[OF _ Cons] Cons by (subst str_lines.simps) simp
    also have "\<dots> = nonblank s" by (subst (2) s) (simp only: nonblank_simps append_Nil)
    finally show ?thesis .
  qed
qed

text \<open>No step of the splitting loses a character that is not white space.\<close>

definition kept :: "ustring list \<times> ustring \<Rightarrow> ustring" where
  "kept st = nonblank (concat (fst st) @ snd st)"

lemma kept_push [simp]: "kept (push_unit st) = kept st"
  by (cases st) (auto simp: push_unit_def kept_def nonblank_empty is_blank_def)

lemma kept_pair [simp]: "kept (us, cur @ l @ [10]) = kept (us, cur) @ nonblank l"
  by (simp add: kept_def)

lemma kept_brace: "kept (brace_lines ls d st) = kept st @ concat (map nonblank ls)"
  by (induction ls d st rule: brace_lines.induct) (simp_all add: Let_def)

lemma kept_python: "kept (python_lines ls d st) = kept st @ concat (map nonblank ls)"
  by (induction ls d st rule: python_lines.induct) (simp_all add: Let_def)

lemma kept_units: "snd (push_unit st) = []"
  by (cases st) (simp add: push_unit_def)

lemma units_of_kept: "nonblank (concat (fst (push_unit st))) = kept st"
  using kept_push[of st] kept_units[of st] by (simp add: kept_def)

lemma units_nonblank:
  "nonblank (concat (brace_units text)) = nonblank text"
  "nonblank (concat (python_units text)) = nonblank text"
  unfolding brace_units_def python_units_def units_of_kept kept_brace kept_python nonblank_lines
  by (simp_all add: kept_def)

lemma windows_partition:
  "windows_ok sz 0 n ((a, b) # ws) \<Longrightarrow> n = length chars \<Longrightarrow>
     nonblank (concat (window_texts chars ((a, b) # ws))) = nonblank (drop a chars)"
proof (induction ws arbitrary: a b)
  case Nil
  then show ?case using nonblank_empty[of "drop a chars"] by (auto simp: window_texts_def slice_def is_blank_def)
next
  case (Cons w ws)
  obtain c d where w: "w = (c, d)" by fastforce
  have c: "c = b" "a < b" "b < n" using Cons.prems w by auto
  have split: "drop a chars = slice chars a b @ drop b chars"
    using c Cons.prems(2) by (simp add: slice_def) (metis append_take_drop_id drop_drop le_add_diff_inverse2 less_imp_le)
  have one: "nonblank (concat (window_texts chars [(a, b)])) = nonblank (slice chars a b)"
    using nonblank_trim[of "slice chars a b"] by (cases "trim (slice chars a b) = []") (auto simp: window_texts_def)
  have "nonblank (concat (window_texts chars ((a, b) # w # ws))) =
      nonblank (slice chars a b) @ nonblank (concat (window_texts chars (w # ws)))"
    using one by (subst window_texts_Cons) simp
  also have "nonblank (concat (window_texts chars (w # ws))) = nonblank (drop b chars)"
    using Cons.IH[of c d] Cons.prems w c by simp
  finally show ?case by (simp add: split)
qed

lemma chunk_text_nonblank:
  assumes "chunk_text text sz 0 = Some cs"
  shows "nonblank (concat cs) = nonblank text"
proof (cases "text = []")
  case True
  then show ?thesis using assms by (simp add: chunk_text_def)
next
  case False
  then obtain b ws where "windows_ok (max sz 1) 0 (length text) ((0, b) # ws)"
    "cs = window_texts text ((0, b) # ws)"
    using chunk_text_windows[OF False, of sz 0] assms by auto
  then show ?thesis using windows_partition by fastforce
qed

subsection \<open>Code\<close>

type_synonym code_state = "rich_chunk list \<times> ustring \<times> ustring option"

definition code_state_ok :: "nat \<Rightarrow> code_state \<Rightarrow> bool" where
  "code_state_ok sz st = (case st of (out, buf, _) \<Rightarrow>
     (\<forall>c \<in> set out. rc_text c \<noteq> [] \<and> length (rc_text c) \<le> max sz 1) \<and> length buf \<le> sz \<and> (buf = [] \<or> \<not> is_blank buf))"

definition code_kept :: "code_state \<Rightarrow> ustring" where
  "code_kept st = (case st of (out, buf, _) \<Rightarrow> nonblank (concat (map rc_text out) @ buf))"

lemma mk_chunk_ok: "\<not> is_blank buf \<Longrightarrow> length buf \<le> sz \<Longrightarrow>
    rc_text (mk_chunk buf l) \<noteq> [] \<and> length (rc_text (mk_chunk buf l)) \<le> max sz 1"
  using trim_length[of buf] by (auto simp: mk_chunk_def is_blank_def)

lemma not_blank_append: "\<not> is_blank u \<Longrightarrow> \<not> is_blank (b @ u)"
  by (auto simp: is_blank_iff)

lemma chunk_units_step:
  assumes "code_state_ok sz (out, buf, label)" "\<not> is_blank unit"
  obtains st where "code_state_ok sz st"
    "chunk_units uni lang sz ov (unit # rest) (out, buf, label) = chunk_units uni lang sz ov rest st"
    "ov = 0 \<Longrightarrow> code_kept st = code_kept (out, buf, label) @ nonblank unit"
proof (cases "length unit > sz")
  case True
  obtain ps where ps: "chunk_text unit sz ov = Some ps" "\<forall>t \<in> set ps. t \<noteq> [] \<and> length t \<le> max sz 1"
    using chunk_text_total by blast
  define out1 where "out1 = (if trim buf \<noteq> [] then out @ [mk_chunk buf label] else out)"
  define label1 where "label1 = (if trim buf \<noteq> [] then None else label)"
  let ?st = "(out1 @ map (\<lambda>p. \<lparr>rc_text = p, rc_page_number = 1, rc_section = symbol_label uni unit lang\<rparr>) ps, [], label1)"
  have eq: "chunk_units uni lang sz ov (unit # rest) (out, buf, label) = chunk_units uni lang sz ov rest ?st"
    using True ps by (simp add: out1_def label1_def)
  have out1: "\<forall>c \<in> set out1. rc_text c \<noteq> [] \<and> length (rc_text c) \<le> max sz 1"
    using assms(1) mk_chunk_ok[of buf sz label] by (auto simp: out1_def code_state_ok_def is_blank_def)
  have kept1: "nonblank (concat (map rc_text out1)) = nonblank (concat (map rc_text out) @ buf)"
    using nonblank_empty[of buf] by (auto simp: out1_def mk_chunk_def is_blank_def)
  have "code_state_ok sz ?st" using out1 ps by (auto simp: code_state_ok_def)
  moreover have "code_kept ?st = code_kept (out, buf, label) @ nonblank unit" if "ov = 0"
    using chunk_text_nonblank[of unit sz ps] ps that kept1 by (simp add: code_kept_def comp_def)
  ultimately show ?thesis using that eq by blast
next
  case False
  define full where "full \<longleftrightarrow> buf \<noteq> [] \<and> length buf + length unit > sz"
  let ?out = "if full then out @ [mk_chunk buf label] else out"
  let ?buf = "if full then [] else buf"
  let ?label = "let label1 = (if full then None else label) in if label1 = None then symbol_label uni unit lang else label1"
  have eq: "chunk_units uni lang sz ov (unit # rest) (out, buf, label) =
      chunk_units uni lang sz ov rest (?out, ?buf @ unit, ?label)"
    using False by (simp add: full_def Let_def)
  have "code_state_ok sz (?out, ?buf @ unit, ?label)"
    using assms False mk_chunk_ok[of buf sz label] not_blank_append[OF assms(2)]
    by (auto simp: code_state_ok_def full_def)
  moreover have "code_kept (?out, ?buf @ unit, ?label) = code_kept (out, buf, label) @ nonblank unit"
    by (simp add: code_kept_def mk_chunk_def)
  ultimately show ?thesis using that eq by blast
qed

lemma chunk_units_ok:
  assumes "units_ok us" "code_state_ok sz st"
  shows "\<exists>st1. chunk_units uni lang sz ov us st = Some st1 \<and> code_state_ok sz st1 \<and>
           (ov = 0 \<longrightarrow> code_kept st1 = code_kept st @ nonblank (concat us))"
  using assms
proof (induction us arbitrary: st)
  case Nil
  then show ?case by simp
next
  case (Cons u us)
  obtain out buf label where st: "st = (out, buf, label)" by (metis surj_pair)
  have u: "\<not> is_blank u" "units_ok us" using Cons.prems by (auto simp: units_ok_def)
  obtain st1 where st1: "code_state_ok sz st1"
    "chunk_units uni lang sz ov (u # us) st = chunk_units uni lang sz ov us st1"
    "ov = 0 \<Longrightarrow> code_kept st1 = code_kept st @ nonblank u"
    using chunk_units_step[of sz out buf label u uni lang ov us] Cons.prems(2) u(1) unfolding st by blast
  from Cons.IH[OF u(2) st1(1)] st1(2,3) show ?case by auto
qed

lemma chunk_code_ok:
  "\<exists>cs. chunk_code uni text lang sz ov = Some cs \<and> (\<forall>c \<in> set cs. rc_text c \<noteq> [] \<and> length (rc_text c) \<le> max sz 1) \<and>
     (ov = 0 \<longrightarrow> nonblank (concat (map rc_text cs)) = nonblank text)"
proof -
  define us where "us = (case lang of Braces \<Rightarrow> brace_units text | Python \<Rightarrow> python_units text)"
  have us: "units_ok us" "nonblank (concat us) = nonblank text"
    using units_are_ok units_nonblank by (auto simp: us_def split: code_lang.splits)
  have "code_state_ok sz ([], [], None)" by (simp add: code_state_ok_def)
  from chunk_units_ok[OF us(1) this, of uni lang ov] obtain out buf label where
    st: "chunk_units uni lang sz ov us ([], [], None) = Some (out, buf, label)" "code_state_ok sz (out, buf, label)"
      "ov = 0 \<longrightarrow> code_kept (out, buf, label) = nonblank text"
    using us(2) by (auto simp: code_kept_def)
  define cs where "cs = (if trim buf \<noteq> [] then out @ [mk_chunk buf label] else out)"
  have "chunk_code uni text lang sz ov = Some cs"
    using st(1) by (simp add: chunk_code_def cs_def flip: us_def)
  moreover have "\<forall>c \<in> set cs. rc_text c \<noteq> [] \<and> length (rc_text c) \<le> max sz 1"
    using st(2) mk_chunk_ok[of buf sz label] by (auto simp: cs_def code_state_ok_def is_blank_def)
  moreover have "nonblank (concat (map rc_text cs)) = code_kept (out, buf, label)"
    using nonblank_empty[of buf] by (auto simp: cs_def code_kept_def mk_chunk_def is_blank_def)
  ultimately show ?thesis using st(3) by auto
qed

lemma chunk_pages_ok:
  "\<exists>cs. chunk_pages ps sz ov = Some cs \<and> (\<forall>c \<in> set cs. rc_text c \<noteq> [] \<and> length (rc_text c) \<le> max sz 1)"
proof (induction ps)
  case (Cons p ps)
  obtain ts where "chunk_text (pg_text p) sz ov = Some ts" "\<forall>t \<in> set ts. t \<noteq> [] \<and> length t \<le> max sz 1"
    using chunk_text_total by blast
  with Cons show ?case by (auto simp: Let_def)
qed simp

lemma chunk_document_total:
  "\<exists>cs. chunk_document uni doc source sz ov = Some cs \<and>
     list_all (\<lambda>c. rc_text c \<noteq> [] \<and> length (rc_text c) \<le> max sz 1) cs"
proof -
  obtain cs where cs: "chunk_pages (dc_pages doc) sz ov = Some cs"
    "\<forall>c \<in> set cs. rc_text c \<noteq> [] \<and> length (rc_text c) \<le> max sz 1"
    using chunk_pages_ok by blast
  show ?thesis
  proof (cases "lang_for uni source")
    case None
    then show ?thesis using cs by (simp add: chunk_document_def list_all_iff)
  next
    case (Some lang)
    obtain ds where "chunk_code uni (dc_full_text doc) lang sz ov = Some ds"
      "\<forall>c \<in> set ds. rc_text c \<noteq> [] \<and> length (rc_text c) \<le> max sz 1"
      using chunk_code_ok by blast
    then show ?thesis using cs Some by (simp add: chunk_document_def list_all_iff)
  qed
qed

text \<open>C21: chunking ends, and no chunk is empty or too long. For every document, file name, size and
  overlap (zero and overlaps larger than the size included) the loops end, and every chunk has at
  least one and at most \<open>size\<close> characters (one, when the size is zero).\<close>

theorem chunk_document_ends:
  "\<exists>cs. chunk_document uni doc source sz ov = Some cs \<and>
     list_all (\<lambda>c. rc_text c \<noteq> [] \<and> length (rc_text c) \<le> max sz 1) cs"
  by (rule chunk_document_total)

text \<open>Chunking loses nothing. The chunks of a text are, trimmed and without the blank ones, windows
  that run from its start to its end without a gap, each beginning after the one before and at most
  \<open>overlap\<close> characters before its end; and with no overlap the chunks of a text or of a source file put
  together are the text itself up to white space: no other character is lost, repeated or moved.\<close>

lemma chunk_text_covers:
  "(text \<noteq> [] \<longrightarrow> (\<exists>b ws. windows_ok (max sz 1) (min ov (max sz 1 - 1)) (length text) ((0, b) # ws) \<and>
     chunk_text text sz ov = Some (window_texts text ((0, b) # ws)))) \<and>
   (\<exists>cs. chunk_text text sz 0 = Some cs \<and> nonblank (concat cs) = nonblank text) \<and>
   (\<exists>cs. chunk_code uni text lang sz 0 = Some cs \<and> nonblank (concat (map rc_text cs)) = nonblank text)"
proof (intro conjI)
  show "\<exists>cs. chunk_text text sz 0 = Some cs \<and> nonblank (concat cs) = nonblank text"
    using chunk_text_total[of "text" sz 0] chunk_text_nonblank by blast
  show "\<exists>cs. chunk_code uni text lang sz 0 = Some cs \<and> nonblank (concat (map rc_text cs)) = nonblank text"
    using chunk_code_ok[of uni "text" lang sz 0] by auto
qed (use chunk_text_windows in blast)

end
