(* ===== verification/Rag_Store.thy ===== *)
theory Rag_Store
  imports Crypto "HOL-Library.List_Lexorder" "HOL-Library.Char_ord" "HOL-Library.Multiset"
begin

section \<open>The vector store\<close>

text \<open>
  \<open>crates/maranode-rag/src/crypt.rs\<close>, \<open>math.rs\<close> and \<open>store.rs\<close>: the encryption of chunk text, the layout
  of embeddings on disk and the SQLite store. Tables are lists of rows in the order of insertion, with
  the keys and the cascading foreign keys of \<open>sql/migrate.sql\<close>; ids and nonces that the code draws at
  random are arguments. A query without \<open>ORDER BY\<close> gives its rows in the order of the table. An \<open>f32\<close>
  is its bit pattern: comparisons are defined on it, the rounding operations of IEEE 754 are the
  record \<open>f32_arith\<close>.
\<close>

subsection \<open>crypt.rs\<close>

abbreviation enc_prefix :: string where "enc_prefix \<equiv> ''enc:''"

definition encrypt :: "crypto \<Rightarrow> bytes \<Rightarrow> bytes \<Rightarrow> string \<Rightarrow> string" where
  "encrypt cr key nonce plaintext = enc_prefix @ hex_encode cr (nonce @ aead_seal cr key nonce plaintext)"

definition decrypt :: "crypto \<Rightarrow> bytes \<Rightarrow> string \<Rightarrow> (seal_error, string) result" where
  "decrypt cr key stored =
     rbind (ok_or NoPrefix (strip_prefix enc_prefix stored)) (\<lambda>hex_part.
     rbind (ok_or BadHex (hex_decode cr hex_part)) (\<lambda>blob.
       if length blob < 12 then Inl TooShort
       else rbind (ok_or OpenFailed (aead_open cr key (take 12 blob) (drop 12 blob))) (\<lambda>plain.
         ok_or NotUtf8 (from_utf8 plain))))"

definition is_encrypted :: "string \<Rightarrow> bool" where
  "is_encrypted value = starts_with enc_prefix value"

definition maybe_encrypt :: "crypto \<Rightarrow> bytes option \<Rightarrow> bytes \<Rightarrow> string \<Rightarrow> string" where
  "maybe_encrypt cr key nonce value = (case key of Some k \<Rightarrow> encrypt cr k nonce value | None \<Rightarrow> value)"

definition maybe_decrypt :: "crypto \<Rightarrow> bytes option \<Rightarrow> string \<Rightarrow> (seal_error, string) result" where
  "maybe_decrypt cr key value =
     (if is_encrypted value then (case key of None \<Rightarrow> Inl NoKey | Some k \<Rightarrow> decrypt cr k value) else Inr value)"

interpretation chunk_text_seal: sealed_text "crypto_ok cr" "encrypt cr" "decrypt cr" is_encrypted
  for cr
proof
  show "decrypt cr key (encrypt cr key nonce s) = Inr s"
    if "crypto_ok cr" "length nonce = 12" "is_utf8 s" for key nonce s
    unfolding decrypt_def encrypt_def strip_prefix_append
    using that by (simp add: crypto_ok_def from_utf8_def)
  show "is_encrypted (encrypt cr key nonce s)" for key nonce s
    unfolding is_encrypted_def encrypt_def by (rule starts_with_append)
  show "decrypt cr key t = Inl NoPrefix" if "\<not> is_encrypted t" for t key
    using that by (simp add: decrypt_def is_encrypted_def starts_with_def)
qed

subsection \<open>math.rs\<close>

type_synonym f32 = "32 word"

definition f32_nan :: "f32 \<Rightarrow> bool" where
  "f32_nan x \<longleftrightarrow> unat x mod 2 ^ 31 > 0x7F800000"

definition f32_negative :: "f32 \<Rightarrow> bool" where
  "f32_negative x \<longleftrightarrow> unat x \<ge> 2 ^ 31"

text \<open>The numerical order of the values that are not NaN (both zeros are equal), and the order of
  \<open>total_cmp\<close>.\<close>

definition f32_key :: "f32 \<Rightarrow> int" where
  "f32_key x = (let m = int (unat x mod 2 ^ 31) in if f32_negative x then - m else m)"

definition f32_ge :: "f32 \<Rightarrow> f32 \<Rightarrow> bool" where
  "f32_ge x y \<longleftrightarrow> \<not> f32_nan x \<and> \<not> f32_nan y \<and> f32_key x \<ge> f32_key y"

definition f32_total :: "f32 \<Rightarrow> int" where
  "f32_total x = (let m = int (unat x mod 2 ^ 31) in if f32_negative x then - m - 1 else m)"

definition f32_lt :: "f32 \<Rightarrow> f32 \<Rightarrow> bool" where
  "f32_lt x y \<longleftrightarrow> \<not> f32_nan x \<and> \<not> f32_nan y \<and> f32_key x < f32_key y"

definition f32_epsilon :: f32 where
  "f32_epsilon = 0x34000000"

record f32_arith =
  fadd :: "f32 \<Rightarrow> f32 \<Rightarrow> f32"
  fmul :: "f32 \<Rightarrow> f32 \<Rightarrow> f32"
  fdiv :: "f32 \<Rightarrow> f32 \<Rightarrow> f32"
  fsqrt :: "f32 \<Rightarrow> f32"
  fsum_start :: f32

definition f32_sum :: "f32_arith \<Rightarrow> f32 list \<Rightarrow> f32" where
  "f32_sum ar xs = foldl (fadd ar) (fsum_start ar) xs"

definition normalize :: "f32_arith \<Rightarrow> f32 list \<Rightarrow> f32 list" where
  "normalize ar v =
     (let norm = fsqrt ar (f32_sum ar (map (\<lambda>x. fmul ar x x) v))
      in if f32_lt f32_epsilon norm then map (\<lambda>x. fdiv ar x norm) v else v)"

definition dot :: "f32_arith \<Rightarrow> f32 list \<Rightarrow> f32 list \<Rightarrow> f32" where
  "dot ar a b = f32_sum ar (map (\<lambda>(x, y). fmul ar x y) (zip a b))"

definition cosine :: "f32_arith \<Rightarrow> f32 list \<Rightarrow> f32 list \<Rightarrow> f32" where
  "cosine ar a b =
     (let na = fsqrt ar (f32_sum ar (map (\<lambda>x. fmul ar x x) a));
          nb = fsqrt ar (f32_sum ar (map (\<lambda>x. fmul ar x x) b))
      in if f32_lt na f32_epsilon \<or> f32_lt nb f32_epsilon then 0 else fdiv ar (dot ar a b) (fmul ar na nb))"

definition to_le_bytes :: "f32 \<Rightarrow> bytes" where
  "to_le_bytes x = map (\<lambda>i. char_of (unat x div 256 ^ i mod 256)) [0, 1, 2, 3]"

definition from_le_bytes :: "bytes \<Rightarrow> f32" where
  "from_le_bytes b = of_nat (foldr (\<lambda>c n. of_char c + 256 * n) b 0)"

definition vec_to_blob :: "f32 list \<Rightarrow> bytes" where
  "vec_to_blob v = concat (map to_le_bytes v)"

fun chunks_exact4 :: "bytes \<Rightarrow> bytes list" where
  "chunks_exact4 (a # b # c # d # rest) = [a, b, c, d] # chunks_exact4 rest"
| "chunks_exact4 _ = []"

datatype rag_error =
    BadBlob nat | SealError seal_error | ModelMismatch string | DimMismatch nat | Constraint | NoRow
  | NoText | EmbedFailed | WrongCount nat nat | EmptyVectors | NotIndexed

definition blob_to_vec :: "bytes \<Rightarrow> (rag_error, f32 list) result" where
  "blob_to_vec b = (if length b mod 4 \<noteq> 0 then Inl (BadBlob (length b)) else Inr (map from_le_bytes (chunks_exact4 b)))"

subsection \<open>store.rs\<close>

record collection_row =
  co_name :: string
  co_embedding_model :: string
  co_dim :: nat
  co_created_at :: string

record document_row =
  do_id :: string
  do_collection :: string
  do_source :: string
  do_sha256 :: string
  do_ingested_at :: string
  do_title :: "string option"
  do_author :: "string option"
  do_page_count :: nat
  do_summary :: "string option"

record chunk_db_row =
  ch_id :: string
  ch_document_id :: string
  ch_collection :: string
  ch_ordinal :: nat
  ch_text :: string
  ch_embedding :: bytes
  ch_page_number :: nat
  ch_section :: "string option"
  ch_content_hash :: string

record vector_store =
  vs_collections :: "collection_row list"
  vs_documents :: "document_row list"
  vs_chunks :: "chunk_db_row list"
  vs_dek :: "bytes option"

definition store_open :: vector_store where
  "store_open = \<lparr>vs_collections = [], vs_documents = [], vs_chunks = [], vs_dek = None\<rparr>"

definition with_dek :: "bytes \<Rightarrow> vector_store \<Rightarrow> vector_store" where
  "with_dek dek s = s\<lparr>vs_dek := Some dek\<rparr>"

record chunk_row =
  cr_text :: string
  cr_embedding :: "f32 list"
  cr_page_number :: nat
  cr_section :: "string option"
  cr_content_hash :: string

definition ensure_collection ::
  "string \<Rightarrow> string \<Rightarrow> string \<Rightarrow> nat \<Rightarrow> vector_store \<Rightarrow> (rag_error, unit) result \<times> vector_store" where
  "ensure_collection now name embedding_model dim s =
     (case find (\<lambda>c. co_name c = name) (vs_collections s) of
        Some c \<Rightarrow>
          if co_embedding_model c \<noteq> embedding_model then (Inl (ModelMismatch (co_embedding_model c)), s)
          else if co_dim c \<noteq> dim then (Inl (DimMismatch (co_dim c)), s)
          else (Inr (), s)
      | None \<Rightarrow>
          (Inr (), s\<lparr>vs_collections := vs_collections s @
             [\<lparr>co_name = name, co_embedding_model = embedding_model, co_dim = dim, co_created_at = now\<rparr>]\<rparr>))"

text \<open>The rows of the chunks; each takes an id and a nonce from the list of random values.\<close>

definition chunk_db_rows ::
  "crypto \<Rightarrow> bytes option \<Rightarrow> string \<Rightarrow> string \<Rightarrow> (string \<times> bytes) list \<Rightarrow> chunk_row list \<Rightarrow> chunk_db_row list" where
  "chunk_db_rows cr dek doc_id collection random chunks =
     map (\<lambda>(i, (cid, nonce), c). \<lparr>ch_id = cid, ch_document_id = doc_id, ch_collection = collection, ch_ordinal = i,
            ch_text = maybe_encrypt cr dek nonce (cr_text c), ch_embedding = vec_to_blob (cr_embedding c),
            ch_page_number = cr_page_number c, ch_section = cr_section c, ch_content_hash = cr_content_hash c\<rparr>)
       (zip [0..<length chunks] (zip random chunks))"

text \<open>The transaction commits when the collection exists and no id is taken.\<close>

definition insert_document ::
  "crypto \<Rightarrow> string \<Rightarrow> string \<Rightarrow> (string \<times> bytes) list \<Rightarrow> string \<Rightarrow> string \<Rightarrow> string \<Rightarrow> chunk_row list \<Rightarrow>
     string option \<Rightarrow> string option \<Rightarrow> nat \<Rightarrow> vector_store \<Rightarrow> (rag_error, string) result \<times> vector_store" where
  "insert_document cr now doc_id random collection source sha chunks title author page_count s =
     (let rows = chunk_db_rows cr (vs_dek s) doc_id collection random chunks
      in if collection \<in> co_name ` set (vs_collections s) \<and> doc_id \<notin> do_id ` set (vs_documents s) \<and>
            distinct (map ch_id (vs_chunks s @ rows))
         then (Inr doc_id,
               s\<lparr>vs_documents := vs_documents s @
                   [\<lparr>do_id = doc_id, do_collection = collection, do_source = source, do_sha256 = sha,
                     do_ingested_at = now, do_title = title, do_author = author, do_page_count = page_count,
                     do_summary = None\<rparr>],
                 vs_chunks := vs_chunks s @ rows\<rparr>)
         else (Inl Constraint, s))"

definition decrypt_or_raw :: "crypto \<Rightarrow> bytes option \<Rightarrow> string \<Rightarrow> string" where
  "decrypt_or_raw cr dek raw = (case maybe_decrypt cr dek raw of Inl _ \<Rightarrow> raw | Inr t \<Rightarrow> t)"

definition verify_chunk_hash ::
  "crypto \<Rightarrow> vector_store \<Rightarrow> string \<Rightarrow> (rag_error, string \<times> string \<times> bool) result" where
  "verify_chunk_hash cr s chunk_id = (case find (\<lambda>c. ch_id c = chunk_id) (vs_chunks s) of
      None \<Rightarrow> Inl NoRow
    | Some c \<Rightarrow>
        (let computed = sha256_hex cr (decrypt_or_raw cr (vs_dek s) (ch_text c))
         in Inr (ch_content_hash c, computed, computed = ch_content_hash c)))"

definition set_summary :: "crypto \<Rightarrow> bytes \<Rightarrow> string \<Rightarrow> string \<Rightarrow> vector_store \<Rightarrow> vector_store" where
  "set_summary cr nonce document_id summary s =
     (let stored = maybe_encrypt cr (vs_dek s) nonce summary
      in s\<lparr>vs_documents := map (\<lambda>d. if do_id d = document_id then d\<lparr>do_summary := Some stored\<rparr> else d) (vs_documents s)\<rparr>)"

record scored_chunk =
  sc_chunk_id :: string
  sc_doc_id :: string
  sc_doc_sha256 :: string
  sc_content_hash :: string
  sc_source :: string
  sc_ordinal :: nat
  sc_text :: string
  sc_score :: f32
  sc_page_number :: nat
  sc_section :: "string option"
  sc_title :: "string option"
  sc_author :: "string option"

definition score_row ::
  "crypto \<Rightarrow> bytes option \<Rightarrow> f32_arith \<Rightarrow> f32 list \<Rightarrow> f32 list \<Rightarrow> chunk_db_row \<times> document_row \<Rightarrow> scored_chunk" where
  "score_row cr dek ar query emb row = (case row of (c, d) \<Rightarrow>
     \<lparr>sc_chunk_id = ch_id c, sc_doc_id = do_id d, sc_doc_sha256 = do_sha256 d, sc_content_hash = ch_content_hash c,
      sc_source = do_source d, sc_ordinal = ch_ordinal c, sc_text = decrypt_or_raw cr dek (ch_text c),
      sc_score = dot ar query emb, sc_page_number = ch_page_number c, sc_section = ch_section c,
      sc_title = do_title d, sc_author = do_author d\<rparr>)"

fun score_rows ::
  "crypto \<Rightarrow> bytes option \<Rightarrow> f32_arith \<Rightarrow> f32 list \<Rightarrow> f32 \<Rightarrow> (chunk_db_row \<times> document_row) list \<Rightarrow> scored_chunk list \<Rightarrow>
     (rag_error, scored_chunk list) result" where
  "score_rows cr dek ar query min_score [] scored = Inr scored"
| "score_rows cr dek ar query min_score (row # rows) scored =
     rbind (blob_to_vec (ch_embedding (fst row))) (\<lambda>emb.
       if length emb \<noteq> length query then score_rows cr dek ar query min_score rows scored
       else (let c = score_row cr dek ar query emb row
             in if f32_ge (sc_score c) min_score
                then score_rows cr dek ar query min_score rows (scored @ [c])
                else score_rows cr dek ar query min_score rows scored))"

definition joined_rows :: "string \<Rightarrow> vector_store \<Rightarrow> (chunk_db_row \<times> document_row) list" where
  "joined_rows collection s =
     [(c, d). c \<leftarrow> vs_chunks s, d \<leftarrow> vs_documents s, do_id d = ch_document_id c \<and> ch_collection c = collection]"

definition search ::
  "crypto \<Rightarrow> f32_arith \<Rightarrow> vector_store \<Rightarrow> string \<Rightarrow> f32 list \<Rightarrow> nat \<Rightarrow> f32 \<Rightarrow> (rag_error, scored_chunk list) result" where
  "search cr ar s collection query top_k min_score =
     rbind (score_rows cr (vs_dek s) ar query min_score (joined_rows collection s) []) (\<lambda>scored.
       Inr (take top_k (sort_key (\<lambda>c. - f32_total (sc_score c)) scored)))"

record collection_info =
  ci_name :: string
  ci_embedding_model :: string
  ci_dim :: nat
  ci_documents :: nat
  ci_chunks :: nat

definition list_collections :: "vector_store \<Rightarrow> collection_info list" where
  "list_collections s =
     map (\<lambda>c. \<lparr>ci_name = co_name c, ci_embedding_model = co_embedding_model c, ci_dim = co_dim c,
               ci_documents = length (filter (\<lambda>d. do_collection d = co_name c) (vs_documents s)),
               ci_chunks = length (filter (\<lambda>h. ch_collection h = co_name c) (vs_chunks s))\<rparr>)
       (sort_key co_name (vs_collections s))"

record document_info =
  di_id :: string
  di_collection :: string
  di_source :: string
  di_sha256 :: string
  di_chunks :: nat
  di_ingested_at :: string
  di_title :: "string option"
  di_author :: "string option"
  di_page_count :: nat
  di_summary :: "string option"

definition document_info_of :: "crypto \<Rightarrow> vector_store \<Rightarrow> document_row \<Rightarrow> document_info" where
  "document_info_of cr s d =
     \<lparr>di_id = do_id d, di_collection = do_collection d, di_source = do_source d, di_sha256 = do_sha256 d,
      di_chunks = length (filter (\<lambda>c. ch_document_id c = do_id d) (vs_chunks s)),
      di_ingested_at = do_ingested_at d, di_title = do_title d, di_author = do_author d,
      di_page_count = do_page_count d, di_summary = map_option (decrypt_or_raw cr (vs_dek s)) (do_summary d)\<rparr>"

definition list_documents :: "crypto \<Rightarrow> vector_store \<Rightarrow> string \<Rightarrow> document_info list" where
  "list_documents cr s collection =
     map (document_info_of cr s)
       (rev (sort_key do_ingested_at (rev (filter (\<lambda>d. do_collection d = collection) (vs_documents s)))))"

definition get_document :: "crypto \<Rightarrow> vector_store \<Rightarrow> string \<Rightarrow> document_info option" where
  "get_document cr s did = map_option (document_info_of cr s) (find (\<lambda>d. do_id d = did) (vs_documents s))"

fun join_paragraphs :: "string list \<Rightarrow> string" where
  "join_paragraphs [] = []"
| "join_paragraphs [x] = x"
| "join_paragraphs (x # y # xs) = x @ [CHR 0x0A, CHR 0x0A] @ join_paragraphs (y # xs)"

fun decrypt_all :: "crypto \<Rightarrow> bytes option \<Rightarrow> string list \<Rightarrow> (seal_error, string list) result" where
  "decrypt_all cr dek [] = Inr []"
| "decrypt_all cr dek (t # ts) =
     rbind (maybe_decrypt cr dek t) (\<lambda>x. rbind (decrypt_all cr dek ts) (\<lambda>xs. Inr (x # xs)))"

definition get_document_text :: "crypto \<Rightarrow> vector_store \<Rightarrow> string \<Rightarrow> (seal_error, string option) result" where
  "get_document_text cr s document_id =
     (let raw_rows = map ch_text (sort_key ch_ordinal (filter (\<lambda>c. ch_document_id c = document_id) (vs_chunks s)))
      in if raw_rows = [] then Inr None
         else rbind (decrypt_all cr (vs_dek s) raw_rows) (\<lambda>rows. Inr (Some (join_paragraphs rows))))"

text \<open>Deleting a document deletes its chunks, deleting a collection its documents and their chunks.\<close>

definition delete_documents_where :: "(document_row \<Rightarrow> bool) \<Rightarrow> vector_store \<Rightarrow> vector_store" where
  "delete_documents_where P s =
     (let gone = do_id ` set (filter P (vs_documents s))
      in s\<lparr>vs_documents := filter (\<lambda>d. \<not> P d) (vs_documents s),
           vs_chunks := filter (\<lambda>c. ch_document_id c \<notin> gone) (vs_chunks s)\<rparr>)"

definition delete_document :: "string \<Rightarrow> vector_store \<Rightarrow> bool \<times> vector_store" where
  "delete_document document_id s =
     ((\<exists>d \<in> set (vs_documents s). do_id d = document_id), delete_documents_where (\<lambda>d. do_id d = document_id) s)"

definition delete_collection :: "string \<Rightarrow> vector_store \<Rightarrow> bool \<times> vector_store" where
  "delete_collection name s =
     ((\<exists>c \<in> set (vs_collections s). co_name c = name),
      if (\<exists>c \<in> set (vs_collections s). co_name c = name)
      then (delete_documents_where (\<lambda>d. do_collection d = name) s)
             \<lparr>vs_collections := filter (\<lambda>c. co_name c \<noteq> name) (vs_collections s)\<rparr>
      else s)"

definition chunk_count :: "vector_store \<Rightarrow> string \<Rightarrow> nat" where
  "chunk_count s collection = length (filter (\<lambda>c. ch_collection c = collection) (vs_chunks s))"

subsection \<open>Embeddings on disk\<close>

lemma base_256:
  fixes n :: nat assumes "n < 2 ^ 32"
  shows "n mod 256 + 256 * (n div 256 mod 256 + 256 * (n div 256 ^ 2 mod 256 + 256 * (n div 256 ^ 3 mod 256))) = n"
proof -
  have "n div 256 ^ 3 mod 256 = n div 256 ^ 3" using assms by simp
  moreover have "n div 256 ^ 2 = n div 256 div 256" "n div 256 ^ 3 = n div 256 div 256 div 256"
    by (simp_all add: div_mult2_eq[symmetric])
  ultimately show ?thesis by (metis mod_mult_div_eq add.commute mult.commute)
qed

lemma le_bytes_roundtrip [simp]: "from_le_bytes (to_le_bytes x) = x"
proof -
  have "unat x < 2 ^ LENGTH(32)" by (rule unsigned_less)
  then have "foldr (\<lambda>c n. of_char c + 256 * n) (to_le_bytes x) 0 = unat x"
    using base_256[of "unat x"] by (simp add: to_le_bytes_def)
  then show ?thesis by (simp add: from_le_bytes_def)
qed

lemma to_le_bytes_four: obtains a b c d where "to_le_bytes x = [a, b, c, d]"
  by (simp add: to_le_bytes_def)

lemma chunks_blob: "chunks_exact4 (vec_to_blob v) = map to_le_bytes v"
proof (induction v)
  case (Cons x v)
  obtain a b c d where "to_le_bytes x = [a, b, c, d]" by (rule to_le_bytes_four)
  then show ?case using Cons by (simp add: vec_to_blob_def)
qed (simp add: vec_to_blob_def)

lemma length_blob [simp]: "length (vec_to_blob v) = 4 * length v"
  by (induction v) (simp_all add: vec_to_blob_def to_le_bytes_def)

lemma blob_roundtrip [simp]: "blob_to_vec (vec_to_blob v) = Inr v"
  by (simp add: blob_to_vec_def chunks_blob comp_def)

lemma blob_to_vec_total: "(\<exists>v. blob_to_vec b = Inr v) \<longleftrightarrow> length b mod 4 = 0"
  by (simp add: blob_to_vec_def)

subsection \<open>The invariant of the store\<close>

definition rag_ok :: "vector_store \<Rightarrow> bool" where
  "rag_ok s \<longleftrightarrow>
     distinct (map co_name (vs_collections s)) \<and> distinct (map do_id (vs_documents s)) \<and>
     distinct (map ch_id (vs_chunks s)) \<and>
     (\<forall>d \<in> set (vs_documents s). do_collection d \<in> co_name ` set (vs_collections s)) \<and>
     (\<forall>c \<in> set (vs_chunks s). length (ch_embedding c) mod 4 = 0 \<and>
        (\<exists>d \<in> set (vs_documents s). do_id d = ch_document_id c \<and> do_collection d = ch_collection c))"

lemma rag_ok_chunkD:
  "rag_ok s \<Longrightarrow> c \<in> set (vs_chunks s) \<Longrightarrow>
     length (ch_embedding c) mod 4 = 0 \<and> (\<exists>d \<in> set (vs_documents s). do_id d = ch_document_id c \<and> do_collection d = ch_collection c)"
  by (simp add: rag_ok_def)

inductive rag_step :: "crypto \<Rightarrow> vector_store \<Rightarrow> vector_store \<Rightarrow> bool" for cr where
  rag_ensure: "ensure_collection now name model dim s = (r, t) \<Longrightarrow> rag_step cr s t"
| rag_insert: "length random = length chunks \<Longrightarrow>
    insert_document cr now did random collection source sha chunks title author pages s = (r, t) \<Longrightarrow> rag_step cr s t"
| rag_summary: "rag_step cr s (set_summary cr nonce did summary s)"
| rag_delete_document: "delete_document did s = (b, t) \<Longrightarrow> rag_step cr s t"
| rag_delete_collection: "delete_collection name s = (b, t) \<Longrightarrow> rag_step cr s t"

lemma chunk_db_rows_mem:
  "c \<in> set (chunk_db_rows cr dek did coll random chunks) \<Longrightarrow>
     ch_document_id c = did \<and> ch_collection c = coll \<and> length (ch_embedding c) mod 4 = 0"
  by (auto simp: chunk_db_rows_def)

lemma delete_where_mem:
  "c \<in> set (vs_chunks (delete_documents_where P s)) \<Longrightarrow>
     c \<in> set (vs_chunks s) \<and> (\<forall>d \<in> set (vs_documents s). P d \<longrightarrow> do_id d \<noteq> ch_document_id c)"
  by (auto simp: delete_documents_where_def Let_def image_iff)

lemma delete_where_ok:
  assumes "rag_ok s"
  shows "rag_ok (delete_documents_where P s)"
  unfolding rag_ok_def
proof (intro conjI ballI)
  show "distinct (map co_name (vs_collections (delete_documents_where P s)))"
    "distinct (map do_id (vs_documents (delete_documents_where P s)))"
    "distinct (map ch_id (vs_chunks (delete_documents_where P s)))"
    using assms by (simp_all add: delete_documents_where_def rag_ok_def Let_def distinct_map_filter)
  show "do_collection d \<in> co_name ` set (vs_collections (delete_documents_where P s))"
    if "d \<in> set (vs_documents (delete_documents_where P s))" for d
    using that assms by (simp add: delete_documents_where_def rag_ok_def Let_def)
  fix c assume c: "c \<in> set (vs_chunks (delete_documents_where P s))"
  then have mem: "c \<in> set (vs_chunks s)" "\<forall>d \<in> set (vs_documents s). P d \<longrightarrow> do_id d \<noteq> ch_document_id c"
    using delete_where_mem by blast+
  then show "length (ch_embedding c) mod 4 = 0" using assms by (simp add: rag_ok_def)
  obtain d where "d \<in> set (vs_documents s)" "do_id d = ch_document_id c" "do_collection d = ch_collection c"
    using rag_ok_chunkD[OF assms mem(1)] by auto
  then show "\<exists>d \<in> set (vs_documents (delete_documents_where P s)). do_id d = ch_document_id c \<and> do_collection d = ch_collection c"
    using mem(2) by (intro bexI[of _ d]) (auto simp: delete_documents_where_def Let_def)
qed

lemma insert_document_ok:
  assumes "rag_ok s" "insert_document cr now did random coll source sha chunks title author pages s = (r, t)"
  shows "rag_ok t"
proof (cases "coll \<in> co_name ` set (vs_collections s) \<and> did \<notin> do_id ` set (vs_documents s) \<and>
    distinct (map ch_id (vs_chunks s @ chunk_db_rows cr (vs_dek s) did coll random chunks))")
  case False
  then show ?thesis using assms by (simp only: insert_document_def Let_def if_False) simp
next
  case True
  let ?rows = "chunk_db_rows cr (vs_dek s) did coll random chunks"
  have t: "vs_collections t = vs_collections s" "vs_chunks t = vs_chunks s @ ?rows"
    "\<exists>d. vs_documents t = vs_documents s @ [d] \<and> do_id d = did \<and> do_collection d = coll"
    using assms(2) True by (auto simp: insert_document_def Let_def)
  then obtain d where d: "vs_documents t = vs_documents s @ [d]" "do_id d = did" "do_collection d = coll" by blast
  have new: "length (ch_embedding c) mod 4 = 0 \<and> do_id d = ch_document_id c \<and> do_collection d = ch_collection c"
    if "c \<in> set ?rows" for c using chunk_db_rows_mem[OF that] d by simp
  show ?thesis unfolding rag_ok_def
  proof (intro conjI ballI)
    show "distinct (map co_name (vs_collections t))" using assms(1) t by (simp add: rag_ok_def)
    show "distinct (map do_id (vs_documents t))" using assms(1) d True by (simp add: rag_ok_def)
    show "distinct (map ch_id (vs_chunks t))" using True t by simp
    show "do_collection e \<in> co_name ` set (vs_collections t)" if "e \<in> set (vs_documents t)" for e
      using that assms(1) d t True by (auto simp: rag_ok_def)
    fix c assume "c \<in> set (vs_chunks t)"
    then have "c \<in> set (vs_chunks s) \<or> c \<in> set ?rows" using t by auto
    then have "length (ch_embedding c) mod 4 = 0 \<and>
        (\<exists>e \<in> set (vs_documents t). do_id e = ch_document_id c \<and> do_collection e = ch_collection c)"
      using assms(1) new d unfolding rag_ok_def by auto
    then show "length (ch_embedding c) mod 4 = 0"
      "\<exists>e \<in> set (vs_documents t). do_id e = ch_document_id c \<and> do_collection e = ch_collection c" by blast+
  qed
qed

lemma find_name_None: "find (\<lambda>c. f c = x) xs = None \<longleftrightarrow> x \<notin> f ` set xs"
  by (auto simp: find_None_iff)

lemma ensure_collection_ok:
  assumes "rag_ok s" "ensure_collection now name model dim s = (r, t)"
  shows "rag_ok t"
proof (cases "find (\<lambda>c. co_name c = name) (vs_collections s)")
  case None
  then have "name \<notin> co_name ` set (vs_collections s)" by (simp only: find_name_None not_False_eq_True)
  moreover have "t = s\<lparr>vs_collections := vs_collections s @
      [\<lparr>co_name = name, co_embedding_model = model, co_dim = dim, co_created_at = now\<rparr>]\<rparr>"
    using None assms(2) by (simp add: ensure_collection_def del: find_None_iff)
  ultimately show ?thesis using assms(1) by (auto simp: rag_ok_def)
next
  case (Some c)
  then show ?thesis using assms by (auto simp: ensure_collection_def split: if_splits)
qed

lemma set_summary_ok:
  assumes "rag_ok s"
  shows "rag_ok (set_summary cr nonce did summary s)"
proof -
  let ?f = "\<lambda>d. if do_id d = did then d\<lparr>do_summary := Some (maybe_encrypt cr (vs_dek s) nonce summary)\<rparr> else d"
  have f: "do_id (?f d) = do_id d" "do_collection (?f d) = do_collection d" for d by simp_all
  have t: "set_summary cr nonce did summary s = s\<lparr>vs_documents := map ?f (vs_documents s)\<rparr>"
    by (simp add: set_summary_def Let_def)
  have ids: "map do_id (map ?f (vs_documents s)) = map do_id (vs_documents s)" by (simp add: comp_def f)
  have "\<exists>e \<in> ?f ` set (vs_documents s). do_id e = x \<and> do_collection e = y"
    if "\<exists>d \<in> set (vs_documents s). do_id d = x \<and> do_collection d = y" for x y
    using that f by blast
  then show ?thesis using assms unfolding t rag_ok_def
    by (intro conjI) (simp_all del: map_map add: ids f, auto)
qed

lemma delete_collection_ok:
  assumes "rag_ok s" "delete_collection name s = (b, t)"
  shows "rag_ok t"
proof (cases "\<exists>c \<in> set (vs_collections s). co_name c = name")
  case True
  let ?d = "delete_documents_where (\<lambda>d. do_collection d = name) s"
  have t: "t = ?d\<lparr>vs_collections := filter (\<lambda>c. co_name c \<noteq> name) (vs_collections s)\<rparr>"
    using assms(2) True by (auto simp: delete_collection_def)
  have "do_collection d \<noteq> name" if "d \<in> set (vs_documents ?d)" for d
    using that by (simp add: delete_documents_where_def Let_def)
  moreover have "rag_ok ?d" by (rule delete_where_ok[OF assms(1)])
  ultimately show ?thesis unfolding t rag_ok_def
    using assms(1) by (auto simp: rag_ok_def distinct_map_filter delete_documents_where_def Let_def)
next
  case False
  then show ?thesis using assms by (simp add: delete_collection_def)
qed

lemma rag_step_ok: "rag_ok s \<Longrightarrow> rag_step cr s t \<Longrightarrow> rag_ok t"
  by (erule rag_step.cases)
    (auto intro: ensure_collection_ok insert_document_ok set_summary_ok delete_collection_ok delete_where_ok
      simp: delete_document_def)

interpretation rag_store: inv_system "\<lambda>s. s = store_open" "rag_step cr" rag_ok for cr
  by unfold_locales (simp add: store_open_def rag_ok_def, rule rag_step_ok)

lemma pick_unique:
  "distinct (map f xs) \<Longrightarrow> x \<in> set xs \<Longrightarrow> concat (map (\<lambda>d. if f d = f x then [g d] else []) xs) = [g x]"
proof (induction xs)
  case (Cons y ys)
  have none: "concat (map (\<lambda>d. if f d = f y then [g d] else []) ys) = []"
    using Cons.prems(1) by (auto simp: concat_eq_Nil_conv image_iff)
  show ?case
  proof (cases "x = y")
    case False
    then have "f y \<noteq> f x" "x \<in> set ys" using Cons.prems by auto
    then show ?thesis using Cons by simp
  qed (use none in simp)
qed simp

lemma concat_picks:
  "(\<And>c. c \<in> set cs \<Longrightarrow> map fst (pick c) = (if P c then [c] else [])) \<Longrightarrow> map fst (concat (map pick cs)) = filter P cs"
  by (induction cs) auto

lemma joined_rows_once:
  assumes "rag_ok s"
  shows "map fst (joined_rows coll s) = filter (\<lambda>c. ch_collection c = coll) (vs_chunks s)"
proof -
  have one: "map fst (concat (map (\<lambda>d. if do_id d = ch_document_id c \<and> ch_collection c = coll then [(c, d)] else []) (vs_documents s)))
      = (if ch_collection c = coll then [c] else [])" if cs: "c \<in> set (vs_chunks s)" for c
  proof (cases "ch_collection c = coll")
    case True
    obtain d where d: "d \<in> set (vs_documents s)" "do_id d = ch_document_id c"
      using rag_ok_chunkD[OF assms cs] by auto
    have "concat (map (\<lambda>d'. if do_id d' = do_id d then [(c, d')] else []) (vs_documents s)) = [(c, d)]"
      using assms d by (intro pick_unique) (auto simp: rag_ok_def)
    then show ?thesis using True d by simp
  qed (simp add: concat_eq_Nil_conv)
  then show ?thesis unfolding joined_rows_def by (rule concat_picks)
qed

subsection \<open>Search\<close>

text \<open>The chunks that a query may return: those of the collection with an embedding of the query's
  dimension whose score reaches the minimum.\<close>

definition candidates ::
  "crypto \<Rightarrow> f32_arith \<Rightarrow> vector_store \<Rightarrow> string \<Rightarrow> f32 list \<Rightarrow> f32 \<Rightarrow> scored_chunk list" where
  "candidates cr ar s coll query min_score =
     [score_row cr (vs_dek s) ar query v (c, d). (c, d) \<leftarrow> joined_rows coll s,
        v \<leftarrow> (case blob_to_vec (ch_embedding c) of Inr v \<Rightarrow> [v] | Inl _ \<Rightarrow> []),
        length v = length query \<and> f32_ge (dot ar query v) min_score]"

lemma score_row_score [simp]: "sc_score (score_row cr dek ar query emb row) = dot ar query emb"
  by (cases row) (simp add: score_row_def)

lemma score_rows_spec:
  assumes "\<forall>r \<in> set rows. length (ch_embedding (fst r)) mod 4 = 0"
  shows "score_rows cr dek ar query m rows acc = Inr (acc @
    [score_row cr dek ar query v (c, d). (c, d) \<leftarrow> rows,
        v \<leftarrow> (case blob_to_vec (ch_embedding c) of Inr v \<Rightarrow> [v] | Inl _ \<Rightarrow> []),
        length v = length query \<and> f32_ge (dot ar query v) m])"
  using assms
proof (induction rows arbitrary: acc)
  case (Cons r rows)
  obtain c d where r: "r = (c, d)" by fastforce
  obtain v where "blob_to_vec (ch_embedding c) = Inr v"
    using Cons.prems blob_to_vec_total[of "ch_embedding c"] by (auto simp: r)
  then show ?case using Cons by (simp add: r Let_def)
qed simp

lemma f32_total_key: "f32_total x \<le> f32_total y \<Longrightarrow> f32_key x \<le> f32_key y"
  by (auto simp: f32_total_def f32_key_def Let_def split: if_splits)

lemma take_sort_best:
  fixes k :: "'a \<Rightarrow> int"
  shows "sorted (map k (take n (sort_key k xs)))"
    and "mset (take n (sort_key k xs)) \<subseteq># mset xs"
    and "x \<in> set (take n (sort_key k xs)) \<Longrightarrow> y \<in># mset xs - mset (take n (sort_key k xs)) \<Longrightarrow> k x \<le> k y"
proof -
  let ?s = "sort_key k xs"
  have split: "mset xs = mset (take n ?s) + mset (drop n ?s)"
    by (metis append_take_drop_id mset_append mset_sort)
  show "mset (take n ?s) \<subseteq># mset xs" using split by simp
  have sorted: "sorted (map k (take n ?s @ drop n ?s))" by (simp add: sorted_sort_key)
  then show "sorted (map k (take n ?s))" by (simp only: map_append sorted_append)
  show "k x \<le> k y" if "x \<in> set (take n ?s)" "y \<in># mset xs - mset (take n ?s)"
  proof -
    have "y \<in> set (drop n ?s)" using that(2) split by simp
    then show ?thesis using sorted that(1) by (simp only: map_append sorted_append set_map) blast
  qed
qed

text \<open>C22: the store is consistent at all times. From an empty database, through any sequence of its
  operations, names and ids stay unique, every chunk belongs to a document of its own collection and
  every document to a collection; a search of a collection therefore looks at each of its chunks
  exactly once, and nothing of a deleted collection or document is left behind.\<close>

theorem rag_store_consistent:
  assumes "reach (\<lambda>s. s = store_open) (rag_step cr) s"
  shows "rag_ok s \<and>
    map fst (joined_rows coll s) = filter (\<lambda>c. ch_collection c = coll) (vs_chunks s) \<and>
    chunk_count (snd (delete_collection coll s)) coll = 0 \<and>
    get_document_text cr (snd (delete_document did s)) did = Inr None"
proof -
  have ok: "rag_ok s" by (rule rag_store.reach_inv[OF assms])
  have doc: "\<exists>d \<in> set (vs_documents s). do_id d = ch_document_id c \<and> do_collection d = ch_collection c"
    if "c \<in> set (vs_chunks s)" for c using ok that by (simp add: rag_ok_def)
  have "c \<notin> set (vs_chunks (delete_documents_where (\<lambda>d. do_collection d = coll) s))" if "ch_collection c = coll" for c
    using that doc[of c] delete_where_mem[of c "\<lambda>d. do_collection d = coll" s] by auto
  moreover have "coll \<notin> co_name ` set (vs_collections s) \<Longrightarrow> c \<in> set (vs_chunks s) \<Longrightarrow> ch_collection c \<noteq> coll" for c
    using ok doc[of c] unfolding rag_ok_def by metis
  ultimately have "chunk_count (snd (delete_collection coll s)) coll = 0"
    by (fastforce simp: chunk_count_def delete_collection_def filter_empty_conv)
  moreover have "get_document_text cr (snd (delete_document did s)) did = Inr None"
  proof -
    have "ch_document_id c \<noteq> did" if "c \<in> set (vs_chunks (snd (delete_document did s)))" for c
      using that doc[of c] delete_where_mem[of c "\<lambda>d. do_id d = did" s] by (auto simp: delete_document_def)
    then have "filter (\<lambda>c. ch_document_id c = did) (vs_chunks (snd (delete_document did s))) = []"
      by (simp add: filter_empty_conv)
    then show ?thesis by (simp add: get_document_text_def)
  qed
  ultimately show ?thesis using ok joined_rows_once[OF ok] by blast
qed

definition demo_chunk :: chunk_row where
  "demo_chunk = \<lparr>cr_text = ''east'', cr_embedding = [1], cr_page_number = 1, cr_section = None, cr_content_hash = ''east''\<rparr>"

definition demo_random :: "(string \<times> bytes) list" where
  "demo_random = [(''c1'', replicate 12 CHR ''n'')]"

definition demo_rag_empty :: vector_store where
  "demo_rag_empty = snd (ensure_collection [] ''docs'' ''m'' 1 store_open)"

definition demo_rag :: vector_store where
  "demo_rag = snd (insert_document demo_crypto [] ''d1'' demo_random ''docs'' ''f'' ''h'' [demo_chunk] None None 1 demo_rag_empty)"

lemma demo_rag_empty_reach: "reach (\<lambda>s. s = store_open) (rag_step demo_crypto) demo_rag_empty"
proof (rule reach_step[OF reach_init[of "\<lambda>s. s = store_open"]])
  show "rag_step demo_crypto store_open demo_rag_empty"
    by (rule rag_ensure[of "[]" "''docs''" "''m''" 1]) (simp add: demo_rag_empty_def prod_eq_iff)
qed simp

lemma demo_rag_reach: "reach (\<lambda>s. s = store_open) (rag_step demo_crypto) demo_rag"
proof (rule reach_step[OF demo_rag_empty_reach])
  show "rag_step demo_crypto demo_rag_empty demo_rag"
    by (rule rag_insert[of demo_random "[demo_chunk]" _ "[]" "''d1''" "''docs''" "''f''" "''h''" None None 1])
      (simp_all add: demo_rag_def demo_random_def prod_eq_iff)
qed

theorem rag_store_consistent_witness:
  "chunk_count (snd (delete_collection ''docs'' demo_rag)) ''docs'' = 0"
  using rag_store_consistent[OF demo_rag_reach] by blast

lemma search_best:
  assumes "reach (\<lambda>s. s = store_open) (rag_step cr) s"
  shows "\<exists>hits cs. search cr ar s coll query top_k min_score = Inr hits \<and>
    cs = candidates cr ar s coll query min_score \<and> length hits = min top_k (length cs) \<and> mset hits \<subseteq># mset cs \<and>
    sorted_wrt (\<lambda>a b. f32_key (sc_score b) \<le> f32_key (sc_score a)) hits \<and>
    (\<forall>h c. h \<in> set hits \<and> c \<in># mset cs - mset hits \<longrightarrow> f32_key (sc_score c) \<le> f32_key (sc_score h))"
proof -
  define cs where "cs = candidates cr ar s coll query min_score"
  have ok: "rag_ok s" by (rule rag_store.reach_inv[OF assms])
  let ?k = "\<lambda>c. - f32_total (sc_score c)"
  have "\<forall>r \<in> set (joined_rows coll s). length (ch_embedding (fst r)) mod 4 = 0"
    using ok by (auto simp: joined_rows_def rag_ok_def)
  from score_rows_spec[OF this, of cr "vs_dek s" ar query min_score "[]"]
  have search: "search cr ar s coll query top_k min_score = Inr (take top_k (sort_key ?k cs))"
    by (simp add: search_def cs_def candidates_def)
  have "sorted_wrt (\<lambda>a b. ?k a \<le> ?k b) (take top_k (sort_key ?k cs))"
    using take_sort_best(1)[of ?k top_k cs] by (simp add: sorted_map)
  then have "sorted_wrt (\<lambda>a b. f32_key (sc_score b) \<le> f32_key (sc_score a)) (take top_k (sort_key ?k cs))"
    by (rule sorted_wrt_mono_rel[rotated]) (auto intro: f32_total_key)
  moreover have "f32_key (sc_score c) \<le> f32_key (sc_score h)"
    if "h \<in> set (take top_k (sort_key ?k cs))" "c \<in># mset cs - mset (take top_k (sort_key ?k cs))" for h c
    using take_sort_best(3)[OF that] by (auto intro: f32_total_key)
  moreover have "mset (take top_k (sort_key ?k cs)) \<subseteq># mset cs" by (rule take_sort_best(2))
  moreover have "length (take top_k (sort_key ?k cs)) = min top_k (length cs)" by simp
  ultimately show ?thesis using search cs_def by blast
qed

text \<open>Search returns the best chunks. In every reachable state a search succeeds, and of the chunks
  of the collection with a fitting dimension and a sufficient score it returns \<open>top_k\<close> (or all, if there
  are fewer), best score first, none of them worse than one left out.\<close>

lemma search_returns_best:
  assumes "reach (\<lambda>s. s = store_open) (rag_step cr) s"
  shows "\<exists>hits cs. search cr ar s coll query top_k min_score = Inr hits \<and>
    cs = candidates cr ar s coll query min_score \<and> length hits = min top_k (length cs) \<and> mset hits \<subseteq># mset cs \<and>
    sorted_wrt (\<lambda>a b. f32_key (sc_score b) \<le> f32_key (sc_score a)) hits \<and>
    (\<forall>h c. h \<in> set hits \<and> c \<in># mset cs - mset hits \<longrightarrow> f32_key (sc_score c) \<le> f32_key (sc_score h))"
  using assms by (rule search_best)

subsection \<open>Text is read back\<close>

lemma maybe_decrypt_encrypt:
  assumes "crypto_ok cr" "length nonce = 12" "is_utf8 t" "dek = None \<longrightarrow> \<not> is_encrypted t"
  shows "maybe_decrypt cr dek (maybe_encrypt cr dek nonce t) = Inr t"
  using assms chunk_text_seal.unwrap_wrap[of cr nonce t] chunk_text_seal.wrap_marked[of cr]
  by (cases dek) (simp_all add: maybe_decrypt_def maybe_encrypt_def)

definition plain_chunks :: "bytes option \<Rightarrow> chunk_row list \<Rightarrow> bool" where
  "plain_chunks dek chunks \<longleftrightarrow> (\<forall>c \<in> set chunks. is_utf8 (cr_text c) \<and> (dek = None \<longrightarrow> \<not> is_encrypted (cr_text c)))"

definition random_ok :: "(string \<times> bytes) list \<Rightarrow> chunk_row list \<Rightarrow> bool" where
  "random_ok random chunks \<longleftrightarrow> length random = length chunks \<and> (\<forall>r \<in> set random. length (snd r) = 12)"

lemma chunk_db_rows_nth:
  assumes "length random = length chunks" "i < length chunks"
  shows "chunk_db_rows cr dek did coll random chunks ! i =
     \<lparr>ch_id = fst (random ! i), ch_document_id = did, ch_collection = coll, ch_ordinal = i,
      ch_text = maybe_encrypt cr dek (snd (random ! i)) (cr_text (chunks ! i)),
      ch_embedding = vec_to_blob (cr_embedding (chunks ! i)), ch_page_number = cr_page_number (chunks ! i),
      ch_section = cr_section (chunks ! i), ch_content_hash = cr_content_hash (chunks ! i)\<rparr>"
  using assms by (simp add: chunk_db_rows_def split: prod.splits)

lemma length_chunk_db_rows [simp]:
  "length random = length chunks \<Longrightarrow> length (chunk_db_rows cr dek did coll random chunks) = length chunks"
  by (simp add: chunk_db_rows_def)

lemma rows_ordinals:
  assumes "length random = length chunks"
  shows "map ch_ordinal (chunk_db_rows cr dek did coll random chunks) = [0..<length chunks]"
  using assms by (intro nth_equalityI) (simp_all add: chunk_db_rows_nth)

lemma row_text:
  assumes "crypto_ok cr" "random_ok random chunks" "plain_chunks dek chunks" "i < length chunks"
  shows "maybe_decrypt cr dek (ch_text (chunk_db_rows cr dek did coll random chunks ! i)) = Inr (cr_text (chunks ! i))"
proof -
  have "random ! i \<in> set random" using assms(2,4) by (simp add: random_ok_def)
  then have "length (snd (random ! i)) = 12" using assms(2) by (simp add: random_ok_def)
  then show ?thesis
    using assms by (auto simp: chunk_db_rows_nth random_ok_def plain_chunks_def intro!: maybe_decrypt_encrypt)
qed

lemma decrypt_all_map:
  "(\<And>i. i < length ts \<Longrightarrow> maybe_decrypt cr dek (ts ! i) = Inr (xs ! i)) \<Longrightarrow> length ts = length xs \<Longrightarrow>
     decrypt_all cr dek ts = Inr xs"
proof (induction ts arbitrary: xs)
  case (Cons t ts)
  then obtain x xs' where xs: "xs = x # xs'" by (cases xs) auto
  have "maybe_decrypt cr dek t = Inr x" using Cons.prems(1)[of 0] xs by simp
  moreover have "maybe_decrypt cr dek (ts ! i) = Inr (xs' ! i)" if "i < length ts" for i
    using Cons.prems(1)[of "Suc i"] xs that by simp
  then have "decrypt_all cr dek ts = Inr xs'" using Cons xs by simp
  ultimately show ?case using xs by simp
qed simp

lemma inserted_rows:
  assumes "rag_ok s" "insert_document cr now did random coll source sha chunks title author pages s = (Inr r, t)"
  shows "vs_chunks t = vs_chunks s @ chunk_db_rows cr (vs_dek s) did coll random chunks" "vs_dek t = vs_dek s"
    "filter (\<lambda>c. ch_document_id c = did) (vs_chunks t) = chunk_db_rows cr (vs_dek s) did coll random chunks"
    "distinct (map ch_id (vs_chunks t))"
proof -
  let ?rows = "chunk_db_rows cr (vs_dek s) did coll random chunks"
  show 1: "vs_chunks t = vs_chunks s @ ?rows" "vs_dek t = vs_dek s" "distinct (map ch_id (vs_chunks t))"
    using assms(2) by (auto simp: insert_document_def Let_def split: if_splits)
  have "did \<notin> do_id ` set (vs_documents s)" using assms(2) by (auto simp: insert_document_def Let_def split: if_splits)
  then have "ch_document_id c \<noteq> did" if "c \<in> set (vs_chunks s)" for c
    using rag_ok_chunkD[OF assms(1) that] by (metis imageI)
  then have "filter (\<lambda>c. ch_document_id c = did) (vs_chunks s) = []" by (simp add: filter_empty_conv)
  moreover have "filter (\<lambda>c. ch_document_id c = did) ?rows = ?rows"
    using chunk_db_rows_mem by (intro filter_True) blast
  ultimately show "filter (\<lambda>c. ch_document_id c = did) (vs_chunks t) = ?rows" using 1 by simp
qed

lemma get_inserted_text:
  assumes "rag_ok s" "insert_document cr now did random coll source sha chunks title author pages s = (Inr did, t)"
    and "length random = length chunks" "chunks \<noteq> []"
  shows "get_document_text cr t did =
    rbind (decrypt_all cr (vs_dek s) (map ch_text (chunk_db_rows cr (vs_dek s) did coll random chunks)))
      (\<lambda>rows. Inr (Some (join_paragraphs rows)))"
proof -
  let ?rows = "chunk_db_rows cr (vs_dek s) did coll random chunks"
  have "sorted (map ch_ordinal ?rows)" using rows_ordinals[OF assms(3)] by simp
  then have sort: "sort_key ch_ordinal ?rows = ?rows" by (rule sort_key_id_if_sorted)
  have "?rows \<noteq> []" using length_chunk_db_rows[OF assms(3), of cr "vs_dek s" did coll] assms(4) by (metis length_0_conv)
  then show ?thesis using inserted_rows[OF assms(1,2)] by (simp add: get_document_text_def sort Let_def)
qed

lemma decrypt_rows:
  assumes "crypto_ok cr" "random_ok random chunks" "plain_chunks dek chunks"
  shows "decrypt_all cr dek (map ch_text (chunk_db_rows cr dek did coll random chunks)) = Inr (map cr_text chunks)"
  using row_text[OF assms] assms(2) by (intro decrypt_all_map) (simp_all add: random_ok_def)

text \<open>What was ingested is read back. In a reachable store, after a document was inserted, its text
  is the text of its chunks in order, whether they are encrypted under the workspace's key or stored in
  the clear; every stored chunk passes the comparison with its hash, and its embedding is the one that
  was given. A text stored in the clear that begins with the mark of encrypted text is the exception:
  reading its document fails.\<close>

lemma ingested_text_read_back:
  assumes "crypto_ok cr" "reach (\<lambda>s. s = store_open) (rag_step cr) s0" "s = s0\<lparr>vs_dek := dek\<rparr>"
    and "insert_document cr now did random coll source sha chunks title author pages s = (Inr did, t)"
    and "random_ok random chunks" "chunks \<noteq> []"
  shows "(plain_chunks dek chunks \<longrightarrow>
      get_document_text cr t did = Inr (Some (join_paragraphs (map cr_text chunks))) \<and>
      (\<forall>i. i < length chunks \<and> cr_content_hash (chunks ! i) = sha256_hex cr (cr_text (chunks ! i)) \<longrightarrow>
         (\<exists>h. verify_chunk_hash cr t (fst (random ! i)) = Inr (h, h, True)))) \<and>
    (\<forall>i. i < length chunks \<longrightarrow> blob_to_vec (ch_embedding (chunk_db_rows cr dek did coll random chunks ! i))
       = Inr (cr_embedding (chunks ! i))) \<and>
    (dek = None \<and> is_encrypted (cr_text (hd chunks)) \<longrightarrow> get_document_text cr t did = Inl NoKey)"
proof -
  have ok: "rag_ok s" using rag_store.reach_inv[OF assms(2)] assms(3) by (simp add: rag_ok_def)
  let ?rows = "chunk_db_rows cr dek did coll random chunks"
  have len: "length random = length chunks" using assms(5) by (simp add: random_ok_def)
  have dek: "vs_dek s = dek" using assms(3) by simp
  note t = inserted_rows[OF ok assms(4), unfolded dek]
  have raw: "get_document_text cr t did = rbind (decrypt_all cr dek (map ch_text ?rows)) (\<lambda>rows. Inr (Some (join_paragraphs rows)))"
    using get_inserted_text[OF ok assms(4) len assms(6)] dek by simp
  note plain = decrypt_rows[OF assms(1,5)]
  have hash: "\<exists>h. verify_chunk_hash cr t (fst (random ! i)) = Inr (h, h, True)"
    if "plain_chunks dek chunks" "i < length chunks" "cr_content_hash (chunks ! i) = sha256_hex cr (cr_text (chunks ! i))" for i
  proof -
    have "?rows ! i \<in> set ?rows" using that(2) len by (intro nth_mem) simp
    then have mem: "?rows ! i \<in> set (vs_chunks t)" "ch_id (?rows ! i) = fst (random ! i)"
      using that(2) len by (simp_all add: t(1) chunk_db_rows_nth)
    have "find (\<lambda>c. ch_id c = fst (random ! i)) (vs_chunks t) = Some (?rows ! i)"
    proof (cases "find (\<lambda>c. ch_id c = fst (random ! i)) (vs_chunks t)")
      case None
      then show ?thesis using mem unfolding find_None_iff by blast
    next
      case (Some c)
      then have "c \<in> set (vs_chunks t)" "ch_id c = ch_id (?rows ! i)" using mem(2) unfolding find_Some_iff by auto
      then have "c = ?rows ! i" using t(4) mem(1) by (metis distinct_map inj_onD)
      with Some show ?thesis by simp
    qed
    then show ?thesis
      using row_text[OF assms(1,5) that(1,2), of did coll] that(2,3) len
      by (simp add: verify_chunk_hash_def decrypt_or_raw_def t(2) chunk_db_rows_nth Let_def)
  qed
  have "decrypt_all cr dek (map ch_text ?rows) = Inl NoKey" if "dek = None" "is_encrypted (cr_text (hd chunks))"
  proof -
    obtain c cs where cs: "chunks = c # cs" using assms(6) by (cases chunks) auto
    have "?rows = ?rows ! 0 # tl ?rows" using cs len by (metis hd_Cons_tl hd_conv_nth length_0_conv length_chunk_db_rows list.discI)
    moreover have "ch_text (?rows ! 0) = cr_text c" using chunk_db_rows_nth[OF len, of 0] cs that(1) by (simp add: maybe_encrypt_def)
    ultimately have "\<exists>ts. map ch_text ?rows = cr_text c # ts" by (metis list.simps(9))
    then show ?thesis using that cs by (auto simp: maybe_decrypt_def)
  qed
  then show ?thesis using raw plain hash len by (simp add: chunk_db_rows_nth)
qed

abbreviation demo_insert :: "(rag_error, string) result \<times> vector_store" where
  "demo_insert \<equiv> insert_document demo_crypto [] ''d1'' demo_random ''docs'' ''f'' ''h'' [demo_chunk] None None 1
     (demo_rag_empty\<lparr>vs_dek := Some ''k''\<rparr>)"

lemma demo_insert_ok: "demo_insert = (Inr ''d1'', snd demo_insert)"
  by (simp add: insert_document_def demo_rag_empty_def ensure_collection_def store_open_def demo_random_def
      chunk_db_rows_def Let_def)

end
