(* ===== verification/Rag_Engine.thy ===== *)
theory Rag_Engine
  imports Rag_Chunk Rag_Store
begin

section \<open>The retrieval engine\<close>

text \<open>
  \<open>crates/maranode-rag/src/engine.rs\<close>, \<open>config.rs\<close> and \<open>embed.rs\<close>: ingesting a document (chunk, embed,
  store, summarise), retrieving from one or all collections, and the prompt that is built from what was
  retrieved. The embedding model and the summariser are arguments, as are the clock and random values.
  Chunks are lists of scalar values; what is embedded and stored is their UTF-8 encoding.
\<close>

definition utf8_char :: "uchar \<Rightarrow> nat list" where
  "utf8_char c =
     (if c < 128 then [c]
      else if c < 2048 then [192 + c div 64, 128 + c mod 64]
      else if c < 65536 then [224 + c div 4096, 128 + c div 64 mod 64, 128 + c mod 64]
      else [240 + c div 262144, 128 + c div 4096 mod 64, 128 + c div 64 mod 64, 128 + c mod 64])"

definition utf8_encode :: "ustring \<Rightarrow> string" where
  "utf8_encode s = map char_of (concat (map utf8_char s))"

record rag_config =
  rg_enabled :: bool
  rg_embedding_model :: string
  rg_default_collection :: string
  rg_chunk_size :: nat
  rg_chunk_overlap :: nat
  rg_top_k :: nat
  rg_min_score :: f32
  rg_max_context_chars :: nat

definition default_rag_config :: rag_config where
  "default_rag_config = \<lparr>rg_enabled = False, rg_embedding_model = ''nomic-embed-text:latest'',
     rg_default_collection = ''default'', rg_chunk_size = 1200, rg_chunk_overlap = 200, rg_top_k = 3,
     rg_min_score = 0x3E800000, rg_max_context_chars = 4000\<rparr>"

definition apply_runtime_config :: "rag_config \<Rightarrow> rag_config \<Rightarrow> rag_config" where
  "apply_runtime_config cfg c =
     c\<lparr>rg_default_collection := rg_default_collection cfg, rg_chunk_size := rg_chunk_size cfg,
       rg_chunk_overlap := rg_chunk_overlap cfg, rg_top_k := rg_top_k cfg, rg_min_score := rg_min_score cfg,
       rg_max_context_chars := rg_max_context_chars cfg\<rparr>"

text \<open>The trait \<open>Embedder\<close>.\<close>

record embedder =
  em_label :: string
  em_embed :: "string list \<Rightarrow> f32 list list option"

definition embed_one :: "embedder \<Rightarrow> string \<Rightarrow> (rag_error, f32 list) result" where
  "embed_one em text = (case em_embed em [text] of
      None \<Rightarrow> Inl EmbedFailed
    | Some out \<Rightarrow> if out = [] then Inl EmbedFailed else Inr (last out))"

record rag_env =
  re_crypto :: crypto
  re_arith :: f32_arith
  re_unicode :: unicode

record ingest_random =
  ir_now_collection :: string
  ir_now_document :: string
  ir_doc_id :: string
  ir_chunks :: "nat \<Rightarrow> string \<times> bytes"
  ir_summary_nonce :: bytes

record ingest_stats =
  is_document_id :: string
  is_collection :: string
  is_chunks :: nat
  is_pages :: nat
  is_summary :: "string option"

definition to_chunk_row :: "crypto \<Rightarrow> rich_chunk \<Rightarrow> f32 list \<Rightarrow> chunk_row" where
  "to_chunk_row cr rc emb = (let t = utf8_encode (rc_text rc) in
     \<lparr>cr_text = t, cr_embedding = emb, cr_page_number = rc_page_number rc,
      cr_section = map_option utf8_encode (rc_section rc), cr_content_hash = sha256_hex cr t\<rparr>)"

text \<open>The chunking loops end (\<open>Rag_Chunk\<close>), so that the first case does not occur.\<close>

definition ingest_document ::
  "rag_env \<Rightarrow> embedder \<Rightarrow> rag_config \<Rightarrow> ingest_random \<Rightarrow> string \<Rightarrow> ustring \<Rightarrow> document_content \<Rightarrow>
     (string \<Rightarrow> string option) option \<Rightarrow> vector_store \<Rightarrow> (rag_error, ingest_stats) result \<times> vector_store" where
  "ingest_document env em cfg rnd collection source doc summarizer s =
     (case chunk_document (re_unicode env) doc source (rg_chunk_size cfg) (rg_chunk_overlap cfg) of
        None \<Rightarrow> (Inl NoText, s)
      | Some rich_chunks \<Rightarrow>
          if rich_chunks = [] then (Inl NoText, s)
          else (case em_embed em (map (\<lambda>c. utf8_encode (rc_text c)) rich_chunks) of
            None \<Rightarrow> (Inl EmbedFailed, s)
          | Some embeddings \<Rightarrow>
              if length embeddings \<noteq> length rich_chunks then (Inl (WrongCount (length embeddings) (length rich_chunks)), s)
              else (let dim = length (hd embeddings)
                in if dim = 0 then (Inl EmptyVectors, s)
                else (let normalized = map (normalize (re_arith env)) embeddings
                  in case ensure_collection (ir_now_collection rnd) collection (em_label em) dim s of
                       (Inl e, s1) \<Rightarrow> (Inl e, s1)
                     | (Inr _, s1) \<Rightarrow>
                         (let sha = sha256_hex (re_crypto env) (utf8_encode (dc_full_text doc));
                              rows = map (\<lambda>(rc, emb). to_chunk_row (re_crypto env) rc emb) (zip rich_chunks normalized);
                              n = length rows;
                              pages = dm_page_count (dc_meta doc)
                          in case insert_document (re_crypto env) (ir_now_document rnd) (ir_doc_id rnd)
                                    (map (ir_chunks rnd) [0..<n]) collection (utf8_encode source) sha rows
                                    (map_option utf8_encode (dm_title (dc_meta doc)))
                                    (map_option utf8_encode (dm_author (dc_meta doc))) pages s1 of
                               (Inl e, s2) \<Rightarrow> (Inl e, s2)
                             | (Inr document_id, s2) \<Rightarrow>
                                 (let preview = utf8_encode (take 8000 (dc_full_text doc));
                                      summary = (case summarizer of None \<Rightarrow> None | Some f \<Rightarrow> f preview);
                                      s3 = (case summary of
                                              None \<Rightarrow> s2
                                            | Some t \<Rightarrow> set_summary (re_crypto env) (ir_summary_nonce rnd) document_id t s2)
                                  in (Inr \<lparr>is_document_id = document_id, is_collection = collection, is_chunks = n,
                                           is_pages = pages, is_summary = summary\<rparr>, s3)))))))"

definition ingest ::
  "rag_env \<Rightarrow> embedder \<Rightarrow> rag_config \<Rightarrow> ingest_random \<Rightarrow> string \<Rightarrow> ustring \<Rightarrow> ustring \<Rightarrow> vector_store \<Rightarrow>
     (rag_error, ingest_stats) result \<times> vector_store" where
  "ingest env em cfg rnd collection source text s =
     ingest_document env em cfg rnd collection source (from_plain text) None s"

record retrieved_chunk =
  rt_chunk_id :: string
  rt_doc_id :: string
  rt_doc_sha256 :: string
  rt_content_hash :: string
  rt_source :: string
  rt_ordinal :: nat
  rt_text :: string
  rt_score :: f32
  rt_page_number :: nat
  rt_section :: "string option"
  rt_title :: "string option"
  rt_author :: "string option"

definition scored_to_retrieved :: "scored_chunk \<Rightarrow> retrieved_chunk" where
  "scored_to_retrieved h =
     \<lparr>rt_chunk_id = sc_chunk_id h, rt_doc_id = sc_doc_id h, rt_doc_sha256 = sc_doc_sha256 h,
      rt_content_hash = sc_content_hash h, rt_source = sc_source h, rt_ordinal = sc_ordinal h, rt_text = sc_text h,
      rt_score = sc_score h, rt_page_number = sc_page_number h, rt_section = sc_section h, rt_title = sc_title h,
      rt_author = sc_author h\<rparr>"

definition retrieve ::
  "rag_env \<Rightarrow> embedder \<Rightarrow> rag_config \<Rightarrow> vector_store \<Rightarrow> string \<Rightarrow> string \<Rightarrow> nat option \<Rightarrow>
     (rag_error, retrieved_chunk list) result" where
  "retrieve env em cfg s collection query top_k =
     (let k = max (unwrap_or (rg_top_k cfg) top_k) 1
      in rbind (embed_one em query) (\<lambda>v.
         rbind (search (re_crypto env) (re_arith env) s collection (normalize (re_arith env) v) k (rg_min_score cfg))
           (\<lambda>hits. Inr (map scored_to_retrieved hits))))"

text \<open>A collection whose search fails is skipped. No score is NaN, since \<open>search\<close> keeps only scores
  that compare as at least the minimum, so that \<open>partial_cmp\<close> is the numerical order.\<close>

definition collect_hits ::
  "rag_env \<Rightarrow> vector_store \<Rightarrow> f32 list \<Rightarrow> nat \<Rightarrow> f32 \<Rightarrow> collection_info list \<Rightarrow> retrieved_chunk list" where
  "collect_hits env s q k min_score collections =
     concat (map (\<lambda>col. case search (re_crypto env) (re_arith env) s (ci_name col) q k min_score of
                          Inl _ \<Rightarrow> [] | Inr hits \<Rightarrow> map scored_to_retrieved hits) collections)"

definition retrieve_all_collections ::
  "rag_env \<Rightarrow> embedder \<Rightarrow> rag_config \<Rightarrow> vector_store \<Rightarrow> string \<Rightarrow> nat option \<Rightarrow>
     (rag_error, retrieved_chunk list) result" where
  "retrieve_all_collections env em cfg s query top_k =
     (let k = max (unwrap_or (rg_top_k cfg) top_k) 1
      in rbind (embed_one em query) (\<lambda>v.
           let q = normalize (re_arith env) v;
               collections = list_collections s
           in if collections = [] then Inr []
              else Inr (take k (sort_key (\<lambda>c. - f32_key (rt_score c))
                     (collect_hits env s q k (rg_min_score cfg) collections)))))"

subsection \<open>The prompt\<close>

definition path_file_stem :: "ustring \<Rightarrow> ustring option" where
  "path_file_stem p = (case path_file_name p of
      None \<Rightarrow> None
    | Some name \<Rightarrow>
        (let after = rev (takeWhile (\<lambda>c. c \<noteq> 46) (rev name));
             before = take (length name - length after - 1) name
         in Some (if 46 \<notin> set name \<or> before = [] then name else before)))"

definition source_display_name :: "string \<Rightarrow> string option" where
  "source_display_name source = (case path_file_stem (ascii source) of
      None \<Rightarrow> None
    | Some st \<Rightarrow> (let stem = map char_of st in if stem \<noteq> [] \<and> stem \<noteq> source then Some stem else None))"

definition chunk_location :: "retrieved_chunk \<Rightarrow> string" where
  "chunk_location c = (case rt_section c of
      Some sec \<Rightarrow> if rt_page_number c > 0 then sec @ '', p.'' @ show_nat (rt_page_number c) else sec
    | None \<Rightarrow> if rt_page_number c > 0 then ''p.'' @ show_nat (rt_page_number c) else [])"

definition display_name :: "retrieved_chunk \<Rightarrow> string" where
  "display_name c = (case rt_title c of
      Some t \<Rightarrow> t
    | None \<Rightarrow> (case source_display_name (rt_source c) of Some n \<Rightarrow> n | None \<Rightarrow> rt_source c))"

definition context_block :: "nat \<Rightarrow> retrieved_chunk \<Rightarrow> string" where
  "context_block i c =
     (let loc = chunk_location c;
          cite = ''['' @ show_nat (i + 1) @ ''] '' @ [CHR 0x22] @ display_name c @ [CHR 0x22] @
                 (if loc = [] then [] else '', '' @ loc)
      in cite @ [CHR 0x0A] @ rt_text c @ [CHR 0x0A, CHR 0x0A])"

fun context_blocks :: "nat \<Rightarrow> nat \<Rightarrow> retrieved_chunk list \<Rightarrow> string \<Rightarrow> nat \<Rightarrow> string" where
  "context_blocks limit i [] context used = context"
| "context_blocks limit i (c # cs) context used =
     (let block = context_block i c
      in if used + length block > limit \<and> context \<noteq> [] then context
         else context_blocks limit (i + 1) cs (context @ block) (used + length block))"

definition str_trim_end :: "string \<Rightarrow> string" where
  "str_trim_end s = map char_of (rev (strip_seqs (map rev ws_utf8) (rev (ascii s))))"

definition context_header :: string where
  "context_header =
     ''The following CONTEXT comes from the user''
     @ [CHR 0x27]
     @ ''s documents. Prefer information from the CONTEXT when it is relevant to the ''
     @ ''question. When you use information from the CONTEXT, cite the source number, ''
     @ ''e.g. [1] or [1, p.5]. You may also draw on your general knowledge to give a ''
     @ ''complete and helpful answer ''
     @ [CHR 0xE2, CHR 0x80, CHR 0x94]
     @ '' just make clear which parts come from the documents and which from general ''
     @ ''knowledge. If the CONTEXT contains nothing relevant to the question, answer ''
     @ ''normally without citing.''
     @ [CHR 0x0A]
     @ [CHR 0x0A]
     @ ''CONTEXT:''
     @ [CHR 0x0A]"

definition build_context_prompt :: "rag_config \<Rightarrow> retrieved_chunk list \<Rightarrow> string option" where
  "build_context_prompt cfg chunks =
     (if chunks = [] then None
      else Some (context_header @ str_trim_end (context_blocks (rg_max_context_chars cfg) 0 chunks [] 0)))"

subsection \<open>UTF-8\<close>

definition scalar :: "uchar \<Rightarrow> bool" where
  "scalar c \<longleftrightarrow> c < 0x110000 \<and> \<not> (0xD800 \<le> c \<and> c < 0xE000)"

lemma mod_window: "k * n \<le> x \<Longrightarrow> x < k * n + m \<Longrightarrow> m \<le> n \<Longrightarrow> x mod n < m" for x :: nat
proof -
  assume a: "k * n \<le> x" "x < k * n + m" "m \<le> n"
  then obtain j where j: "x = k * n + j" using le_Suc_ex by blast
  then have "j < m" using a by simp
  then show "x mod n < m" using j a(3) by simp
qed

lemma utf8_char_append:
  assumes "scalar c"
  shows "utf8_valid (utf8_char c @ rest) = utf8_valid rest"
proof -
  consider "c < 128" | "128 \<le> c" "c < 2048" | "2048 \<le> c" "c < 65536" | "65536 \<le> c" by linarith
  then show ?thesis
  proof cases
    case 1
    then show ?thesis by (simp add: utf8_char_def)
  next
    case 2
    then have "2 \<le> c div 64" "c div 64 < 32" by (simp_all add: div_le_mono less_mult_imp_div_less)
    moreover have "c mod 64 \<le> 63" using mod_less_divisor[of 64 c] by linarith
    ultimately show ?thesis using 2 by (simp add: utf8_char_def utf8_cont_def)
  next
    case 3
    then have a: "c div 4096 < 16" "c div 64 mod 64 < 64" "c mod 64 < 64" by (simp_all add: less_mult_imp_div_less)
    have "c div 4096 = 0 \<Longrightarrow> 32 \<le> c div 64 mod 64"
    proof -
      assume "c div 4096 = 0"
      then have "c div 64 < 64" using 3 by (simp add: less_mult_imp_div_less div_eq_0_iff)
      moreover have "32 \<le> c div 64" using 3 by simp
      ultimately show "32 \<le> c div 64 mod 64" by simp
    qed
    moreover have "c div 4096 = 13 \<Longrightarrow> c div 64 mod 64 < 32"
    proof -
      assume d: "c div 4096 = 13"
      have "c = 4096 * 13 + c mod 4096" using d mult_div_mod_eq[of 4096 c] by simp
      then have ge: "53248 \<le> c" and lt: "c < 57344" using mod_less_divisor[of 4096 c] by linarith+
      then have "c < 55296" using assms by (simp add: scalar_def)
      then have "c div 64 < 864" by (simp add: less_mult_imp_div_less)
      moreover have "13 * 64 \<le> c div 64" using div_le_mono[OF ge, of 64] by simp
      ultimately show "c div 64 mod 64 < 32" by (intro mod_window[of 13]) simp_all
    qed
    ultimately show ?thesis using 3 a by (auto simp: utf8_char_def utf8_cont_def)
  next
    case 4
    then have c: "c < 1114112" using assms by (simp add: scalar_def)
    then have a: "c div 262144 < 5" "c div 4096 mod 64 < 64" "c div 64 mod 64 < 64" "c mod 64 < 64"
      by (simp_all add: less_mult_imp_div_less)
    have "c div 262144 = 0 \<Longrightarrow> 16 \<le> c div 4096 mod 64"
    proof -
      assume "c div 262144 = 0"
      then have "c div 4096 < 64" by (simp add: less_mult_imp_div_less div_eq_0_iff)
      moreover have "16 \<le> c div 4096" using div_le_mono[OF 4, of 4096] by simp
      ultimately show "16 \<le> c div 4096 mod 64" by simp
    qed
    moreover have "c div 262144 = 4 \<Longrightarrow> c div 4096 mod 64 < 16"
    proof -
      assume d: "c div 262144 = 4"
      have "c = 262144 * 4 + c mod 262144" using d mult_div_mod_eq[of 262144 c] by simp
      then have "1048576 \<le> c" by linarith
      then have "4 * 64 \<le> c div 4096" using div_le_mono[of 1048576 c 4096] by simp
      moreover have "c div 4096 < 272" using c by (simp add: less_mult_imp_div_less)
      ultimately show "c div 4096 mod 64 < 16" by (intro mod_window[of 4]) simp_all
    qed
    ultimately show ?thesis using 4 a by (auto simp: utf8_char_def utf8_cont_def)
  qed
qed

lemma utf8_encode_valid: "\<forall>c \<in> set s. scalar c \<Longrightarrow> is_utf8 (utf8_encode s)"
proof -
  assume s: "\<forall>c \<in> set s. scalar c"
  have valid: "utf8_valid (concat (map utf8_char s))"
    using s by (induction s) (simp_all add: utf8_char_append)
  have "\<forall>b \<in> set (utf8_char c). b < 256" if "scalar c" for c
    using that by (auto simp: utf8_char_def scalar_def less_mult_imp_div_less)
  then have "map (\<lambda>n. n mod 256) (concat (map utf8_char s)) = concat (map utf8_char s)"
    using s by (intro map_idI) fastforce
  then show ?thesis using valid by (simp add: is_utf8_def utf8_encode_def ascii_def comp_def)
qed

subsection \<open>The chunks of a document consist of its characters\<close>

definition within :: "ustring \<Rightarrow> ustring \<Rightarrow> bool" where
  "within text s \<longleftrightarrow> set s \<subseteq> insert 10 (set text)"

lemma within_simps [simp]:
  "within text []" "within text text" "within text (s @ t) \<longleftrightarrow> within text s \<and> within text t" "within text [10]"
  by (auto simp: within_def)

lemma within_trim: "within text s \<Longrightarrow> within text (trim s)"
  using trim_subset[of s] by (auto simp: within_def)

lemma within_slice: "within text s \<Longrightarrow> within text (slice s a b)"
  by (auto simp: within_def slice_def dest!: in_set_takeD in_set_dropD)

lemma within_window_texts: "within text s \<Longrightarrow> t \<in> set (window_texts s ws) \<Longrightarrow> within text t"
  by (auto simp: window_texts_def intro!: within_trim within_slice)

lemma within_chunk_text:
  assumes "within text s" "chunk_text s sz ov = Some ts" "t \<in> set ts"
  shows "within text t"
proof (cases "s = []")
  case True
  then show ?thesis using assms by (simp add: chunk_text_def)
next
  case False
  then show ?thesis using chunk_text_windows[OF False, of sz ov] assms within_window_texts by force
qed

lemma within_lines: "l \<in> set (str_lines s) \<Longrightarrow> set l \<subseteq> set s"
proof (induction s rule: str_lines.induct)
  case (1 s)
  show ?case
  proof (cases "dropWhile (\<lambda>c. c \<noteq> 10) s")
    case Nil
    then show ?thesis using 1 by (subst (asm) (2) str_lines.simps) (auto simp del: dropWhile_eq_Nil_conv split: if_splits)
  next
    case (Cons x rest)
    have cr: "set (strip_cr w) \<subseteq> set w" for w by (auto simp: strip_cr_def dest: in_set_butlastD)
    have rest: "set rest \<subseteq> set s" using Cons by (metis list.set_intros(2) set_dropWhileD subsetI)
    have "s \<noteq> []" using Cons by auto
    then have "l = strip_cr (takeWhile (\<lambda>c. c \<noteq> 10) s) \<or> l \<in> set (str_lines rest)"
      using 1(2) Cons by (subst (asm) str_lines.simps) auto
    then show ?thesis using 1(1)[OF \<open>s \<noteq> []\<close> Cons] rest cr set_takeWhileD by (metis (no_types, lifting) order_trans subsetI)
  qed
qed

definition units_within :: "ustring \<Rightarrow> ustring list \<times> ustring \<Rightarrow> bool" where
  "units_within text st \<longleftrightarrow> (\<forall>u \<in> set (fst st). within text u) \<and> within text (snd st)"

lemma units_within_push: "units_within text st \<Longrightarrow> units_within text (push_unit st)"
  by (cases st) (auto simp: push_unit_def units_within_def)

lemma units_within_line:
  "units_within text st \<Longrightarrow> within text l \<Longrightarrow> units_within text (fst st, snd st @ l @ [10])"
  by (simp add: units_within_def)

lemma brace_lines_within:
  "units_within text st \<Longrightarrow> \<forall>l \<in> set ls. within text l \<Longrightarrow> units_within text (brace_lines ls d st)"
proof (induction ls d st rule: brace_lines.induct)
  case (2 line rest depth st)
  then show ?case using units_within_push[OF units_within_line[OF 2(2), of line]] units_within_line[OF 2(2), of line]
    by (simp add: Let_def)
qed simp

lemma python_lines_within:
  "units_within text st \<Longrightarrow> \<forall>l \<in> set ls. within text l \<Longrightarrow> units_within text (python_lines ls d st)"
proof (induction ls d st rule: python_lines.induct)
  case (2 line rest d st)
  then show ?case using units_within_push[OF 2(2)] units_within_line[of "text" _ line]
    by (simp add: Let_def)
qed simp

lemma units_are_within:
  "u \<in> set (brace_units text) \<Longrightarrow> within text u" "u \<in> set (python_units text) \<Longrightarrow> within text u"
proof -
  have ls: "\<forall>l \<in> set (str_lines text). within text l" using within_lines by (auto simp: within_def)
  have "units_within text ([], [])" by (simp add: units_within_def)
  then have "units_within text (push_unit (brace_lines (str_lines text) 0 ([], [])))"
    "units_within text (push_unit (python_lines (str_lines text) False ([], [])))"
    using ls by (intro units_within_push brace_lines_within python_lines_within; simp)+
  then show "u \<in> set (brace_units text) \<Longrightarrow> within text u" "u \<in> set (python_units text) \<Longrightarrow> within text u"
    by (simp_all add: units_within_def brace_units_def python_units_def)
qed

lemma chunk_units_within:
  assumes "\<forall>u \<in> set us. within text u" "\<forall>c \<in> set out. within text (rc_text c)" "within text buf"
    "chunk_units uni lang sz ov us (out, buf, label) = Some (out1, buf1, label1)"
  shows "(\<forall>c \<in> set out1. within text (rc_text c)) \<and> within text buf1"
  using assms
proof (induction us arbitrary: out buf label)
  case (Cons u us)
  have buf: "within text (rc_text (mk_chunk buf label))" using Cons.prems by (simp add: mk_chunk_def within_trim)
  show ?case
  proof (cases "length u > sz")
    case True
    obtain ps where ps: "chunk_text u sz ov = Some ps" using chunk_text_total by blast
    have "\<forall>p \<in> set ps. within text p" using Cons.prems(1) ps within_chunk_text by force
    moreover obtain out2 label2 where step: "chunk_units uni lang sz ov us
          (out2 @ map (\<lambda>p. \<lparr>rc_text = p, rc_page_number = 1, rc_section = symbol_label uni u lang\<rparr>) ps, [], label2)
          = Some (out1, buf1, label1)" "\<forall>c \<in> set out2. within text (rc_text c)"
      using Cons.prems(2,4) True ps buf that[of out label] that[of "out @ [mk_chunk buf label]" None]
      by (cases "trim buf = []") simp_all
    ultimately show ?thesis using Cons.prems(1) by (intro Cons.IH[OF _ _ _ step(1)]) auto
  next
    case False
    obtain out2 buf2 label2 where step: "chunk_units uni lang sz ov us (out2, buf2 @ u, label2) = Some (out1, buf1, label1)"
      "\<forall>c \<in> set out2. within text (rc_text c)" "within text buf2"
    proof (cases "buf \<noteq> [] \<and> length buf + length u > sz")
      case e: True
      show ?thesis using Cons.prems(2,4) False buf e
        by (intro that[of "out @ [mk_chunk buf label]" "[]" "symbol_label uni u lang"]) simp_all
    next
      case e: False
      show ?thesis using Cons.prems(2,3,4) False e
        by (intro that[of out buf "if label = None then symbol_label uni u lang else label"]) (simp_all only: chunk_units.simps Let_def if_False split_conv)
    qed
    then show ?thesis using Cons.prems(1) by (intro Cons.IH[OF _ _ _ step(1)]) auto
  qed
qed simp

lemma chunk_document_within:
  assumes "chunk_document uni (from_plain text) source sz ov = Some cs" "c \<in> set cs"
  shows "within text (rc_text c)"
proof -
  obtain ts where ts: "chunk_text text sz ov = Some ts" using chunk_text_total by blast
  have pages: "chunk_pages (dc_pages (from_plain text)) sz ov =
      Some (map (\<lambda>t. \<lparr>rc_text = t, rc_page_number = 1, rc_section = extract_heading text\<rparr>) ts)"
    using ts by (simp add: from_plain_def Let_def)
  have tsw: "\<forall>t \<in> set ts. within text t" using ts within_chunk_text[of "text" "text"] by auto
  show ?thesis
  proof (cases "lang_for uni source")
    case None
    then show ?thesis using assms pages tsw by (auto simp: chunk_document_def)
  next
    case (Some lang)
    let ?us = "case lang of Braces \<Rightarrow> brace_units text | Python \<Rightarrow> python_units text"
    have us: "\<forall>u \<in> set ?us. within text u" using units_are_within by (auto split: code_lang.splits)
    obtain coded where coded: "chunk_code uni text lang sz ov = Some coded" using chunk_code_ok by blast
    then obtain out buf label where st: "chunk_units uni lang sz ov ?us ([], [], None) = Some (out, buf, label)"
      "coded = (if trim buf \<noteq> [] then out @ [mk_chunk buf label] else out)"
      by (auto simp: chunk_code_def Let_def bind_eq_Some_conv split: prod.splits)
    have w: "(\<forall>c \<in> set out. within text (rc_text c)) \<and> within text buf"
      by (rule chunk_units_within[OF us _ _ st(1)]) simp_all
    have "\<forall>d \<in> set coded. within text (rc_text d)"
      using st(2) w by (auto simp: mk_chunk_def within_trim)
    moreover have "cs = coded \<or> cs = map (\<lambda>t. \<lparr>rc_text = t, rc_page_number = 1, rc_section = extract_heading text\<rparr>) ts"
      using assms(1) Some coded pages by (auto simp: chunk_document_def from_plain_def split: if_splits)
    ultimately show ?thesis using assms(2) tsw by auto
  qed
qed

lemma chunk_document_lossless:
  assumes "chunk_document uni (from_plain text) source sz 0 = Some cs"
  shows "nonblank (concat (map rc_text cs)) = nonblank text"
proof -
  obtain ts where ts: "chunk_text text sz 0 = Some ts" using chunk_text_total by blast
  have pages: "chunk_pages (dc_pages (from_plain text)) sz 0 =
      Some (map (\<lambda>t. \<lparr>rc_text = t, rc_page_number = 1, rc_section = extract_heading text\<rparr>) ts)"
    using ts by (simp add: from_plain_def Let_def)
  show ?thesis
  proof (cases "lang_for uni source")
    case None
    then show ?thesis using assms pages chunk_text_nonblank[OF ts] by (auto simp: chunk_document_def comp_def)
  next
    case (Some lang)
    obtain coded where "chunk_code uni text lang sz 0 = Some coded" "nonblank (concat (map rc_text coded)) = nonblank text"
      using chunk_code_ok[of uni "text" lang sz 0] by auto
    then show ?thesis using assms Some pages chunk_text_nonblank[OF ts]
      by (auto simp: chunk_document_def from_plain_def comp_def split: if_splits)
  qed
qed

subsection \<open>Ingesting and reading back\<close>

lemma set_summary_text: "get_document_text cr (set_summary cr' nonce d summary s) did = get_document_text cr s did"
  by (simp add: get_document_text_def set_summary_def Let_def)

text \<open>The steps of a successful ingestion of plain text.\<close>

lemma ingest_steps:
  assumes "ingest env em cfg rnd coll source text s = (Inr st, t)"
  obtains cs embs s1 where
    "chunk_document (re_unicode env) (from_plain text) source (rg_chunk_size cfg) (rg_chunk_overlap cfg) = Some cs"
    "cs \<noteq> []" "length embs = length cs" "ensure_collection (ir_now_collection rnd) coll (em_label em) (length (hd embs)) s = (Inr (), s1)"
    "insert_document (re_crypto env) (ir_now_document rnd) (ir_doc_id rnd) (map (ir_chunks rnd) [0..<length cs]) coll
       (utf8_encode source) (sha256_hex (re_crypto env) (utf8_encode text))
       (map (\<lambda>(rc, emb). to_chunk_row (re_crypto env) rc emb) (zip cs (map (normalize (re_arith env)) embs))) None None 1 s1
       = (Inr (is_document_id st), t)" "is_chunks st = length cs"
proof -
  obtain cs where cs: "chunk_document (re_unicode env) (from_plain text) source (rg_chunk_size cfg) (rg_chunk_overlap cfg) = Some cs"
    using chunk_document_total by blast
  obtain embs where embs: "em_embed em (map (\<lambda>c. utf8_encode (rc_text c)) cs) = Some embs" "cs \<noteq> []" "length embs = length cs"
    "length (hd embs) \<noteq> 0"
    using assms cs by (auto simp: ingest_def ingest_document_def Let_def split: if_splits option.splits)
  obtain s1 where s1: "ensure_collection (ir_now_collection rnd) coll (em_label em) (length (hd embs)) s = (Inr (), s1)"
    using assms cs embs
    by (cases "ensure_collection (ir_now_collection rnd) coll (em_label em) (length (hd embs)) s"; cases "fst (ensure_collection (ir_now_collection rnd) coll (em_label em) (length (hd embs)) s)")
      (auto simp: ingest_def ingest_document_def Let_def)
  let ?ins = "insert_document (re_crypto env) (ir_now_document rnd) (ir_doc_id rnd) (map (ir_chunks rnd) [0..<length cs]) coll
       (utf8_encode source) (sha256_hex (re_crypto env) (utf8_encode text))
       (map (\<lambda>(rc, emb). to_chunk_row (re_crypto env) rc emb) (zip cs (map (normalize (re_arith env)) embs))) None None 1 s1"
  obtain r s2 where ins: "?ins = (r, s2)" by fastforce
  have "?ins = (Inr (is_document_id st), t) \<and> is_chunks st = length cs"
  proof (cases r)
    case (Inl e)
    then show ?thesis using assms cs embs s1 ins by (simp add: ingest_def ingest_document_def Let_def from_plain_def)
  next
    case (Inr d)
    then show ?thesis using assms cs embs s1 ins by (auto simp: ingest_def ingest_document_def Let_def from_plain_def)
  qed
  with that cs embs s1 show ?thesis by blast
qed

lemma length_to_rows: "length es = length cs \<Longrightarrow>
    map cr_text (map (\<lambda>(rc, emb). to_chunk_row cr rc emb) (zip cs es)) = map (\<lambda>c. utf8_encode (rc_text c)) cs"
  by (rule nth_equalityI) (simp_all add: to_chunk_row_def Let_def)

lemma insert_document_id:
  "insert_document cr now did random coll source sha chunks title author pages s = (Inr r, t) \<Longrightarrow> r = did"
  by (auto simp: insert_document_def Let_def split: if_splits)

lemma ensure_collection_dek: "ensure_collection now name model dim s = (r, t) \<Longrightarrow> vs_dek t = vs_dek s"
  by (auto simp: ensure_collection_def Let_def split: option.splits if_splits)

text \<open>C19: ingested text is stored and read back. When the ingestion of a plain text into a reachable
  store with a workspace key succeeds, the text of the new document is that of as many chunks as were
  reported, each of at most \<open>chunk_size\<close> characters, joined by blank lines; all its characters are
  characters of the text or line breaks, and without overlap the chunks in order are the text up to
  white space.\<close>

theorem ingest_lossless:
  assumes "crypto_ok (re_crypto env)" "reach (\<lambda>s. s = store_open) (rag_step (re_crypto env)) s0" "s = s0\<lparr>vs_dek := Some key\<rparr>"
    and "\<forall>c \<in> set text. scalar c" "\<forall>i. length (snd (ir_chunks rnd i)) = 12"
    and "ingest env em cfg rnd coll source text s = (Inr st, t)"
  shows "\<exists>ts. get_document_text (re_crypto env) t (is_document_id st) = Inr (Some (join_paragraphs (map utf8_encode ts))) \<and>
    length ts = is_chunks st \<and> (\<forall>x \<in> set ts. x \<noteq> [] \<and> length x \<le> max (rg_chunk_size cfg) 1 \<and> set x \<subseteq> insert 10 (set text)) \<and>
    (rg_chunk_overlap cfg = 0 \<longrightarrow> nonblank (concat ts) = nonblank text)"
proof -
  let ?cr = "re_crypto env"
  obtain cs embs s1 where cs: "chunk_document (re_unicode env) (from_plain text) source (rg_chunk_size cfg) (rg_chunk_overlap cfg) = Some cs"
    "cs \<noteq> []" "length embs = length cs"
    and s1: "ensure_collection (ir_now_collection rnd) coll (em_label em) (length (hd embs)) s = (Inr (), s1)"
    and ins: "insert_document ?cr (ir_now_document rnd) (ir_doc_id rnd) (map (ir_chunks rnd) [0..<length cs]) coll
       (utf8_encode source) (sha256_hex ?cr (utf8_encode text))
       (map (\<lambda>(rc, emb). to_chunk_row ?cr rc emb) (zip cs (map (normalize (re_arith env)) embs))) None None 1 s1
       = (Inr (is_document_id st), t)" "is_chunks st = length cs"
    using ingest_steps[OF assms(6)] by metis
  let ?rows = "map (\<lambda>(rc, emb). to_chunk_row ?cr rc emb) (zip cs (map (normalize (re_arith env)) embs))"
  have txts: "map cr_text ?rows = map (\<lambda>c. utf8_encode (rc_text c)) cs" using cs(3) by (intro length_to_rows) simp
  have "rag_ok s" using rag_store.reach_inv[OF assms(2)] assms(3) by (simp add: rag_ok_def)
  then have ok: "rag_ok s1" using s1 by (rule ensure_collection_ok)
  have dek: "vs_dek s1 = Some key" using ensure_collection_dek[OF s1] assms(3) by simp
  have w: "within text (rc_text c)" if "c \<in> set cs" for c using chunk_document_within[OF cs(1) that] .
  have plain: "plain_chunks (Some key) ?rows"
  proof -
    have "is_utf8 (utf8_encode (rc_text c))" if "c \<in> set cs" for c
      using w[OF that] assms(4) by (intro utf8_encode_valid) (auto simp: within_def scalar_def)
    then have "\<forall>x \<in> set (map cr_text ?rows). is_utf8 x" unfolding txts by simp
    then show ?thesis by (simp add: plain_chunks_def)
  qed
  have rnd: "random_ok (map (ir_chunks rnd) [0..<length cs]) ?rows" using assms(5) cs(3) by (auto simp: random_ok_def)
  have ins': "insert_document ?cr (ir_now_document rnd) (ir_doc_id rnd) (map (ir_chunks rnd) [0..<length cs]) coll
       (utf8_encode source) (sha256_hex ?cr (utf8_encode text)) ?rows None None 1 s1 = (Inr (ir_doc_id rnd), t)"
    using ins(1) insert_document_id[OF ins(1)] by simp
  have "?rows \<noteq> []" using cs(2,3) by auto
  then have "get_document_text ?cr t (is_document_id st) = Inr (Some (join_paragraphs (map utf8_encode (map rc_text cs))))"
    using get_inserted_text[OF ok ins'] decrypt_rows[OF assms(1) rnd plain] rnd txts insert_document_id[OF ins(1)] dek
    by (simp add: random_ok_def comp_def)
  moreover have "\<forall>x \<in> set (map rc_text cs). x \<noteq> [] \<and> length x \<le> max (rg_chunk_size cfg) 1 \<and> set x \<subseteq> insert 10 (set text)"
    using chunk_document_total[of "re_unicode env" "from_plain text" source "rg_chunk_size cfg" "rg_chunk_overlap cfg"] cs(1) w
    by (auto simp: list_all_iff within_def)
  moreover have "rg_chunk_overlap cfg = 0 \<longrightarrow> nonblank (concat (map rc_text cs)) = nonblank text"
    using cs(1) chunk_document_lossless[of "re_unicode env" "text" source "rg_chunk_size cfg" cs] by auto
  ultimately show ?thesis using ins(2) by (intro exI[of _ "map rc_text cs"]) simp
qed

definition demo_env :: rag_env where
  "demo_env = \<lparr>re_crypto = demo_crypto, re_arith = \<lparr>fadd = (+), fmul = (*), fdiv = (\<lambda>x _. x), fsqrt = (\<lambda>x. x), fsum_start = 0\<rparr>,
     re_unicode = \<lparr>uni_alphabetic = (\<lambda>c. 97 \<le> c \<and> c \<le> 122), uni_alphanumeric = (\<lambda>c. 97 \<le> c \<and> c \<le> 122), uni_lowercase = id\<rparr>\<rparr>"

definition demo_rnd :: ingest_random where
  "demo_rnd = \<lparr>ir_now_collection = [], ir_now_document = [], ir_doc_id = ''d'',
     ir_chunks = (\<lambda>i. (show_nat i, replicate 12 CHR 0x00)), ir_summary_nonce = replicate 12 CHR 0x00\<rparr>"

definition demo_cfg :: rag_config where
  "demo_cfg = default_rag_config\<lparr>rg_chunk_size := 8, rg_chunk_overlap := 0\<rparr>"

definition demo_ingest :: "(rag_error, ingest_stats) result \<times> vector_store" where
  "demo_ingest = ingest demo_env \<lparr>em_label = ''m'', em_embed = (\<lambda>ts. Some (map (\<lambda>_. [1]) ts))\<rparr> demo_cfg demo_rnd ''docs''
     (ascii ''f'') (ascii ''ab cd'') (store_open\<lparr>vs_dek := Some ''k''\<rparr>)"

lemma demo_chunks: "chunk_document (re_unicode demo_env) (from_plain (ascii ''ab cd'')) (ascii ''f'') 8 0 =
    Some [\<lparr>rc_text = ascii ''ab cd'', rc_page_number = 1, rc_section = Some (ascii ''ab cd'')\<rparr>]"
  by code_simp

lemma demo_ingested: "fst demo_ingest = Inr \<lparr>is_document_id = ''d'', is_collection = ''docs'', is_chunks = 1, is_pages = 1, is_summary = None\<rparr>"
  using demo_chunks
  by (simp add: demo_ingest_def ingest_def ingest_document_def demo_cfg_def ensure_collection_def store_open_def
      insert_document_def chunk_db_rows_def demo_rnd_def from_plain_def Let_def)

theorem ingest_lossless_witness:
  "\<exists>ts. get_document_text demo_crypto (snd demo_ingest) ''d'' = Inr (Some (join_paragraphs (map utf8_encode ts))) \<and>
     length ts = 1 \<and> nonblank (concat ts) = ascii ''abcd''"
proof -
  have "reach (\<lambda>s. s = store_open) (rag_step (re_crypto demo_env)) store_open" by (simp add: reach_init)
  moreover have "\<forall>c \<in> set (ascii ''ab cd''). scalar c" by (simp add: ascii_def scalar_def)
  moreover have "\<forall>i. length (snd (ir_chunks demo_rnd i)) = 12" by (simp add: demo_rnd_def)
  moreover have "demo_ingest = (Inr \<lparr>is_document_id = ''d'', is_collection = ''docs'', is_chunks = 1, is_pages = 1, is_summary = None\<rparr>, snd demo_ingest)"
    using demo_ingested by (metis prod.collapse)
  moreover have "nonblank (ascii ''ab cd'') = ascii ''abcd''" by code_simp
  ultimately show ?thesis
    using ingest_lossless[of demo_env store_open _ "''k''" "ascii ''ab cd''" demo_rnd _ demo_cfg] demo_crypto_ok
    by (fastforce simp: demo_ingest_def demo_env_def demo_cfg_def)
qed

text \<open>What a selection of the best \<open>k\<close> of a list is, and that selecting the best of the best of each of
  several lists gives the best of all.\<close>

definition top_of :: "('a \<Rightarrow> int) \<Rightarrow> nat \<Rightarrow> 'a list \<Rightarrow> 'a list \<Rightarrow> bool" where
  "top_of key k xs ys \<longleftrightarrow> length ys = min k (length xs) \<and> mset ys \<subseteq># mset xs \<and>
     (\<forall>h \<in> set ys. \<forall>c. c \<in># mset xs - mset ys \<longrightarrow> key c \<le> key h)"

lemma top_of_take_sort: "top_of key k xs (take k (sort_key (\<lambda>x. - key x) xs))"
  using take_sort_best(2,3)[where k = "\<lambda>x. - key x" and n = k and xs = xs] by (auto simp: top_of_def min.commute)

lemma top_of_refl: "length xs \<le> k \<Longrightarrow> top_of key k xs xs"
  by (simp add: top_of_def)

lemma top_of_map:
  assumes "top_of (\<lambda>x. key (f x)) k xs ys"
  shows "top_of key k (map f xs) (map f ys)"
proof -
  have sub: "mset ys \<subseteq># mset xs" using assms by (simp add: top_of_def)
  then have "mset (map f xs) - mset (map f ys) = image_mset f (mset xs - mset ys)" by (simp add: image_mset_Diff)
  then show ?thesis using assms sub by (auto simp: top_of_def image_mset_subseteq_mono)
qed

lemma top_of_part:
  assumes "top_of key k xs ys" "top_of key k (ys @ vs) zs"
  shows "top_of key k (xs @ vs) zs"
  unfolding top_of_def
proof (intro conjI ballI allI impI)
  have ys: "mset ys \<subseteq># mset xs" and zs: "mset zs \<subseteq># mset ys + mset vs" using assms by (simp_all add: top_of_def)
  show "length zs = min k (length (xs @ vs))" using assms by (simp add: top_of_def min_def split: if_splits)
  show "mset zs \<subseteq># mset (xs @ vs)" using zs ys by (metis mset_append subset_mset.add_right_mono subset_mset.order_trans)
  fix h c assume h: "h \<in> set zs" and c: "c \<in># mset (xs @ vs) - mset zs"
  have "mset (xs @ vs) - mset zs = (mset xs - mset ys) + ((mset ys + mset vs) - mset zs)"
  proof (rule multiset_eqI)
    fix x
    have "count (mset ys) x \<le> count (mset xs) x" "count (mset zs) x \<le> count (mset ys) x + count (mset vs) x"
      using mset_subset_eq_count[OF ys] mset_subset_eq_count[OF zs, of x] by simp_all
    then show "count (mset (xs @ vs) - mset zs) x = count (mset xs - mset ys + (mset ys + mset vs - mset zs)) x" by simp
  qed
  with c consider "c \<in># mset xs - mset ys" | "c \<in># mset (ys @ vs) - mset zs" by auto
  then show "key c \<le> key h"
  proof cases
    case 1
    then have "mset ys \<noteq> mset xs" by auto
    then have "length ys \<noteq> length xs" using ys by (metis mset_subset_size nless_le size_mset subset_mset.less_le)
    then have len: "length ys = k" "length zs \<le> k" using assms by (auto simp: top_of_def min_def split: if_splits)
    show ?thesis
    proof (cases "mset ys \<subseteq># mset zs")
      case True
      then have "mset ys = mset zs" using len by (metis leD mset_subset_size size_mset subset_mset.less_le)
      then have "h \<in> set ys" using h by (metis set_mset_mset)
      then show ?thesis using 1 assms(1) by (simp add: top_of_def)
    next
      case False
      then obtain y where y: "count (mset zs) y < count (mset ys) y" by (auto simp: subseteq_mset_def not_le)
      then have "y \<in> set ys" by (metis count_greater_zero_iff gr_implies_not0 not_gr_zero set_mset_mset)
      moreover have "y \<in># mset (ys @ vs) - mset zs" using y by (simp add: in_diff_count)
      ultimately show ?thesis using 1 h assms unfolding top_of_def by (meson order_trans)
    qed
  next
    case 2
    then show ?thesis using h assms(2) by (simp add: top_of_def)
  qed
qed

lemma top_of_perm: "mset xs = mset xs' \<Longrightarrow> top_of key k xs ys = top_of key k xs' ys"
  unfolding top_of_def by (metis size_mset)

lemma top_of_concat:
  "list_all2 (top_of key k) xss yss \<Longrightarrow> top_of key k (concat yss @ vs) zs \<Longrightarrow> top_of key k (concat xss @ vs) zs"
proof (induction xss yss arbitrary: vs rule: list_all2_induct)
  case (Cons x xss y yss)
  have "top_of key k (y @ (concat yss @ vs)) zs" using Cons.prems by simp
  then have "top_of key k (x @ (concat yss @ vs)) zs" by (rule top_of_part[OF Cons.hyps(1)])
  then have "top_of key k (concat yss @ (x @ vs)) zs"
    using top_of_perm[of "x @ concat yss @ vs" "concat yss @ x @ vs"] by (simp add: union_ac)
  then have "top_of key k (concat xss @ (x @ vs)) zs" by (rule Cons.IH)
  then show ?case using top_of_perm[of "concat xss @ x @ vs" "x @ concat xss @ vs"] by (simp add: union_ac)
qed simp

subsection \<open>Retrieval over all collections\<close>

definition all_candidates :: "rag_env \<Rightarrow> vector_store \<Rightarrow> f32 list \<Rightarrow> f32 \<Rightarrow> retrieved_chunk list list" where
  "all_candidates env s q min_score =
     map (\<lambda>col. map scored_to_retrieved (candidates (re_crypto env) (re_arith env) s (ci_name col) q min_score)) (list_collections s)"

lemma score_retrieved [simp]: "rt_score (scored_to_retrieved h) = sc_score h"
  by (simp add: scored_to_retrieved_def)

lemma collect_hits_top:
  assumes "reach (\<lambda>s. s = store_open) (rag_step (re_crypto env)) s"
  shows "\<exists>yss. collect_hits env s q k m (list_collections s) = concat yss \<and>
    list_all2 (top_of (\<lambda>c. f32_key (rt_score c)) k) (all_candidates env s q m) yss"
proof -
  let ?f = "\<lambda>col. case search (re_crypto env) (re_arith env) s (ci_name col) q k m of
              Inl _ \<Rightarrow> [] | Inr hits \<Rightarrow> map scored_to_retrieved hits"
  have "top_of (\<lambda>c. f32_key (rt_score c)) k
      (map scored_to_retrieved (candidates (re_crypto env) (re_arith env) s (ci_name col) q m)) (?f col)" for col
  proof -
    obtain hits where hits: "search (re_crypto env) (re_arith env) s (ci_name col) q k m = Inr hits"
      "top_of (\<lambda>c. f32_key (sc_score c)) k (candidates (re_crypto env) (re_arith env) s (ci_name col) q m) hits"
      using search_best[OF assms, of "re_arith env" "ci_name col" q k m] by (auto simp: top_of_def)
    have "top_of (\<lambda>c. f32_key (rt_score c)) k
        (map scored_to_retrieved (candidates (re_crypto env) (re_arith env) s (ci_name col) q m)) (map scored_to_retrieved hits)"
      by (rule top_of_map) (use hits(2) in simp)
    then show ?thesis using hits(1) by simp
  qed
  then have "list_all2 (top_of (\<lambda>c. f32_key (rt_score c)) k) (all_candidates env s q m) (map ?f (list_collections s))"
    unfolding all_candidates_def list_all2_map1 list_all2_map2 list_all2_same by blast
  then show ?thesis by (intro exI[of _ "map ?f (list_collections s)"]) (simp add: collect_hits_def)
qed

text \<open>C20: retrieving from all collections selects the best of all chunks. Although each collection is
  asked for its best \<open>k\<close> only, the result is a best-\<open>k\<close> selection, best first, from the candidates of all
  collections together; a failing embedding is the only error.\<close>

theorem retrieve_all_best:
  assumes "reach (\<lambda>s. s = store_open) (rag_step (re_crypto env)) s" "embed_one em query = Inr v"
  shows "\<exists>hits. retrieve_all_collections env em cfg s query top_k = Inr hits \<and>
    top_of (\<lambda>c. f32_key (rt_score c)) (max (unwrap_or (rg_top_k cfg) top_k) 1)
      (concat (all_candidates env s (normalize (re_arith env) v) (rg_min_score cfg))) hits \<and>
    sorted_wrt (\<lambda>a b. f32_key (rt_score b) \<le> f32_key (rt_score a)) hits"
proof -
  let ?q = "normalize (re_arith env) v" and ?k = "max (unwrap_or (rg_top_k cfg) top_k) 1" and ?m = "rg_min_score cfg"
  let ?key = "\<lambda>c. f32_key (rt_score c)"
  obtain yss where yss: "collect_hits env s ?q ?k ?m (list_collections s) = concat yss"
    "list_all2 (top_of ?key ?k) (all_candidates env s ?q ?m) yss"
    using collect_hits_top[OF assms(1)] by blast
  let ?hits = "take ?k (sort_key (\<lambda>c. - ?key c) (concat yss))"
  have "retrieve_all_collections env em cfg s query top_k = Inr ?hits"
    using assms(2) yss(1) by (cases "list_collections s = []") (simp_all add: retrieve_all_collections_def Let_def collect_hits_def flip: yss(1))
  moreover have "top_of ?key ?k (concat yss @ []) ?hits" using top_of_take_sort[of ?key ?k "concat yss"] by simp
  then have "top_of ?key ?k (concat (all_candidates env s ?q ?m)) ?hits" using top_of_concat[OF yss(2), of "[]"] by simp
  moreover have "sorted_wrt (\<lambda>a b. ?key b \<le> ?key a) ?hits"
    using take_sort_best(1)[where k = "\<lambda>c. - ?key c" and n = ?k and xs = "concat yss"] by (simp add: sorted_map)
  ultimately show ?thesis by blast
qed

theorem retrieve_all_best_witness:
  "\<exists>hits. retrieve_all_collections demo_env \<lparr>em_label = ''m'', em_embed = (\<lambda>ts. Some (map (\<lambda>_. [1]) ts))\<rparr> demo_cfg
     demo_rag ''q'' None = Inr hits \<and> length hits \<le> 3"
proof -
  have "embed_one \<lparr>em_label = ''m'', em_embed = (\<lambda>ts. Some (map (\<lambda>_. [1]) ts))\<rparr> ''q'' = Inr [1]"
    by (simp add: embed_one_def)
  then show ?thesis
    using retrieve_all_best[of demo_env demo_rag _ "''q''" "[1]" demo_cfg None] demo_rag_reach
    by (fastforce simp: demo_env_def demo_cfg_def default_rag_config_def top_of_def unwrap_or_def)
qed

subsection \<open>The size of the prompt\<close>

definition numbered_blocks :: "nat \<Rightarrow> retrieved_chunk list \<Rightarrow> string list" where
  "numbered_blocks i cs = map (\<lambda>(j, c). context_block j c) (zip [i..<i + length cs] cs)"

lemma numbered_Cons: "numbered_blocks i (c # cs) = context_block i c # numbered_blocks (i + 1) cs"
proof -
  have "[i..<i + length (c # cs)] = i # [i + 1..<(i + 1) + length cs]" by (subst upt_conv_Cons) simp_all
  then show ?thesis by (simp only: numbered_blocks_def zip_Cons_Cons list.map split_conv)
qed

lemma context_blocks_prefix:
  "context \<noteq> [] \<Longrightarrow> used = length context \<Longrightarrow> \<exists>n \<le> length cs.
     context_blocks limit i cs context used = context @ concat (take n (numbered_blocks i cs)) \<and>
     (n = 0 \<or> length (context @ concat (take n (numbered_blocks i cs))) \<le> limit) \<and>
     (n < length cs \<longrightarrow> limit < length (context @ concat (take (n + 1) (numbered_blocks i cs))))"
proof (induction cs arbitrary: i "context" used)
  case (Cons c cs)
  let ?b = "context_block i c"
  show ?case
  proof (cases "used + length ?b > limit")
    case True
    then show ?thesis using Cons.prems by (intro exI[of _ 0]) (simp add: Let_def numbered_Cons)
  next
    case False
    obtain n where "n \<le> length cs"
      "context_blocks limit (i + 1) cs (context @ ?b) (used + length ?b) = (context @ ?b) @ concat (take n (numbered_blocks (i + 1) cs))"
      "n = 0 \<or> length ((context @ ?b) @ concat (take n (numbered_blocks (i + 1) cs))) \<le> limit"
      "n < length cs \<longrightarrow> limit < length ((context @ ?b) @ concat (take (n + 1) (numbered_blocks (i + 1) cs)))"
      using Cons.IH[of "context @ ?b" "used + length ?b" "i + 1"] Cons.prems by auto
    then show ?thesis using False Cons.prems by (intro exI[of _ "n + 1"]) (auto simp: Let_def numbered_Cons)
  qed
qed (simp add: numbered_blocks_def)

lemma context_block_nonempty: "context_block i c \<noteq> []"
  by (simp add: context_block_def Let_def)

text \<open>The prompt holds as many chunks as fit. The context of a prompt is a non-empty prefix of the
  retrieved chunks, numbered from one in the order of retrieval; only a first chunk that is too long by
  itself exceeds the configured limit, and the prefix ends only where the next chunk would.\<close>

lemma context_bounded:
  assumes "chunks \<noteq> []"
  shows "\<exists>n. 0 < n \<and> n \<le> length chunks \<and>
    build_context_prompt cfg chunks = Some (context_header @ str_trim_end (concat (take n (numbered_blocks 0 chunks)))) \<and>
    (n = 1 \<or> length (concat (take n (numbered_blocks 0 chunks))) \<le> rg_max_context_chars cfg) \<and>
    (n = length chunks \<or> rg_max_context_chars cfg < length (concat (take (n + 1) (numbered_blocks 0 chunks))))"
proof -
  obtain c cs where cs: "chunks = c # cs" using assms by (cases chunks) auto
  let ?b = "context_block 0 c"
  obtain n where "n \<le> length cs"
    "context_blocks (rg_max_context_chars cfg) 1 cs ?b (length ?b) = ?b @ concat (take n (numbered_blocks 1 cs))"
    "n = 0 \<or> length (?b @ concat (take n (numbered_blocks 1 cs))) \<le> rg_max_context_chars cfg"
    "n < length cs \<longrightarrow> rg_max_context_chars cfg < length (?b @ concat (take (n + 1) (numbered_blocks 1 cs)))"
    using context_blocks_prefix[OF context_block_nonempty refl] by blast
  then show ?thesis
    by (intro exI[of _ "n + 1"]) (auto simp: cs build_context_prompt_def numbered_Cons Let_def)
qed

end
