(* ===== verification/Workspace_Routes.thy ===== *)
theory Workspace_Routes
  imports Access Isolation Rag_Engine
begin

section \<open>Workspace routes\<close>

text \<open>
  \<open>crates/maranode-api/src/routes/workspaces.rs\<close> over the table of \<open>Workspace_Db\<close>, the extractors of \<open>Access\<close> and the network
  namespaces of \<open>Isolation\<close>; the migration that opens the table, and the choice of the key of the retrieval store in
  \<open>crates/maranode-daemon/src/main.rs\<close>. What the daemon draws at random and the time are the record \<open>ws_draw\<close>. The state of
  the command \<open>ip\<close> is of any type. The row of the default workspace keeps the time of the migration.
\<close>

subsection \<open>Opening the table\<close>

definition default_row :: "string \<Rightarrow> timestamp \<Rightarrow> ws_row" where
  "default_row uuid now =
     \<lparr>wr_ws = \<lparr>ws_id = uuid, ws_slug = ''default'', ws_name = ''Default'', ws_api_key_hash = None, ws_model_allowlist = [],
        ws_rate_limit_rpm = None, ws_system_prompt = None, ws_created_at = now, ws_net_namespace = False,
        ws_max_concurrent_requests = None, ws_max_models = None, ws_max_memory_bytes = None, ws_dek = None\<rparr>,
      wr_allowlist = [], wr_dek = None\<rparr>"

text \<open>\<open>INSERT OR IGNORE\<close>: a row with the same id or slug makes it do nothing.\<close>

definition ws_open :: "string \<Rightarrow> timestamp \<Rightarrow> ws_row list \<Rightarrow> bytes option \<Rightarrow> workspace_db" where
  "ws_open uuid now rows kek =
     \<lparr>wd_rows = (if \<exists>r \<in> set rows. ws_id (wr_ws r) = uuid \<or> ws_slug (wr_ws r) = ''default'' then rows else rows @ [default_row uuid now]),
      wd_kek = kek\<rparr>"

text \<open>\<open>get_dek_bytes("default").ok().flatten()\<close>: the key under which the daemon opens the retrieval store.\<close>

definition rag_dek :: "crypto \<Rightarrow> workspace_db \<Rightarrow> bytes option" where
  "rag_dek cr db = (case get_dek_bytes cr ''default'' db of Inl _ \<Rightarrow> None | Inr k \<Rightarrow> k)"

subsection \<open>Environment and state\<close>

record 'ns ws_env =
  we_crypto :: crypto
  we_alphanumeric :: "uchar \<Rightarrow> bool"
  we_lowercase :: "string \<Rightarrow> string"
  we_linux :: bool
  we_ip :: "string list \<Rightarrow> 'ns \<Rightarrow> (bool \<times> 'ns) option"
  we_ns_exists :: "string \<Rightarrow> 'ns \<Rightarrow> bool"

record 'ns ws_state =
  wst_db :: workspace_db
  wst_ns :: 'ns

record ws_draw =
  wdr_key :: string
  wdr_id :: string
  wdr_dek :: string
  wdr_nonce :: bytes
  wdr_now :: timestamp

datatype wsr_error = WsrAuth api_error | WsrBadSlug | WsrNamespace iso_error | WsrNeedsLinux | WsrNotFound | WsrDb ws_error

text \<open>Who calls: the session store, the administrator's key and the headers.\<close>

record ws_caller =
  wc_resolve :: session_resolver
  wc_admin_key :: "string option"
  wc_headers :: headers

definition ws_authorized :: "ws_caller \<Rightarrow> (wsr_error, unit) result" where
  "ws_authorized c = map_sum WsrAuth id (authorize_permission (wc_resolve c) (wc_admin_key c) WorkspaceManage (wc_headers c))"

type_synonym ('ns, 'a) ws_result = "(wsr_error, 'a) result \<times> 'ns ws_state"

definition ws_guarded :: "ws_caller \<Rightarrow> ('ns ws_state \<Rightarrow> ('ns, 'a) ws_result) \<Rightarrow> 'ns ws_state \<Rightarrow> ('ns, 'a) ws_result" where
  "ws_guarded c body st = (case ws_authorized c of Inl e \<Rightarrow> (Inl e, st) | Inr _ \<Rightarrow> body st)"

record workspace_info =
  wi_id :: string
  wi_slug :: string
  wi_name :: string
  wi_has_key :: bool
  wi_model_allowlist :: "string list"
  wi_rate_limit_rpm :: "nat option"
  wi_system_prompt :: "string option"
  wi_has_system_prompt :: bool
  wi_created_at :: timestamp
  wi_net_namespace :: bool
  wi_ns_active :: bool
  wi_max_concurrent_requests :: "nat option"
  wi_max_models :: "nat option"
  wi_max_memory_bytes :: "nat option"

definition workspace_info_of :: "'ns ws_env \<Rightarrow> 'ns \<Rightarrow> workspace \<Rightarrow> workspace_info" where
  "workspace_info_of env ns w =
     \<lparr>wi_id = ws_id w, wi_slug = ws_slug w, wi_name = ws_name w, wi_has_key = (ws_api_key_hash w \<noteq> None),
      wi_model_allowlist = ws_model_allowlist w, wi_rate_limit_rpm = ws_rate_limit_rpm w, wi_system_prompt = ws_system_prompt w,
      wi_has_system_prompt = (ws_system_prompt w \<noteq> None), wi_created_at = ws_created_at w, wi_net_namespace = ws_net_namespace w,
      wi_ns_active = (ws_net_namespace w \<and> we_ns_exists env (ws_slug w) ns),
      wi_max_concurrent_requests = ws_max_concurrent_requests w, wi_max_models = ws_max_models w,
      wi_max_memory_bytes = ws_max_memory_bytes w\<rparr>"

definition list_workspaces :: "'ns ws_env \<Rightarrow> ws_caller \<Rightarrow> 'ns ws_state \<Rightarrow> ('ns, workspace_info list) ws_result" where
  "list_workspaces env c = ws_guarded c (\<lambda>st. (Inr (map (workspace_info_of env (wst_ns st)) (ws_list (wst_db st))), st))"

definition get_workspace :: "'ns ws_env \<Rightarrow> ws_caller \<Rightarrow> string \<Rightarrow> 'ns ws_state \<Rightarrow> ('ns, workspace_info) ws_result" where
  "get_workspace env c slug = ws_guarded c (\<lambda>st.
     (map_sum id (workspace_info_of env (wst_ns st)) (ok_or WsrNotFound (get_by_slug slug (wst_db st))), st))"

subsection \<open>Creating a workspace\<close>

text \<open>\<open>str::chars\<close> on well-formed text.\<close>

fun utf8_chars :: "nat list \<Rightarrow> ustring" where
  "utf8_chars (a # s) =
     (if a < 128 then a # utf8_chars s
      else if a < 224 then (case s of b # t \<Rightarrow> ((a - 192) * 64 + (b - 128)) # utf8_chars t | _ \<Rightarrow> [a])
      else if a < 240 then (case s of b # c # t \<Rightarrow> ((a - 224) * 4096 + (b - 128) * 64 + (c - 128)) # utf8_chars t | _ \<Rightarrow> [a])
      else (case s of b # c # d # t \<Rightarrow> ((a - 240) * 262144 + (b - 128) * 4096 + (c - 128) * 64 + (d - 128)) # utf8_chars t | _ \<Rightarrow> [a]))"
| "utf8_chars [] = []"

record create_workspace_req =
  cw_slug :: string
  cw_name :: string
  cw_api_key :: "string option"
  cw_no_key :: bool
  cw_model_allowlist :: "string list option"
  cw_rate_limit_rpm :: "nat option"
  cw_system_prompt :: "string option"
  cw_net_namespace :: bool
  cw_max_concurrent_requests :: "nat option"
  cw_max_models :: "nat option"
  cw_max_memory_bytes :: "nat option"

definition slug_of :: "'ns ws_env \<Rightarrow> string \<Rightarrow> string" where
  "slug_of env s = we_lowercase env (str_trim s)"

definition slug_ok :: "'ns ws_env \<Rightarrow> string \<Rightarrow> bool" where
  "slug_ok env slug \<longleftrightarrow> slug \<noteq> [] \<and> (\<forall>c \<in> set (utf8_chars (ascii slug)). we_alphanumeric env c \<or> c = 45 \<or> c = 95)"

definition simple_key :: "string \<Rightarrow> string" where
  "simple_key uuid = filter (\<lambda>c. c \<noteq> CHR ''-'') uuid"

text \<open>The key to show to the caller, and the hash to store.\<close>

definition new_key :: "'ns ws_env \<Rightarrow> ws_draw \<Rightarrow> create_workspace_req \<Rightarrow> string option \<times> string option" where
  "new_key env d req =
     (if cw_no_key req then (None, None)
      else case cw_api_key req of
        Some k \<Rightarrow> (None, Some (sha256_hex (we_crypto env) k))
      | None \<Rightarrow> (let raw = simple_key (wdr_key d) in (Some raw, Some (sha256_hex (we_crypto env) raw))))"

definition new_workspace :: "ws_draw \<Rightarrow> string \<Rightarrow> string option \<Rightarrow> create_workspace_req \<Rightarrow> workspace" where
  "new_workspace d slug key_hash req =
     \<lparr>ws_id = wdr_id d, ws_slug = slug, ws_name = cw_name req, ws_api_key_hash = key_hash,
      ws_model_allowlist = unwrap_or [] (cw_model_allowlist req), ws_rate_limit_rpm = cw_rate_limit_rpm req,
      ws_system_prompt = cw_system_prompt req, ws_created_at = wdr_now d, ws_net_namespace = cw_net_namespace req,
      ws_max_concurrent_requests = cw_max_concurrent_requests req, ws_max_models = cw_max_models req,
      ws_max_memory_bytes = cw_max_memory_bytes req, ws_dek = None\<rparr>"

definition create_namespace :: "'ns ws_env \<Rightarrow> string \<Rightarrow> bool \<Rightarrow> 'ns \<Rightarrow> (wsr_error, unit) result \<times> 'ns" where
  "create_namespace env slug wanted ns =
     (if \<not> wanted then (Inr (), ns)
      else if \<not> we_linux env then (Inl WsrNeedsLinux, ns)
      else let (r, ns') = ns_create (we_ip env) slug ns in (map_sum WsrNamespace id r, ns'))"

definition create_workspace ::
  "'ns ws_env \<Rightarrow> ws_caller \<Rightarrow> ws_draw \<Rightarrow> create_workspace_req \<Rightarrow> 'ns ws_state \<Rightarrow> ('ns, string option \<times> workspace_info) ws_result" where
  "create_workspace env c d req = ws_guarded c (\<lambda>st.
     let slug = slug_of env (cw_slug req) in
     if \<not> slug_ok env slug then (Inl WsrBadSlug, st)
     else let (api_key, key_hash) = new_key env d req in
       case create_namespace env slug (cw_net_namespace req) (wst_ns st) of
         (Inl e, ns) \<Rightarrow> (Inl e, st\<lparr>wst_ns := ns\<rparr>)
       | (Inr _, ns) \<Rightarrow>
           (let ws = new_workspace d slug key_hash req; st1 = st\<lparr>wst_ns := ns\<rparr> in
            case ws_create (we_crypto env) (wdr_nonce d) (wdr_dek d) ws (wst_db st1) of
              Inl e \<Rightarrow> (Inl (WsrDb e), st1)
            | Inr db \<Rightarrow> (Inr (api_key, workspace_info_of env ns ws), st1\<lparr>wst_db := db\<rparr>)))"

subsection \<open>Updating and deleting\<close>

record update_workspace_req =
  uw_name :: "string option"
  uw_api_key :: "string option"
  uw_clear_key :: "bool option"
  uw_rotate_key :: "bool option"
  uw_model_allowlist :: "string list option"
  uw_rate_limit_rpm :: "nat option"
  uw_clear_rate_limit :: "bool option"
  uw_system_prompt :: "string option"
  uw_clear_system_prompt :: "bool option"
  uw_max_concurrent_requests :: "nat option"
  uw_clear_max_concurrent_requests :: "bool option"
  uw_max_models :: "nat option"
  uw_clear_max_models :: "bool option"
  uw_max_memory_bytes :: "nat option"
  uw_clear_max_memory_bytes :: "bool option"

text \<open>A field that a flag clears, a value sets, and that is kept otherwise.\<close>

definition patched :: "bool option \<Rightarrow> 'a option \<Rightarrow> 'a option \<Rightarrow> 'a option" where
  "patched clear new old = (if clear = Some True then None else case new of Some v \<Rightarrow> Some v | None \<Rightarrow> old)"

definition patched_key :: "'ns ws_env \<Rightarrow> ws_draw \<Rightarrow> update_workspace_req \<Rightarrow> string option \<Rightarrow> string option \<times> string option" where
  "patched_key env d req old =
     (if uw_clear_key req = Some True then (None, None)
      else if uw_rotate_key req = Some True
      then let raw = simple_key (wdr_key d) in (Some raw, Some (sha256_hex (we_crypto env) raw))
      else case uw_api_key req of Some k \<Rightarrow> (None, Some (sha256_hex (we_crypto env) k)) | None \<Rightarrow> (None, old))"

definition patch_workspace :: "string option \<Rightarrow> update_workspace_req \<Rightarrow> workspace \<Rightarrow> workspace" where
  "patch_workspace key_hash req ws = ws\<lparr>
     ws_name := unwrap_or (ws_name ws) (uw_name req),
     ws_api_key_hash := key_hash,
     ws_model_allowlist := unwrap_or (ws_model_allowlist ws) (uw_model_allowlist req),
     ws_rate_limit_rpm := patched (uw_clear_rate_limit req) (uw_rate_limit_rpm req) (ws_rate_limit_rpm ws),
     ws_system_prompt := patched (uw_clear_system_prompt req) (uw_system_prompt req) (ws_system_prompt ws),
     ws_max_concurrent_requests := patched (uw_clear_max_concurrent_requests req) (uw_max_concurrent_requests req) (ws_max_concurrent_requests ws),
     ws_max_models := patched (uw_clear_max_models req) (uw_max_models req) (ws_max_models ws),
     ws_max_memory_bytes := patched (uw_clear_max_memory_bytes req) (uw_max_memory_bytes req) (ws_max_memory_bytes ws)\<rparr>"

definition update_workspace ::
  "'ns ws_env \<Rightarrow> ws_caller \<Rightarrow> ws_draw \<Rightarrow> string \<Rightarrow> update_workspace_req \<Rightarrow> 'ns ws_state \<Rightarrow> ('ns, string option \<times> workspace_info) ws_result" where
  "update_workspace env c d slug req = ws_guarded c (\<lambda>st.
     case get_by_slug slug (wst_db st) of
       None \<Rightarrow> (Inl WsrNotFound, st)
     | Some ws \<Rightarrow>
         (let (api_key, key_hash) = patched_key env d req (ws_api_key_hash ws);
              ws' = patch_workspace key_hash req ws
          in (Inr (api_key, workspace_info_of env (wst_ns st) ws'), st\<lparr>wst_db := snd (ws_update ws' (wst_db st))\<rparr>)))"

text \<open>A namespace that cannot be deleted is only warned about.\<close>

definition delete_namespace :: "'ns ws_env \<Rightarrow> string \<Rightarrow> bool \<Rightarrow> 'ns \<Rightarrow> 'ns" where
  "delete_namespace env slug has ns = (if has \<and> we_linux env \<and> we_ns_exists env slug ns then snd (ns_delete (we_ip env) slug ns) else ns)"

definition del_workspace :: "'ns ws_env \<Rightarrow> ws_caller \<Rightarrow> string \<Rightarrow> 'ns ws_state \<Rightarrow> ('ns, unit) ws_result" where
  "del_workspace env c slug = ws_guarded c (\<lambda>st.
     case get_by_slug slug (wst_db st) of
       None \<Rightarrow> (Inl WsrNotFound, st)
     | Some ws \<Rightarrow>
         (let st1 = st\<lparr>wst_ns := delete_namespace env slug (ws_net_namespace ws) (wst_ns st)\<rparr> in
          case ws_delete slug (wst_db st1) of
            (Inl e, db) \<Rightarrow> (Inl (WsrDb e), st1\<lparr>wst_db := db\<rparr>)
          | (Inr deleted, db) \<Rightarrow> (if deleted then Inr () else Inl WsrNotFound, st1\<lparr>wst_db := db\<rparr>)))"

subsection \<open>The table stays well typed\<close>

text \<open>Everything that changes the table: the routes, the destruction of a key, the rotation of the master key, and opening it
  again.\<close>

inductive ws_step :: "'ns ws_env \<Rightarrow> 'ns ws_state \<Rightarrow> 'ns ws_state \<Rightarrow> bool" for env where
  step_create: "ws_step env st (snd (create_workspace env c d req st))"
| step_update: "ws_step env st (snd (update_workspace env c d slug ureq st))"
| step_delete: "ws_step env st (snd (del_workspace env c slug st))"
| step_shred: "ws_step env st (st\<lparr>wst_db := snd (destroy_dek slug (wst_db st))\<rparr>)"
| step_rotate: "ws_step env st (st\<lparr>wst_db := snd (rotate_kek cr nonces old new (wst_db st))\<rparr>)"
| step_reopen: "ws_step env st (st\<lparr>wst_db := ws_open uuid now (wd_rows (wst_db st)) kek\<rparr>)"

definition slug_typed :: "'ns ws_env \<Rightarrow> string \<Rightarrow> bool" where
  "slug_typed env slug \<longleftrightarrow> slug = ''default'' \<or> (slug_ok env slug \<and> slug \<in> range (slug_of env))"

definition ws_keys :: "ws_row list \<Rightarrow> (string \<times> string) list" where
  "ws_keys rows = map (\<lambda>r. (ws_id (wr_ws r), ws_slug (wr_ws r))) rows"

definition ws_rows_ok :: "'ns ws_env \<Rightarrow> ws_row list \<Rightarrow> bool" where
  "ws_rows_ok env rows \<longleftrightarrow> distinct (map fst (ws_keys rows)) \<and> distinct (map snd (ws_keys rows)) \<and>
     (\<forall>s \<in> snd ` set (ws_keys rows). slug_typed env s) \<and> ''default'' \<in> snd ` set (ws_keys rows) \<and> dek_of ''default'' rows = None"

lemma keys_slugs: "map snd (ws_keys rows) = map (\<lambda>r. ws_slug (wr_ws r)) rows"
  by (simp add: ws_keys_def)

lemma rows_ok_slugs: "ws_rows_ok env rows \<Longrightarrow> slugs_ok rows"
  by (simp add: ws_rows_ok_def slugs_ok_def keys_slugs)

lemma rows_ok_same:
  "ws_rows_ok env rows \<Longrightarrow> ws_keys rows' = ws_keys rows \<Longrightarrow> dek_of ''default'' rows' = dek_of ''default'' rows \<Longrightarrow> ws_rows_ok env rows'"
  by (simp add: ws_rows_ok_def)

lemma keys_set_dek [simp]: "ws_keys (set_dek slug dek rows) = ws_keys rows"
  by (simp add: ws_keys_def set_dek_def comp_def)

lemma keys_update: "ws_keys (map (ws_update_row w) rows) = ws_keys rows"
  by (auto simp: ws_keys_def ws_update_row_def)

lemma keys_rotate: "rotate_loop cr nonces old new todo k rows = (res, rows') \<Longrightarrow> ws_keys rows' = ws_keys rows"
  by (induction cr nonces old new todo k rows rule: rotate_loop.induct) (auto split: sum.splits if_splits)

lemma ws_create_rows:
  assumes "ws_create cr nonce fresh ws db = Inr db'"
  obtains x where "wd_rows db' = wd_rows db @ [x]" "wr_ws x = ws" "ws_id ws \<notin> fst ` set (ws_keys (wd_rows db))"
    "ws_slug ws \<notin> snd ` set (ws_keys (wd_rows db))"
proof
  let ?x = "\<lparr>wr_ws = ws, wr_allowlist = join_comma (ws_model_allowlist ws),
     wr_dek = Some (case wd_kek db of Some kek \<Rightarrow> wrap_dek cr kek nonce (unwrap_or fresh (ws_dek ws)) | None \<Rightarrow> unwrap_or fresh (ws_dek ws))\<rparr>"
  show "wd_rows db' = wd_rows db @ [?x]" "ws_id ws \<notin> fst ` set (ws_keys (wd_rows db))" "ws_slug ws \<notin> snd ` set (ws_keys (wd_rows db))"
    using assms by (auto simp: ws_create_def Let_def ws_keys_def split: if_splits)
qed simp

lemma rows_ok_append:
  assumes "ws_rows_ok env rows" "ws_id (wr_ws x) \<notin> fst ` set (ws_keys rows)" "ws_slug (wr_ws x) \<notin> snd ` set (ws_keys rows)"
    "slug_typed env (ws_slug (wr_ws x))"
  shows "ws_rows_ok env (rows @ [x])"
proof -
  have "ws_keys (rows @ [x]) = ws_keys rows @ [(ws_id (wr_ws x), ws_slug (wr_ws x))]" by (simp add: ws_keys_def)
  moreover have "''default'' \<noteq> ws_slug (wr_ws x)" using assms(1,3) unfolding ws_rows_ok_def by metis
  moreover have "\<forall>r \<in> set rows. ws_slug (wr_ws r) \<noteq> ws_slug (wr_ws x)"
    using assms(3) by (simp add: ws_keys_def image_image) (metis image_eqI)
  ultimately show ?thesis
    using assms dek_of_append[of rows x "''default''"] by (auto simp: ws_rows_ok_def)
qed

lemma rows_ok_delete:
  assumes "ws_rows_ok env rows" "slug \<noteq> ''default''"
  shows "ws_rows_ok env (filter (\<lambda>r. ws_slug (wr_ws r) \<noteq> slug) rows)"
proof -
  have "ws_keys (filter (\<lambda>r. ws_slug (wr_ws r) \<noteq> slug) rows) = filter (\<lambda>k. snd k \<noteq> slug) (ws_keys rows)"
    by (simp add: ws_keys_def filter_map comp_def)
  moreover have "dek_of s (filter (\<lambda>r. ws_slug (wr_ws r) \<noteq> slug) rows) = dek_of s rows" if "s \<noteq> slug" for s
    using that by (induction rows) auto
  ultimately show ?thesis using assms
    by (auto simp: ws_rows_ok_def distinct_map_filter)
qed

lemma rotate_rows_ok:
  assumes "ws_rows_ok env (wd_rows db)"
  shows "ws_rows_ok env (wd_rows (snd (rotate_kek cr nonces old new db)))"
proof -
  obtain res rows' where run: "rotate_loop cr nonces old new (stored_deks (wd_rows db)) 0 (wd_rows db) = (res, rows')" by force
  have none: "''default'' \<notin> fst ` set (stored_deks (wd_rows db))"
    using stored_deks_dek_of[OF rows_ok_slugs[OF assms], of "''default''"] assms by (simp add: ws_rows_ok_def map_of_eq_None_iff)
  have "wd_rows (snd (rotate_kek cr nonces old new db)) = rows'"
    using run by (simp add: rotate_kek_def rotate_all_def stored_deks_def[symmetric] split: sum.split)
  then show ?thesis using rows_ok_same[OF assms keys_rotate[OF run] rotate_keeps_none[OF run none]] by simp
qed

lemma ws_guarded_cases: "snd (ws_guarded c body st) = st \<or> snd (ws_guarded c body st) = snd (body st)"
  by (auto simp: ws_guarded_def split: sum.split)

lemma create_rows_ok:
  assumes "ws_rows_ok env (wd_rows (wst_db st))"
  shows "ws_rows_ok env (wd_rows (wst_db (snd (create_workspace env c d req st))))"
proof -
  let ?slug = "slug_of env (cw_slug req)"
  have "ws_rows_ok env (wd_rows db)"
    if ok: "slug_ok env ?slug" "ws_create (we_crypto env) n f (new_workspace d ?slug h req) (wst_db st) = Inr db" for n f h db
  proof -
    obtain x where x: "wd_rows db = wd_rows (wst_db st) @ [x]" "wr_ws x = new_workspace d ?slug h req"
      "ws_id (wr_ws x) \<notin> fst ` set (ws_keys (wd_rows (wst_db st)))" "ws_slug (wr_ws x) \<notin> snd ` set (ws_keys (wd_rows (wst_db st)))"
      using ws_create_rows[OF ok(2)] by metis
    then show ?thesis using rows_ok_append[OF assms x(3,4)] ok(1) by (simp add: slug_typed_def new_workspace_def)
  qed
  then show ?thesis using assms
    by (auto simp: create_workspace_def ws_guarded_def Let_def split: sum.split prod.split)
qed

lemma ws_step_ok: "ws_step env st st' \<Longrightarrow> ws_rows_ok env (wd_rows (wst_db st)) \<Longrightarrow> ws_rows_ok env (wd_rows (wst_db st'))"
proof (induction rule: ws_step.induct)
  case (step_update st c d slug ureq)
  have "ws_rows_ok env (map (ws_update_row w) (wd_rows (wst_db st)))" for w
    using rows_ok_same[OF step_update keys_update] by (simp add: dek_of_update)
  then show ?case using step_update
    by (auto simp: update_workspace_def ws_guarded_def Let_def ws_update_def split: sum.split prod.split option.split)
next
  case (step_delete st c slug)
  then show ?case using rows_ok_delete
    by (auto simp: del_workspace_def ws_guarded_def Let_def ws_delete_def split: sum.split prod.split option.split)
next
  case (step_shred st slug)
  have "dek_of ''default'' (set_dek slug None (wd_rows (wst_db st))) = dek_of ''default'' (wd_rows (wst_db st))"
    using step_shred by (auto simp: dek_of_set_dek ws_rows_ok_def)
  then show ?case using rows_ok_same[OF step_shred] by (simp add: destroy_dek_def)
next
  case (step_reopen st uuid now kek)
  then have "\<exists>r \<in> set (wd_rows (wst_db st)). ws_id (wr_ws r) = uuid \<or> ws_slug (wr_ws r) = ''default''"
    by (auto simp: ws_rows_ok_def ws_keys_def)
  then show ?case using step_reopen by (simp add: ws_open_def)
qed (use create_rows_ok rotate_rows_ok in auto)

interpretation workspaces: inv_system "\<lambda>st. \<exists>uuid now kek. wst_db st = ws_open uuid now [] kek" "ws_step env" "\<lambda>st. ws_rows_ok env (wd_rows (wst_db st))"
  for env
proof
  show "ws_rows_ok env (wd_rows (wst_db st))" if "\<exists>uuid now kek. wst_db st = ws_open uuid now [] kek" for st :: "'a ws_state"
    using that by (auto simp: ws_open_def default_row_def ws_rows_ok_def ws_keys_def slug_typed_def)
qed (rule ws_step_ok)

text \<open>In well-formed text every byte below 128 is a character.\<close>

lemma utf8_low_byte: "utf8_valid s \<Longrightarrow> b \<in> set s \<Longrightarrow> b < 128 \<Longrightarrow> b \<in> set (utf8_chars s)"
proof (induction s rule: utf8_valid.induct)
  case (2 a s)
  show ?case
  proof (cases "a < 128")
    case True
    then show ?thesis using 2 by auto
  next
    case False
    then have b: "b \<in> set s" using 2 by auto
    consider "194 \<le> a" "a \<le> 223" | "224 \<le> a" "a \<le> 239" | "240 \<le> a"
      using False 2(5) by (auto split: list.splits if_splits)
    then show ?thesis
      using 2 False b by cases (auto simp: utf8_cont_def split: list.splits if_splits)
  qed
qed simp

lemma slug_bytes:
  assumes "slug_typed env slug" "\<And>s. is_utf8 (we_lowercase env s)" "c \<in> set slug" "of_char c < (128 :: nat)"
  shows "slug = ''default'' \<or> we_alphanumeric env (of_char c) \<or> c = CHR ''-'' \<or> c = CHR ''_''"
proof (cases "slug = ''default''")
  case False
  then have t: "slug_ok env slug" "is_utf8 slug" using assms(1,2) by (auto simp: slug_typed_def slug_of_def)
  have "of_char c \<in> set (utf8_chars (ascii slug))"
    using utf8_low_byte[of "ascii slug" "of_char c"] t(2) assms(3,4) by (simp add: is_utf8_def ascii_def)
  then have "we_alphanumeric env (of_char c) \<or> of_char c = (45 :: nat) \<or> of_char c = (95 :: nat)" using t(1) by (auto simp: slug_ok_def)
  moreover have "of_char (CHR ''-'') = (45 :: nat)" "of_char (CHR ''_'') = (95 :: nat)" by simp_all
  ultimately show ?thesis by (metis char_of_char)
qed simp

lemma default_found: "ws_rows_ok env (wd_rows db) \<Longrightarrow> \<exists>w. get_by_slug ''default'' db = Some w"
proof -
  assume "ws_rows_ok env (wd_rows db)"
  then have "\<exists>r \<in> set (wd_rows db). ws_slug (wr_ws r) = ''default''" by (auto simp: ws_rows_ok_def ws_keys_def)
  then show ?thesis by (cases "find (\<lambda>r. ws_slug (wr_ws r) = ''default'') (wd_rows db)") (auto simp: get_by_slug_def find_None_iff)
qed

text \<open>C14: the table of workspaces stays well typed. Whatever the routes, the destruction of keys, rotations of the master key
  and restarts did since the first start, ids and slugs are unique, every slug but the default's is non-empty, in the form
  the daemon stores, and of letters, digits, dashes and underscores only; so no slug has a byte that ends or leaves the
  directory of its audit log or the name of its namespace, and a request that names no workspace finds one.\<close>

theorem workspaces_typed:
  assumes "(ws_step env)\<^sup>*\<^sup>* (st0\<lparr>wst_db := ws_open uuid now [] kek\<rparr>) st" "rows = wd_rows (wst_db st)"
    and "\<And>s. is_utf8 (we_lowercase env s)" "\<not> we_alphanumeric env 0" "\<not> we_alphanumeric env 46" "\<not> we_alphanumeric env 47"
  shows "distinct (map (\<lambda>r. ws_id (wr_ws r)) rows) \<and> distinct (map (\<lambda>r. ws_slug (wr_ws r)) rows) \<and>
    (\<forall>r \<in> set rows. ws_slug (wr_ws r) = ''default'' \<or> slug_ok env (ws_slug (wr_ws r)) \<and> ws_slug (wr_ws r) \<in> range (slug_of env)) \<and>
    (\<forall>r \<in> set rows. set (ns_name (ws_slug (wr_ws r))) \<inter> {CHR 0x00, CHR ''.'', CHR ''/''} = {}) \<and>
    (\<forall>cr key h. hd_workspace h = None \<longrightarrow> (\<forall>s. workspace_from_request cr (wst_db st) key h \<noteq> Inl (WsNotFound s)))"
proof -
  have ok: "ws_rows_ok env rows"
    using workspaces.steps_inv[OF assms(1)] workspaces.inv_init[of "st0\<lparr>wst_db := ws_open uuid now [] kek\<rparr>" env] assms(2) by auto
  have typed: "slug_typed env (ws_slug (wr_ws r))" if "r \<in> set rows" for r
    using ok that by (auto simp: ws_rows_ok_def ws_keys_def)
  have safe: "c \<notin> {CHR 0x00, CHR ''.'', CHR ''/''}" if r: "r \<in> set rows" "c \<in> set (ws_slug (wr_ws r))" for r c
  proof
    assume c: "c \<in> {CHR 0x00, CHR ''.'', CHR ''/''}"
    then have low: "of_char c < (128 :: nat)" "of_char c \<in> {0, 46, 47 :: nat}" by auto
    then have "\<not> we_alphanumeric env (of_char c)" using assms(4-6) by auto
    then have "ws_slug (wr_ws r) = ''default''" using slug_bytes[OF typed[OF r(1)] assms(3) r(2) low(1)] c by auto
    then show False using r(2) c by auto
  qed
  obtain w where "get_by_slug ''default'' (wst_db st) = Some w" using default_found ok assms(2) by blast
  then have "workspace_from_request cr (wst_db st) key h \<noteq> Inl (WsNotFound s)" if "hd_workspace h = None" for cr key h s
    using that workspace_access[OF refl refl, of cr "wst_db st" key h] by auto
  moreover have "set (ns_name (ws_slug (wr_ws r))) \<inter> {CHR 0x00, CHR ''.'', CHR ''/''} = {}" if "r \<in> set rows" for r
    using safe[OF that] by (auto simp: ns_name_def NS_PREFIX_def)
  ultimately show ?thesis
    using ok typed by (auto simp: ws_rows_ok_def slug_typed_def ws_keys_def comp_def)
qed

definition demo_ws_env :: "string list ws_env" where
  "demo_ws_env = \<lparr>we_crypto = demo_crypto, we_alphanumeric = (\<lambda>c. 97 \<le> c \<and> c \<le> 122),
     we_lowercase = (\<lambda>s. map ascii_lower (filter (\<lambda>c. of_char c < (128 :: nat)) s)), we_linux = True,
     we_ip = (\<lambda>args ns. Some (True, case args of [_, _, n] \<Rightarrow> n # ns | _ \<Rightarrow> ns)), we_ns_exists = (\<lambda>slug ns. ns_name slug \<in> set ns)\<rparr>"

definition demo_caller :: ws_caller where
  "demo_caller = \<lparr>wc_resolve = (\<lambda>_. Inr None), wc_admin_key = None, wc_headers = \<lparr>hd_authorization = None, hd_workspace = None\<rparr>\<rparr>"

definition demo_draw :: ws_draw where
  "demo_draw = \<lparr>wdr_key = ''k-1'', wdr_id = ''2'', wdr_dek = demo_dek, wdr_nonce = ''123456789012'', wdr_now = 5\<rparr>"

definition demo_create :: create_workspace_req where
  "demo_create = \<lparr>cw_slug = ''Lab'', cw_name = ''Lab'', cw_api_key = None, cw_no_key = False, cw_model_allowlist = None, cw_rate_limit_rpm = None,
     cw_system_prompt = None, cw_net_namespace = True, cw_max_concurrent_requests = None, cw_max_models = None, cw_max_memory_bytes = None\<rparr>"

definition demo_ws_state :: "string list ws_state" where
  "demo_ws_state = snd (create_workspace demo_ws_env demo_caller demo_draw demo_create \<lparr>wst_db = ws_open ''1'' 0 [] None, wst_ns = []\<rparr>)"

lemma ascii_lower_low: "of_char c < (128 :: nat) \<Longrightarrow> of_char (ascii_lower c) < (128 :: nat)"
  by (auto simp: ascii_lower_def Let_def)

lemma demo_lower_utf8: "is_utf8 (we_lowercase demo_ws_env s)"
  by (auto simp: is_utf8_def demo_ws_env_def ascii_def intro!: utf8_ascii ascii_lower_low)

lemma demo_caller_ok [simp]: "ws_authorized demo_caller = Inr ()"
  by (simp add: ws_authorized_def authorize_permission_def authorize_privileged_def demo_caller_def bearer_from_headers_def admin_key_set_def)

lemma demo_env_sel [simp]:
  "we_crypto demo_ws_env = demo_crypto" "we_linux demo_ws_env" "we_ip demo_ws_env [a, b, n] ns = Some (True, n # ns)"
  by (simp_all add: demo_ws_env_def)

lemma demo_slug: "slug_of demo_ws_env ''Lab'' = ''lab''" "slug_ok demo_ws_env ''lab''"
proof -
  have "str_trim ''Lab'' = ''Lab''" by (rule str_trim_graphic) simp
  moreover have "map ascii_lower ''Lab'' = ''lab''" by code_simp
  ultimately show "slug_of demo_ws_env ''Lab'' = ''lab''" by (simp add: slug_of_def demo_ws_env_def)
  show "slug_ok demo_ws_env ''lab''" by (simp add: slug_ok_def demo_ws_env_def ascii_def)
qed

lemma demo_ws_rows: "map (\<lambda>r. ws_slug (wr_ws r)) (wd_rows (wst_db demo_ws_state)) = [''default'', ''lab'']"
  unfolding demo_ws_state_def create_workspace_def
  by (simp add: ws_guarded_def demo_create_def demo_slug new_key_def create_namespace_def ns_create_def run_ip_def
      new_workspace_def ws_create_def ws_open_def default_row_def demo_draw_def Let_def)

theorem workspaces_typed_witness:
  "distinct (map (\<lambda>r. ws_slug (wr_ws r)) (wd_rows (wst_db demo_ws_state))) \<and> length (wd_rows (wst_db demo_ws_state)) = 2"
proof -
  let ?st0 = "\<lparr>wst_db = ws_open ''1'' 0 [] None, wst_ns = [] :: string list\<rparr>"
  have "(ws_step demo_ws_env)\<^sup>*\<^sup>* (?st0\<lparr>wst_db := ws_open ''1'' 0 [] None\<rparr>) demo_ws_state"
    unfolding demo_ws_state_def by (simp add: r_into_rtranclp ws_step.step_create)
  from workspaces_typed[OF this refl demo_lower_utf8] show ?thesis
    using arg_cong[OF demo_ws_rows, of length] by (simp add: demo_ws_env_def)
qed

subsection \<open>Documents are stored in the clear\<close>

text \<open>The store as the daemon opens it at a start, on tables that a run before left.\<close>

definition open_rag :: "crypto \<Rightarrow> workspace_db \<Rightarrow> vector_store \<Rightarrow> vector_store" where
  "open_rag cr db tables = (case rag_dek cr db of Some dek \<Rightarrow> with_dek dek tables | None \<Rightarrow> tables\<lparr>vs_dek := None\<rparr>)"

lemma no_rag_dek: "ws_rows_ok env (wd_rows db) \<Longrightarrow> rag_dek cr db = None"
  by (simp add: rag_dek_def get_dek_unfold ws_rows_ok_def)

text \<open>C13: documents are never encrypted. The retrieval store takes the key of the default workspace, and the migration that
  makes that workspace gives it none; no route, rotation or restart ever does. So every chunk is stored as it is, and
  destroying the key of any workspace, the default's included, leaves every document readable after a restart.\<close>

theorem documents_in_clear:
  assumes "(ws_step env)\<^sup>*\<^sup>* (st0\<lparr>wst_db := ws_open uuid now [] kek\<rparr>) st" "db = wst_db st"
    and "rag_ok tables" "random_ok random chunks" "chunks \<noteq> []" "\<forall>c \<in> set chunks. \<not> is_encrypted (cr_text c)"
    and "insert_document cr time did random coll source sha chunks title author pages (open_rag cr db tables) = (Inr did, t)"
  shows "rag_dek cr db = None \<and>
    map ch_text (filter (\<lambda>c. ch_document_id c = did) (vs_chunks t)) = map cr_text chunks \<and>
    (\<forall>slug. get_document_text cr (open_rag cr (snd (destroy_dek slug db)) t) did = Inr (Some (join_paragraphs (map cr_text chunks))))"
proof -
  have ok: "ws_rows_ok env (wd_rows db)"
    using workspaces.steps_inv[OF assms(1)] workspaces.inv_init[of "st0\<lparr>wst_db := ws_open uuid now [] kek\<rparr>" env] assms(2) by auto
  let ?s = "tables\<lparr>vs_dek := None\<rparr>"
  have s: "open_rag cr db tables = ?s" "rag_ok ?s" using no_rag_dek[OF ok] assms(3) by (simp_all add: open_rag_def rag_ok_def)
  have len: "length random = length chunks" using assms(4) by (simp add: random_ok_def)
  have plain: "map ch_text (chunk_db_rows cr None did coll random chunks) = map cr_text chunks"
    using len by (intro nth_equalityI) (simp_all add: chunk_db_rows_nth maybe_encrypt_def)
  note ins = assms(7)[unfolded s(1)]
  have dec: "decrypt_all cr None (map cr_text cs) = Inr (map cr_text cs)" if "set cs \<subseteq> set chunks" for cs
    using that assms(6) by (induction cs) (auto simp: maybe_decrypt_def)
  have read: "get_document_text cr t did = Inr (Some (join_paragraphs (map cr_text chunks)))"
    using get_inserted_text[OF s(2) ins len assms(5)] dec[of chunks] by (simp add: plain)
  have "rag_dek cr (snd (destroy_dek slug db)) = None" for slug
    using no_rag_dek[OF ws_step_ok[OF ws_step.step_shred[of env st slug]]] ok assms(2) by simp
  moreover have "t\<lparr>vs_dek := None\<rparr> = t" using inserted_rows(2)[OF s(2) ins] by simp
  ultimately show ?thesis
    using no_rag_dek[OF ok] inserted_rows(3)[OF s(2) ins] plain read by (simp add: open_rag_def)
qed

theorem documents_in_clear_witness:
  "map ch_text (filter (\<lambda>c. ch_document_id c = ''d1'') (vs_chunks (snd (insert_document demo_crypto [] ''d1'' demo_random ''docs'' ''f'' ''h''
     [demo_chunk] None None 1 (open_rag demo_crypto (wst_db demo_ws_state) demo_rag_empty))))) = [cr_text demo_chunk]"
proof -
  let ?st0 = "\<lparr>wst_db = ws_open ''1'' 0 [] None, wst_ns = [] :: string list\<rparr>"
  let ?ins = "insert_document demo_crypto [] ''d1'' demo_random ''docs'' ''f'' ''h'' [demo_chunk] None None 1 (open_rag demo_crypto (wst_db demo_ws_state) demo_rag_empty)"
  have run: "(ws_step demo_ws_env)\<^sup>*\<^sup>* (?st0\<lparr>wst_db := ws_open ''1'' 0 [] None\<rparr>) demo_ws_state"
    unfolding demo_ws_state_def by (simp add: r_into_rtranclp ws_step.step_create)
  have "rag_ok demo_rag_empty" using rag_store.reach_inv[OF demo_rag_empty_reach] .
  moreover have "random_ok demo_random [demo_chunk]" by (simp add: random_ok_def demo_random_def)
  moreover have "\<not> is_encrypted (cr_text demo_chunk)" by (simp add: demo_chunk_def is_encrypted_def starts_with_def)
  moreover have "?ins = (Inr ''d1'', snd ?ins)"
    by (simp add: open_rag_def with_dek_def demo_rag_empty_def ensure_collection_def store_open_def insert_document_def Let_def demo_random_def chunk_db_rows_def split: option.split)
  ultimately show ?thesis using documents_in_clear[OF run refl, of demo_rag_empty demo_random "[demo_chunk]"] by fastforce
qed

subsection \<open>Keys of a workspace\<close>

definition bearer_text :: "headers \<Rightarrow> string" where
  "bearer_text h = unwrap_or [] (case hd_authorization h of None \<Rightarrow> None | Some v \<Rightarrow> strip_prefix ''Bearer '' v)"

lemma find_update_row:
  "find (\<lambda>r. ws_slug (wr_ws r) = s) (map (ws_update_row w) rows) = map_option (ws_update_row w) (find (\<lambda>r. ws_slug (wr_ws r) = s) rows)"
  by (induction rows) (auto simp: ws_update_row_def)

lemma get_updated:
  assumes "get_by_slug slug db = Some ws" "ws_slug w = slug"
  shows "get_by_slug s (snd (ws_update w db)) =
    (if s = slug then Some (w\<lparr>ws_id := ws_id ws, ws_created_at := ws_created_at ws,
        ws_model_allowlist := parse_allowlist (join_comma (ws_model_allowlist w)), ws_dek := ws_dek ws\<rparr>)
     else get_by_slug s db)"
proof (cases "find (\<lambda>r. ws_slug (wr_ws r) = s) (wd_rows db)")
  case None
  then show ?thesis using assms by (auto simp: get_by_slug_def ws_update_def find_update_row)
next
  case (Some r)
  then have r: "ws_slug (wr_ws r) = s" by (auto simp: find_Some_iff)
  have "get_by_slug s (snd (ws_update w db)) = Some (row_workspace (ws_update_row w r))" "get_by_slug s db = Some (row_workspace r)"
    by (simp_all add: get_by_slug_def ws_update_def find_update_row Some)
  then show ?thesis using assms r by (auto simp: ws_update_row_def row_workspace_def)
qed

lemma get_by_slug_slug: "get_by_slug slug db = Some ws \<Longrightarrow> ws_slug ws = slug"
  by (auto simp: get_by_slug_def find_Some_iff row_workspace_def)

text \<open>A rotation replaces the key of one workspace. The answer holds the new key once; from then on a request opens the
  workspace exactly with a key of the same digest or the administrator's key, so that the old key is refused. Other
  workspaces, their keys and all data keys are as before, and a caller without the permission changes nothing.\<close>

lemma workspace_key_rotated:
  assumes "get_by_slug slug (wst_db st) = Some ws" "uw_rotate_key req = Some True" "uw_clear_key req \<noteq> Some True"
    and "update_workspace env c d slug req st = (r, st')"
  shows "case ws_authorized c of
      Inl e \<Rightarrow> r = Inl e \<and> st' = st
    | Inr _ \<Rightarrow> (\<exists>info. r = Inr (Some (simple_key (wdr_key d)), info) \<and> wi_slug info = slug \<and> wi_has_key info) \<and>
        (\<forall>h key. hd_workspace h = Some slug \<longrightarrow>
           ((\<exists>w. workspace_from_request (we_crypto env) (wst_db st') key h = Inr w) \<longleftrightarrow>
              sha256_hex (we_crypto env) (bearer_text h) = sha256_hex (we_crypto env) (simple_key (wdr_key d)) \<or>
              (key = Some (bearer_text h) \<and> bearer_text h \<noteq> []))) \<and>
        (\<forall>s. s \<noteq> slug \<longrightarrow> get_by_slug s (wst_db st') = get_by_slug s (wst_db st)) \<and>
        (\<forall>s. get_dek_bytes (we_crypto env) s (wst_db st') = get_dek_bytes (we_crypto env) s (wst_db st)) \<and> wst_ns st' = wst_ns st"
proof (cases "ws_authorized c")
  case (Inl e)
  then show ?thesis using assms(4) by (auto simp: update_workspace_def ws_guarded_def)
next
  case (Inr u)
  let ?hash = "sha256_hex (we_crypto env) (simple_key (wdr_key d))"
  let ?w = "patch_workspace (Some ?hash) req ws"
  have slug: "ws_slug ws = slug" using get_by_slug_slug[OF assms(1)] .
  have out: "r = Inr (Some (simple_key (wdr_key d)), workspace_info_of env (wst_ns st) ?w)" "st' = st\<lparr>wst_db := snd (ws_update ?w (wst_db st))\<rparr>"
    using assms Inr by (auto simp: update_workspace_def ws_guarded_def patched_key_def Let_def)
  have w: "ws_slug ?w = slug" "ws_api_key_hash ?w = Some ?hash" using slug by (simp_all add: patch_workspace_def)
  note look = get_updated[OF assms(1) w(1)]
  have "(\<exists>x. workspace_from_request (we_crypto env) (wst_db st') key h = Inr x) \<longleftrightarrow>
      sha256_hex (we_crypto env) (bearer_text h) = ?hash \<or> (key = Some (bearer_text h) \<and> bearer_text h \<noteq> [])"
    if "hd_workspace h = Some slug" for h key
    using workspace_access[OF refl refl, of "we_crypto env" "wst_db st'" key h] that w(2) look[of slug]
    by (auto simp: out(2) bearer_text_def)
  moreover have "get_dek_bytes (we_crypto env) s (wst_db st') = get_dek_bytes (we_crypto env) s (wst_db st)" for s
  proof -
    have "wd_kek (wst_db st') = wd_kek (wst_db st)" "dek_of s (wd_rows (wst_db st')) = dek_of s (wd_rows (wst_db st))"
      by (simp_all add: out(2) ws_update_def dek_of_update)
    then show ?thesis unfolding get_dek_unfold by (simp only:)
  qed
  ultimately show ?thesis
    using look w unfolding Inr by (auto simp: out workspace_info_of_def)
qed

definition demo_rotate :: update_workspace_req where
  "demo_rotate = \<lparr>uw_name = None, uw_api_key = None, uw_clear_key = None, uw_rotate_key = Some True, uw_model_allowlist = None,
     uw_rate_limit_rpm = None, uw_clear_rate_limit = None, uw_system_prompt = None, uw_clear_system_prompt = None,
     uw_max_concurrent_requests = None, uw_clear_max_concurrent_requests = None, uw_max_models = None, uw_clear_max_models = None,
     uw_max_memory_bytes = None, uw_clear_max_memory_bytes = None\<rparr>"

text \<open>A namespace is made before the row is: when the slug is taken by a workspace without a namespace the request fails, and the
  namespace stays.\<close>

lemma create_conflict_keeps_namespace:
  assumes "ws_authorized c = Inr ()" "slug = slug_of env (cw_slug req)" "slug_ok env slug" "cw_net_namespace req" "we_linux env"
    and "ns_create (we_ip env) slug (wst_ns st) = (Inr (), ns)" "get_by_slug slug (wst_db st) = Some ws"
  shows "create_workspace env c d req st = (Inl (WsrDb WsUnique), st\<lparr>wst_ns := ns\<rparr>)"
proof -
  have "\<exists>r \<in> set (wd_rows (wst_db st)). ws_slug (wr_ws r) = slug"
    using assms(7) by (auto simp: get_by_slug_def find_Some_iff)
  then show ?thesis using assms
    by (auto simp: create_workspace_def ws_guarded_def create_namespace_def ws_create_def new_workspace_def Let_def split: prod.split)
qed

end
