(* ===== verification/Signature.thy ===== *)
theory Signature
  imports Crypto Events
begin

section \<open>Signed records\<close>

text \<open>
  Holds, approval tokens and baselines are signed with Ed25519 over the JSON of their fields. The crates
  \<open>ed25519-dalek\<close>, \<open>base64\<close>, \<open>hex\<close> and \<open>serde_json\<close> are the record \<open>sig_env\<close>; \<open>ed_point\<close> tells which 32 bytes
  \<open>VerifyingKey::from_bytes\<close> takes, and \<open>ed_verify\<close> has the public key, the message and the signature.
\<close>

record sig_env =
  ed_public :: "bytes \<Rightarrow> bytes"
  ed_sign :: "bytes \<Rightarrow> bytes \<Rightarrow> bytes"
  ed_verify :: "bytes \<Rightarrow> bytes \<Rightarrow> bytes \<Rightarrow> bool"
  ed_point :: "bytes \<Rightarrow> bool"
  b64_encode :: "bytes \<Rightarrow> string"
  b64_decode :: "string \<Rightarrow> bytes option"
  hexenc :: "bytes \<Rightarrow> string"
  hexdec :: "string \<Rightarrow> bytes option"
  json_vec :: "json \<Rightarrow> bytes"

text \<open>What the crates document: base64 decodes what it encoded, a public key has 32 bytes and a
  signature 64, and a signature verifies with the key of its signer.\<close>

definition sig_ok :: "'a sig_env_scheme \<Rightarrow> bool" where
  "sig_ok env \<longleftrightarrow> (\<forall>b. b64_decode env (b64_encode env b) = Some b) \<and>
     (\<forall>sk. length sk = 32 \<longrightarrow> length (ed_public env sk) = 32 \<and> ed_point env (ed_public env sk) \<and>
        (\<forall>m. length (ed_sign env sk m) = 64 \<and> ed_verify env (ed_public env sk) m (ed_sign env sk m)))"

datatype sig_error = BadEncoding | WrongLength | BadPoint | SignatureInvalid | TokenExpired timestamp

text \<open>The check that all of them make: the key and the signature are in the record itself.\<close>

definition check_signature :: "'a sig_env_scheme \<Rightarrow> string \<Rightarrow> string \<Rightarrow> json \<Rightarrow> (sig_error, unit) result" where
  "check_signature env pubkey signature payload =
     rbind (ok_or BadEncoding (b64_decode env pubkey)) (\<lambda>pk.
       if length pk \<noteq> 32 then Inl WrongLength
       else if \<not> ed_point env pk then Inl BadPoint
       else rbind (ok_or BadEncoding (b64_decode env signature)) (\<lambda>sig.
         if length sig \<noteq> 64 then Inl WrongLength
         else if ed_verify env pk (json_vec env payload) sig then Inr () else Inl SignatureInvalid))"

lemma check_own_signature:
  assumes "sig_ok env" "length key = 32"
  shows "check_signature env (b64_encode env (ed_public env key)) (b64_encode env (ed_sign env key (json_vec env p))) p = Inr ()"
  using assms by (simp add: check_signature_def sig_ok_def)

lemma check_signature_iff:
  "check_signature env pubkey signature p = Inr () \<longleftrightarrow> (\<exists>pk sig. b64_decode env pubkey = Some pk \<and> length pk = 32 \<and>
     ed_point env pk \<and> b64_decode env signature = Some sig \<and> length sig = 64 \<and> ed_verify env pk (json_vec env p) sig)"
  by (auto simp: check_signature_def rbind_Inr_iff split: if_splits)

text \<open>The contract of a signed record: signing sets the key and the signature of the payload, and
  verification is the check of what the record itself holds. So a record verifies for whoever signed it.\<close>

locale signed_record =
  fixes env :: "'e sig_env_scheme" and sign :: "bytes \<Rightarrow> 'a \<Rightarrow> 'a" and payload :: "'a \<Rightarrow> json"
    and pubkey :: "'a \<Rightarrow> string" and signature :: "'a \<Rightarrow> string"
  assumes sign_key: "pubkey (sign key x) = b64_encode env (ed_public env key)"
    and sign_sig: "signature (sign key x) = b64_encode env (ed_sign env key (json_vec env (payload (sign key x))))"
begin

lemma signed_verifies:
  "sig_ok env \<Longrightarrow> length key = 32 \<Longrightarrow> check_signature env (pubkey (sign key x)) (signature (sign key x)) (payload (sign key x)) = Inr ()"
  unfolding sign_key sign_sig by (rule check_own_signature)

end

end
