(* ===== verification/Gguf.thy ===== *)
theory Gguf
  imports Crypto
begin

section \<open>Model file headers\<close>

text \<open>
  \<open>crates/maranode-common/src/gguf.rs\<close>: the search for the context length in the metadata of a GGUF
  file. A file is the list of its bytes, the reader's state its position. \<open>max_off\<close> is the largest offset
  that the file system lets \<open>seek\<close> reach; seeking behind the end of the file is no error. The recursion
  of \<open>skip_value\<close> into nested arrays has fuel, the number of bytes of the file, which is never used up.
  Keys are compared as bytes: a name that \<open>from_utf8_lossy\<close> had to repair is not the ASCII name sought.
\<close>

datatype gguf_error = UnexpectedEof | InvalidSeek | KeyTooLong | UnknownValueType | FuelUsedUp

definition read_exact :: "bytes \<Rightarrow> nat \<Rightarrow> nat \<Rightarrow> (gguf_error, bytes \<times> nat) result" where
  "read_exact data n pos =
     (if n = 0 \<or> pos + n \<le> length data then Inr (take n (drop pos data), pos + n) else Inl UnexpectedEof)"

definition le_nat :: "bytes \<Rightarrow> nat" where
  "le_nat b = foldr (\<lambda>c n. of_char c + 256 * n) b 0"

definition read_u32 :: "bytes \<Rightarrow> nat \<Rightarrow> (gguf_error, nat \<times> nat) result" where
  "read_u32 data pos = rbind (read_exact data 4 pos) (\<lambda>(b, pos). Inr (le_nat b, pos))"

definition read_u64 :: "bytes \<Rightarrow> nat \<Rightarrow> (gguf_error, nat \<times> nat) result" where
  "read_u64 data pos = rbind (read_exact data 8 pos) (\<lambda>(b, pos). Inr (le_nat b, pos))"

definition read_count :: "bytes \<Rightarrow> nat \<Rightarrow> nat \<Rightarrow> (gguf_error, nat \<times> nat) result" where
  "read_count data version pos = (if version = 1 then read_u32 data pos else read_u64 data pos)"

definition read_string :: "bytes \<Rightarrow> nat \<Rightarrow> nat \<Rightarrow> (gguf_error, bytes \<times> nat) result" where
  "read_string data version pos =
     rbind (read_count data version pos) (\<lambda>(len, pos).
       if len > 4096 then Inl KeyTooLong else read_exact data len pos)"

definition seek_current :: "nat \<Rightarrow> nat \<Rightarrow> nat \<Rightarrow> (gguf_error, nat) result" where
  "seek_current max_off n pos = (if pos + n \<le> max_off then Inr (pos + n) else Inl InvalidSeek)"

primrec times :: "nat \<Rightarrow> ('s \<Rightarrow> ('e, 's) result) \<Rightarrow> 's \<Rightarrow> ('e, 's) result" where
  "times 0 f s = Inr s"
| "times (Suc n) f s = rbind (f s) (times n f)"

primrec skip_value :: "nat \<Rightarrow> bytes \<Rightarrow> nat \<Rightarrow> nat \<Rightarrow> nat \<Rightarrow> nat \<Rightarrow> (gguf_error, nat) result" where
  "skip_value 0 data max_off version val_type pos = Inl FuelUsedUp"
| "skip_value (Suc fuel) data max_off version val_type pos =
     (if val_type \<in> {0, 7, 1} then seek_current max_off 1 pos
      else if val_type \<in> {2, 3} then seek_current max_off 2 pos
      else if val_type \<in> {4, 5, 6} then seek_current max_off 4 pos
      else if val_type = 8 then rbind (read_string data version pos) (\<lambda>(_, pos). Inr pos)
      else if val_type = 9 then
        rbind (read_u32 data pos) (\<lambda>(elem_type, pos).
        rbind (read_count data version pos) (\<lambda>(count, pos).
          times count (skip_value fuel data max_off version elem_type) pos))
      else if val_type \<in> {10, 11, 12} then seek_current max_off 8 pos
      else Inl UnknownValueType)"

primrec kv_loop :: "nat \<Rightarrow> bytes \<Rightarrow> nat \<Rightarrow> nat \<Rightarrow> nat \<Rightarrow> (gguf_error, nat option) result" where
  "kv_loop 0 data max_off version pos = Inr None"
| "kv_loop (Suc n) data max_off version pos =
     rbind (read_string data version pos) (\<lambda>(key, pos).
     rbind (read_u32 data pos) (\<lambda>(val_type, pos).
       if key = ''llama.context_length'' \<and> val_type = 4 then rbind (read_u32 data pos) (\<lambda>(v, _). Inr (Some v))
       else rbind (skip_value (length data + 1) data max_off version val_type pos) (\<lambda>pos.
              kv_loop n data max_off version pos)))"

definition read_context_length_from :: "bytes \<Rightarrow> nat \<Rightarrow> (gguf_error, nat option) result" where
  "read_context_length_from data max_off =
     rbind (read_exact data 4 0) (\<lambda>(magic, pos).
       if magic \<noteq> ''GGUF'' then Inr None
       else rbind (read_u32 data pos) (\<lambda>(version, pos).
         if version = 0 \<or> version > 3 then Inr None
         else rbind (read_count data version pos) (\<lambda>(_, pos).
              rbind (read_count data version pos) (\<lambda>(n_kv, pos).
                kv_loop n_kv data max_off version pos))))"

definition read_context_length :: "bytes option \<Rightarrow> nat \<Rightarrow> nat option" where
  "read_context_length file max_off = (case file of
      None \<Rightarrow> None
    | Some data \<Rightarrow> (case read_context_length_from data max_off of Inl _ \<Rightarrow> None | Inr c \<Rightarrow> c))"

subsection \<open>The format\<close>

text \<open>Metadata as the format defines them: values of fixed size with their type, strings and arrays of
  values of one type.\<close>

datatype meta = MFixed nat bytes | MStr bytes | MArr nat "meta list"

fun fixed_size :: "nat \<Rightarrow> nat" where
  "fixed_size t = (if t \<in> {0, 1, 7} then 1 else if t \<in> {2, 3} then 2 else if t \<in> {4, 5, 6} then 4
     else if t \<in> {10, 11, 12} then 8 else 0)"

fun meta_type :: "meta \<Rightarrow> nat" where
  "meta_type (MFixed t b) = t"
| "meta_type (MStr s) = 8"
| "meta_type (MArr t vs) = 9"

definition le_bytes :: "nat \<Rightarrow> nat \<Rightarrow> bytes" where
  "le_bytes k n = map (\<lambda>i. char_of (n div 256 ^ i mod 256)) [0..<k]"

definition enc_count :: "nat \<Rightarrow> nat \<Rightarrow> bytes" where
  "enc_count version n = (if version = 1 then le_bytes 4 n else le_bytes 8 n)"

definition enc_string :: "nat \<Rightarrow> bytes \<Rightarrow> bytes" where
  "enc_string version s = enc_count version (length s) @ s"

primrec enc_meta :: "nat \<Rightarrow> meta \<Rightarrow> bytes" where
  "enc_meta version (MFixed t b) = b"
| "enc_meta version (MStr s) = enc_string version s"
| "enc_meta version (MArr t vs) = le_bytes 4 t @ enc_count version (length vs) @ concat (map (enc_meta version) vs)"

definition enc_kv :: "nat \<Rightarrow> bytes \<times> meta \<Rightarrow> bytes" where
  "enc_kv version kv = enc_string version (fst kv) @ le_bytes 4 (meta_type (snd kv)) @ enc_meta version (snd kv)"

definition enc_gguf :: "nat \<Rightarrow> nat \<Rightarrow> (bytes \<times> meta) list \<Rightarrow> bytes \<Rightarrow> bytes" where
  "enc_gguf version n_tensors kvs tensors =
     ''GGUF'' @ le_bytes 4 version @ enc_count version n_tensors @ enc_count version (length kvs) @
     concat (map (enc_kv version) kvs) @ tensors"

definition count_ok :: "nat \<Rightarrow> nat \<Rightarrow> bool" where
  "count_ok version n \<longleftrightarrow> n < (if version = 1 then 2 ^ 32 else 2 ^ 64)"

fun meta_ok :: "nat \<Rightarrow> meta \<Rightarrow> bool" where
  "meta_ok version (MFixed t b) \<longleftrightarrow> t \<in> {0, 1, 2, 3, 4, 5, 6, 7, 10, 11, 12} \<and> length b = fixed_size t"
| "meta_ok version (MStr s) \<longleftrightarrow> count_ok version (length s)"
| "meta_ok version (MArr t vs) \<longleftrightarrow> t < 13 \<and> count_ok version (length vs) \<and> (\<forall>v \<in> set vs. meta_type v = t \<and> meta_ok version v)"

text \<open>The values that the reader can step over: no string in them is longer than 4096 bytes.\<close>

fun short_strings :: "meta \<Rightarrow> bool" where
  "short_strings (MFixed t b) = True"
| "short_strings (MStr s) \<longleftrightarrow> length s \<le> 4096"
| "short_strings (MArr t vs) \<longleftrightarrow> (\<forall>v \<in> set vs. short_strings v)"

fun find_context :: "(bytes \<times> meta) list \<Rightarrow> nat option" where
  "find_context [] = None"
| "find_context ((key, v) # kvs) =
     (if length key > 4096 then None
      else if key = ''llama.context_length'' \<and> meta_type v = 4 then (case v of MFixed _ b \<Rightarrow> Some (le_nat b) | _ \<Rightarrow> None)
      else if short_strings v then find_context kvs else None)"

subsection \<open>Reading what was written\<close>

lemma le_bytes_Suc: "le_bytes (Suc k) n = char_of (n mod 256) # le_bytes k (n div 256)"
  unfolding le_bytes_def by (simp add: upt_conv_Cons map_Suc_upt[symmetric] div_mult2_eq del: upt_Suc)

lemma length_le_bytes [simp]: "length (le_bytes k n) = k"
  by (simp add: le_bytes_def)

lemma le_nat_bytes: "n < 256 ^ k \<Longrightarrow> le_nat (le_bytes k n) = n"
proof (induction k arbitrary: n)
  case 0
  then show ?case by (simp add: le_bytes_def le_nat_def)
next
  case (Suc k)
  then have "n div 256 < 256 ^ k" by (simp add: less_mult_imp_div_less mult.commute)
  with Suc.IH show ?case by (simp add: le_bytes_Suc le_nat_def)
qed

definition at :: "bytes \<Rightarrow> nat \<Rightarrow> bytes \<Rightarrow> bool" where
  "at data pos s \<longleftrightarrow> (\<exists>pre post. data = pre @ s @ post \<and> length pre = pos)"

lemma at_append: "at data pos (a @ b) \<longleftrightarrow> at data pos a \<and> at data (pos + length a) b"
proof
  assume "at data pos (a @ b)"
  then obtain pre post where "data = pre @ a @ b @ post" "length pre = pos" by (auto simp: at_def)
  then show "at data pos a \<and> at data (pos + length a) b"
    unfolding at_def by (metis append.assoc length_append)
next
  assume "at data pos a \<and> at data (pos + length a) b"
  then obtain pre post pre' post' where d: "data = pre @ a @ post" "length pre = pos"
    "data = pre' @ b @ post'" "length pre' = pos + length a" unfolding at_def by metis
  then have "pre' = pre @ a" by (metis append.assoc append_eq_append_conv length_append)
  with d show "at data pos (a @ b)" unfolding at_def by (metis append.assoc)
qed

lemma at_length: "at data pos s \<Longrightarrow> pos + length s \<le> length data"
  by (auto simp: at_def)

lemma read_exact_at: "at data pos s \<Longrightarrow> read_exact data (length s) pos = Inr (s, pos + length s)"
  by (auto simp: at_def read_exact_def)

lemma read_u32_at: "at data pos (le_bytes 4 n) \<Longrightarrow> n < 2 ^ 32 \<Longrightarrow> read_u32 data pos = Inr (n, pos + 4)"
  using read_exact_at[of data pos "le_bytes 4 n"] by (simp add: read_u32_def le_nat_bytes)

lemma read_count_at:
  assumes "at data pos (enc_count v n)" "count_ok v n"
  shows "read_count data v pos = Inr (n, pos + length (enc_count v n))"
proof (cases "v = 1")
  case True
  then show ?thesis using assms by (simp add: read_count_def enc_count_def count_ok_def read_u32_at)
next
  case False
  then show ?thesis using assms read_exact_at[of data pos "le_bytes 8 n"]
    by (simp add: read_count_def enc_count_def count_ok_def read_u64_def le_nat_bytes)
qed

lemma read_string_at:
  assumes "at data pos (enc_string v s)" "count_ok v (length s)"
  shows "read_string data v pos = (if length s \<le> 4096 then Inr (s, pos + length (enc_string v s)) else Inl KeyTooLong)"
  using assms read_count_at[of data pos v "length s"] read_exact_at[of data "pos + length (enc_count v (length s))" s]
  by (simp add: enc_string_def at_append read_string_def add.assoc)

lemma times_skip:
  assumes "\<And>m p. m \<in> set vs \<Longrightarrow> at data p (enc_meta v m) \<Longrightarrow>
      f p = (if short_strings m then Inr (p + length (enc_meta v m)) else Inl KeyTooLong)"
    and "at data pos (concat (map (enc_meta v) vs))"
  shows "times (length vs) f pos =
    (if \<forall>m \<in> set vs. short_strings m then Inr (pos + length (concat (map (enc_meta v) vs))) else Inl KeyTooLong)"
  using assms
proof (induction vs arbitrary: pos)
  case (Cons m vs)
  have m: "at data pos (enc_meta v m)" "at data (pos + length (enc_meta v m)) (concat (map (enc_meta v) vs))"
    using Cons.prems(2) by (simp_all add: at_append)
  have IH: "times (length vs) f (pos + length (enc_meta v m)) =
      (if \<forall>m \<in> set vs. short_strings m then Inr (pos + length (enc_meta v m) + length (concat (map (enc_meta v) vs))) else Inl KeyTooLong)"
    by (rule Cons.IH[OF Cons.prems(1) m(2)]) simp_all
  show ?case using Cons.prems(1)[OF _ m(1)] IH by simp
qed simp

lemma length_enc_meta_mem: "m \<in> set vs \<Longrightarrow> length (enc_meta v m) \<le> length (concat (map (enc_meta v) vs))"
  by (induction vs) auto

lemma skip_value_at:
  assumes "meta_ok v m" "at data pos (enc_meta v m)" "length data \<le> max_off" "length (enc_meta v m) < fuel"
  shows "skip_value fuel data max_off v (meta_type m) pos =
    (if short_strings m then Inr (pos + length (enc_meta v m)) else Inl KeyTooLong)"
  using assms
proof (induction m arbitrary: pos fuel)
  case (MFixed t b)
  obtain f where f: "fuel = Suc f" using MFixed.prems(4) by (cases fuel) auto
  have "pos + length b \<le> max_off" using at_length[OF MFixed.prems(2)] MFixed.prems(3) by simp
  then show ?case using MFixed.prems(1) f by (auto simp: seek_current_def)
next
  case (MStr s)
  obtain f where f: "fuel = Suc f" using MStr.prems(4) by (cases fuel) auto
  show ?case using read_string_at[of data pos v s] MStr.prems f by simp
next
  case (MArr t vs)
  obtain f where f: "fuel = Suc f" using MArr.prems(4) by (cases fuel) auto
  let ?c = "enc_count v (length vs)"
  have a: "at data pos (le_bytes 4 t)" "at data (pos + 4) ?c" "at data (pos + 4 + length ?c) (concat (map (enc_meta v) vs))"
    using MArr.prems(2) by (simp_all add: at_append)
  have t: "read_u32 data pos = Inr (t, pos + 4)" using a(1) MArr.prems(1) by (intro read_u32_at) simp_all
  have c: "read_count data v (pos + 4) = Inr (length vs, pos + 4 + length ?c)"
    using a(2) MArr.prems(1) by (intro read_count_at) simp_all
  have "times (length vs) (skip_value f data max_off v t) (pos + 4 + length ?c) =
    (if \<forall>m \<in> set vs. short_strings m then Inr (pos + 4 + length ?c + length (concat (map (enc_meta v) vs))) else Inl KeyTooLong)"
  proof (rule times_skip[OF _ a(3)])
    fix m p assume m: "m \<in> set vs" "at data p (enc_meta v m)"
    have "length (enc_meta v m) < f" using length_enc_meta_mem[OF m(1), of v] MArr.prems(4) f by simp
    then show "skip_value f data max_off v t p = (if short_strings m then Inr (p + length (enc_meta v m)) else Inl KeyTooLong)"
      using MArr.IH[OF m(1) _ m(2) MArr.prems(3)] MArr.prems(1) m(1) by auto
  qed
  then show ?case using f t c by (simp add: add.assoc)
qed

lemma meta_type_bound: "meta_ok v m \<Longrightarrow> meta_type m < 2 ^ 32"
  by (cases m) auto

lemma kv_loop_at:
  assumes "at data pos (concat (map (enc_kv v) kvs))" "length data \<le> max_off"
    and "\<forall>(k, m) \<in> set kvs. count_ok v (length k) \<and> meta_ok v m"
  shows "(case kv_loop (length kvs) data max_off v pos of Inl _ \<Rightarrow> None | Inr c \<Rightarrow> c) = find_context kvs"
  using assms
proof (induction kvs arbitrary: pos)
  case (Cons kv kvs)
  obtain k m where kv: "kv = (k, m)" by fastforce
  let ?p1 = "pos + length (enc_string v k)"
  have a: "at data pos (enc_string v k)" "at data ?p1 (le_bytes 4 (meta_type m))" "at data (?p1 + 4) (enc_meta v m)"
    "at data (?p1 + 4 + length (enc_meta v m)) (concat (map (enc_kv v) kvs))"
    using Cons.prems(1) enc_kv_def[of v "(k, m)"] by (simp_all add: kv at_append add.assoc)
  have ok: "count_ok v (length k)" "meta_ok v m" using Cons.prems(3) kv by auto
  have ty: "read_u32 data ?p1 = Inr (meta_type m, ?p1 + 4)" by (rule read_u32_at[OF a(2) meta_type_bound[OF ok(2)]])
  have "length (enc_meta v m) < length data + 1" using at_length[OF a(3)] by simp
  note skip = skip_value_at[OF ok(2) a(3) Cons.prems(2) this]
  have IH: "(case kv_loop (length kvs) data max_off v (?p1 + 4 + length (enc_meta v m)) of Inl _ \<Rightarrow> None | Inr c \<Rightarrow> c) = find_context kvs"
    by (rule Cons.IH[OF a(4) Cons.prems(2)]) (use Cons.prems(3) in auto)
  show ?case
  proof (cases "length k \<le> 4096 \<and> k = ''llama.context_length'' \<and> meta_type m = 4")
    case True
    then obtain b where b: "m = MFixed 4 b" "length b = 4" using ok(2) by (cases m) auto
    then have "read_u32 data (?p1 + 4) = Inr (le_nat b, ?p1 + 8)" using read_exact_at[OF a(3)] by (simp add: read_u32_def)
    then show ?thesis using True ty read_string_at[OF a(1) ok(1)] b kv by simp
  next
    case False
    then show ?thesis using ty read_string_at[OF a(1) ok(1)] skip IH kv by (auto simp: add.assoc)
  qed
qed simp

lemma times_keeps:
  assumes "\<And>s. P s \<Longrightarrow> (case f s of Inl e \<Rightarrow> Q e | Inr t \<Rightarrow> P t)" "P s"
  shows "case times n f s of Inl e \<Rightarrow> Q e | Inr t \<Rightarrow> P t"
  using assms(2)
proof (induction n arbitrary: s)
  case (Suc n)
  then show ?case using assms(1)[OF Suc.prems] by (cases "f s") auto
qed simp

lemma read_exact_cases: "(case read_exact data n p of Inl e \<Rightarrow> e = UnexpectedEof | Inr (b, q) \<Rightarrow> q = p + n \<and> (n = 0 \<or> q \<le> length data))"
  by (simp add: read_exact_def)

lemma read_count_cases: "case read_count data v p of Inl e \<Rightarrow> e = UnexpectedEof | Inr (n, q) \<Rightarrow> p + 4 \<le> q \<and> q \<le> length data"
  by (simp add: read_count_def read_u32_def read_u64_def read_exact_def)

lemma read_count_error: "read_count data v p \<noteq> Inl FuelUsedUp"
  using read_count_cases[where data = data and v = v and p = p] by auto

lemma read_string_cases: "case read_string data v p of Inl e \<Rightarrow> e \<noteq> FuelUsedUp | Inr (s, q) \<Rightarrow> p \<le> q"
  using read_count_cases[where data = data and v = v and p = p] by (auto simp: read_string_def read_exact_def rbind_def split: sum.splits)

lemma skip_value_fuel:
  "length data - pos < fuel \<Longrightarrow>
     (case skip_value fuel data max_off v t pos of Inl e \<Rightarrow> e \<noteq> FuelUsedUp | Inr q \<Rightarrow> pos \<le> q)"
proof (induction fuel arbitrary: t pos)
  case (Suc fuel)
  have seek: "case seek_current max_off n pos of Inl e \<Rightarrow> e \<noteq> FuelUsedUp | Inr q \<Rightarrow> pos \<le> q" for n
    by (simp add: seek_current_def)
  have str: "case rbind (read_string data v pos) (\<lambda>(_, pos). Inr pos) of Inl e \<Rightarrow> e \<noteq> FuelUsedUp | Inr q \<Rightarrow> pos \<le> q"
    using read_string_cases[where data = data and v = v and p = pos] by (cases "read_string data v pos") auto
  have arr: "case rbind (read_u32 data pos) (\<lambda>(elem_type, pos).
      rbind (read_count data v pos) (\<lambda>(count, pos). times count (skip_value fuel data max_off v elem_type) pos))
      of Inl e \<Rightarrow> e \<noteq> FuelUsedUp | Inr q \<Rightarrow> pos \<le> q"
  proof (cases "pos + 4 \<le> length data \<and> (\<exists>n q. read_count data v (pos + 4) = Inr (n, q))")
    case True
    then obtain et n q where r: "read_u32 data pos = Inr (et, pos + 4)" "read_count data v (pos + 4) = Inr (n, q)"
      by (auto simp: read_u32_def read_exact_def)
    then have q: "pos + 8 \<le> q" "q \<le> length data" using read_count_cases[where data = data and v = v and p = "pos + 4"] by auto
    have "case times n (skip_value fuel data max_off v et) q of Inl e \<Rightarrow> e \<noteq> FuelUsedUp | Inr p \<Rightarrow> q \<le> p"
    proof (rule times_keeps[of "\<lambda>p. q \<le> p"])
      fix p assume p: "q \<le> p"
      have "length data - p < fuel" using p q Suc.prems by linarith
      from Suc.IH[OF this, of et] p show "case skip_value fuel data max_off v et p of Inl e \<Rightarrow> e \<noteq> FuelUsedUp | Inr p' \<Rightarrow> q \<le> p'"
        by (auto split: sum.splits)
    qed simp
    then show ?thesis using r q by (auto split: sum.splits)
  next
    case False
    then show ?thesis using read_count_cases[where data = data and v = v and p = "pos + 4"]
      by (auto simp: read_u32_def read_exact_def rbind_def split: sum.splits if_splits)
  qed
  show ?case using seek str arr by simp
qed simp

lemma kv_loop_fuel: "kv_loop n data max_off v pos \<noteq> Inl FuelUsedUp"
proof (induction n arbitrary: pos)
  case (Suc n)
  have u32: "read_u32 data p \<noteq> Inl FuelUsedUp" for p by (simp add: read_u32_def read_exact_def)
  have str: "read_string data v pos \<noteq> Inl FuelUsedUp" using read_string_cases[where data = data and v = v and p = pos] by auto
  have skip': "skip_value (length data + 1) data max_off v t p \<noteq> Inl FuelUsedUp" for t p
    using skip_value_fuel[OF le_imp_less_Suc[OF diff_le_self[of "length data" p]], of max_off v t]
    by (auto simp del: skip_value.simps split: sum.splits)
  show ?case using Suc.IH u32 str skip' by (auto simp: rbind_def split: sum.splits prod.splits simp del: skip_value.simps)
qed simp

text \<open>The context length of a model file is found. In a well-formed file of any of the three
  versions the search returns the value of the first \<open>llama.context_length\<close> of type u32, unless a key or a
  string of more than 4096 bytes stands before it, then nothing; and for every file, well-formed or
  not, the search ends within the fuel of the model.\<close>

lemma gguf_context_found:
  assumes "v \<in> {1, 2, 3}" "count_ok v n_tensors" "count_ok v (length kvs)"
    and "\<forall>(k, m) \<in> set kvs. count_ok v (length k) \<and> meta_ok v m"
    and "length (enc_gguf v n_tensors kvs tensors) \<le> max_off"
  shows "read_context_length (Some (enc_gguf v n_tensors kvs tensors)) max_off = find_context kvs \<and>
    read_context_length_from data max_off' \<noteq> Inl FuelUsedUp"
proof
  let ?d = "enc_gguf v n_tensors kvs tensors" and ?n = "length (enc_count v n_tensors)" and ?k = "length (enc_count v (length kvs))"
  have "at ?d 0 ?d" by (auto simp: at_def)
  then have "at ?d 0 (''GGUF'' @ le_bytes 4 v @ enc_count v n_tensors @ enc_count v (length kvs) @ concat (map (enc_kv v) kvs) @ tensors)"
    by (simp add: enc_gguf_def)
  then have a: "at ?d 0 ''GGUF''" "at ?d 4 (le_bytes 4 v)" "at ?d 8 (enc_count v n_tensors)" "at ?d (8 + ?n) (enc_count v (length kvs))"
    "at ?d (8 + ?n + ?k) (concat (map (enc_kv v) kvs))"
    unfolding at_append by (simp_all add: add.assoc numeral_eq_Suc)
  have magic: "read_exact ?d 4 0 = Inr (''GGUF'', 4)" using read_exact_at[OF a(1)] by (simp add: numeral_eq_Suc)
  have "read_context_length_from ?d max_off = kv_loop (length kvs) ?d max_off v (8 + ?n + ?k)"
    using magic read_u32_at[OF a(2)] read_count_at[OF a(3) assms(2)] read_count_at[OF a(4) assms(3)] assms(1)
    by (auto simp: read_context_length_from_def)
  then show "read_context_length (Some ?d) max_off = find_context kvs"
    using kv_loop_at[OF a(5) assms(5,4)] by (simp add: read_context_length_def)
  show "read_context_length_from data max_off' \<noteq> Inl FuelUsedUp"
    using kv_loop_fuel read_count_error
    by (auto simp: read_context_length_from_def read_u32_def read_exact_def rbind_def split: sum.splits)
qed

definition demo_kvs :: "(bytes \<times> meta) list" where
  "demo_kvs = [(''general.name'', MStr ''m''), (''tags'', MArr 8 [MStr ''a'', MStr ''b'']),
     (''llama.context_length'', MFixed 4 (le_bytes 4 8192))]"

end
