(* ===== verification/Model_Store.thy ===== *)
theory Model_Store
  imports Gguf Secure Events "HOL-Library.List_Lexorder" "HOL-Library.Char_ord"
begin

section \<open>The model store\<close>

text \<open>
  \<open>crates/maranode-store/src/blob.rs\<close>, \<open>db.rs\<close>, \<open>store.rs\<close>, \<open>defaults.rs\<close>, \<open>download.rs\<close> and
  \<open>bootstrap.rs\<close>: models are files named by their SHA-256 digest and rows of the table \<open>models\<close>. The file
  system is a list of paths with contents, the table a list of rows in the order of insertion. SHA-256 is
  that of the record \<open>crypto\<close>; random ids, times and downloads are arguments, and so is the step at which
  the operating system reports an error.
\<close>

type_synonym path = string
type_synonym files = "(path \<times> bytes) list"

definition path_join :: "path \<Rightarrow> path \<Rightarrow> path" where
  "path_join d n = (if d = [] \<or> last d = CHR ''/'' then d @ n else d @ ''/'' @ n)"

definition remove_path :: "path \<Rightarrow> files \<Rightarrow> files" where
  "remove_path p fs = filter (\<lambda>(q, _). q \<noteq> p) fs"

definition path_exists :: "files \<Rightarrow> path \<Rightarrow> bool" where
  "path_exists fs p \<longleftrightarrow> map_of fs p \<noteq> None"

text \<open>\<open>rename\<close> replaces its target.\<close>

definition rename_path :: "path \<Rightarrow> path \<Rightarrow> files \<Rightarrow> files" where
  "rename_path p q fs = (case map_of fs p of None \<Rightarrow> fs | Some c \<Rightarrow> put_key q c (remove_path p fs))"

datatype store_error =
    InvalidDigest | IoError | IntegrityMismatch | ModelNotFound model_id | BlobMissing | DuplicateRow | DownloadFailed

subsection \<open>blob.rs\<close>

definition blobs_dir :: "path \<Rightarrow> path" where
  "blobs_dir data_dir = path_join data_dir ''blobs''"

definition blob_path_checked :: "path \<Rightarrow> string \<Rightarrow> (store_error, path) result" where
  "blob_path_checked data_dir sha256 =
     (if \<not> is_sha256_hex sha256 then Inl InvalidDigest
      else Inr (path_join (blobs_dir data_dir) (''sha256-'' @ sha256)))"

definition blob_absolute_path :: "path \<Rightarrow> string \<Rightarrow> (store_error, path) result" where
  "blob_absolute_path data_dir sha256 = blob_path_checked data_dir sha256"

text \<open>A reader is the list of what its reads give: the bytes, or an error. An empty read is the end.\<close>

fun read_all :: "(bytes option) list \<Rightarrow> bytes \<Rightarrow> nat \<Rightarrow> (store_error, bytes \<times> nat) result" where
  "read_all [] written n = Inr (written, n)"
| "read_all (None # rs) written n = Inl IoError"
| "read_all (Some b # rs) written n =
     (if b = [] then Inr (written, n) else read_all rs (written @ b) (u64_add n (length b)))"

definition import_tmp :: "path \<Rightarrow> string \<Rightarrow> path" where
  "import_tmp data_dir uuid = path_join (blobs_dir data_dir) (''.import-'' @ uuid @ ''.tmp'')"

datatype blob_step = CreateDir | CreateTmp | SyncTmp | PlaceBlob

text \<open>The temporary file is removed on every error (\<open>TmpGuard\<close>), so that only a placed blob changes the
  file system.\<close>

definition import_blob ::
  "crypto \<Rightarrow> path \<Rightarrow> string \<Rightarrow> blob_step option \<Rightarrow> (bytes option) list \<Rightarrow> files \<Rightarrow>
     (store_error, string \<times> nat) result \<times> files" where
  "import_blob cr data_dir uuid fault reader fs =
     (let tmp_path = import_tmp data_dir uuid
      in if fault = Some CreateDir then (Inl IoError, fs)
         else if fault = Some CreateTmp then (Inl IoError, remove_path tmp_path fs)
         else (case read_all reader [] 0 of
           Inl e \<Rightarrow> (Inl e, remove_path tmp_path fs)
         | Inr (content, n) \<Rightarrow>
             (let fs1 = put_key tmp_path content fs
              in if fault = Some SyncTmp then (Inl IoError, remove_path tmp_path fs1)
                 else (let sha256 = sha256_hex cr content
                   in case blob_path_checked data_dir sha256 of
                        Inl e \<Rightarrow> (Inl e, remove_path tmp_path fs1)
                      | Inr dest \<Rightarrow>
                          if path_exists fs1 dest then (Inr (sha256, n), remove_path tmp_path fs1)
                          else if fault = Some PlaceBlob then (Inl IoError, remove_path tmp_path fs1)
                          else (Inr (sha256, n), remove_path tmp_path (rename_path tmp_path dest fs1))))))"

definition verify_blob :: "crypto \<Rightarrow> path \<Rightarrow> files \<Rightarrow> string \<Rightarrow> (store_error, unit) result" where
  "verify_blob cr data_dir fs expected_sha256 =
     rbind (blob_path_checked data_dir expected_sha256) (\<lambda>path.
     rbind (ok_or IoError (map_of fs path)) (\<lambda>content.
       if sha256_hex cr content \<noteq> expected_sha256 then Inl IntegrityMismatch else Inr ()))"

subsection \<open>db.rs\<close>

datatype model_type = Llm | Embedding

record model_manifest =
  mm_id :: string
  mm_model_id :: model_id
  mm_sha256 :: string
  mm_size_bytes :: nat
  mm_quantization :: "string option"
  mm_imported_at :: string
  mm_blob_path :: path
  mm_model_type :: model_type
  mm_context_length :: "nat option"

type_synonym manifest_db = "model_manifest list"

definition db_insert :: "model_manifest \<Rightarrow> manifest_db \<Rightarrow> (store_error, manifest_db) result" where
  "db_insert m db =
     (if \<exists>x \<in> set db. mm_id x = mm_id m \<or> mm_model_id x = mm_model_id m then Inl DuplicateRow else Inr (db @ [m]))"

definition db_get :: "manifest_db \<Rightarrow> model_id \<Rightarrow> model_manifest option" where
  "db_get db model_id = find (\<lambda>m. mm_model_id m = model_id) db"

text \<open>\<open>ORDER BY imported_at DESC\<close>.\<close>

definition db_list :: "manifest_db \<Rightarrow> model_manifest list" where
  "db_list db = rev (sort_key mm_imported_at (rev db))"

definition db_delete :: "model_id \<Rightarrow> manifest_db \<Rightarrow> bool \<times> manifest_db" where
  "db_delete model_id db =
     ((\<exists>m \<in> set db. mm_model_id m = model_id), filter (\<lambda>m. mm_model_id m \<noteq> model_id) db)"

subsection \<open>store.rs\<close>

record model_store =
  ms_db :: manifest_db
  ms_files :: files

record store_env =
  se_crypto :: crypto
  se_data_dir :: path
  se_max_off :: nat

record import_random =
  im_tmp :: string
  im_id :: string
  im_now :: string
  im_fault :: "blob_step option"

definition new_manifest ::
  "store_env \<Rightarrow> import_random \<Rightarrow> files \<Rightarrow> path \<Rightarrow> string \<Rightarrow> nat \<Rightarrow> model_id \<Rightarrow> string option \<Rightarrow> model_type \<Rightarrow> model_manifest" where
  "new_manifest env rnd fs blob_path sha256 size_bytes model_id quantization model_type =
     \<lparr>mm_id = im_id rnd, mm_model_id = model_id, mm_sha256 = sha256, mm_size_bytes = size_bytes,
      mm_quantization = quantization, mm_imported_at = im_now rnd, mm_blob_path = blob_path,
      mm_model_type = model_type, mm_context_length = read_context_length (map_of fs blob_path) (se_max_off env)\<rparr>"

text \<open>\<open>reader\<close> is \<open>None\<close> when the file cannot be opened.\<close>

definition import_from_file ::
  "store_env \<Rightarrow> import_random \<Rightarrow> (bytes option) list option \<Rightarrow> model_id \<Rightarrow> string option \<Rightarrow> model_type \<Rightarrow> model_store \<Rightarrow>
     (store_error, model_manifest) result \<times> model_store" where
  "import_from_file env rnd reader model_id quantization model_type st =
     (case reader of
        None \<Rightarrow> (Inl IoError, st)
      | Some rs \<Rightarrow>
          (case import_blob (se_crypto env) (se_data_dir env) (im_tmp rnd) (im_fault rnd) rs (ms_files st) of
             (Inl e, fs) \<Rightarrow> (Inl e, st\<lparr>ms_files := fs\<rparr>)
           | (Inr (sha256, size_bytes), fs) \<Rightarrow>
               (case blob_absolute_path (se_data_dir env) sha256 of
                  Inl e \<Rightarrow> (Inl e, st\<lparr>ms_files := fs\<rparr>)
                | Inr blob_path \<Rightarrow>
                    (let manifest = new_manifest env rnd fs blob_path sha256 size_bytes model_id quantization model_type
                     in case db_insert manifest (ms_db st) of
                          Inl e \<Rightarrow> (Inl e, st\<lparr>ms_files := fs\<rparr>)
                        | Inr db \<Rightarrow> (Inr manifest, st\<lparr>ms_files := fs, ms_db := db\<rparr>)))))"

definition store_get :: "model_store \<Rightarrow> model_id \<Rightarrow> model_manifest option" where
  "store_get st model_id = db_get (ms_db st) model_id"

definition blob_path_verified :: "store_env \<Rightarrow> model_store \<Rightarrow> model_id \<Rightarrow> (store_error, path) result" where
  "blob_path_verified env st model_id =
     rbind (ok_or (ModelNotFound model_id) (db_get (ms_db st) model_id)) (\<lambda>manifest.
     rbind (verify_blob (se_crypto env) (se_data_dir env) (ms_files st) (mm_sha256 manifest)) (\<lambda>_.
       blob_absolute_path (se_data_dir env) (mm_sha256 manifest)))"

definition blob_path :: "store_env \<Rightarrow> model_store \<Rightarrow> model_id \<Rightarrow> (store_error, path) result" where
  "blob_path env st model_id =
     rbind (ok_or (ModelNotFound model_id) (db_get (ms_db st) model_id)) (\<lambda>manifest.
     rbind (blob_absolute_path (se_data_dir env) (mm_sha256 manifest)) (\<lambda>path.
       if \<not> path_exists (ms_files st) path then Inl BlobMissing else Inr path))"

definition store_list :: "model_store \<Rightarrow> model_manifest list" where
  "store_list st = db_list (ms_db st)"

text \<open>Whether \<open>remove_file\<close> succeeds is the argument \<open>unlinked\<close>; its failure is only logged.\<close>

definition store_remove :: "store_env \<Rightarrow> bool \<Rightarrow> model_id \<Rightarrow> model_store \<Rightarrow> bool \<times> model_store" where
  "store_remove env unlinked model_id st =
     (let manifest = db_get (ms_db st) model_id;
          (removed, db) = db_delete model_id (ms_db st);
          st1 = st\<lparr>ms_db := db\<rparr>
      in if \<not> removed then (False, st1)
         else (case manifest of
             None \<Rightarrow> (True, st1)
           | Some m \<Rightarrow>
               if filter (\<lambda>x. mm_sha256 x = mm_sha256 m) (db_list db) \<noteq> [] then (True, st1)
               else (case blob_absolute_path (se_data_dir env) (mm_sha256 m) of
                   Inl e \<Rightarrow> (True, st1)
                 | Inr path \<Rightarrow> (True, if unlinked then st1\<lparr>ms_files := remove_path path (ms_files st1)\<rparr> else st1))))"

text \<open>A download: refused, broken off after some bytes, or complete.\<close>

datatype fetch = Refused | Broken bytes | Complete bytes

definition pull_tmp :: "path \<Rightarrow> string \<Rightarrow> path" where
  "pull_tmp data_dir uuid = path_join (blobs_dir data_dir) (uuid @ ''.pull.part'')"

text \<open>The partial file of \<open>pull_from_url\<close> has no guard: it stays when the download breaks off.\<close>

definition pull_from_url ::
  "store_env \<Rightarrow> import_random \<Rightarrow> fetch \<Rightarrow> model_id \<Rightarrow> string option \<Rightarrow> model_type \<Rightarrow> model_store \<Rightarrow>
     (store_error, model_manifest) result \<times> model_store" where
  "pull_from_url env rnd response model_id quantization model_type st =
     (let tmp = pull_tmp (se_data_dir env) (im_tmp rnd)
      in case response of
           Refused \<Rightarrow> (Inl DownloadFailed, st)
         | Broken b \<Rightarrow> (Inl DownloadFailed, st\<lparr>ms_files := put_key tmp b (ms_files st)\<rparr>)
         | Complete content \<Rightarrow>
             (let fs1 = put_key tmp content (ms_files st);
                  sha256 = sha256_hex (se_crypto env) content
              in case blob_absolute_path (se_data_dir env) sha256 of
                   Inl e \<Rightarrow> (Inl e, st\<lparr>ms_files := fs1\<rparr>)
                 | Inr path \<Rightarrow>
                     if \<not> path_exists fs1 path \<and> im_fault rnd = Some PlaceBlob then (Inl IoError, st\<lparr>ms_files := fs1\<rparr>)
                     else (let fs2 = (if path_exists fs1 path then remove_path tmp fs1 else rename_path tmp path fs1);
                               size_bytes = (case map_of fs2 path of None \<Rightarrow> 0 | Some c \<Rightarrow> length c);
                               manifest = new_manifest env rnd fs2 path sha256 size_bytes model_id quantization model_type
                           in case db_insert manifest (ms_db st) of
                                Inl e \<Rightarrow> (Inl e, st\<lparr>ms_files := fs2\<rparr>)
                              | Inr db \<Rightarrow> (Inr manifest, st\<lparr>ms_files := fs2, ms_db := db\<rparr>))))"

subsection \<open>The store as a content-addressed map\<close>

text \<open>What the store promises: a map from model ids to manifests and a map from digests to contents.
  Files in the blob directory with other names do not count.\<close>

record cas =
  cas_models :: "model_id \<Rightarrow> model_manifest option"
  cas_blobs :: "string \<Rightarrow> bytes option"

definition blob_file :: "store_env \<Rightarrow> string \<Rightarrow> path" where
  "blob_file env sha = path_join (blobs_dir (se_data_dir env)) (''sha256-'' @ sha)"

definition cas_abs :: "store_env \<Rightarrow> model_store \<Rightarrow> cas" where
  "cas_abs env st = \<lparr>cas_models = db_get (ms_db st),
     cas_blobs = (\<lambda>sha. if is_sha256_hex sha then map_of (ms_files st) (blob_file env sha) else None)\<rparr>"

definition cas_put :: "crypto \<Rightarrow> bytes \<Rightarrow> cas \<Rightarrow> cas" where
  "cas_put cr content c = (let sha = sha256_hex cr content
     in if cas_blobs c sha = None then c\<lparr>cas_blobs := (cas_blobs c)(sha \<mapsto> content)\<rparr> else c)"

definition cas_register :: "model_manifest \<Rightarrow> cas \<Rightarrow> cas" where
  "cas_register m c = c\<lparr>cas_models := (cas_models c)(mm_model_id m \<mapsto> m)\<rparr>"

definition cas_remove :: "bool \<Rightarrow> model_id \<Rightarrow> cas \<Rightarrow> cas" where
  "cas_remove unlinked i c = (let models = (cas_models c)(i := None) in
     (case cas_models c i of
        None \<Rightarrow> c
      | Some m \<Rightarrow>
          c\<lparr>cas_models := models,
            cas_blobs := (if unlinked \<and> (\<forall>j x. models j = Some x \<longrightarrow> mm_sha256 x \<noteq> mm_sha256 m)
                          then (cas_blobs c)(mm_sha256 m := None) else cas_blobs c)\<rparr>))"

lemma path_join_inj [simp]: "path_join d a = path_join d b \<longleftrightarrow> a = b"
  by (simp add: path_join_def)

lemma blob_file_inj [simp]: "blob_file env a = blob_file env b \<longleftrightarrow> a = b"
  by (simp add: blob_file_def)

lemma blob_path_ok: "blob_path_checked (se_data_dir env) sha = (if is_sha256_hex sha then Inr (blob_file env sha) else Inl InvalidDigest)"
  by (simp add: blob_path_checked_def blob_file_def)

lemma tmp_not_blob:
  assumes "is_sha256_hex sha"
  shows "import_tmp (se_data_dir env) u \<noteq> blob_file env sha" "pull_tmp (se_data_dir env) u \<noteq> blob_file env sha"
proof -
  show "import_tmp (se_data_dir env) u \<noteq> blob_file env sha"
    by (simp add: blob_file_def import_tmp_def)
  show "pull_tmp (se_data_dir env) u \<noteq> blob_file env sha"
  proof
    assume "pull_tmp (se_data_dir env) u = blob_file env sha"
    then have "u @ ''.pull.part'' = ''sha256-'' @ sha" by (simp add: blob_file_def pull_tmp_def)
    then have "CHR ''.'' \<in> set (''sha256-'' @ sha)" by (metis in_set_conv_decomp append_Cons)
    then show False using is_sha256_hex_no_path(2)[OF assms] by simp
  qed
qed

lemma map_of_remove_path: "map_of (remove_path p fs) q = (if q = p then None else map_of fs q)"
  by (induction fs) (auto simp: remove_path_def)

lemma map_of_rename: "map_of fs p = Some c \<Longrightarrow> p \<noteq> q \<Longrightarrow> map_of (rename_path p q fs) = (map_of fs)(q \<mapsto> c, p := None)"
  by (auto simp: rename_path_def map_of_put_key map_of_remove_path fun_eq_iff)

definition blob_view :: "store_env \<Rightarrow> files \<Rightarrow> string \<Rightarrow> bytes option" where
  "blob_view env fs = (\<lambda>sha. if is_sha256_hex sha then map_of fs (blob_file env sha) else None)"

lemma cas_abs_simps [simp]:
  "cas_models (cas_abs env st) = db_get (ms_db st)" "cas_blobs (cas_abs env st) = blob_view env (ms_files st)"
  by (simp_all add: cas_abs_def blob_view_def)

definition put_blob :: "crypto \<Rightarrow> bytes \<Rightarrow> (string \<Rightarrow> bytes option) \<Rightarrow> string \<Rightarrow> bytes option" where
  "put_blob cr content v = (if v (sha256_hex cr content) = None then v(sha256_hex cr content \<mapsto> content) else v)"

lemma blob_view_other: "(\<And>sha. is_sha256_hex sha \<Longrightarrow> p \<noteq> blob_file env sha) \<Longrightarrow>
    blob_view env (remove_path p fs) = blob_view env fs \<and> blob_view env (put_key p c fs) = blob_view env fs"
  by (auto simp: blob_view_def map_of_remove_path map_of_put_key fun_eq_iff)

lemma blob_view_place:
  assumes "\<And>sha. is_sha256_hex sha \<Longrightarrow> p \<noteq> blob_file env sha" "map_of fs p = Some c" "is_sha256_hex sha"
  shows "blob_view env (rename_path p (blob_file env sha) fs) = (blob_view env fs)(sha \<mapsto> c)"
proof
  fix x
  have "map_of (rename_path p (blob_file env sha) fs) = (map_of fs)(blob_file env sha \<mapsto> c, p := None)"
    using assms by (intro map_of_rename) simp_all
  then show "blob_view env (rename_path p (blob_file env sha) fs) x = ((blob_view env fs)(sha \<mapsto> c)) x"
    using assms(1)[of x] assms(1)[OF assms(3)] assms(3) by (auto simp: blob_view_def)
qed

text \<open>Importing a blob puts its content under its digest or, on an error, changes no blob.\<close>

definition digest_ok :: "crypto \<Rightarrow> bool" where
  "digest_ok cr \<longleftrightarrow> (\<forall>b. is_sha256_hex (sha256_hex cr b))"

lemma import_blob_view:
  assumes "digest_ok (se_crypto env)" "import_blob (se_crypto env) (se_data_dir env) uuid fault reader fs = (r, fs')"
  shows "(\<forall>e. r = Inl e \<longrightarrow> blob_view env fs' = blob_view env fs) \<and>
    (\<forall>sha n. r = Inr (sha, n) \<longrightarrow> (\<exists>content. read_all reader [] 0 = Inr (content, n) \<and> sha = sha256_hex (se_crypto env) content \<and>
       blob_view env fs' = put_blob (se_crypto env) content (blob_view env fs)))"
proof -
  let ?tmp = "import_tmp (se_data_dir env) uuid"
  note other = blob_view_other[of ?tmp env, OF tmp_not_blob(1)]
  show ?thesis
  proof (cases "fault = Some CreateDir \<or> fault = Some CreateTmp \<or> (\<exists>e. read_all reader [] 0 = Inl e)")
    case True
    then show ?thesis using assms(2) other
      by (elim disjE exE) (auto simp: import_blob_def Let_def split: if_splits)
  next
    case False
    then obtain content n where c: "read_all reader [] 0 = Inr (content, n)" by (cases "read_all reader [] 0") auto
    let ?fs1 = "put_key ?tmp content fs" and ?sha = "sha256_hex (se_crypto env) content"
    have sha: "is_sha256_hex ?sha" using assms(1) by (simp add: digest_ok_def)
    have v1: "blob_view env ?fs1 = blob_view env fs" using other by blast
    have ex: "path_exists ?fs1 (blob_file env ?sha) \<longleftrightarrow> blob_view env fs ?sha \<noteq> None"
      using sha by (simp add: path_exists_def flip: v1) (simp add: blob_view_def)
    have v2: "blob_view env (rename_path ?tmp (blob_file env ?sha) ?fs1) = (blob_view env fs)(?sha \<mapsto> content)"
      using blob_view_place[of ?tmp env ?fs1 content, OF tmp_not_blob(1) _ sha] v1 by (simp add: map_of_put_key)
    show ?thesis using assms(2) False c sha ex v1 v2 other
      by (auto simp: import_blob_def Let_def blob_path_ok put_blob_def split: if_splits)
  qed
qed

lemma db_get_snoc: "\<forall>x \<in> set db. mm_model_id x \<noteq> mm_model_id m \<Longrightarrow> db_get (db @ [m]) = (db_get db)(mm_model_id m \<mapsto> m)"
  by (induction db) (auto simp: db_get_def fun_eq_iff)

lemma db_get_filter: "db_get (filter (\<lambda>m. mm_model_id m \<noteq> i) db) = (db_get db)(i := None)"
  by (induction db) (auto simp: db_get_def fun_eq_iff)

lemma db_get_mem: "db_get db i = Some m \<Longrightarrow> m \<in> set db \<and> mm_model_id m = i"
  by (auto simp: db_get_def find_Some_iff)

lemma db_get_None: "db_get db i = None \<longleftrightarrow> (\<forall>m \<in> set db. mm_model_id m \<noteq> i)"
  by (auto simp: db_get_def find_None_iff)

lemma db_get_in: "distinct (map mm_model_id db) \<Longrightarrow> m \<in> set db \<Longrightarrow> db_get db (mm_model_id m) = Some m"
  by (induction db) (auto simp: db_get_def image_iff)

lemma db_insert_iff: "db_insert m db = Inr db' \<longleftrightarrow> db' = db @ [m] \<and> (\<forall>x \<in> set db. mm_id x \<noteq> mm_id m \<and> mm_model_id x \<noteq> mm_model_id m)"
  by (auto simp: db_insert_def)

subsection \<open>Reachable states\<close>

inductive store_step :: "store_env \<Rightarrow> model_store \<Rightarrow> model_store \<Rightarrow> bool" for env where
  step_import: "import_from_file env rnd reader i quant ty st = (r, st') \<Longrightarrow> store_step env st st'"
| step_pull: "pull_from_url env rnd response i quant ty st = (r, st') \<Longrightarrow> store_step env st st'"
| step_remove: "store_remove env unlinked i st = (b, st') \<Longrightarrow> store_step env st st'"

definition store_empty :: model_store where
  "store_empty = \<lparr>ms_db = [], ms_files = []\<rparr>"

definition blobs_ok :: "crypto \<Rightarrow> (string \<Rightarrow> bytes option) \<Rightarrow> bool" where
  "blobs_ok cr v \<longleftrightarrow> (\<forall>sha c. v sha = Some c \<longrightarrow> sha256_hex cr c = sha)"

definition store_ok :: "store_env \<Rightarrow> model_store \<Rightarrow> bool" where
  "store_ok env st \<longleftrightarrow> distinct (map mm_id (ms_db st)) \<and> distinct (map mm_model_id (ms_db st)) \<and>
     blobs_ok (se_crypto env) (blob_view env (ms_files st)) \<and>
     (\<forall>m \<in> set (ms_db st). blob_view env (ms_files st) (mm_sha256 m) \<noteq> None)"

lemma put_blob_simps:
  "blobs_ok cr v \<Longrightarrow> blobs_ok cr (put_blob cr c v)" "v sha \<noteq> None \<Longrightarrow> put_blob cr c v sha = v sha"
  "put_blob cr c v (sha256_hex cr c) \<noteq> None"
  by (auto simp: put_blob_def blobs_ok_def)

lemma register_outcome:
  assumes "(r, st') = (case db_insert m (ms_db st) of
      Inl e \<Rightarrow> (Inl e, st\<lparr>ms_files := fs\<rparr>) | Inr db \<Rightarrow> (Inr m, st\<lparr>ms_files := fs, ms_db := db\<rparr>))"
  shows "ms_files st' = fs \<and> (r = Inl DuplicateRow \<and> ms_db st' = ms_db st \<and> (\<exists>x \<in> set (ms_db st). mm_id x = mm_id m \<or> mm_model_id x = mm_model_id m) \<or>
    r = Inr m \<and> db_insert m (ms_db st) = Inr (ms_db st'))"
  using assms by (cases "db_insert m (ms_db st)") (auto simp: db_insert_def split: if_splits)

text \<open>The outcomes of an import: it fails and changes no model and no blob, it places the blob of an id
  that is taken, or it places the blob and registers the model.\<close>

lemma import_cases:
  assumes "digest_ok (se_crypto env)" "import_from_file env rnd reader i quant ty st = (r, st')"
  shows "(\<exists>e. r = Inl e \<and> ms_db st' = ms_db st \<and> blob_view env (ms_files st') = blob_view env (ms_files st)) \<or>
    (\<exists>rs content n. reader = Some rs \<and> read_all rs [] 0 = Inr (content, n) \<and>
       blob_view env (ms_files st') = put_blob (se_crypto env) content (blob_view env (ms_files st)) \<and>
       (r = Inl DuplicateRow \<and> ms_db st' = ms_db st \<and> (\<exists>x \<in> set (ms_db st). mm_id x = im_id rnd \<or> mm_model_id x = i) \<or>
        (\<exists>m. r = Inr m \<and> db_insert m (ms_db st) = Inr (ms_db st') \<and> mm_model_id m = i \<and>
           mm_sha256 m = sha256_hex (se_crypto env) content \<and> mm_size_bytes m = n)))"
proof (cases reader)
  case None
  then show ?thesis using assms(2) by (auto simp: import_from_file_def)
next
  case (Some rs)
  obtain r1 fs1 where b: "import_blob (se_crypto env) (se_data_dir env) (im_tmp rnd) (im_fault rnd) rs (ms_files st) = (r1, fs1)"
    by fastforce
  note view = import_blob_view[OF assms(1) b]
  show ?thesis
  proof (cases r1)
    case (Inl e)
    then show ?thesis using assms(2) Some b view by (auto simp: import_from_file_def)
  next
    case (Inr p)
    obtain sha n where p: "r1 = Inr (sha, n)" using Inr by (cases p) auto
    then obtain content where c: "read_all rs [] 0 = Inr (content, n)" "sha = sha256_hex (se_crypto env) content"
      "blob_view env fs1 = put_blob (se_crypto env) content (blob_view env (ms_files st))" using view by auto
    let ?m = "new_manifest env rnd fs1 (blob_file env sha) sha n i quant ty"
    have hex: "is_sha256_hex sha" using assms(1) c(2) by (simp add: digest_ok_def)
    have imp: "(r, st') = (case db_insert ?m (ms_db st) of Inl e \<Rightarrow> (Inl e, st\<lparr>ms_files := fs1\<rparr>) | Inr db \<Rightarrow> (Inr ?m, st\<lparr>ms_files := fs1, ms_db := db\<rparr>))"
      using assms(2) Some b p hex by (simp add: import_from_file_def blob_absolute_path_def blob_path_ok Let_def)
    have m: "mm_id ?m = im_id rnd" "mm_model_id ?m = i" "mm_sha256 ?m = sha" "mm_size_bytes ?m = n"
      by (simp_all add: new_manifest_def)
    show ?thesis using register_outcome[OF imp] m Some c by auto
  qed
qed

lemma pull_cases:
  assumes "digest_ok (se_crypto env)" "pull_from_url env rnd response i quant ty st = (r, st')"
  shows "(\<exists>e. r = Inl e \<and> ms_db st' = ms_db st \<and> blob_view env (ms_files st') = blob_view env (ms_files st)) \<or>
    (\<exists>content n. response = Complete content \<and>
       blob_view env (ms_files st') = put_blob (se_crypto env) content (blob_view env (ms_files st)) \<and>
       (r = Inl DuplicateRow \<and> ms_db st' = ms_db st \<and> (\<exists>x \<in> set (ms_db st). mm_id x = im_id rnd \<or> mm_model_id x = i) \<or>
        (\<exists>m. r = Inr m \<and> db_insert m (ms_db st) = Inr (ms_db st') \<and> mm_model_id m = i \<and>
           mm_sha256 m = sha256_hex (se_crypto env) content)))"
proof -
  let ?tmp = "pull_tmp (se_data_dir env) (im_tmp rnd)"
  note other = blob_view_other[of ?tmp env, OF tmp_not_blob(2)]
  show ?thesis
  proof (cases response)
    case Refused
    then show ?thesis using assms(2) by (auto simp: pull_from_url_def Let_def)
  next
    case (Broken b)
    then show ?thesis using assms(2) other by (auto simp: pull_from_url_def Let_def)
  next
    case (Complete content)
    let ?fs1 = "put_key ?tmp content (ms_files st)" and ?sha = "sha256_hex (se_crypto env) content"
    have sha: "is_sha256_hex ?sha" using assms(1) by (simp add: digest_ok_def)
    have v1: "blob_view env ?fs1 = blob_view env (ms_files st)" using other by blast
    have ex: "path_exists ?fs1 (blob_file env ?sha) \<longleftrightarrow> blob_view env (ms_files st) ?sha \<noteq> None"
      using sha by (simp add: path_exists_def flip: v1) (simp add: blob_view_def)
    have v2: "blob_view env (rename_path ?tmp (blob_file env ?sha) ?fs1) = (blob_view env (ms_files st))(?sha \<mapsto> content)"
      using blob_view_place[of ?tmp env ?fs1 content, OF tmp_not_blob(2) _ sha] v1 by (simp add: map_of_put_key)
    have v3: "blob_view env (remove_path ?tmp ?fs1) = blob_view env (ms_files st)" using other v1 by metis
    let ?fs2 = "if path_exists ?fs1 (blob_file env ?sha) then remove_path ?tmp ?fs1 else rename_path ?tmp (blob_file env ?sha) ?fs1"
    have view: "blob_view env ?fs2 = put_blob (se_crypto env) content (blob_view env (ms_files st))"
      using ex v2 v3 by (simp add: put_blob_def)
    show ?thesis
    proof (cases "\<not> path_exists ?fs1 (blob_file env ?sha) \<and> im_fault rnd = Some PlaceBlob")
      case True
      then show ?thesis using assms(2) Complete sha v1
        by (auto simp: pull_from_url_def Let_def blob_absolute_path_def blob_path_ok)
    next
      case False
      define n where "n = (case map_of ?fs2 (blob_file env ?sha) of None \<Rightarrow> 0 | Some c \<Rightarrow> length c)"
      let ?m = "new_manifest env rnd ?fs2 (blob_file env ?sha) ?sha n i quant ty"
      have "(r, st') = (case db_insert ?m (ms_db st) of
          Inl e \<Rightarrow> (Inl e, st\<lparr>ms_files := ?fs2\<rparr>) | Inr db \<Rightarrow> (Inr ?m, st\<lparr>ms_files := ?fs2, ms_db := db\<rparr>))"
        using assms(2) Complete sha False unfolding n_def
        by (simp only: pull_from_url_def Let_def blob_absolute_path_def blob_path_ok fetch.case sum.case if_True if_False)
      from register_outcome[OF this] show ?thesis using Complete view by (auto simp: new_manifest_def)
    qed
  qed
qed

lemma store_ok_put:
  assumes "store_ok env st" "blob_view env (ms_files st') = put_blob (se_crypto env) content (blob_view env (ms_files st))"
    and "ms_db st' = ms_db st \<or> (\<exists>m. db_insert m (ms_db st) = Inr (ms_db st') \<and> mm_sha256 m = sha256_hex (se_crypto env) content)"
  shows "store_ok env st'"
proof -
  have "blobs_ok (se_crypto env) (blob_view env (ms_files st'))" using assms(1,2) put_blob_simps(1) by (simp add: store_ok_def)
  moreover have "\<forall>m \<in> set (ms_db st'). blob_view env (ms_files st') (mm_sha256 m) \<noteq> None"
    using assms(1,3) put_blob_simps(2,3) unfolding assms(2) by (auto simp: store_ok_def db_insert_iff)
  moreover have "distinct (map mm_id (ms_db st'))" "distinct (map mm_model_id (ms_db st'))"
    using assms(1,3) by (force simp: store_ok_def db_insert_iff)+
  ultimately show ?thesis by (simp add: store_ok_def)
qed

lemma store_ok_same:
  assumes "store_ok env st" "ms_db st' = ms_db st" "blob_view env (ms_files st') = blob_view env (ms_files st)"
  shows "store_ok env st'"
  using assms by (simp add: store_ok_def)

lemma blob_view_remove: "blob_view env (remove_path (blob_file env sha) fs) = (blob_view env fs)(sha := None)"
  by (auto simp: blob_view_def map_of_remove_path fun_eq_iff)

lemma db_list_filter: "filter P (db_list db) = [] \<longleftrightarrow> (\<forall>x \<in> set db. \<not> P x)"
  by (auto simp: db_list_def filter_empty_conv)

lemma remove_cases:
  assumes "store_ok env st" "store_remove env unlinked i st = (b, st')"
  shows "b = (db_get (ms_db st) i \<noteq> None) \<and> ms_db st' = filter (\<lambda>m. mm_model_id m \<noteq> i) (ms_db st) \<and>
    blob_view env (ms_files st') = (case db_get (ms_db st) i of
        None \<Rightarrow> blob_view env (ms_files st)
      | Some m \<Rightarrow> if unlinked \<and> (\<forall>x \<in> set (ms_db st'). mm_sha256 x \<noteq> mm_sha256 m)
                  then (blob_view env (ms_files st))(mm_sha256 m := None) else blob_view env (ms_files st))"
proof (cases "db_get (ms_db st) i")
  case None
  then have "\<forall>m \<in> set (ms_db st). mm_model_id m \<noteq> i" by (simp add: db_get_None)
  then show ?thesis using assms(2) None by (auto simp: store_remove_def db_delete_def Let_def)
next
  case (Some m)
  then have m: "m \<in> set (ms_db st)" "mm_model_id m = i" using db_get_mem by blast+
  then have "is_sha256_hex (mm_sha256 m)" using assms(1) by (auto simp: store_ok_def blob_view_def split: if_splits)
  moreover have "\<exists>x \<in> set (ms_db st). mm_model_id x = i" using m by blast
  ultimately show ?thesis using assms(2) Some
    by (cases "\<forall>x \<in> set (filter (\<lambda>m. mm_model_id m \<noteq> i) (ms_db st)). mm_sha256 x \<noteq> mm_sha256 m"; cases unlinked)
      (auto simp: store_remove_def db_delete_def Let_def blob_absolute_path_def blob_path_ok db_list_filter blob_view_remove
        simp del: filter_filter)
qed

lemma store_step_ok:
  assumes "digest_ok (se_crypto env)" "store_ok env st" "store_step env st st'"
  shows "store_ok env st'"
  using assms(3)
proof cases
  case (step_import rnd reader i quant ty r)
  show ?thesis using import_cases[OF assms(1) step_import] store_ok_same[OF assms(2)] store_ok_put[OF assms(2)]
    by (elim disjE exE conjE) auto
next
  case (step_pull rnd response i quant ty r)
  show ?thesis using pull_cases[OF assms(1) step_pull] store_ok_same[OF assms(2)] store_ok_put[OF assms(2)]
    by (elim disjE exE conjE) auto
next
  case (step_remove unlinked i b)
  note r = remove_cases[OF assms(2) this]
  have "blob_view env (ms_files st') (mm_sha256 x) \<noteq> None" if "x \<in> set (ms_db st')" for x
    using r that assms(2) by (auto simp: store_ok_def split: option.splits)
  moreover have "blobs_ok (se_crypto env) (blob_view env (ms_files st'))"
    using r assms(2) by (auto simp: store_ok_def blobs_ok_def split: option.splits if_splits)
  ultimately show ?thesis using r assms(2) by (simp add: store_ok_def distinct_map_filter)
qed

interpretation model_store: inv_system "\<lambda>st. st = store_empty" "\<lambda>st st'. digest_ok (se_crypto env) \<and> store_step env st st'" "store_ok env" for env
proof
  show "store_ok env st" if "st = store_empty" for st
    using that by (simp add: store_empty_def store_ok_def blob_view_def blobs_ok_def)
qed (blast intro: store_step_ok)

lemma cas_abs_eq: "cas_abs env st' = c \<longleftrightarrow> db_get (ms_db st') = cas_models c \<and> blob_view env (ms_files st') = cas_blobs c"
  by (cases c) (auto simp: cas_abs_def blob_view_def)

text \<open>C23: the store implements a content-addressed map. Seen as a map of models and a map of contents by
  digest, a successful import puts the content that was read under its digest, unless it is there, and
  registers the model, whose id was free; a failed import or download changes no model, and no content
  except that of a model whose id is taken. Removing a model removes its content exactly when no other
  model has the digest. In every reachable state.\<close>

theorem model_store_refines:
  assumes "digest_ok (se_crypto env)"
    and "reach (\<lambda>st. st = store_empty) (\<lambda>st st'. digest_ok (se_crypto env) \<and> store_step env st st') st"
    and "import_from_file env rnd reader i quant ty st = (r, st1)" "pull_from_url env rnd response i quant ty st = (r2, st2)"
    and "store_remove env unlinked i st = (b, st3)"
  shows "(\<forall>m. r = Inr m \<longrightarrow> (\<exists>rs content. reader = Some rs \<and> read_all rs [] 0 = Inr (content, mm_size_bytes m) \<and>
      mm_sha256 m = sha256_hex (se_crypto env) content \<and> cas_models (cas_abs env st) i = None \<and> mm_model_id m = i \<and>
      cas_abs env st1 = cas_register m (cas_put (se_crypto env) content (cas_abs env st)))) \<and>
    (\<forall>m. r2 = Inr m \<longrightarrow> (\<exists>content. response = Complete content \<and>
      mm_sha256 m = sha256_hex (se_crypto env) content \<and> cas_models (cas_abs env st) i = None \<and> mm_model_id m = i \<and>
      cas_abs env st2 = cas_register m (cas_put (se_crypto env) content (cas_abs env st)))) \<and>
    (\<forall>e. (r = Inl e \<longrightarrow> cas_abs env st1 = cas_abs env st \<or>
           e = DuplicateRow \<and> (\<exists>content. cas_abs env st1 = cas_put (se_crypto env) content (cas_abs env st))) \<and>
         (r2 = Inl e \<longrightarrow> cas_abs env st2 = cas_abs env st \<or>
           e = DuplicateRow \<and> (\<exists>content. cas_abs env st2 = cas_put (se_crypto env) content (cas_abs env st)))) \<and>
    b = (cas_models (cas_abs env st) i \<noteq> None) \<and> cas_abs env st3 = cas_remove unlinked i (cas_abs env st)"
proof (intro conjI)
  have ok: "store_ok env st" by (rule model_store.reach_inv[OF assms(2)])
  have put: "cas_abs env s' = cas_put (se_crypto env) c (cas_abs env st)"
    if "blob_view env (ms_files s') = put_blob (se_crypto env) c (blob_view env (ms_files st))" "ms_db s' = ms_db st" for s' c
    using that by (auto simp: cas_abs_eq cas_put_def put_blob_def Let_def)
  have reg: "cas_abs env s' = cas_register m (cas_put (se_crypto env) c (cas_abs env st)) \<and> cas_models (cas_abs env st) (mm_model_id m) = None"
    if "blob_view env (ms_files s') = put_blob (se_crypto env) c (blob_view env (ms_files st))"
      "db_insert m (ms_db st) = Inr (ms_db s')" for s' c m
    using that by (auto simp: cas_abs_eq cas_put_def put_blob_def Let_def cas_register_def db_insert_iff db_get_snoc db_get_None)
  have same: "cas_abs env s' = cas_abs env st"
    if "blob_view env (ms_files s') = blob_view env (ms_files st)" "ms_db s' = ms_db st" for s'
    using that by (simp add: cas_abs_eq)
  note imp = import_cases[OF assms(1,3)] and pul = pull_cases[OF assms(1,4)]
  show "\<forall>m. r = Inr m \<longrightarrow> (\<exists>rs content. reader = Some rs \<and> read_all rs [] 0 = Inr (content, mm_size_bytes m) \<and>
      mm_sha256 m = sha256_hex (se_crypto env) content \<and> cas_models (cas_abs env st) i = None \<and> mm_model_id m = i \<and>
      cas_abs env st1 = cas_register m (cas_put (se_crypto env) content (cas_abs env st)))"
    using imp reg by auto
  show "\<forall>m. r2 = Inr m \<longrightarrow> (\<exists>content. response = Complete content \<and>
      mm_sha256 m = sha256_hex (se_crypto env) content \<and> cas_models (cas_abs env st) i = None \<and> mm_model_id m = i \<and>
      cas_abs env st2 = cas_register m (cas_put (se_crypto env) content (cas_abs env st)))"
    using pul reg by auto
  show "\<forall>e. (r = Inl e \<longrightarrow> cas_abs env st1 = cas_abs env st \<or>
           e = DuplicateRow \<and> (\<exists>content. cas_abs env st1 = cas_put (se_crypto env) content (cas_abs env st))) \<and>
         (r2 = Inl e \<longrightarrow> cas_abs env st2 = cas_abs env st \<or>
           e = DuplicateRow \<and> (\<exists>content. cas_abs env st2 = cas_put (se_crypto env) content (cas_abs env st)))"
  proof (intro allI conjI impI)
    show "cas_abs env st1 = cas_abs env st \<or> e = DuplicateRow \<and> (\<exists>content. cas_abs env st1 = cas_put (se_crypto env) content (cas_abs env st))"
      if "r = Inl e" for e using imp that put[of st1] same[of st1] by (elim disjE exE conjE) auto
    show "cas_abs env st2 = cas_abs env st \<or> e = DuplicateRow \<and> (\<exists>content. cas_abs env st2 = cas_put (se_crypto env) content (cas_abs env st))"
      if "r2 = Inl e" for e using pul that put[of st2] same[of st2] by (elim disjE exE conjE) auto
  qed
  note rm = remove_cases[OF ok assms(5)]
  show "b = (cas_models (cas_abs env st) i \<noteq> None)" using rm by simp
  have d: "distinct (map mm_model_id (ms_db st3))" using rm ok by (simp add: store_ok_def distinct_map_filter)
  have all: "(\<forall>x \<in> set (ms_db st3). P x) \<longleftrightarrow> (\<forall>j x. db_get (ms_db st3) j = Some x \<longrightarrow> P x)" for P
    using db_get_mem db_get_in[OF d] by metis
  have get: "db_get (ms_db st3) = (db_get (ms_db st))(i := None)" using rm by (simp add: db_get_filter)
  show "cas_abs env st3 = cas_remove unlinked i (cas_abs env st)"
    using rm unfolding cas_abs_eq all get by (auto simp: cas_remove_def Let_def get fun_upd_idem split: option.splits)
qed

definition demo_store_env :: store_env where
  "demo_store_env = \<lparr>se_crypto = demo_crypto\<lparr>sha256_hex := (\<lambda>b. replicate 64 (if b = ''abc'' then CHR ''a'' else CHR ''0''))\<rparr>,
     se_data_dir = ''/d'', se_max_off = 100\<rparr>"

definition demo_im :: import_random where
  "demo_im = \<lparr>im_tmp = ''u'', im_id = ''1'', im_now = ''t'', im_fault = None\<rparr>"

definition demo_mid :: model_id where
  "demo_mid = \<lparr>mid_name = ''m'', mid_tag = ''1''\<rparr>"

abbreviation demo_import :: "(store_error, model_manifest) result \<times> model_store" where
  "demo_import \<equiv> import_from_file demo_store_env demo_im (Some [Some ''ab'', Some ''c'']) demo_mid None Llm store_empty"

lemma demo_digest_ok: "digest_ok (se_crypto demo_store_env)"
  by (simp add: digest_ok_def demo_store_env_def is_sha256_hex_def hex_lower_digit_def list_all_iff)

lemma demo_store_reach:
  "reach (\<lambda>st. st = store_empty) (\<lambda>st st'. digest_ok (se_crypto demo_store_env) \<and> store_step demo_store_env st st') store_empty"
  by (simp add: reach_init)

lemma demo_imported: "\<exists>m. fst demo_import = Inr m"
proof -
  have hex: "is_sha256_hex (sha256_hex (se_crypto demo_store_env) b)" for b using demo_digest_ok by (simp add: digest_ok_def)
  have "\<exists>fs. import_blob (se_crypto demo_store_env) (se_data_dir demo_store_env) ''u'' None [Some ''ab'', Some ''c''] []
      = (Inr (sha256_hex (se_crypto demo_store_env) ''abc'', 3), fs)"
    using hex by (simp add: import_blob_def blob_path_ok u64_add_def Let_def)
  then show ?thesis using hex
    by (auto simp: import_from_file_def demo_im_def store_empty_def blob_absolute_path_def blob_path_ok db_insert_def Let_def)
qed

theorem model_store_refines_witness:
  "\<exists>m. cas_models (cas_abs demo_store_env (snd demo_import)) demo_mid = Some m \<and> mm_size_bytes m = 3"
proof -
  obtain m where m: "demo_import = (Inr m, snd demo_import)" using demo_imported by (metis prod.collapse)
  have "read_all [Some ''ab'', Some ''c''] [] 0 = Inr (''abc'', 3)" by (simp add: u64_add_def)
  moreover have "pull_from_url demo_store_env demo_im Refused demo_mid None Llm store_empty = (Inl DownloadFailed, store_empty)"
    by (simp add: pull_from_url_def)
  moreover have "store_remove demo_store_env True demo_mid store_empty = (False, store_empty)"
    by (simp add: store_remove_def store_empty_def db_delete_def)
  ultimately have "\<exists>content. cas_abs demo_store_env (snd demo_import) = cas_register m (cas_put (se_crypto demo_store_env) content (cas_abs demo_store_env store_empty))
      \<and> mm_size_bytes m = 3 \<and> mm_model_id m = demo_mid"
    using model_store_refines[OF demo_digest_ok demo_store_reach m, THEN conjunct1, THEN spec, THEN mp, OF _ _ refl] by force
  then show ?thesis by (auto simp: cas_register_def simp del: cas_abs_simps)
qed

text \<open>C24: only intact models are loaded. In every reachable state each registered model passes the check
  before it is loaded; and whatever the files are replaced with afterwards, the check passes only for a
  file in the blob directory whose content has the digest that was registered.\<close>

theorem loaded_model_intact:
  assumes "digest_ok (se_crypto env)"
    and "reach (\<lambda>st. st = store_empty) (\<lambda>st st'. digest_ok (se_crypto env) \<and> store_step env st st') st"
  shows "(\<forall>i m. store_get st i = Some m \<longrightarrow> blob_path_verified env st i = Inr (blob_file env (mm_sha256 m)) \<and>
      blob_path env st i = Inr (blob_file env (mm_sha256 m))) \<and>
    (\<forall>fs i p. blob_path_verified env (st\<lparr>ms_files := fs\<rparr>) i = Inr p \<longrightarrow>
      (\<exists>m c. store_get st i = Some m \<and> p = blob_file env (mm_sha256 m) \<and> map_of fs p = Some c \<and>
         sha256_hex (se_crypto env) c = mm_sha256 m))"
proof (intro conjI allI impI)
  have ok: "store_ok env st" by (rule model_store.reach_inv[OF assms(2)])
  fix i m assume m: "store_get st i = Some m"
  then have "m \<in> set (ms_db st)" using db_get_mem by (simp add: store_get_def)
  then obtain c where c: "is_sha256_hex (mm_sha256 m)" "map_of (ms_files st) (blob_file env (mm_sha256 m)) = Some c"
    "sha256_hex (se_crypto env) c = mm_sha256 m"
    using ok by (fastforce simp: store_ok_def blobs_ok_def blob_view_def split: if_splits)
  then show "blob_path_verified env st i = Inr (blob_file env (mm_sha256 m))" "blob_path env st i = Inr (blob_file env (mm_sha256 m))"
    using m by (simp_all add: blob_path_verified_def blob_path_def verify_blob_def blob_absolute_path_def blob_path_ok store_get_def path_exists_def)
next
  fix fs i p assume "blob_path_verified env (st\<lparr>ms_files := fs\<rparr>) i = Inr p"
  then show "\<exists>m c. store_get st i = Some m \<and> p = blob_file env (mm_sha256 m) \<and> map_of fs p = Some c \<and>
         sha256_hex (se_crypto env) c = mm_sha256 m"
    by (auto simp: blob_path_verified_def verify_blob_def blob_absolute_path_def blob_path_ok store_get_def rbind_Inr_iff split: if_splits)
qed

theorem loaded_model_intact_witness:
  "\<exists>m. store_get (snd demo_import) demo_mid = Some m \<and>
     blob_path_verified demo_store_env (snd demo_import) demo_mid = Inr (blob_file demo_store_env (mm_sha256 m))"
proof -
  have "store_step demo_store_env store_empty (snd demo_import)" by (rule step_import[OF prod.collapse[symmetric]])
  then have "reach (\<lambda>st. st = store_empty) (\<lambda>st st'. digest_ok (se_crypto demo_store_env) \<and> store_step demo_store_env st st') (snd demo_import)"
    using demo_digest_ok by (intro reach_step[OF demo_store_reach]) simp
  note intact = loaded_model_intact[OF demo_digest_ok this]
  obtain m where m: "demo_import = (Inr m, snd demo_import)" using demo_imported by (metis prod.collapse)
  then have "db_insert m (ms_db store_empty) = Inr (ms_db (snd demo_import))" "mm_model_id m = demo_mid"
    using import_cases[OF demo_digest_ok m] by auto
  then have "store_get (snd demo_import) demo_mid = Some m" by (simp add: db_insert_iff store_empty_def store_get_def db_get_def)
  then show ?thesis using intact by blast
qed

end
