(* ===== verification/Registry.thy ===== *)
theory Registry
  imports Signature Model_Store
begin

section \<open>Approvals, baselines and the loading of models\<close>

text \<open>
  \<open>approval.rs\<close> and \<open>baseline.rs\<close> of \<open>maranode-common\<close>, \<open>routes/registry.rs\<close> and \<open>routes/baseline.rs\<close> of
  \<open>maranode-api\<close>, \<open>baseline_check.rs\<close> and \<open>lifecycle.rs\<close> of \<open>maranode-daemon\<close>. A file that was written holds its
  value (\<open>Saved\<close>), any other is \<open>Garbage\<close>; directories are lists of names with files, in the order in which
  they are read. Random ids, the clock and the answers of the inference engine are arguments. Handlers
  return the events that they append to the audit log. A handler that panics is an error \<open>Panicked\<close>.
\<close>

datatype 'a saved = Saved 'a | Garbage

definition load_saved :: "'a saved option \<Rightarrow> 'a option" where
  "load_saved f = (case f of Some (Saved x) \<Rightarrow> Some x | _ \<Rightarrow> None)"

subsection \<open>Approval tokens\<close>

record approval_token =
  at_token_id :: string
  at_model_id :: string
  at_model_sha256 :: string
  at_approved_by :: string
  at_approved_at :: timestamp
  at_expires_at :: "timestamp option"
  at_note :: "string option"
  at_signer_pubkey :: string
  at_signature :: string

definition token_payload :: "approval_token \<Rightarrow> json" where
  "token_payload t = JObj
     [(''token_id'', JStr (at_token_id t)), (''model_id'', JStr (at_model_id t)),
      (''model_sha256'', JStr (at_model_sha256 t)), (''approved_by'', JStr (at_approved_by t)),
      (''approved_at'', JTime (at_approved_at t)), (''expires_at'', jopt JTime (at_expires_at t)),
      (''note'', jopt JStr (at_note t)), (''signer_pubkey'', JStr (at_signer_pubkey t))]"

definition token_sign :: "sig_env \<Rightarrow> bytes \<Rightarrow> approval_token \<Rightarrow> approval_token" where
  "token_sign env key t =
     (let t1 = t\<lparr>at_signer_pubkey := b64_encode env (ed_public env key)\<rparr>
      in t1\<lparr>at_signature := b64_encode env (ed_sign env key (json_vec env (token_payload t1)))\<rparr>)"

definition token_verify :: "sig_env \<Rightarrow> timestamp \<Rightarrow> approval_token \<Rightarrow> (sig_error, unit) result" where
  "token_verify env now t =
     rbind (check_signature env (at_signer_pubkey t) (at_signature t) (token_payload t)) (\<lambda>_.
       case at_expires_at t of
         Some e \<Rightarrow> if now > e then Inl (TokenExpired e) else Inr ()
       | None \<Rightarrow> Inr ())"

definition token_file :: "string \<Rightarrow> string" where
  "token_file model_sha256 = model_sha256 @ ''.mrn-token''"

interpretation approval: signed_record env "token_sign env" token_payload at_signer_pubkey at_signature
  for env :: sig_env
  by unfold_locales (simp_all add: token_sign_def token_payload_def Let_def)

subsection \<open>The registry\<close>

datatype submission_status = Pending | Approved | Revoked

record submission_record =
  sb_submission_id :: string
  sb_model_id :: string
  sb_model_sha256 :: string
  sb_submitted_by :: string
  sb_submitted_at :: timestamp
  sb_note :: "string option"
  sb_status :: submission_status
  sb_cm_ticket_id :: "string option"
  sb_cm_system :: "string option"

record registry_dir =
  rg_signing_key :: "bytes option"
  rg_verifying_key :: "bytes option"
  rg_pending :: "(string \<times> submission_record saved) list"
  rg_tokens :: "(string \<times> approval_token saved) list"

datatype registry_error = NotSubmitted | AlreadyRevoked | BadSigningKey | Panicked

text \<open>\<open>seed\<close> is what the generator of keys draws.\<close>

definition load_or_create_signing_key :: "sig_env \<Rightarrow> bytes \<Rightarrow> registry_dir \<Rightarrow> (registry_error, bytes) result \<times> registry_dir" where
  "load_or_create_signing_key env seed d =
     (case rg_signing_key d of
        Some b \<Rightarrow> (if length b = 32 then (Inr b, d) else (Inl BadSigningKey, d))
      | None \<Rightarrow> (Inr seed, d\<lparr>rg_signing_key := Some seed, rg_verifying_key := Some (ed_public env seed)\<rparr>))"

definition submission_file :: "string \<Rightarrow> string" where
  "submission_file sha256 = sha256 @ ''.json''"

definition load_submission :: "registry_dir \<Rightarrow> string \<Rightarrow> submission_record option" where
  "load_submission d sha256 = load_saved (map_of (rg_pending d) (submission_file sha256))"

definition save_submission :: "submission_record \<Rightarrow> registry_dir \<Rightarrow> registry_dir" where
  "save_submission rec d = d\<lparr>rg_pending := put_key (submission_file (sb_model_sha256 rec)) (Saved rec) (rg_pending d)\<rparr>"

record submit_request =
  sr_model_id :: string
  sr_model_sha256 :: string
  sr_submitted_by :: string
  sr_note :: "string option"

definition registry_submit :: "timestamp \<Rightarrow> string \<Rightarrow> submit_request \<Rightarrow> registry_dir \<Rightarrow> submission_record \<times> registry_dir" where
  "registry_submit now uuid req d =
     (let rec = \<lparr>sb_submission_id = uuid, sb_model_id = sr_model_id req, sb_model_sha256 = sr_model_sha256 req,
                 sb_submitted_by = sr_submitted_by req, sb_submitted_at = now, sb_note = sr_note req,
                 sb_status = Pending, sb_cm_ticket_id = None, sb_cm_system = None\<rparr>
      in (rec, save_submission rec d))"

text \<open>The task that \<open>submit\<close> spawns, once a ticket was opened.\<close>

definition record_ticket :: "string \<Rightarrow> string \<times> string \<Rightarrow> registry_dir \<Rightarrow> registry_dir" where
  "record_ticket sha256 ticket d =
     (case load_submission d sha256 of
        None \<Rightarrow> d
      | Some r \<Rightarrow> save_submission (r\<lparr>sb_cm_ticket_id := Some (fst ticket), sb_cm_system := Some (snd ticket)\<rparr>) d)"

text \<open>\<open>Path::extension\<close>: the part of a name after its last dot, if something stands before it.\<close>

definition has_extension :: "string \<Rightarrow> string \<Rightarrow> bool" where
  "has_extension ext name \<longleftrightarrow> suffix (CHR ''.'' # ext) name \<and> name \<noteq> CHR ''.'' # ext"

definition list_pending :: "registry_dir \<Rightarrow> submission_record list" where
  "list_pending d = rev (sort_key sb_submitted_at (rev (List.map_filter (\<lambda>(name, f).
     if has_extension ''json'' name then load_saved (Some f) else None) (rg_pending d))))"

definition list_tokens :: "registry_dir \<Rightarrow> approval_token list" where
  "list_tokens d = rev (sort_key at_approved_at (rev (List.map_filter (\<lambda>(name, f).
     if has_extension ''mrn-token'' name then load_saved (Some f) else None) (rg_tokens d))))"

record approve_request =
  ar_approved_by :: string
  ar_note :: "string option"
  ar_expires_in_days :: "int option"

text \<open>\<open>chrono\<close> panics when the number of days, or the time they lead to, is out of its range, which is
  \<open>time_range\<close>.\<close>

definition day_nanos :: int where
  "day_nanos = 86400 * 10 ^ 9"

definition approve ::
  "sig_env \<Rightarrow> (timestamp \<Rightarrow> bool) \<Rightarrow> timestamp \<Rightarrow> bytes \<Rightarrow> string \<Rightarrow> string \<Rightarrow> approve_request \<Rightarrow> registry_dir \<Rightarrow>
     (registry_error, approval_token) result \<times> registry_dir \<times> audit_event list" where
  "approve env time_range now seed uuid sha256 req d =
     (case load_submission d sha256 of
        None \<Rightarrow> (Inl NotSubmitted, d, [])
      | Some rec \<Rightarrow>
          if sb_status rec = Revoked then (Inl AlreadyRevoked, d, [])
          else (case load_or_create_signing_key env seed d of
              (Inl e, d1) \<Rightarrow> (Inl e, d1, [])
            | (Inr key, d1) \<Rightarrow>
                (let expires_at = map_option (\<lambda>days. now + days * day_nanos) (ar_expires_in_days req)
                 in if (case expires_at of Some t \<Rightarrow> \<not> time_range t | None \<Rightarrow> False) then (Inl Panicked, d1, [])
                    else (let token = token_sign env key
                                \<lparr>at_token_id = uuid, at_model_id = sb_model_id rec, at_model_sha256 = sha256,
                                 at_approved_by = ar_approved_by req, at_approved_at = now, at_expires_at = expires_at,
                                 at_note = (case ar_note req of Some n \<Rightarrow> Some n | None \<Rightarrow> sb_note rec),
                                 at_signer_pubkey = [], at_signature = []\<rparr>;
                              d2 = d1\<lparr>rg_tokens := put_key (token_file sha256) (Saved token) (rg_tokens d1)\<rparr>;
                              d3 = save_submission (rec\<lparr>sb_status := Approved\<rparr>) d2
                          in (Inr token, d3, [ModelApprovalGranted (sb_model_id rec) sha256 (ar_approved_by req)
                                (at_token_id token) (at_signer_pubkey token)])))))"

definition revoke ::
  "string \<Rightarrow> string \<Rightarrow> registry_dir \<Rightarrow> (registry_error, unit) result \<times> registry_dir \<times> audit_event list" where
  "revoke sha256 revoked_by d =
     (case load_submission d sha256 of
        None \<Rightarrow> (Inl NotSubmitted, d, [])
      | Some rec \<Rightarrow>
          (let f = map_of (rg_tokens d) (token_file sha256);
               token_id = (case load_saved f of Some t \<Rightarrow> at_token_id t | None \<Rightarrow> []);
               d1 = d\<lparr>rg_tokens := filter (\<lambda>(name, _). name \<noteq> token_file sha256) (rg_tokens d)\<rparr>;
               d2 = save_submission (rec\<lparr>sb_status := Revoked\<rparr>) d1
           in (Inr (), d2, [ModelApprovalRevoked (sb_model_id rec) sha256 revoked_by token_id])))"

subsection \<open>Baselines\<close>

record test_vector =
  tv_prompt :: string
  tv_temperature :: f32
  tv_seed :: nat
  tv_max_tokens :: nat
  tv_expected_sha256 :: string

record baseline =
  bl_schema_version :: nat
  bl_model_sha256 :: string
  bl_model_id :: string
  bl_created_at :: timestamp
  bl_vectors :: "test_vector list"
  bl_max_mismatches :: nat
  bl_signer_pubkey :: string
  bl_signature :: string

definition vector_value :: "test_vector \<Rightarrow> json" where
  "vector_value v = JObj
     [(''prompt'', JStr (tv_prompt v)), (''temperature'', JF32 (tv_temperature v)), (''seed'', jnat (tv_seed v)),
      (''max_tokens'', jnat (tv_max_tokens v)), (''expected_sha256'', JStr (tv_expected_sha256 v))]"

definition baseline_payload :: "baseline \<Rightarrow> json" where
  "baseline_payload b = JObj
     [(''schema_version'', jnat (bl_schema_version b)), (''model_sha256'', JStr (bl_model_sha256 b)),
      (''model_id'', JStr (bl_model_id b)), (''created_at'', JTime (bl_created_at b)),
      (''vectors'', JArr (map vector_value (bl_vectors b))), (''max_mismatches'', jnat (bl_max_mismatches b)),
      (''signer_pubkey'', JStr (bl_signer_pubkey b))]"

definition baseline_sign :: "sig_env \<Rightarrow> bytes \<Rightarrow> baseline \<Rightarrow> baseline" where
  "baseline_sign env key b =
     (let b1 = b\<lparr>bl_signer_pubkey := b64_encode env (ed_public env key)\<rparr>
      in b1\<lparr>bl_signature := b64_encode env (ed_sign env key (json_vec env (baseline_payload b1)))\<rparr>)"

definition baseline_verify :: "sig_env \<Rightarrow> baseline \<Rightarrow> (sig_error, unit) result" where
  "baseline_verify env b = check_signature env (bl_signer_pubkey b) (bl_signature b) (baseline_payload b)"

interpretation baselines: signed_record env "baseline_sign env" baseline_payload bl_signer_pubkey bl_signature
  for env :: sig_env
  by unfold_locales (simp_all add: baseline_sign_def baseline_payload_def Let_def)

text \<open>The key file of baselines is created anew or read, like that of approvals.\<close>

definition baseline_signing_key ::
  "sig_env \<Rightarrow> bytes \<Rightarrow> bytes option \<times> bytes option \<Rightarrow> (registry_error, bytes) result \<times> bytes option \<times> bytes option" where
  "baseline_signing_key env seed files =
     (case fst files of
        Some b \<Rightarrow> (if length b = 32 then (Inr b, files) else (Inl BadSigningKey, files))
      | None \<Rightarrow> (Inr seed, Some seed, Some (ed_public env seed)))"

definition baseline_file :: "string \<Rightarrow> string" where
  "baseline_file model_sha256 = model_sha256 @ ''.mrn-baseline''"

text \<open>\<open>gen i v\<close> is the answer of the engine to vector \<open>v\<close>, the \<open>i\<close>-th: \<open>None\<close> when it fails.\<close>

type_synonym answers = "nat \<Rightarrow> test_vector \<Rightarrow> string option"

fun run_vectors :: "crypto \<Rightarrow> answers \<Rightarrow> nat \<Rightarrow> test_vector list \<Rightarrow> nat \<times> nat \<Rightarrow> nat \<times> nat" where
  "run_vectors cr gen i [] counts = counts"
| "run_vectors cr gen i (v # vs) (passed, failed) =
     run_vectors cr gen (i + 1) vs
       (case gen i v of
          Some content \<Rightarrow> if sha256_hex cr content = tv_expected_sha256 v then (passed + 1, failed) else (passed, failed + 1)
        | None \<Rightarrow> (passed, failed + 1))"

text \<open>The daemon's check logs the first eight bytes of the expected digest of a vector that fails, and panics
  when there are fewer.\<close>

definition vector_panics :: "crypto \<Rightarrow> answers \<Rightarrow> nat \<times> test_vector \<Rightarrow> bool" where
  "vector_panics cr gen = (\<lambda>(i, v). case gen i v of
      Some content \<Rightarrow> sha256_hex cr content \<noteq> tv_expected_sha256 v \<and> length (tv_expected_sha256 v) < 8
    | None \<Rightarrow> False)"

datatype check_error = InvalidModelId | UnknownModel | NoBaseline | UnreadableBaseline | BadBaselineSignature sig_error | ShortDigest

record check_response =
  ck_model :: string
  ck_vectors_run :: nat
  ck_vectors_passed :: nat
  ck_vectors_failed :: nat
  ck_ok :: bool

definition check_baseline ::
  "crypto \<Rightarrow> sig_env \<Rightarrow> answers \<Rightarrow> (string \<times> baseline saved) list \<Rightarrow> model_store \<Rightarrow> string \<Rightarrow> baseline option \<Rightarrow>
     (check_error, check_response) result \<times> audit_event list" where
  "check_baseline cr env gen dir st model req_baseline =
     (case model_id_parse model of
        None \<Rightarrow> (Inl InvalidModelId, [])
      | Some model_id \<Rightarrow>
          (case store_get st model_id of
             None \<Rightarrow> (Inl UnknownModel, [])
           | Some manifest \<Rightarrow>
               (let sha = mm_sha256 manifest;
                    found = (case req_baseline of
                        Some b \<Rightarrow> Inr b
                      | None \<Rightarrow> (case map_of dir (baseline_file sha) of
                          None \<Rightarrow> Inl (if length sha < 12 then ShortDigest else NoBaseline)
                        | Some f \<Rightarrow> ok_or UnreadableBaseline (load_saved (Some f))))
                in case found of
                     Inl e \<Rightarrow> (Inl e, [])
                   | Inr b \<Rightarrow>
                       (case baseline_verify env b of
                          Inl e \<Rightarrow> (Inl (BadBaselineSignature e), [])
                        | Inr _ \<Rightarrow>
                            (let (passed, failed) = run_vectors cr gen 0 (bl_vectors b) (0, 0);
                                 ok = failed \<le> bl_max_mismatches b
                             in (Inr \<lparr>ck_model = model, ck_vectors_run = length (bl_vectors b), ck_vectors_passed = passed,
                                      ck_vectors_failed = failed, ck_ok = ok\<rparr>,
                                 [ModelBaselineChecked (model_id_display model_id) sha (length (bl_vectors b)) passed failed (bl_signer_pubkey b)]
                                 @ (if ok then [] else [ModelDriftDetected (model_id_display model_id) sha failed ''api_check'']))))))) "

subsection \<open>Loading\<close>

datatype drift_action = Allow | Warn | Refuse

fun drift_str :: "drift_action \<Rightarrow> string" where
  "drift_str Allow = ''allow''"
| "drift_str Warn = ''warn''"
| "drift_str Refuse = ''refuse''"

datatype load_error =
    StoreError store_error | LoadBlocked string | EngineFailed | BaselineUnreadable | DriftRefused nat | DigestTooShort

record baseline_checker =
  bc_dir :: "(string \<times> baseline saved) list"
  bc_drift_action :: drift_action

definition checker_check ::
  "crypto \<Rightarrow> sig_env \<Rightarrow> answers \<Rightarrow> baseline_checker \<Rightarrow> model_id \<Rightarrow> string \<Rightarrow> (load_error, bool) result \<times> audit_event list" where
  "checker_check cr env gen ck model_id sha =
     (case map_of (bc_dir ck) (baseline_file sha) of
        None \<Rightarrow> (if length sha < 12 then Inl DigestTooShort else Inr True, [])
      | Some f \<Rightarrow>
          (case load_saved (Some f) of
             None \<Rightarrow> (Inl BaselineUnreadable, [])
           | Some b \<Rightarrow>
               (case baseline_verify env b of
                  Inl e \<Rightarrow> (Inr False, [ModelDriftDetected (model_id_display model_id) sha (length (bl_vectors b)) ''invalid_signature''])
                | Inr _ \<Rightarrow>
                    if \<exists>x \<in> set (zip [0..<length (bl_vectors b)] (bl_vectors b)). vector_panics cr gen x then (Inl DigestTooShort, [])
                    else (let (passed, failed) = run_vectors cr gen 0 (bl_vectors b) (0, 0);
                         ok = failed \<le> bl_max_mismatches b;
                         checked = ModelBaselineChecked (model_id_display model_id) sha (length (bl_vectors b)) passed failed (bl_signer_pubkey b)
                     in if ok then (Inr True, [checked])
                        else (if bc_drift_action ck = Refuse then Inl (DriftRefused failed) else Inr False,
                              [checked, ModelDriftDetected (model_id_display model_id) sha failed (drift_str (bc_drift_action ck))])))))"

record lifecycle =
  lc_loaded :: "(string \<times> model_id) list"
  lc_engine :: "string list"

datatype block_reason = NoToken | UnreadableToken | InvalidToken sig_error

text \<open>The settings of a \<open>LifecycleManager\<close> with what it meets: the token and baseline files, the engine and
  the text of its messages. There is an audit log exactly when there is a checker.\<close>

record lifecycle_env =
  le_store :: store_env
  le_sig :: sig_env
  le_require_approval :: bool
  le_tokens :: "(string \<times> approval_token saved) list"
  le_checker :: "baseline_checker option"
  le_load :: "string \<Rightarrow> path \<Rightarrow> bool"
  le_unload :: "string \<Rightarrow> bool"
  le_answers :: answers
  le_text :: "block_reason \<Rightarrow> string"

definition block_reason_for :: "lifecycle_env \<Rightarrow> timestamp \<Rightarrow> string \<Rightarrow> block_reason option" where
  "block_reason_for env now sha =
     (case map_of (le_tokens env) (token_file sha) of
        None \<Rightarrow> Some NoToken
      | Some f \<Rightarrow> (case load_saved (Some f) of
          None \<Rightarrow> Some UnreadableToken
        | Some t \<Rightarrow> (case token_verify (le_sig env) now t of Inr _ \<Rightarrow> None | Inl e \<Rightarrow> Some (InvalidToken e))))"

definition approval_gate :: "lifecycle_env \<Rightarrow> timestamp \<Rightarrow> model_store \<Rightarrow> model_id \<Rightarrow> (load_error, unit) result \<times> audit_event list" where
  "approval_gate env now st model_id =
     (if \<not> le_require_approval env then (Inr (), [])
      else (case store_get st model_id of
          None \<Rightarrow> (Inr (), [])
        | Some manifest \<Rightarrow>
            (let sha = mm_sha256 manifest
             in case block_reason_for env now sha of
                  None \<Rightarrow> (Inr (), [])
                | Some r \<Rightarrow>
                    if r = NoToken \<and> length sha < 12 then (Inl DigestTooShort, [])
                    else (Inl (LoadBlocked (le_text env r)),
                          if le_checker env = None then [] else [ModelLoadBlocked (model_id_display model_id) sha (le_text env r)]))))"

definition baseline_gate :: "lifecycle_env \<Rightarrow> model_store \<Rightarrow> model_id \<Rightarrow> (load_error, unit) result \<times> audit_event list" where
  "baseline_gate env st model_id =
     (case le_checker env of
        None \<Rightarrow> (Inr (), [])
      | Some ck \<Rightarrow>
          (case store_get st model_id of
             None \<Rightarrow> (Inr (), [])
           | Some manifest \<Rightarrow>
               (case checker_check (se_crypto (le_store env)) (le_sig env) (le_answers env) ck model_id (mm_sha256 manifest) of
                  (Inl e, evs) \<Rightarrow> (Inl e, evs)
                | (Inr _, evs) \<Rightarrow> (Inr (), evs))))"

definition ensure_loaded ::
  "lifecycle_env \<Rightarrow> timestamp \<Rightarrow> model_store \<Rightarrow> model_id \<Rightarrow> lifecycle \<Rightarrow>
     (load_error, unit) result \<times> lifecycle \<times> audit_event list" where
  "ensure_loaded env now st model_id lc =
     (let key = model_id_display model_id
      in if map_of (lc_loaded lc) key \<noteq> None then (Inr (), lc, [])
         else (case blob_path_verified (le_store env) st model_id of
             Inl e \<Rightarrow> (Inl (StoreError e), lc, [])
           | Inr p \<Rightarrow>
               (case approval_gate env now st model_id of
                  (Inl e, evs) \<Rightarrow> (Inl e, lc, evs)
                | (Inr _, evs) \<Rightarrow>
                    if \<not> le_load env key p then (Inl EngineFailed, lc, evs)
                    else (let lc1 = lc\<lparr>lc_engine := key # lc_engine lc\<rparr>
                      in case baseline_gate env st model_id of
                           (Inl e, evs1) \<Rightarrow> (Inl e, lc1, evs @ evs1)
                         | (Inr _, evs1) \<Rightarrow> (Inr (), lc1\<lparr>lc_loaded := put_key key model_id (lc_loaded lc1)\<rparr>, evs @ evs1)))))"

definition unload :: "lifecycle_env \<Rightarrow> model_id \<Rightarrow> lifecycle \<Rightarrow> (load_error, unit) result \<times> lifecycle" where
  "unload env model_id lc =
     (let key = model_id_display model_id
      in if \<not> le_unload env key then (Inl EngineFailed, lc)
         else (Inr (), lc\<lparr>lc_engine := removeAll key (lc_engine lc), lc_loaded := filter (\<lambda>(k, _). k \<noteq> key) (lc_loaded lc)\<rparr>))"

definition loaded_models :: "lifecycle \<Rightarrow> string list" where
  "loaded_models lc = map fst (lc_loaded lc)"

subsection \<open>The registry keeps its files consistent\<close>

inductive registry_step :: "sig_env \<Rightarrow> registry_dir \<Rightarrow> registry_dir \<Rightarrow> bool" for env where
  reg_submit: "registry_submit now uuid req d = (r, d') \<Longrightarrow> registry_step env d d'"
| reg_ticket: "registry_step env d (record_ticket sha ticket d)"
| reg_approve: "length seed = 32 \<Longrightarrow> approve env rng now seed uuid sha areq d = (r, d', evs) \<Longrightarrow> registry_step env d d'"
| reg_revoke: "revoke sha who d = (r, d', evs) \<Longrightarrow> registry_step env d d'"

definition registry_empty :: registry_dir where
  "registry_empty = \<lparr>rg_signing_key = None, rg_verifying_key = None, rg_pending = [], rg_tokens = []\<rparr>"

definition token_valid :: "sig_env \<Rightarrow> string \<Rightarrow> approval_token saved \<Rightarrow> bool" where
  "token_valid env name f \<longleftrightarrow> (\<exists>t. f = Saved t \<and> name = token_file (at_model_sha256 t) \<and>
     check_signature env (at_signer_pubkey t) (at_signature t) (token_payload t) = Inr ())"

definition registry_ok :: "sig_env \<Rightarrow> registry_dir \<Rightarrow> bool" where
  "registry_ok env d \<longleftrightarrow>
     (\<forall>key. rg_signing_key d = Some key \<longrightarrow> length key = 32) \<and>
     (\<forall>name f. map_of (rg_pending d) name = Some f \<longrightarrow> (\<exists>rec. f = Saved rec \<and> name = submission_file (sb_model_sha256 rec))) \<and>
     (\<forall>name f. map_of (rg_tokens d) name = Some f \<longrightarrow> token_valid env name f) \<and>
     (\<forall>sha rec. load_submission d sha = Some rec \<longrightarrow>
        (sb_status rec = Revoked \<longrightarrow> map_of (rg_tokens d) (token_file sha) = None) \<and>
        (sb_status rec = Approved \<longrightarrow> map_of (rg_tokens d) (token_file sha) \<noteq> None))"

lemma file_names_inj [simp]:
  "submission_file a = submission_file b \<longleftrightarrow> a = b" "token_file a = token_file b \<longleftrightarrow> a = b"
  by (simp_all add: submission_file_def token_file_def)

lemma load_saved_simps [simp]: "load_saved None = None" "load_saved (Some (Saved x)) = Some x" "load_saved (Some Garbage) = None"
  by (simp_all add: load_saved_def)

lemma load_save_submission:
  "load_submission (save_submission rec d) sha = (if sha = sb_model_sha256 rec then Some rec else load_submission d sha)"
  by (auto simp: load_submission_def save_submission_def map_of_put_key)

lemma save_submission_simps [simp]:
  "rg_tokens (save_submission rec d) = rg_tokens d" "rg_signing_key (save_submission rec d) = rg_signing_key d"
  "map_of (rg_pending (save_submission rec d)) = (map_of (rg_pending d))(submission_file (sb_model_sha256 rec) \<mapsto> Saved rec)"
  by (simp_all add: save_submission_def map_of_put_key)

lemma load_submission_sha: "registry_ok env d \<Longrightarrow> load_submission d sha = Some rec \<Longrightarrow> sb_model_sha256 rec = sha"
proof -
  assume ok: "registry_ok env d" and l: "load_submission d sha = Some rec"
  have "map_of (rg_pending d) (submission_file sha) = Some (Saved rec)"
    using l by (auto simp: load_submission_def load_saved_def split: option.splits saved.splits)
  then obtain rec' where "Saved rec = Saved rec'" "submission_file sha = submission_file (sb_model_sha256 rec')"
    using ok unfolding registry_ok_def by blast
  then show ?thesis by simp
qed

lemma registry_ok_status:
  "registry_ok env d \<Longrightarrow> load_submission d sha = Some rec \<Longrightarrow>
     (sb_status rec = Revoked \<longrightarrow> map_of (rg_tokens d) (token_file sha) = None) \<and>
     (sb_status rec = Approved \<longrightarrow> map_of (rg_tokens d) (token_file sha) \<noteq> None)"
  unfolding registry_ok_def by blast

text \<open>Saving a submission whose status agrees with the token files.\<close>

lemma registry_ok_save:
  assumes "registry_ok env d"
    and "sb_status rec = Revoked \<Longrightarrow> map_of (rg_tokens d) (token_file (sb_model_sha256 rec)) = None"
    and "sb_status rec = Approved \<Longrightarrow> map_of (rg_tokens d) (token_file (sb_model_sha256 rec)) \<noteq> None"
  shows "registry_ok env (save_submission rec d)"
  using assms by (auto simp: registry_ok_def load_save_submission)

lemma map_of_filter_name: "map_of (filter (\<lambda>(k, _). k \<noteq> x) xs) y = (if y = x then None else map_of xs y)"
  by (induction xs) auto

lemma approve_cases:
  assumes "sig_ok env" "registry_ok env d" "length seed = 32" "approve env rng now seed uuid sha req d = (r, d', evs)"
  shows "(\<exists>e. r = Inl e \<and> rg_tokens d' = rg_tokens d \<and> rg_pending d' = rg_pending d) \<or>
    (\<exists>t rec. r = Inr t \<and> load_submission d sha = Some rec \<and> sb_status rec \<noteq> Revoked \<and> at_model_sha256 t = sha \<and>
       at_expires_at t = map_option (\<lambda>days. now + days * day_nanos) (ar_expires_in_days req) \<and>
       check_signature env (at_signer_pubkey t) (at_signature t) (token_payload t) = Inr () \<and>
       rg_tokens d' = put_key (token_file sha) (Saved t) (rg_tokens d) \<and>
       rg_pending d' = rg_pending (save_submission (rec\<lparr>sb_status := Approved\<rparr>) d) \<and>
       evs = [ModelApprovalGranted (sb_model_id rec) sha (ar_approved_by req) (at_token_id t) (at_signer_pubkey t)])"
    and "rg_signing_key d' = Some key \<Longrightarrow> length key = 32"
proof -
  obtain k d1 where k: "load_or_create_signing_key env seed d = (k, d1)" by fastforce
  then have d1: "rg_tokens d1 = rg_tokens d" "rg_pending d1 = rg_pending d" "\<And>x. k = Inr x \<Longrightarrow> length x = 32"
    "\<And>key. rg_signing_key d1 = Some key \<Longrightarrow> length key = 32"
    using assms(2,3) by (auto simp: load_or_create_signing_key_def registry_ok_def split: option.splits if_splits)
  have ver: "check_signature env (at_signer_pubkey (token_sign env key t)) (at_signature (token_sign env key t))
      (token_payload (token_sign env key t)) = Inr ()" if "length key = 32" for key t
    by (rule approval.signed_verifies[OF assms(1) that])
  have fld: "at_model_sha256 (token_sign env key t) = at_model_sha256 t" "at_expires_at (token_sign env key t) = at_expires_at t" for key t
    by (simp_all add: token_sign_def Let_def)
  consider (none) "load_submission d sha = None" | (rev) rec where "load_submission d sha = Some rec" "sb_status rec = Revoked"
    | (go) rec where "load_submission d sha = Some rec" "sb_status rec \<noteq> Revoked" by (cases "load_submission d sha") auto
  note cs = this
  show "(\<exists>e. r = Inl e \<and> rg_tokens d' = rg_tokens d \<and> rg_pending d' = rg_pending d) \<or>
    (\<exists>t rec. r = Inr t \<and> load_submission d sha = Some rec \<and> sb_status rec \<noteq> Revoked \<and> at_model_sha256 t = sha \<and>
       at_expires_at t = map_option (\<lambda>days. now + days * day_nanos) (ar_expires_in_days req) \<and>
       check_signature env (at_signer_pubkey t) (at_signature t) (token_payload t) = Inr () \<and>
       rg_tokens d' = put_key (token_file sha) (Saved t) (rg_tokens d) \<and>
       rg_pending d' = rg_pending (save_submission (rec\<lparr>sb_status := Approved\<rparr>) d) \<and>
       evs = [ModelApprovalGranted (sb_model_id rec) sha (ar_approved_by req) (at_token_id t) (at_signer_pubkey t)])"
  proof (cases rule: cs)
    case none
    then show ?thesis using assms(4) by (auto simp: approve_def)
  next
    case (rev rec)
    then show ?thesis using assms(4) by (auto simp: approve_def)
  next
    case (go rec)
    then show ?thesis using assms(4) k d1 ver fld
      by (cases k) (auto simp: approve_def Let_def save_submission_def split: if_splits)
  qed
  show "rg_signing_key d' = Some key \<Longrightarrow> length key = 32"
    using assms(2,4) k d1(4) by (auto simp: approve_def Let_def registry_ok_def split: option.splits if_splits sum.splits)
qed

lemma registry_step_ok:
  assumes "sig_ok env" "registry_ok env d" "registry_step env d d'"
  shows "registry_ok env d'"
  using assms(3)
proof cases
  case (reg_submit now uuid req r)
  then show ?thesis using assms(2) by (auto simp: registry_submit_def Let_def intro!: registry_ok_save)
next
  case (reg_ticket sha ticket)
  then show ?thesis using assms(2) load_submission_sha[OF assms(2)] registry_ok_status[OF assms(2)]
    by (cases "load_submission d sha") (auto simp: record_ticket_def intro!: registry_ok_save)
next
  case (reg_approve seed rng now uuid sha areq r evs)
  note c = approve_cases[OF assms(1,2) reg_approve]
  show ?thesis
  proof (cases r)
    case (Inl e)
    then show ?thesis using c assms(2) by (auto simp: registry_ok_def load_submission_def)
  next
    case (Inr t)
    then obtain rec where r: "load_submission d sha = Some rec" "at_model_sha256 t = sha"
      "check_signature env (at_signer_pubkey t) (at_signature t) (token_payload t) = Inr ()"
      "rg_tokens d' = put_key (token_file sha) (Saved t) (rg_tokens d)"
      "rg_pending d' = rg_pending (save_submission (rec\<lparr>sb_status := Approved\<rparr>) d)" using c(1) by auto
    have sha: "sb_model_sha256 rec = sha" by (rule load_submission_sha[OF assms(2) r(1)])
    have "load_submission d' x = (if x = sha then Some (rec\<lparr>sb_status := Approved\<rparr>) else load_submission d x)" for x
      using load_save_submission[of "rec\<lparr>sb_status := Approved\<rparr>" d x] r(5) sha by (simp add: load_submission_def)
    then show ?thesis using assms(2) c(2) r(2-5) sha
      by (auto simp: registry_ok_def map_of_put_key token_valid_def split: if_splits)
  qed
next
  case (reg_revoke sha who r evs)
  show ?thesis
  proof (cases "load_submission d sha")
    case None
    then show ?thesis using reg_revoke assms(2) by (simp add: revoke_def)
  next
    case (Some rec)
    have sha: "sb_model_sha256 rec = sha" by (rule load_submission_sha[OF assms(2) Some])
    let ?d1 = "d\<lparr>rg_tokens := filter (\<lambda>(name, _). name \<noteq> token_file sha) (rg_tokens d)\<rparr>"
    have d': "d' = save_submission (rec\<lparr>sb_status := Revoked\<rparr>) ?d1" using reg_revoke Some by (simp add: revoke_def Let_def)
    have "load_submission d' x = (if x = sha then Some (rec\<lparr>sb_status := Revoked\<rparr>) else load_submission d x)" for x
      unfolding d' load_save_submission using sha by (simp add: load_submission_def)
    moreover have "map_of (rg_tokens d') x = (if x = token_file sha then None else map_of (rg_tokens d) x)" for x
      by (simp add: d' map_of_filter_name)
    moreover have "rg_signing_key d' = rg_signing_key d"
      "map_of (rg_pending d') = (map_of (rg_pending d))(submission_file sha \<mapsto> Saved (rec\<lparr>sb_status := Revoked\<rparr>))"
      using sha by (simp_all add: d')
    ultimately show ?thesis using assms(2) sha by (auto simp: registry_ok_def split: if_splits)
  qed
qed

interpretation registry: inv_system "\<lambda>d. d = registry_empty" "\<lambda>d d'. sig_ok env \<and> registry_step env d d'" "registry_ok env" for env
proof
  show "registry_ok env d" if "d = registry_empty" for d
    using that by (simp add: registry_empty_def registry_ok_def load_submission_def)
qed (blast intro: registry_step_ok)


definition demo_sig :: sig_env where
  "demo_sig = \<lparr>ed_public = (\<lambda>sk. sk), ed_sign = (\<lambda>sk m. sk @ take 32 (m @ replicate 32 CHR ''.'')),
     ed_verify = (\<lambda>pk m s. s = pk @ take 32 (m @ replicate 32 CHR ''.'')), ed_point = (\<lambda>_. True),
     b64_encode = (\<lambda>b. b), b64_decode = Some, hexenc = (\<lambda>b. b), hexdec = Some, json_vec = (\<lambda>_. [])\<rparr>"

lemma demo_sig_ok: "sig_ok demo_sig"
  by (simp add: sig_ok_def demo_sig_def min_def)

definition demo_key :: bytes where
  "demo_key = replicate 32 CHR ''k''"

definition demo_submitted :: registry_dir where
  "demo_submitted = snd (registry_submit 0 ''s1'' \<lparr>sr_model_id = ''m:1'', sr_model_sha256 = ''ab'', sr_submitted_by = ''u'', sr_note = None\<rparr>
     registry_empty)"

lemma demo_submitted_reach:
  "reach (\<lambda>d. d = registry_empty) (\<lambda>d d'. sig_ok demo_sig \<and> registry_step demo_sig d d') demo_submitted"
proof (rule reach_step[OF reach_init])
  show "sig_ok demo_sig \<and> registry_step demo_sig registry_empty demo_submitted"
    unfolding demo_submitted_def by (intro conjI demo_sig_ok reg_submit[OF prod.collapse[symmetric]])
qed simp

definition demo_approve :: "(registry_error, approval_token) result \<times> registry_dir \<times> audit_event list" where
  "demo_approve = approve demo_sig (\<lambda>_. True) 5 demo_key ''t1'' ''ab'' \<lparr>ar_approved_by = ''a'', ar_note = None, ar_expires_in_days = Some 1\<rparr> demo_submitted"


subsection \<open>What a load asks for\<close>

text \<open>C27: the gate of approvals. With approval required, a model that was not loaded is loaded only if its
  file is intact and under its digest there is an unexpired token with a valid signature. But the
  signature is checked with the key in the token itself, and the token's model is not looked at: a token
  for anything, signed with any key, opens the gate.\<close>

theorem approval_gate_opens:
  assumes "sig_ok (le_sig env)" "le_require_approval env"
    and "map_of (lc_loaded lc) (model_id_display i) = None"
  shows "(ensure_loaded env now st i lc = (Inr (), lc', evs) \<longrightarrow>
      (\<exists>m p t. store_get st i = Some m \<and> blob_path_verified (le_store env) st i = Inr p \<and>
         map_of (le_tokens env) (token_file (mm_sha256 m)) = Some (Saved t) \<and> token_verify (le_sig env) now t = Inr ())) \<and>
    (store_get st i = Some m \<and> length key = 32 \<and> (\<forall>e. at_expires_at forged = Some e \<longrightarrow> now \<le> e) \<and>
      map_of (le_tokens env) (token_file (mm_sha256 m)) = Some (Saved (token_sign (le_sig env) key forged)) \<longrightarrow>
      approval_gate env now st i = (Inr (), []))"
proof (intro conjI impI)
  assume l: "ensure_loaded env now st i lc = (Inr (), lc', evs)"
  obtain p where p: "blob_path_verified (le_store env) st i = Inr p"
    using l assms(3) by (cases "blob_path_verified (le_store env) st i") (auto simp: ensure_loaded_def Let_def)
  then obtain m where m: "store_get st i = Some m" by (auto simp: blob_path_verified_def rbind_Inr_iff store_get_def)
  obtain evs1 where "approval_gate env now st i = (Inr (), evs1)"
    using l assms(3) p by (cases "approval_gate env now st i"; cases "fst (approval_gate env now st i)") (auto simp: ensure_loaded_def Let_def)
  then have "block_reason_for env now (mm_sha256 m) = None"
    using assms(2) m by (auto simp: approval_gate_def Let_def split: option.splits if_splits)
  then show "\<exists>m p t. store_get st i = Some m \<and> blob_path_verified (le_store env) st i = Inr p \<and>
         map_of (le_tokens env) (token_file (mm_sha256 m)) = Some (Saved t) \<and> token_verify (le_sig env) now t = Inr ()"
    using m p by (auto simp: block_reason_for_def load_saved_def split: option.splits saved.splits sum.splits)
next
  assume f: "store_get st i = Some m \<and> length key = 32 \<and> (\<forall>e. at_expires_at forged = Some e \<longrightarrow> now \<le> e) \<and>
      map_of (le_tokens env) (token_file (mm_sha256 m)) = Some (Saved (token_sign (le_sig env) key forged))"
  have "at_expires_at (token_sign (le_sig env) key forged) = at_expires_at forged" by (simp add: token_sign_def Let_def)
  then have "token_verify (le_sig env) now (token_sign (le_sig env) key forged) = Inr ()"
    using f approval.signed_verifies[OF assms(1), of key forged] by (auto simp: token_verify_def split: option.splits)
  then show "approval_gate env now st i = (Inr (), [])"
    using f assms(2) by (simp add: approval_gate_def block_reason_for_def Let_def)
qed

definition vector_passes :: "crypto \<Rightarrow> answers \<Rightarrow> nat \<times> test_vector \<Rightarrow> bool" where
  "vector_passes cr gen = (\<lambda>(i, v). map_option (sha256_hex cr) (gen i v) = Some (tv_expected_sha256 v))"

lemma run_vectors_counts:
  "run_vectors cr gen i vs (p, f) =
     (p + length (filter (vector_passes cr gen) (zip [i..<i + length vs] vs)),
      f + length (filter (\<lambda>x. \<not> vector_passes cr gen x) (zip [i..<i + length vs] vs)))"
proof (induction vs arbitrary: i p f)
  case (Cons v vs)
  have "[i..<i + length (v # vs)] = i # [i + 1..<(i + 1) + length vs]" by (subst upt_conv_Cons) simp_all
  then have z: "zip [i..<i + length (v # vs)] (v # vs) = (i, v) # zip [i + 1..<(i + 1) + length vs] vs" by simp
  have step: "run_vectors cr gen i (v # vs) (p, f) =
      run_vectors cr gen (i + 1) vs (if vector_passes cr gen (i, v) then (p + 1, f) else (p, f + 1))"
    by (auto simp: vector_passes_def split: option.splits)
  show ?case unfolding z step by (cases "vector_passes cr gen (i, v)") (simp_all add: Cons.IH)
qed simp

definition mismatches :: "crypto \<Rightarrow> answers \<Rightarrow> baseline \<Rightarrow> nat" where
  "mismatches cr gen b = length (filter (\<lambda>x. \<not> vector_passes cr gen x) (zip [0..<length (bl_vectors b)] (bl_vectors b)))"

text \<open>C28: the gate of baselines. When a baseline with a valid signature stands for the model's digest,
  loading under \<open>Refuse\<close> goes on exactly when at most the allowed number of vectors fail, and a refusal
  leaves the model in the engine; under the other settings it goes on in any case. A baseline whose
  signature is invalid does not stop the load, even under \<open>Refuse\<close>.\<close>

theorem baseline_gate_decides:
  assumes "le_checker env = Some ck" "store_get st i = Some m"
    and "map_of (bc_dir ck) (baseline_file (mm_sha256 m)) = Some (Saved b)"
  shows "(baseline_verify (le_sig env) b = Inr () \<and> (\<forall>v \<in> set (bl_vectors b). 8 \<le> length (tv_expected_sha256 v)) \<longrightarrow>
      (\<exists>evs. baseline_gate env st i =
        (if bc_drift_action ck = Refuse \<and> mismatches (se_crypto (le_store env)) (le_answers env) b > bl_max_mismatches b
         then Inl (DriftRefused (mismatches (se_crypto (le_store env)) (le_answers env) b)) else Inr (), evs))) \<and>
    (baseline_verify (le_sig env) b \<noteq> Inr () \<longrightarrow> (\<exists>evs. baseline_gate env st i = (Inr (), evs))) \<and>
    (map_of (lc_loaded lc) (model_id_display i) = None \<and> blob_path_verified (le_store env) st i = Inr p \<and>
      approval_gate env now st i = (Inr (), evs1) \<and> le_load env (model_id_display i) p \<and> baseline_gate env st i = (Inl e, evs2) \<longrightarrow>
      ensure_loaded env now st i lc = (Inl e, lc\<lparr>lc_engine := model_id_display i # lc_engine lc\<rparr>, evs1 @ evs2))"
proof (intro conjI impI)
  let ?n = "mismatches (se_crypto (le_store env)) (le_answers env) b"
  assume v: "baseline_verify (le_sig env) b = Inr () \<and> (\<forall>v \<in> set (bl_vectors b). 8 \<le> length (tv_expected_sha256 v))"
  then have calm: "\<not> vector_panics cr gen x" if "x \<in> set (zip [0..<length (bl_vectors b)] (bl_vectors b))" for cr gen x
    using that by (auto simp: vector_panics_def dest!: set_zip_rightD split: option.splits)
  have run: "run_vectors (se_crypto (le_store env)) (le_answers env) 0 (bl_vectors b) (0, 0)
      = (length (filter (vector_passes (se_crypto (le_store env)) (le_answers env)) (zip [0..<length (bl_vectors b)] (bl_vectors b))), ?n)"
    by (simp add: run_vectors_counts mismatches_def)
  then show "\<exists>evs. baseline_gate env st i =
        (if bc_drift_action ck = Refuse \<and> ?n > bl_max_mismatches b then Inl (DriftRefused ?n) else Inr (), evs)"
    using assms v calm by (auto simp: baseline_gate_def checker_check_def Let_def)
next
  assume "baseline_verify (le_sig env) b \<noteq> Inr ()"
  then obtain e where "baseline_verify (le_sig env) b = Inl e" by (cases "baseline_verify (le_sig env) b") auto
  then show "\<exists>evs. baseline_gate env st i = (Inr (), evs)"
    using assms by (auto simp: baseline_gate_def checker_check_def)
qed (auto simp: ensure_loaded_def Let_def)

definition demo_manifest :: model_manifest where
  "demo_manifest = \<lparr>mm_id = ''1'', mm_model_id = demo_mid, mm_sha256 = replicate 64 CHR ''a'', mm_size_bytes = 3, mm_quantization = None,
     mm_imported_at = ''t'', mm_blob_path = [], mm_model_type = Llm, mm_context_length = None\<rparr>"

definition demo_loader :: lifecycle_env where
  "demo_loader = \<lparr>le_store = demo_store_env, le_sig = demo_sig, le_require_approval = True,
     le_tokens = [(token_file (replicate 64 CHR ''a''), Saved (token_sign demo_sig demo_key
       \<lparr>at_token_id = [], at_model_id = ''other'', at_model_sha256 = ''cd'', at_approved_by = [], at_approved_at = 0,
        at_expires_at = None, at_note = None, at_signer_pubkey = [], at_signature = []\<rparr>))],
     le_checker = Some \<lparr>bc_dir = [(baseline_file (replicate 64 CHR ''a''),
         Saved \<lparr>bl_schema_version = 1, bl_model_sha256 = [], bl_model_id = [], bl_created_at = 0, bl_vectors = [],
                bl_max_mismatches = 0, bl_signer_pubkey = [], bl_signature = []\<rparr>)], bc_drift_action = Refuse\<rparr>,
     le_load = (\<lambda>_ _. True), le_unload = (\<lambda>_. True), le_answers = (\<lambda>_ _. None), le_text = (\<lambda>_. [])\<rparr>"

theorem approval_gate_opens_witness:
  "approval_gate demo_loader 3 \<lparr>ms_db = [demo_manifest], ms_files = []\<rparr> demo_mid = (Inr (), [])"
  using approval_gate_opens[of demo_loader "\<lparr>lc_loaded = [], lc_engine = []\<rparr>" demo_mid 3 "\<lparr>ms_db = [demo_manifest], ms_files = []\<rparr>"
      _ _ demo_manifest demo_key "\<lparr>at_token_id = [], at_model_id = ''other'', at_model_sha256 = ''cd'', at_approved_by = [], at_approved_at = 0,
        at_expires_at = None, at_note = None, at_signer_pubkey = [], at_signature = []\<rparr>"] demo_sig_ok
  by (simp add: demo_loader_def demo_manifest_def store_get_def db_get_def demo_key_def)

theorem baseline_gate_decides_witness:
  "\<exists>evs. baseline_gate demo_loader \<lparr>ms_db = [demo_manifest], ms_files = []\<rparr> demo_mid = (Inr (), evs)"
proof -
  let ?b = "\<lparr>bl_schema_version = 1, bl_model_sha256 = [], bl_model_id = [], bl_created_at = 0, bl_vectors = [],
                bl_max_mismatches = 0, bl_signer_pubkey = [], bl_signature = []\<rparr>"
  have "baseline_verify (le_sig demo_loader) ?b \<noteq> Inr ()"
    by (simp add: baseline_verify_def check_signature_def demo_loader_def demo_sig_def)
  then show ?thesis
    using baseline_gate_decides[of demo_loader "\<lparr>bc_dir = [(baseline_file (replicate 64 CHR ''a''), Saved ?b)], bc_drift_action = Refuse\<rparr>"
        "\<lparr>ms_db = [demo_manifest], ms_files = []\<rparr>" demo_mid demo_manifest ?b]
    by (simp add: demo_loader_def demo_manifest_def store_get_def db_get_def)
qed

end
