(* ===== verification/Seal.thy ===== *)
theory Seal
  imports Crypto Events "HOL-Library.Countable"
begin

section \<open>Sealed keys\<close>

text \<open>
  \<open>crates/maranode-attestation/src/seal.rs\<close> and \<open>rotation.rs\<close>: key material is sealed per purpose by the TPM
  or, without one, under a passphrase; failed attempts to unseal are counted and limited; a sealed key is
  re-sealed by a rotation and travels in an encrypted recovery bundle.

  The directory of a purpose is a record of its files, the data directory maps purposes (plain directory
  names) to them. AES-GCM, hex, HMAC-SHA256, \<open>serde_json\<close> on whole records and the programs of tpm2-tools
  are the record \<open>seal_env\<close>; so is, per step, whether the operating system lets the code write. A write
  that fails leaves the file as it was. Salts, nonces and times are arguments.
\<close>

unbundle bit_operations_syntax

datatype seal_backend = Tpm2 | Software

record seal_meta =
  sm_backend :: seal_backend
  sm_purpose :: string
  sm_sealed_at :: string
  sm_pcr_list :: "string option"

record fail_counter =
  fc_count :: nat
  fc_last_fail_ts :: nat

record recovery_entry =
  re_purpose :: string
  re_meta :: seal_meta
  re_key_bytes_hex :: string

record recovery_bundle =
  rb_version :: nat
  rb_created_at :: timestamp
  rb_purposes :: "recovery_entry list"

record rotation_record =
  rr_purpose :: string
  rr_rotated_at :: timestamp
  rr_reason :: string
  rr_old_backend :: seal_backend
  rr_new_backend :: seal_backend
  rr_old_pcr_list :: "string option"
  rr_new_pcr_list :: "string option"

datatype seal_step = MakeDir | TempDir | WriteBin | WriteMeta | WriteCounter | AppendLog

datatype tpm_tool = CreatePrimary | CreatePolicy | CreateSealed | LoadSealed | UnsealSealed

datatype unseal_error =
    SealIo seal_step | NoTpm | ToolFailed tpm_tool | NoMeta | BadMeta | NoBlob | BlobTooShort | BlobMagic | WrongPassphrase
  | LockedOut nat | NotSealed string | BundleTooShort | NotABundle | BundleVersion nat | BundlePassphrase
  | BundleJson | BundleHex | LogNotUtf8

record seal_env = crypto +
  hmac_sha256 :: "bytes \<Rightarrow> bytes \<Rightarrow> bytes"
  meta_json :: "seal_meta \<Rightarrow> bytes"
  meta_parse :: "bytes \<Rightarrow> seal_meta option"
  counter_json :: "fail_counter \<Rightarrow> bytes"
  counter_parse :: "bytes \<Rightarrow> fail_counter option"
  bundle_json :: "recovery_bundle \<Rightarrow> bytes"
  bundle_parse :: "bytes \<Rightarrow> recovery_bundle option"
  record_json :: "rotation_record \<Rightarrow> bytes"
  record_parse :: "bytes \<Rightarrow> rotation_record option"
  io_ok :: "seal_step \<Rightarrow> bool"
  tpm2_tools :: bool
  tpm2_createprimary :: bool
  tpm2_createpolicy :: "string \<Rightarrow> bytes option"
  tpm2_create :: "bytes \<Rightarrow> bytes \<Rightarrow> bool \<times> bytes option \<times> bytes option"
  tpm2_load :: "bytes option \<Rightarrow> bytes option \<Rightarrow> bytes option"
  tpm2_unseal_cmd :: "bytes \<Rightarrow> string option \<Rightarrow> bytes option"

text \<open>What the crates and the TPM document. An object sealed under a policy loads, and is released to a
  session whose PCR list now evaluates to that policy.\<close>

definition seal_ok :: "seal_env \<Rightarrow> bool" where
  "seal_ok env \<longleftrightarrow> crypto_ok (crypto.truncate env) \<and>
     (\<forall>m. meta_parse env (meta_json env m) = Some m) \<and>
     (\<forall>c. counter_parse env (counter_json env c) = Some c) \<and>
     (\<forall>b. bundle_parse env (bundle_json env b) = Some b) \<and>
     (\<forall>r. record_parse env (record_json env r) = Some r) \<and>
     (\<forall>pol data pub priv. tpm2_create env pol data = (True, pub, priv) \<longrightarrow> pub \<noteq> None \<and> priv \<noteq> None \<and>
        (\<exists>h. tpm2_load env pub priv = Some h \<and>
          (\<forall>l. tpm2_createpolicy env l = Some pol \<longrightarrow> tpm2_unseal_cmd env h (Some l) = Some data)))"

record blob_files =
  bd_meta :: "bytes option"
  bd_bin :: "bytes option"
  bd_pub :: "bytes option"
  bd_priv :: "bytes option"
  bd_fail :: "bytes option"

definition empty_dir :: blob_files where
  "empty_dir = \<lparr>bd_meta = None, bd_bin = None, bd_pub = None, bd_priv = None, bd_fail = None\<rparr>"

type_synonym seal_dir = "string \<Rightarrow> blob_files"

record seal_rnd =
  sr_salt :: bytes
  sr_nonce :: bytes
  sr_sealed_at :: string

definition rnd_ok :: "seal_rnd \<Rightarrow> bool" where
  "rnd_ok r \<longleftrightarrow> length (sr_salt r) = 16 \<and> length (sr_nonce r) = 12"

subsection \<open>PBKDF2\<close>

definition byte_xor :: "char \<Rightarrow> char \<Rightarrow> char" where
  "byte_xor a b = char_of ((of_char a :: nat) XOR of_char b)"

text \<open>The loop over the remaining rounds: \<open>u\<close> is the last output of the PRF, \<open>out\<close> the sum so far.\<close>

fun pbkdf2_loop :: "(bytes \<Rightarrow> bytes) \<Rightarrow> nat \<Rightarrow> bytes \<Rightarrow> bytes \<Rightarrow> bytes" where
  "pbkdf2_loop prf 0 u out = out"
| "pbkdf2_loop prf (Suc n) u out = (let un = prf u in pbkdf2_loop prf n un (map2 byte_xor out un))"

definition be_bytes_1 :: bytes where
  "be_bytes_1 = map char_of [0 :: nat, 0, 0, 1]"

definition pbkdf2_hmac_sha256 :: "(bytes \<Rightarrow> bytes \<Rightarrow> bytes) \<Rightarrow> bytes \<Rightarrow> bytes \<Rightarrow> nat \<Rightarrow> bytes" where
  "pbkdf2_hmac_sha256 hmac password salt rounds =
     (let u1 = hmac password (salt @ be_bytes_1) in pbkdf2_loop (hmac password) (rounds - 1) u1 u1)"

definition SOFTWARE_SALT_ITERATIONS :: nat where "SOFTWARE_SALT_ITERATIONS = 200000"
definition UNSEAL_FAIL_LOCKOUT :: nat where "UNSEAL_FAIL_LOCKOUT = 5"
definition LOCKOUT_SECS :: nat where "LOCKOUT_SECS = 60"

definition pbkdf2_key :: "seal_env \<Rightarrow> string \<Rightarrow> bytes \<Rightarrow> bytes" where
  "pbkdf2_key env passphrase salt = pbkdf2_hmac_sha256 (hmac_sha256 env) passphrase salt SOFTWARE_SALT_ITERATIONS"

subsection \<open>The failure counter\<close>

definition read_fail_counter :: "seal_env \<Rightarrow> blob_files \<Rightarrow> fail_counter" where
  "read_fail_counter env d = unwrap_or \<lparr>fc_count = 0, fc_last_fail_ts = 0\<rparr> (Option.bind (bd_fail d) (counter_parse env))"

definition write_fail_counter :: "seal_env \<Rightarrow> fail_counter \<Rightarrow> blob_files \<Rightarrow> blob_files" where
  "write_fail_counter env fc d = (if io_ok env WriteCounter then d\<lparr>bd_fail := Some (counter_json env fc)\<rparr> else d)"

text \<open>Subtraction of naturals is \<open>saturating_sub\<close>.\<close>

definition check_dos_limit :: "seal_env \<Rightarrow> nat \<Rightarrow> blob_files \<Rightarrow> (unseal_error, unit) result" where
  "check_dos_limit env now d =
     (let fc = read_fail_counter env d
      in if fc_count fc \<ge> UNSEAL_FAIL_LOCKOUT \<and> now - fc_last_fail_ts fc < LOCKOUT_SECS
         then Inl (LockedOut (LOCKOUT_SECS - (now - fc_last_fail_ts fc))) else Inr ())"

definition increment_fail_counter :: "seal_env \<Rightarrow> nat \<Rightarrow> blob_files \<Rightarrow> blob_files" where
  "increment_fail_counter env now d =
     write_fail_counter env
       \<lparr>fc_count = u32_saturating_add (fc_count (read_fail_counter env d)) 1, fc_last_fail_ts = now\<rparr> d"

definition reset_fail_counter :: "seal_env \<Rightarrow> blob_files \<Rightarrow> blob_files" where
  "reset_fail_counter env d = write_fail_counter env \<lparr>fc_count = 0, fc_last_fail_ts = 0\<rparr> d"

subsection \<open>Sealing and unsealing\<close>

definition load_meta :: "seal_env \<Rightarrow> blob_files \<Rightarrow> (unseal_error, seal_meta) result" where
  "load_meta env d = rbind (ok_or NoMeta (bd_meta d)) (\<lambda>b. ok_or BadMeta (meta_parse env b))"

definition save_meta :: "seal_env \<Rightarrow> seal_meta \<Rightarrow> blob_files \<Rightarrow> (unseal_error, seal_meta) result \<times> blob_files" where
  "save_meta env m d =
     (if io_ok env WriteMeta then (Inr m, d\<lparr>bd_meta := Some (meta_json env m)\<rparr>) else (Inl (SealIo WriteMeta), d))"

definition seal_status :: "seal_env \<Rightarrow> string \<Rightarrow> seal_dir \<Rightarrow> seal_meta option" where
  "seal_status env purpose fs = (case load_meta env (fs purpose) of Inl _ \<Rightarrow> None | Inr m \<Rightarrow> Some m)"

definition is_sealed :: "string \<Rightarrow> seal_dir \<Rightarrow> bool" where
  "is_sealed purpose fs \<longleftrightarrow> bd_meta (fs purpose) \<noteq> None"

definition written :: "bytes option \<Rightarrow> bytes option \<Rightarrow> bytes option" where
  "written new old = (case new of None \<Rightarrow> old | Some b \<Rightarrow> Some b)"

definition tpm2_seal ::
  "seal_env \<Rightarrow> seal_rnd \<Rightarrow> bytes \<Rightarrow> string \<Rightarrow> string \<Rightarrow> blob_files \<Rightarrow> (unseal_error, seal_meta) result \<times> blob_files" where
  "tpm2_seal env r data purpose pcr_list d =
     (if \<not> io_ok env TempDir then (Inl (SealIo TempDir), d)
      else if \<not> tpm2_createprimary env then (Inl (ToolFailed CreatePrimary), d)
      else case tpm2_createpolicy env pcr_list of
        None \<Rightarrow> (Inl (ToolFailed CreatePolicy), d)
      | Some policy \<Rightarrow>
          (case tpm2_create env policy data of (ok, pub, priv) \<Rightarrow>
             let d1 = d\<lparr>bd_pub := written pub (bd_pub d), bd_priv := written priv (bd_priv d)\<rparr>
             in if \<not> ok then (Inl (ToolFailed CreateSealed), d1)
                else save_meta env \<lparr>sm_backend = Tpm2, sm_purpose = purpose, sm_sealed_at = sr_sealed_at r,
                                    sm_pcr_list = Some pcr_list\<rparr> d1))"

definition tpm2_unseal :: "seal_env \<Rightarrow> string option \<Rightarrow> blob_files \<Rightarrow> (unseal_error, bytes) result" where
  "tpm2_unseal env pcr_list d =
     (if \<not> io_ok env TempDir then Inl (SealIo TempDir)
      else if \<not> tpm2_createprimary env then Inl (ToolFailed CreatePrimary)
      else rbind (ok_or (ToolFailed LoadSealed) (tpm2_load env (bd_pub d) (bd_priv d))) (\<lambda>sealed.
        ok_or (ToolFailed UnsealSealed) (tpm2_unseal_cmd env sealed pcr_list)))"

definition software_seal ::
  "seal_env \<Rightarrow> seal_rnd \<Rightarrow> bytes \<Rightarrow> string \<Rightarrow> string \<Rightarrow> blob_files \<Rightarrow> (unseal_error, seal_meta) result \<times> blob_files" where
  "software_seal env r data purpose passphrase d =
     (let key = pbkdf2_key env passphrase (sr_salt r);
          ct = aead_seal env key (sr_nonce r) data;
          blob = ''MRN1'' @ sr_salt r @ sr_nonce r @ ct
      in if \<not> io_ok env WriteBin then (Inl (SealIo WriteBin), d)
         else save_meta env \<lparr>sm_backend = Software, sm_purpose = purpose, sm_sealed_at = sr_sealed_at r,
                             sm_pcr_list = None\<rparr> (d\<lparr>bd_bin := Some blob\<rparr>))"

definition software_unseal :: "seal_env \<Rightarrow> string \<Rightarrow> blob_files \<Rightarrow> (unseal_error, bytes) result" where
  "software_unseal env passphrase d =
     rbind (ok_or NoBlob (bd_bin d)) (\<lambda>blob.
       if length blob < 4 + 16 + 12 then Inl BlobTooShort
       else if take 4 blob \<noteq> ''MRN1'' then Inl BlobMagic
       else let salt = take 16 (drop 4 blob); nonce_bytes = take 12 (drop 20 blob); ct = drop 32 blob
            in ok_or WrongPassphrase (aead_open env (pbkdf2_key env passphrase salt) nonce_bytes ct))"

definition seal_with_tpm ::
  "seal_env \<Rightarrow> seal_rnd \<Rightarrow> bytes \<Rightarrow> string \<Rightarrow> string option \<Rightarrow> blob_files \<Rightarrow> (unseal_error, seal_meta) result \<times> blob_files" where
  "seal_with_tpm env r data purpose pcr_policy_str d =
     (case pcr_policy_str of
        None \<Rightarrow> (Inl NoTpm, d)
      | Some pcrs \<Rightarrow> if tpm2_tools env then tpm2_seal env r data purpose pcrs d else (Inl NoTpm, d))"

definition seal ::
  "seal_env \<Rightarrow> seal_rnd \<Rightarrow> bytes \<Rightarrow> string \<Rightarrow> string option \<Rightarrow> string \<Rightarrow> seal_dir \<Rightarrow> (unseal_error, seal_meta) result \<times> seal_dir" where
  "seal env r data purpose pcr_policy_str software_passphrase fs =
     (if \<not> io_ok env MakeDir then (Inl (SealIo MakeDir), fs)
      else case seal_with_tpm env r data purpose pcr_policy_str (fs purpose) of
             (Inr m, d1) \<Rightarrow> (Inr m, fs(purpose := d1))
           | (Inl _, d1) \<Rightarrow>
               (case software_seal env r data purpose software_passphrase d1 of (res, d2) \<Rightarrow> (res, fs(purpose := d2))))"

text \<open>\<open>now\<close> is the time of the check, \<open>later\<close> the time at which a failure is recorded.\<close>

definition unseal_dir :: "seal_env \<Rightarrow> nat \<Rightarrow> nat \<Rightarrow> string \<Rightarrow> blob_files \<Rightarrow> (unseal_error, bytes) result \<times> blob_files" where
  "unseal_dir env now later software_passphrase d =
     (case check_dos_limit env now d of
        Inl e \<Rightarrow> (Inl e, d)
      | Inr _ \<Rightarrow>
          (case load_meta env d of
             Inl e \<Rightarrow> (Inl e, d)
           | Inr meta \<Rightarrow>
               (let res = (case sm_backend meta of
                      Tpm2 \<Rightarrow> tpm2_unseal env (sm_pcr_list meta) d
                    | Software \<Rightarrow> software_unseal env software_passphrase d)
                in (res, case res of Inr _ \<Rightarrow> reset_fail_counter env d | Inl _ \<Rightarrow> increment_fail_counter env later d))))"

definition unseal ::
  "seal_env \<Rightarrow> nat \<Rightarrow> nat \<Rightarrow> string \<Rightarrow> string \<Rightarrow> seal_dir \<Rightarrow> (unseal_error, bytes) result \<times> seal_dir" where
  "unseal env now later purpose software_passphrase fs =
     (let (res, d) = unseal_dir env now later software_passphrase (fs purpose) in (res, fs(purpose := d)))"

subsection \<open>Recovery bundles\<close>

definition BUNDLE_MAGIC :: bytes where "BUNDLE_MAGIC = ''MRNB''"
definition BUNDLE_VERSION :: nat where "BUNDLE_VERSION = 1"

definition encrypt_bundle :: "seal_env \<Rightarrow> seal_rnd \<Rightarrow> bytes \<Rightarrow> string \<Rightarrow> bytes" where
  "encrypt_bundle env r plaintext passphrase =
     (let dk = pbkdf2_hmac_sha256 (hmac_sha256 env) passphrase (sr_salt r) 200000;
          ciphertext = aead_seal env dk (sr_nonce r) plaintext
      in BUNDLE_MAGIC @ [char_of BUNDLE_VERSION] @ sr_salt r @ sr_nonce r @ ciphertext)"

definition decrypt_bundle :: "seal_env \<Rightarrow> bytes \<Rightarrow> string \<Rightarrow> (unseal_error, bytes) result" where
  "decrypt_bundle env data passphrase =
     (if length data < 4 + 1 + 16 + 12 then Inl BundleTooShort
      else if take 4 data \<noteq> BUNDLE_MAGIC then Inl NotABundle
      else let version = of_char (data ! 4)
           in if version \<noteq> BUNDLE_VERSION then Inl (BundleVersion version)
              else let salt = take 16 (drop 5 data); nonce_bytes = take 12 (drop 21 data); ciphertext = drop 33 data;
                       dk = pbkdf2_hmac_sha256 (hmac_sha256 env) passphrase salt 200000
                   in ok_or BundlePassphrase (aead_open env dk nonce_bytes ciphertext))"

text \<open>The loop of the export; the clock is read at most twice for each purpose.\<close>

fun export_entries ::
  "seal_env \<Rightarrow> (nat \<Rightarrow> nat) \<Rightarrow> nat \<Rightarrow> string \<Rightarrow> string list \<Rightarrow> seal_dir \<Rightarrow> (unseal_error, recovery_entry list) result \<times> seal_dir" where
  "export_entries env clock i passphrase [] fs = (Inr [], fs)"
| "export_entries env clock i passphrase (purpose # purposes) fs =
     (if \<not> is_sealed purpose fs then (Inl (NotSealed purpose), fs)
      else case seal_status env purpose fs of
        None \<Rightarrow> (Inl BadMeta, fs)
      | Some meta \<Rightarrow>
          (case unseal env (clock i) (clock (i + 1)) purpose passphrase fs of
             (Inl e, fs1) \<Rightarrow> (Inl e, fs1)
           | (Inr key_bytes, fs1) \<Rightarrow>
               (case export_entries env clock (i + 2) passphrase purposes fs1 of
                  (Inl e, fs2) \<Rightarrow> (Inl e, fs2)
                | (Inr es, fs2) \<Rightarrow>
                    (Inr (\<lparr>re_purpose = purpose, re_meta = meta, re_key_bytes_hex = hex_encode env key_bytes\<rparr> # es), fs2))))"

definition export_recovery_bundle ::
  "seal_env \<Rightarrow> (nat \<Rightarrow> nat) \<Rightarrow> seal_rnd \<Rightarrow> timestamp \<Rightarrow> string list \<Rightarrow> string \<Rightarrow> seal_dir \<Rightarrow> (unseal_error, bytes) result \<times> seal_dir" where
  "export_recovery_bundle env clock r created purposes passphrase fs =
     (case export_entries env clock 0 passphrase purposes fs of
        (Inl e, fs1) \<Rightarrow> (Inl e, fs1)
      | (Inr es, fs1) \<Rightarrow>
          (Inr (encrypt_bundle env r (bundle_json env
             \<lparr>rb_version = BUNDLE_VERSION, rb_created_at = created, rb_purposes = es\<rparr>) passphrase), fs1))"

fun import_entries ::
  "seal_env \<Rightarrow> (nat \<Rightarrow> seal_rnd) \<Rightarrow> (nat \<Rightarrow> timestamp) \<Rightarrow> nat \<Rightarrow> string \<Rightarrow> string option \<Rightarrow> recovery_entry list \<Rightarrow> seal_dir \<Rightarrow>
     (unseal_error, rotation_record list) result \<times> seal_dir" where
  "import_entries env rnd at i passphrase new_pcr_list [] fs = (Inr [], fs)"
| "import_entries env rnd at i passphrase new_pcr_list (entry # es) fs =
     (case hex_decode env (re_key_bytes_hex entry) of
        None \<Rightarrow> (Inl BundleHex, fs)
      | Some key_bytes \<Rightarrow>
          (case seal env (rnd i) key_bytes (re_purpose entry) new_pcr_list passphrase fs of
             (Inl e, fs1) \<Rightarrow> (Inl e, fs1)
           | (Inr new_meta, fs1) \<Rightarrow>
               (case import_entries env rnd at (i + 1) passphrase new_pcr_list es fs1 of
                  (Inl e, fs2) \<Rightarrow> (Inl e, fs2)
                | (Inr rs, fs2) \<Rightarrow>
                    (Inr (\<lparr>rr_purpose = re_purpose entry, rr_rotated_at = at i, rr_reason = ''recovery import'',
                           rr_old_backend = sm_backend (re_meta entry), rr_new_backend = sm_backend new_meta,
                           rr_old_pcr_list = sm_pcr_list (re_meta entry), rr_new_pcr_list = sm_pcr_list new_meta\<rparr> # rs), fs2))))"

definition import_recovery_bundle ::
  "seal_env \<Rightarrow> (nat \<Rightarrow> seal_rnd) \<Rightarrow> (nat \<Rightarrow> timestamp) \<Rightarrow> bytes \<Rightarrow> string \<Rightarrow> string option \<Rightarrow> seal_dir \<Rightarrow>
     (unseal_error, rotation_record list) result \<times> seal_dir" where
  "import_recovery_bundle env rnd at bundle_bytes passphrase new_pcr_list fs =
     (case decrypt_bundle env bundle_bytes passphrase of
        Inl e \<Rightarrow> (Inl e, fs)
      | Inr json \<Rightarrow>
          (case bundle_parse env json of
             None \<Rightarrow> (Inl BundleJson, fs)
           | Some bundle \<Rightarrow>
               if rb_version bundle \<noteq> BUNDLE_VERSION then (Inl (BundleVersion (rb_version bundle)), fs)
               else import_entries env rnd at 0 passphrase new_pcr_list (rb_purposes bundle) fs))"

subsection \<open>Rotation in place and its log\<close>

record seal_state =
  ss_dirs :: seal_dir
  ss_log :: "bytes option"

definition append_rotation_log :: "seal_env \<Rightarrow> rotation_record \<Rightarrow> bytes option \<Rightarrow> (unseal_error, bytes option) result" where
  "append_rotation_log env rec log =
     (if io_ok env AppendLog then Inr (Some (unwrap_or [] log @ record_json env rec @ [char_of (10 :: nat)]))
      else Inl (SealIo AppendLog))"

definition rotate_in_place ::
  "seal_env \<Rightarrow> nat \<Rightarrow> nat \<Rightarrow> seal_rnd \<Rightarrow> timestamp \<Rightarrow> string \<Rightarrow> string \<Rightarrow> string option \<Rightarrow> string \<Rightarrow> string \<Rightarrow> seal_state \<Rightarrow>
     (unseal_error, rotation_record) result \<times> seal_state" where
  "rotate_in_place env now later r at purpose old_passphrase new_pcr_list new_passphrase reason st =
     (case seal_status env purpose (ss_dirs st) of
        None \<Rightarrow> (Inl (NotSealed purpose), st)
      | Some old_meta \<Rightarrow>
          (case unseal env now later purpose old_passphrase (ss_dirs st) of
             (Inl e, fs1) \<Rightarrow> (Inl e, st\<lparr>ss_dirs := fs1\<rparr>)
           | (Inr key_bytes, fs1) \<Rightarrow>
               (case seal env r key_bytes purpose new_pcr_list new_passphrase fs1 of
                  (Inl e, fs2) \<Rightarrow> (Inl e, st\<lparr>ss_dirs := fs2\<rparr>)
                | (Inr new_meta, fs2) \<Rightarrow>
                    (let rec = \<lparr>rr_purpose = purpose, rr_rotated_at = at, rr_reason = reason,
                                rr_old_backend = sm_backend old_meta, rr_new_backend = sm_backend new_meta,
                                rr_old_pcr_list = sm_pcr_list old_meta, rr_new_pcr_list = sm_pcr_list new_meta\<rparr>
                     in case append_rotation_log env rec (ss_log st) of
                          Inl e \<Rightarrow> (Inl e, st\<lparr>ss_dirs := fs2\<rparr>)
                        | Inr log \<Rightarrow> (Inr rec, st\<lparr>ss_dirs := fs2, ss_log := log\<rparr>)))))"

definition read_rotation_log :: "seal_env \<Rightarrow> bytes option \<Rightarrow> (unseal_error, rotation_record list) result" where
  "read_rotation_log env log =
     (case log of
        None \<Rightarrow> Inr []
      | Some content \<Rightarrow>
          if \<not> is_utf8 content then Inl LogNotUtf8
          else Inr (List.map_filter (record_parse env)
            (filter (\<lambda>l. str_trim l \<noteq> []) (map (map char_of) (str_lines (ascii content))))))"

subsection \<open>The commands of \<open>maranode tpm\<close>\<close>

text \<open>The key files that \<open>tpm seal\<close> reads: the master key is hex text, the audit key is raw. A missing
  passphrase is the empty one.\<close>

datatype cli_error = CliKeyMissing | CliBadHex | CliUnknownPurpose string | CliSeal unseal_error

definition load_key_bytes_for_purpose :: "seal_env \<Rightarrow> bytes option \<Rightarrow> bytes option \<Rightarrow> string \<Rightarrow> (cli_error, bytes) result" where
  "load_key_bytes_for_purpose env kek_file audit_key_file purpose =
     (if purpose = ''workspace-kek'' then
        rbind (ok_or CliKeyMissing (Option.bind kek_file from_utf8)) (\<lambda>hex. ok_or CliBadHex (hex_decode env (str_trim hex)))
      else if purpose = ''audit-hmac'' then ok_or CliKeyMissing audit_key_file
      else Inl (CliUnknownPurpose purpose))"

definition tpm_seal_cmd ::
  "seal_env \<Rightarrow> seal_rnd \<Rightarrow> bytes option \<Rightarrow> bytes option \<Rightarrow> string \<Rightarrow> string \<Rightarrow> string option \<Rightarrow> seal_state \<Rightarrow> (cli_error, seal_meta) result \<times> seal_state" where
  "tpm_seal_cmd env r kek_file audit_key_file purpose pcrs passphrase st =
     (case load_key_bytes_for_purpose env kek_file audit_key_file purpose of
        Inl e \<Rightarrow> (Inl e, st)
      | Inr key_bytes \<Rightarrow>
          (case seal env r key_bytes purpose (Some (''sha256:'' @ pcrs)) (unwrap_or [] passphrase) (ss_dirs st) of
             (Inl e, fs) \<Rightarrow> (Inl (CliSeal e), st\<lparr>ss_dirs := fs\<rparr>)
           | (Inr m, fs) \<Rightarrow> (Inr m, st\<lparr>ss_dirs := fs\<rparr>)))"

definition tpm_rotate_cmd ::
  "seal_env \<Rightarrow> nat \<Rightarrow> nat \<Rightarrow> seal_rnd \<Rightarrow> timestamp \<Rightarrow> string \<Rightarrow> string option \<Rightarrow> string option \<Rightarrow> string option \<Rightarrow> string \<Rightarrow> seal_state \<Rightarrow>
     (unseal_error, rotation_record) result \<times> seal_state" where
  "tpm_rotate_cmd env now later r at purpose passphrase new_passphrase pcrs reason st =
     (let old_pass = unwrap_or [] passphrase; new_pass = unwrap_or old_pass new_passphrase
      in rotate_in_place env now later r at purpose old_pass pcrs new_pass reason st)"

subsection \<open>PBKDF2 is the one of RFC 2898\<close>

text \<open>The block \<open>F (P, S, c, 1)\<close> of the RFC: the exclusive or of \<open>U\<^sub>1, \<dots>, U\<^sub>c\<close>, byte by byte.\<close>

definition xor_all :: "char list \<Rightarrow> char" where
  "xor_all cs = foldl byte_xor (char_of (0 :: nat)) cs"

definition rfc2898_u :: "(bytes \<Rightarrow> bytes \<Rightarrow> bytes) \<Rightarrow> bytes \<Rightarrow> bytes \<Rightarrow> nat \<Rightarrow> bytes" where
  "rfc2898_u hmac password salt j = (hmac password ^^ j) (salt @ be_bytes_1)"

definition rfc2898_f :: "(bytes \<Rightarrow> bytes \<Rightarrow> bytes) \<Rightarrow> bytes \<Rightarrow> bytes \<Rightarrow> nat \<Rightarrow> bytes" where
  "rfc2898_f hmac password salt c =
     map (\<lambda>i. xor_all (map (\<lambda>j. rfc2898_u hmac password salt j ! i) [1..<c + 1])) [0..<32]"

lemma byte_xor_0 [simp]: "byte_xor (char_of (0 :: nat)) a = a"
  by (simp add: byte_xor_def)

lemma pbkdf2_loop_length [simp]:
  "length u = 32 \<Longrightarrow> length out = 32 \<Longrightarrow> (\<And>m. length (prf m) = 32) \<Longrightarrow> length (pbkdf2_loop prf n u out) = 32"
  by (induction n arbitrary: u out) (simp_all add: Let_def)

lemma funpow_shift: "map (\<lambda>j. (f ^^ j) (f u) ! i) [1..<m] = map (\<lambda>j. (f ^^ j) u ! i) [2..<Suc m]"
proof -
  have "[2..<Suc m] = map Suc [1..<m]" by (simp only: map_Suc_upt numeral_2_eq_2 One_nat_def)
  then show ?thesis by (simp add: comp_def funpow_swap1 del: upt_Suc)
qed

lemma pbkdf2_loop_nth:
  assumes "length u = 32" "length out = 32" "\<And>m. length (prf m) = 32" "i < 32"
  shows "pbkdf2_loop prf n u out ! i = foldl byte_xor (out ! i) (map (\<lambda>j. (prf ^^ j) u ! i) [1..<n + 1])"
  using assms(1,2)
proof (induction n arbitrary: u out)
  case (Suc n)
  let ?o = "map2 byte_xor out (prf u)"
  have len: "length (prf u) = 32" by (rule assms(3))
  have "pbkdf2_loop prf (Suc n) u out ! i = pbkdf2_loop prf n (prf u) ?o ! i" by (simp add: Let_def)
  also have "\<dots> = foldl byte_xor (?o ! i) (map (\<lambda>j. (prf ^^ j) (prf u) ! i) [1..<n + 1])"
    using Suc.prems len by (intro Suc.IH) simp_all
  also have "map (\<lambda>j. (prf ^^ j) (prf u) ! i) [1..<n + 1] = map (\<lambda>j. (prf ^^ j) u ! i) [2..<Suc (n + 1)]"
    using funpow_shift[where m = "n + 1"] by (simp del: upt_Suc)
  also have "?o ! i = byte_xor (out ! i) (prf u ! i)" using Suc.prems len assms(4) by simp
  also have "foldl byte_xor (byte_xor (out ! i) (prf u ! i)) (map (\<lambda>j. (prf ^^ j) u ! i) [2..<Suc (n + 1)]) =
      foldl byte_xor (out ! i) (map (\<lambda>j. (prf ^^ j) u ! i) (1 # [2..<Suc (n + 1)]))" by simp
  also have "1 # [2..<Suc (n + 1)] = [1..<Suc n + 1]" by (simp add: upt_conv_Cons numeral_2_eq_2)
  finally show ?case .
qed simp

text \<open>The PBKDF2 of \<open>seal.rs\<close> computes the block of RFC 2898, for any number of rounds from one on.\<close>

lemma pbkdf2_is_rfc2898:
  assumes "\<And>k m. length (hmac k m) = 32" "1 \<le> rounds"
  shows "pbkdf2_hmac_sha256 hmac password salt rounds = rfc2898_f hmac password salt rounds"
proof (rule nth_equalityI)
  fix i assume "i < length (pbkdf2_hmac_sha256 hmac password salt rounds)"
  then have i: "i < 32" using assms(1) by (simp add: pbkdf2_hmac_sha256_def Let_def)
  let ?u1 = "hmac password (salt @ be_bytes_1)"
  have "pbkdf2_hmac_sha256 hmac password salt rounds ! i =
      foldl byte_xor (?u1 ! i) (map (\<lambda>j. (hmac password ^^ j) ?u1 ! i) [1..<rounds])"
    using assms i pbkdf2_loop_nth[of ?u1 ?u1 "hmac password" i "rounds - 1"]
    by (simp add: pbkdf2_hmac_sha256_def Let_def)
  also have "map (\<lambda>j. (hmac password ^^ j) ?u1 ! i) [1..<rounds] =
      map (\<lambda>j. rfc2898_u hmac password salt j ! i) [2..<rounds + 1]"
    using funpow_shift[where m = rounds] by (simp add: rfc2898_u_def funpow_swap1 del: upt_Suc)
  also have "foldl byte_xor (?u1 ! i) \<dots> = xor_all (map (\<lambda>j. rfc2898_u hmac password salt j ! i) (1 # [2..<rounds + 1]))"
    by (simp add: xor_all_def rfc2898_u_def)
  also have "1 # [2..<rounds + 1] = [1..<rounds + 1]" using assms(2) by (simp add: upt_conv_Cons numeral_2_eq_2)
  finally show "pbkdf2_hmac_sha256 hmac password salt rounds ! i = rfc2898_f hmac password salt rounds ! i"
    using i by (simp add: rfc2898_f_def)
qed (use assms(1) in \<open>simp add: pbkdf2_hmac_sha256_def Let_def rfc2898_f_def\<close>)

subsection \<open>What is sealed is unsealed\<close>

lemma software_unseal_seal:
  assumes "crypto_ok (crypto.truncate env)" "rnd_ok r" "software_seal env r data purpose pass d = (Inr m, d')"
  shows "software_unseal env pass d' = Inr data" "sm_backend m = Software" "load_meta env d' = ok_or BadMeta (meta_parse env (meta_json env m))"
    "bd_fail d' = bd_fail d"
  using assms
  by (auto simp: software_seal_def software_unseal_def save_meta_def load_meta_def Let_def rnd_ok_def crypto_ok_def
      crypto.defs split: if_splits)

lemma tpm2_unseal_seal:
  assumes "seal_ok env" "tpm2_seal env r data purpose pcrs d = (Inr m, d')"
  shows "tpm2_unseal env (Some pcrs) d' = Inr data" "sm_backend m = Tpm2" "sm_pcr_list m = Some pcrs"
    "load_meta env d' = Inr m" "bd_fail d' = bd_fail d" "bd_bin d' = bd_bin d"
proof -
  from assms(2) obtain pol where p: "tpm2_createpolicy env pcrs = Some pol" and t: "io_ok env TempDir" "tpm2_createprimary env"
    by (simp add: tpm2_seal_def split: if_splits option.splits)
  obtain k pub priv where c: "tpm2_create env pol data = (k, pub, priv)" by (cases "tpm2_create env pol data") auto
  let ?m = "\<lparr>sm_backend = Tpm2, sm_purpose = purpose, sm_sealed_at = sr_sealed_at r, sm_pcr_list = Some pcrs\<rparr>"
  have k: "k" and m: "m = ?m" and
    d': "d' = d\<lparr>bd_pub := written pub (bd_pub d), bd_priv := written priv (bd_priv d), bd_meta := Some (meta_json env m)\<rparr>"
    using assms(2) p t c by (auto simp: tpm2_seal_def save_meta_def Let_def split: if_splits)
  from c k have "tpm2_create env pol data = (True, pub, priv)" by simp
  with assms(1) p obtain h where "pub \<noteq> None" "priv \<noteq> None" "tpm2_load env pub priv = Some h"
      "tpm2_unseal_cmd env h (Some pcrs) = Some data"
    unfolding seal_ok_def by blast
  with t d' show "tpm2_unseal env (Some pcrs) d' = Inr data"
    by (auto simp: tpm2_unseal_def written_def)
  show "sm_backend m = Tpm2" "sm_pcr_list m = Some pcrs" using m by simp_all
  show "load_meta env d' = Inr m" "bd_fail d' = bd_fail d" "bd_bin d' = bd_bin d"
    using assms(1) d' by (simp_all add: load_meta_def seal_ok_def)
qed

lemma software_seal_meta:
  "seal_ok env \<Longrightarrow> rnd_ok r \<Longrightarrow> software_seal env r data purpose pass d = (Inr m, d') \<Longrightarrow> load_meta env d' = Inr m"
  using software_unseal_seal(3)[of env r data purpose pass d m d'] by (simp add: seal_ok_def)

lemma tpm2_seal_keeps:
  "tpm2_seal env r data purpose pcrs d = (res, d') \<Longrightarrow> bd_fail d' = bd_fail d \<and> bd_bin d' = bd_bin d"
  by (auto simp: tpm2_seal_def save_meta_def Let_def split: if_splits option.splits prod.splits)

lemma check_dos_fail: "bd_fail d = bd_fail d' \<Longrightarrow> check_dos_limit env now d = check_dos_limit env now d'"
  by (simp add: check_dos_limit_def read_fail_counter_def)

text \<open>A successful seal comes from one of the two backends.\<close>

lemma seal_cases:
  assumes "seal env r data purpose pcrs pass fs = (Inr m, fs')"
  obtains (tpm) l d where "pcrs = Some l" "tpm2_tools env" "tpm2_seal env r data purpose l (fs purpose) = (Inr m, d)" "fs' = fs(purpose := d)"
  | (software) d1 d where "bd_fail d1 = bd_fail (fs purpose)" "software_seal env r data purpose pass d1 = (Inr m, d)" "fs' = fs(purpose := d)"
proof (cases "seal_with_tpm env r data purpose pcrs (fs purpose)")
  case (Pair res d1)
  show thesis
  proof (cases res)
    case (Inl e)
    have f: "bd_fail d1 = bd_fail (fs purpose)"
      using Pair by (auto simp: seal_with_tpm_def split: option.splits if_splits dest: tpm2_seal_keeps)
    obtain sres d where s: "software_seal env r data purpose pass d1 = (sres, d)" by fastforce
    show thesis
    proof (rule software[OF f])
      show "software_seal env r data purpose pass d1 = (Inr m, d)" "fs' = fs(purpose := d)"
        using assms Pair Inl s by (simp_all add: seal_def split: if_splits)
    qed
  next
    case (Inr m')
    have m: "m' = m" "fs' = fs(purpose := d1)" using assms Pair Inr by (simp_all add: seal_def split: if_splits)
    obtain l where "pcrs = Some l" "tpm2_tools env" "tpm2_seal env r data purpose l (fs purpose) = (Inr m, d1)"
      using Pair Inr m(1) by (simp add: seal_with_tpm_def split: if_splits option.splits)
    then show thesis using m(2) by (rule tpm)
  qed
qed

lemma seal_frame: "seal env r data purpose pcrs pass fs = (res, fs') \<Longrightarrow> q \<noteq> purpose \<Longrightarrow> fs' q = fs q"
  by (auto simp: seal_def split: if_splits prod.splits sum.splits)

lemma unseal_dir_result:
  assumes "check_dos_limit env now d = Inr ()" "load_meta env d = Inr m"
  shows "fst (unseal_dir env now later pass d) =
    (case sm_backend m of Tpm2 \<Rightarrow> tpm2_unseal env (sm_pcr_list m) d | Software \<Rightarrow> software_unseal env pass d)"
  using assms by (simp add: unseal_dir_def Let_def)

lemma fst_unseal [simp]: "fst (unseal env now later purpose pass fs) = fst (unseal_dir env now later pass (fs purpose))"
  by (simp add: unseal_def split: prod.splits)

lemma unseal_after_seal:
  assumes ok: "seal_ok env" "rnd_ok r" and s: "seal env r data purpose pcrs pass fs = (Inr m, fs')"
    and l: "check_dos_limit env now (fs purpose) = Inr ()"
  shows "fst (unseal env now later purpose pass fs') = Inr data"
  using s
proof (cases rule: seal_cases)
  case (tpm l' d)
  note t = tpm2_unseal_seal[OF ok(1) tpm(3)]
  from check_dos_fail[OF t(5)] l have "check_dos_limit env now d = Inr ()" by simp
  then show ?thesis using t tpm(4) by (simp add: unseal_dir_result)
next
  case (software d1 d)
  have cr: "crypto_ok (crypto.truncate env)" using ok(1) by (simp add: seal_ok_def)
  note t = software_unseal_seal[OF cr ok(2) software(2)]
  from check_dos_fail[of d "fs purpose" env now] t(4) software(1) l have "check_dos_limit env now d = Inr ()" by simp
  with t(1,2) software_seal_meta[OF ok software(2)] software(3) show ?thesis by (simp add: unseal_dir_result)
qed

subsection \<open>The rate of attempts\<close>

text \<open>A run of attempts to unseal, each with its time of check, its time of recording and its passphrase.\<close>

fun unseal_run :: "seal_env \<Rightarrow> (nat \<times> nat \<times> string) list \<Rightarrow> blob_files \<Rightarrow> (unseal_error, bytes) result list" where
  "unseal_run env [] d = []"
| "unseal_run env ((now, later, pass) # xs) d =
     (let (res, d1) = unseal_dir env now later pass d in res # unseal_run env xs d1)"

text \<open>A result that came from the backend and not from the limiter.\<close>

fun attempted :: "(unseal_error, bytes) result \<Rightarrow> bool" where
  "attempted (Inl (LockedOut n)) = False"
| "attempted res = True"

definition attempts :: "(unseal_error, bytes) result list \<Rightarrow> nat" where
  "attempts rs = length (filter attempted rs)"

text \<open>The clock does not go back, from \<open>t0\<close> on.\<close>

fun clock_from :: "nat \<Rightarrow> (nat \<times> nat \<times> string) list \<Rightarrow> bool" where
  "clock_from t0 [] = True"
| "clock_from t0 ((now, later, pass) # xs) = (t0 \<le> now \<and> now \<le> later \<and> clock_from later xs)"

lemma attempts_Cons: "attempts (r # rs) = (if attempted r then 1 else 0) + attempts rs"
  by (simp add: attempts_def)

lemma clock_from_mono: "clock_from t xs \<Longrightarrow> s \<le> t \<Longrightarrow> clock_from s xs"
  by (cases "(s, xs)" rule: clock_from.cases) auto

lemma clock_from_le: "clock_from t xs \<Longrightarrow> xs \<noteq> [] \<Longrightarrow> t \<le> fst (snd (last xs))"
  by (induction t xs rule: clock_from.induct) (auto split: if_splits)

lemma load_meta_fail [simp]: "load_meta env (d\<lparr>bd_fail := c\<rparr>) = load_meta env d"
  by (simp add: load_meta_def)

lemma read_written_counter:
  "seal_ok env \<Longrightarrow> io_ok env WriteCounter \<Longrightarrow> read_fail_counter env (write_fail_counter env fc d) = fc"
  by (simp add: read_fail_counter_def write_fail_counter_def seal_ok_def)

text \<open>One failing attempt: either the limiter refuses and nothing changes, or the counter goes up.\<close>

lemma unseal_dir_failure:
  assumes ok: "seal_ok env" "io_ok env WriteCounter" "load_meta env d = Inr m"
    and u: "unseal_dir env now later pass d = (Inl e, d')"
  obtains (locked) n where "e = LockedOut n" "d' = d"
  | (tried) "check_dos_limit env now d = Inr ()" "d' = increment_fail_counter env later d" "load_meta env d' = Inr m"
proof (cases "check_dos_limit env now d")
  case (Inl e')
  then show thesis using u locked by (auto simp: unseal_dir_def check_dos_limit_def Let_def split: if_splits)
next
  case (Inr x)
  then have "d' = increment_fail_counter env later d"
    using u ok(3) by (auto simp: unseal_dir_def Let_def split: sum.splits)
  then show thesis using Inr ok(3) tried
    by (simp add: increment_fail_counter_def write_fail_counter_def split: if_splits)
qed

lemma backend_not_locked:
  "tpm2_unseal env l d \<noteq> Inl (LockedOut n)" "software_unseal env pass d \<noteq> Inl (LockedOut n)"
  by (auto simp: tpm2_unseal_def software_unseal_def rbind_def ok_or_def Let_def split: sum.splits option.splits if_splits)

lemma tried_not_locked:
  assumes "check_dos_limit env now d = Inr ()" "load_meta env d = Inr m" "unseal_dir env now later pass d = (res, d')"
  shows "attempted res"
proof -
  have "res = (case sm_backend m of Tpm2 \<Rightarrow> tpm2_unseal env (sm_pcr_list m) d | Software \<Rightarrow> software_unseal env pass d)"
    using unseal_dir_result[OF assms(1,2), of later pass] assms(3) by simp
  then have "res \<noteq> Inl (LockedOut n)" for n by (simp add: backend_not_locked split: seal_backend.splits)
  then show ?thesis by (cases res rule: attempted.cases) auto
qed

lemma attempts_after:
  assumes ok: "seal_ok env" "io_ok env WriteCounter"
  shows "load_meta env d = Inr m \<Longrightarrow> fc_last_fail_ts (read_fail_counter env d) = t \<Longrightarrow> fc_count (read_fail_counter env d) = c \<Longrightarrow>
    clock_from t xs \<Longrightarrow> (\<And>x. x \<in> set xs \<Longrightarrow> fst (snd x) \<le> t_end) \<Longrightarrow> t \<le> t_end \<Longrightarrow>
    \<forall>r \<in> set (unseal_run env xs d). \<exists>e. r = Inl e \<Longrightarrow>
    60 * (attempts (unseal_run env xs d) - (5 - c)) \<le> t_end - t"
proof (induction xs arbitrary: d t c)
  case (Cons x xs)
  obtain now later pass where x: "x = (now, later, pass)" by (cases x)
  obtain res d1 where u: "unseal_dir env now later pass d = (res, d1)" by fastforce
  with Cons.prems(7) x obtain e where e: "res = Inl e" by (auto simp: Let_def)
  have run: "unseal_run env (x # xs) d = Inl e # unseal_run env xs d1" using x u e by (simp add: Let_def)
  have clk: "t \<le> now" "now \<le> later" "clock_from later xs" "later \<le> t_end" using Cons.prems(4) Cons.prems(5)[of x] x by auto
  have rest: "\<forall>r \<in> set (unseal_run env xs d1). \<exists>e. r = Inl e" using Cons.prems(7) run by simp
  from ok Cons.prems(1) u[unfolded e] show ?case
  proof (cases rule: unseal_dir_failure)
    case (locked n)
    have "clock_from t xs" using clk by (meson clock_from_mono order_trans)
    from Cons.IH[OF Cons.prems(1-3) this _ Cons.prems(6)] Cons.prems(5) rest locked(2)
    have "60 * (attempts (unseal_run env xs d1) - (5 - c)) \<le> t_end - t" by simp
    with run locked show ?thesis by (simp add: attempts_Cons)
  next
    case tried
    have fc: "read_fail_counter env d1 = \<lparr>fc_count = u32_saturating_add c 1, fc_last_fail_ts = later\<rparr>"
      using tried(2) Cons.prems(3) ok by (simp add: increment_fail_counter_def read_written_counter)
    have ih: "60 * (attempts (unseal_run env xs d1) - (5 - u32_saturating_add c 1)) \<le> t_end - later"
      using Cons.prems(5) rest clk fc tried(3) by (intro Cons.IH) auto
    have n: "attempts (unseal_run env (x # xs) d) = Suc (attempts (unseal_run env xs d1))"
      using run tried_not_locked[OF tried(1) Cons.prems(1) u] e by (simp add: attempts_Cons)
    show ?thesis
    proof (cases "5 \<le> c")
      case True
      then have "t + 60 \<le> now"
        using tried(1) Cons.prems(2,3) clk(1) by (auto simp: check_dos_limit_def Let_def UNSEAL_FAIL_LOCKOUT_def LOCKOUT_SECS_def split: if_splits)
      moreover have "5 - u32_saturating_add c 1 = 0" using True by (simp add: u32_saturating_add_def)
      ultimately show ?thesis using ih n True clk by simp
    next
      case False
      then have "u32_saturating_add c 1 = c + 1" by (simp add: u32_saturating_add_def)
      then show ?thesis using ih n False clk by simp
    qed
  qed
qed (simp add: attempts_def)

lemma attempts_bounded:
  assumes ok: "seal_ok env" "io_ok env WriteCounter"
  shows "load_meta env d = Inr m \<Longrightarrow> clock_from t0 xs \<Longrightarrow> (\<And>x. x \<in> set xs \<Longrightarrow> fst (snd x) \<le> t_end) \<Longrightarrow>
    \<forall>r \<in> set (unseal_run env xs d). \<exists>e. r = Inl e \<Longrightarrow> 60 * (attempts (unseal_run env xs d) - 5) \<le> t_end - t0"
proof (induction xs arbitrary: t0)
  case (Cons x xs)
  obtain now later pass where x: "x = (now, later, pass)" by (cases x)
  obtain res d1 where u: "unseal_dir env now later pass d = (res, d1)" by fastforce
  with Cons.prems(4) x obtain e where e: "res = Inl e" by (auto simp: Let_def)
  have run: "unseal_run env (x # xs) d = Inl e # unseal_run env xs d1" using x u e by (simp add: Let_def)
  have clk: "t0 \<le> now" "now \<le> later" "clock_from later xs" "later \<le> t_end" using Cons.prems(2) Cons.prems(3)[of x] x by auto
  have rest: "\<forall>r \<in> set (unseal_run env xs d1). \<exists>e. r = Inl e" using Cons.prems(4) run by simp
  from ok Cons.prems(1) u[unfolded e] show ?case
  proof (cases rule: unseal_dir_failure)
    case (locked n)
    have "clock_from t0 xs" using clk by (meson clock_from_mono order_trans)
    from Cons.IH[OF Cons.prems(1) this] Cons.prems(3) rest locked(2)
    have "60 * (attempts (unseal_run env xs d1) - 5) \<le> t_end - t0" by simp
    with run locked show ?thesis by (simp add: attempts_Cons)
  next
    case tried
    define c where "c = u32_saturating_add (fc_count (read_fail_counter env d)) 1"
    have fc: "read_fail_counter env d1 = \<lparr>fc_count = c, fc_last_fail_ts = later\<rparr>"
      using tried(2) ok by (simp add: increment_fail_counter_def read_written_counter c_def)
    have "60 * (attempts (unseal_run env xs d1) - (5 - c)) \<le> t_end - later"
      using Cons.prems(3) rest clk fc tried(3) by (intro attempts_after[OF ok]) auto
    moreover have "1 \<le> c" by (simp add: c_def u32_saturating_add_def)
    ultimately show ?thesis using run clk by (auto simp: attempts_Cons)
  qed
qed (simp add: attempts_def)

text \<open>C36: while no attempt succeeds, the backend is asked at most five times and once more for every full
  minute between the first check and the last record, whatever the counter file held before; the passphrases
  do not matter.\<close>

theorem unseal_rate_limited:
  assumes "seal_ok env" "io_ok env WriteCounter" "load_meta env d = Inr m" "clock_from t0 xs"
    "\<forall>x \<in> set xs. fst (snd x) \<le> t_end" "\<forall>r \<in> set (unseal_run env xs d). \<exists>e. r = Inl e"
  shows "attempts (unseal_run env xs d) \<le> 5 + (t_end - t0) div 60"
  using attempts_bounded[OF assms(1-4), of t_end] assms(5,6) by (simp add: div_le_mono algebra_simps)

subsection \<open>Rotations and bundles keep the key\<close>

text \<open>The key that a directory holds for a passphrase, apart from the limiter.\<close>

definition key_of :: "seal_env \<Rightarrow> string \<Rightarrow> blob_files \<Rightarrow> (unseal_error, bytes) result" where
  "key_of env pass d = rbind (load_meta env d) (\<lambda>m.
     case sm_backend m of Tpm2 \<Rightarrow> tpm2_unseal env (sm_pcr_list m) d | Software \<Rightarrow> software_unseal env pass d)"

lemma key_of_fail [simp]: "key_of env pass (d\<lparr>bd_fail := c\<rparr>) = key_of env pass d"
proof -
  have "tpm2_unseal env l (d\<lparr>bd_fail := c\<rparr>) = tpm2_unseal env l d"
    "software_unseal env pass (d\<lparr>bd_fail := c\<rparr>) = software_unseal env pass d" for l
    by (simp_all add: tpm2_unseal_def software_unseal_def)
  then show ?thesis by (simp add: key_of_def cong: seal_backend.case_cong)
qed

lemma unseal_dir_key:
  assumes "unseal_dir env now later pass d = (res, d')"
  shows "check_dos_limit env now d = Inr () \<Longrightarrow> res = key_of env pass d"
    "res = Inr k \<Longrightarrow> key_of env pass d = Inr k"
    "\<exists>c. d' = d\<lparr>bd_fail := c\<rparr>"
    "seal_ok env \<Longrightarrow> io_ok env WriteCounter \<Longrightarrow> res = Inr k \<Longrightarrow> read_fail_counter env d' = \<lparr>fc_count = 0, fc_last_fail_ts = 0\<rparr>"
proof -
  have upd: "\<exists>c. write_fail_counter env fc d = d\<lparr>bd_fail := c\<rparr>" for fc
    by (auto simp: write_fail_counter_def intro: exI[of _ "bd_fail d"])
  show "check_dos_limit env now d = Inr () \<Longrightarrow> res = key_of env pass d" "res = Inr k \<Longrightarrow> key_of env pass d = Inr k"
    using assms by (auto simp: unseal_dir_def key_of_def Let_def split: sum.splits)
  show "\<exists>c. d' = d\<lparr>bd_fail := c\<rparr>"
    using assms upd upd[of "read_fail_counter env d"]
    by (auto simp: unseal_dir_def Let_def reset_fail_counter_def increment_fail_counter_def split: sum.splits intro: exI[of _ "bd_fail d"])
  show "seal_ok env \<Longrightarrow> io_ok env WriteCounter \<Longrightarrow> res = Inr k \<Longrightarrow> read_fail_counter env d' = \<lparr>fc_count = 0, fc_last_fail_ts = 0\<rparr>"
    using assms by (auto simp: unseal_dir_def Let_def reset_fail_counter_def read_written_counter split: sum.splits)
qed

lemma unseal_key:
  assumes "unseal env now later purpose pass fs = (res, fs')"
  shows "check_dos_limit env now (fs purpose) = Inr () \<Longrightarrow> res = key_of env pass (fs purpose)"
    "res = Inr k \<Longrightarrow> key_of env pass (fs purpose) = Inr k"
    "key_of env p' (fs' q) = key_of env p' (fs q)" "q \<noteq> purpose \<Longrightarrow> fs' q = fs q" "bd_bin (fs' q) = bd_bin (fs q)"
    "seal_ok env \<Longrightarrow> io_ok env WriteCounter \<Longrightarrow> res = Inr k \<Longrightarrow> read_fail_counter env (fs' purpose) = \<lparr>fc_count = 0, fc_last_fail_ts = 0\<rparr>"
proof -
  obtain d' where u: "unseal_dir env now later pass (fs purpose) = (res, d')" and fs': "fs' = fs(purpose := d')"
    using assms by (auto simp: unseal_def split: prod.splits)
  note k = unseal_dir_key[OF u]
  show "check_dos_limit env now (fs purpose) = Inr () \<Longrightarrow> res = key_of env pass (fs purpose)"
    "res = Inr k \<Longrightarrow> key_of env pass (fs purpose) = Inr k" by (rule k(1,2); assumption)+
  show "key_of env p' (fs' q) = key_of env p' (fs q)" "q \<noteq> purpose \<Longrightarrow> fs' q = fs q" "bd_bin (fs' q) = bd_bin (fs q)"
    using k(3) fs' by auto
  show "seal_ok env \<Longrightarrow> io_ok env WriteCounter \<Longrightarrow> res = Inr k \<Longrightarrow> read_fail_counter env (fs' purpose) = \<lparr>fc_count = 0, fc_last_fail_ts = 0\<rparr>"
    using k(4) fs' by simp
qed

lemma seal_key:
  assumes ok: "seal_ok env" "rnd_ok r" and s: "seal env r data purpose pcrs pass fs = (Inr m, fs')"
  shows "key_of env pass (fs' purpose) = Inr data" "bd_fail (fs' q) = bd_fail (fs q)"
    "load_meta env (fs' purpose) = Inr m" "sm_backend m = Tpm2 \<Longrightarrow> bd_bin (fs' purpose) = bd_bin (fs purpose)"
proof -
  have "key_of env pass (fs' purpose) = Inr data \<and> bd_fail (fs' purpose) = bd_fail (fs purpose) \<and> load_meta env (fs' purpose) = Inr m \<and>
      (sm_backend m = Tpm2 \<longrightarrow> bd_bin (fs' purpose) = bd_bin (fs purpose))"
    using s
  proof (cases rule: seal_cases)
    case (tpm l' d)
    then show ?thesis using tpm2_unseal_seal[OF ok(1) tpm(3)] by (simp add: key_of_def)
  next
    case (software d1 d)
    have cr: "crypto_ok (crypto.truncate env)" using ok(1) by (simp add: seal_ok_def)
    from software software_unseal_seal(1,2,4)[OF cr ok(2) software(2)] software_seal_meta[OF ok software(2)]
    show ?thesis by (simp add: key_of_def)
  qed
  then show "key_of env pass (fs' purpose) = Inr data" "bd_fail (fs' q) = bd_fail (fs q)" "load_meta env (fs' purpose) = Inr m"
    "sm_backend m = Tpm2 \<Longrightarrow> bd_bin (fs' purpose) = bd_bin (fs purpose)"
    using seal_frame[OF s, of q] by (cases "q = purpose"; simp)+
qed

lemma check_dos_zero: "fc_count (read_fail_counter env d) = 0 \<Longrightarrow> check_dos_limit env now d = Inr ()"
  by (simp add: check_dos_limit_def UNSEAL_FAIL_LOCKOUT_def Let_def)

lemma rotate_steps:
  assumes "rotate_in_place env now later r at purpose old pcrs new reason st = (Inr rec, st')"
  obtains old_meta key fs1 new_meta where "seal_status env purpose (ss_dirs st) = Some old_meta"
    "unseal env now later purpose old (ss_dirs st) = (Inr key, fs1)"
    "seal env r key purpose pcrs new fs1 = (Inr new_meta, ss_dirs st')"
    "rr_old_backend rec = sm_backend old_meta" "rr_new_backend rec = sm_backend new_meta"
    "ss_log st' = Some (unwrap_or [] (ss_log st) @ record_json env rec @ [char_of (10 :: nat)])"
proof -
  obtain old_meta where m: "seal_status env purpose (ss_dirs st) = Some old_meta"
    using assms by (simp add: rotate_in_place_def split: option.splits)
  obtain key fs1 where u: "unseal env now later purpose old (ss_dirs st) = (Inr key, fs1)"
    using assms m by (simp add: rotate_in_place_def split: prod.splits sum.splits)
  obtain new_meta fs2 where s: "seal env r key purpose pcrs new fs1 = (Inr new_meta, fs2)"
    using assms m u by (simp add: rotate_in_place_def split: prod.splits sum.splits)
  show thesis
    using assms m u s by (intro that[OF m u]) (auto simp: rotate_in_place_def append_rotation_log_def Let_def split: if_splits)
qed

lemma rotate_keeps:
  assumes ok: "seal_ok env" "rnd_ok r" "io_ok env WriteCounter"
    and u: "fst (unseal env now later purpose old (ss_dirs st)) = Inr key"
    and rot: "rotate_in_place env now later r at purpose old pcrs new reason st = (Inr rec, st')"
  shows "fst (unseal env now' later' purpose new (ss_dirs st')) = Inr key"
    and "\<And>q. q \<noteq> purpose \<Longrightarrow> ss_dirs st' q = ss_dirs st q"
    and "ss_log st' = Some (unwrap_or [] (ss_log st) @ record_json env rec @ [char_of (10 :: nat)])"
    and "rr_old_backend rec = Software \<Longrightarrow> rr_new_backend rec = Tpm2 \<Longrightarrow> software_unseal env old (ss_dirs st' purpose) = Inr key"
proof -
  from rot obtain old_meta k fs1 new_meta where
    m: "seal_status env purpose (ss_dirs st) = Some old_meta" and
    un: "unseal env now later purpose old (ss_dirs st) = (Inr k, fs1)" and
    s: "seal env r k purpose pcrs new fs1 = (Inr new_meta, ss_dirs st')" and
    b: "rr_old_backend rec = sm_backend old_meta" "rr_new_backend rec = sm_backend new_meta" and
    log: "ss_log st' = Some (unwrap_or [] (ss_log st) @ record_json env rec @ [char_of (10 :: nat)])"
    by (rule rotate_steps)
  have k: "k = key" using u un by (simp del: fst_unseal)
  note sk = seal_key[OF ok(1,2) s] and uk = unseal_key[OF un]
  have "fc_count (read_fail_counter env (ss_dirs st' purpose)) = 0"
    using uk(6)[OF ok(1,3) refl] sk(2)[of purpose] by (simp add: read_fail_counter_def)
  from check_dos_zero[OF this] show "fst (unseal env now' later' purpose new (ss_dirs st')) = Inr key"
    using sk(1) k unseal_key(1)[of env now' later' purpose new "ss_dirs st'"] by (metis prod.collapse)
  show "\<And>q. q \<noteq> purpose \<Longrightarrow> ss_dirs st' q = ss_dirs st q" using seal_frame[OF s] uk(4) by simp
  show "ss_log st' = Some (unwrap_or [] (ss_log st) @ record_json env rec @ [char_of (10 :: nat)])" by (rule log)
  assume "rr_old_backend rec = Software" "rr_new_backend rec = Tpm2"
  then have "software_unseal env old (ss_dirs st purpose) = Inr key"
    using uk(2)[OF refl] m b k by (auto simp: key_of_def seal_status_def split: sum.splits)
  then show "software_unseal env old (ss_dirs st' purpose) = Inr key"
    using sk(4) uk(5)[of purpose] b \<open>rr_new_backend rec = Tpm2\<close> by (simp add: software_unseal_def)
qed

lemma seal_without_pcrs:
  "seal env r data purpose None pass fs = (Inr m, fs') \<Longrightarrow> sm_backend m = Software \<and> sm_pcr_list m = None"
  by (auto simp: seal_def seal_with_tpm_def software_seal_def save_meta_def Let_def split: if_splits)


lemma decrypt_encrypt_bundle:
  assumes "crypto_ok (crypto.truncate env)" "rnd_ok r"
  shows "decrypt_bundle env (encrypt_bundle env r plain pass) pass = Inr plain"
  using assms
  by (simp add: decrypt_bundle_def encrypt_bundle_def BUNDLE_MAGIC_def BUNDLE_VERSION_def rnd_ok_def crypto_ok_def crypto.defs Let_def)

lemma export_entries_keys:
  "export_entries env clock i pass purposes fs = (Inr es, fs1) \<Longrightarrow>
   map re_purpose es = purposes \<and>
   (\<forall>e \<in> set es. \<exists>k. key_of env pass (fs (re_purpose e)) = Inr k \<and> re_key_bytes_hex e = hex_encode env k)"
proof (induction purposes arbitrary: i fs es)
  case (Cons p ps)
  from Cons.prems obtain m where m: "is_sealed p fs" "seal_status env p fs = Some m"
    by (simp split: if_splits option.splits)
  from Cons.prems m obtain k fs' where u: "unseal env (clock i) (clock (i + 1)) p pass fs = (Inr k, fs')"
    by (simp split: prod.splits sum.splits)
  from Cons.prems m u obtain es' where e: "export_entries env clock (i + 2) pass ps fs' = (Inr es', fs1)"
    "es = \<lparr>re_purpose = p, re_meta = m, re_key_bytes_hex = hex_encode env k\<rparr> # es'"
    by (auto split: prod.splits sum.splits)
  have "key_of env pass (fs' q) = key_of env pass (fs q)" for q by (rule unseal_key(3)[OF u])
  with Cons.IH[OF e(1)] unseal_key(2)[OF u refl] e(2) show ?case by auto
qed simp

lemma import_entries_keys:
  assumes ok: "seal_ok env" "\<And>i. rnd_ok (rnd i)"
  shows "import_entries env rnd at i pass pcrs es fs = (Inr rs, fs') \<Longrightarrow>
    (\<And>e. e \<in> set es \<Longrightarrow> hex_decode env (re_key_bytes_hex e) = Some (K (re_purpose e))) \<Longrightarrow>
    map rr_purpose rs = map re_purpose es \<and> (\<forall>p. bd_fail (fs' p) = bd_fail (fs p)) \<and>
    (\<forall>p. p \<notin> re_purpose ` set es \<longrightarrow> fs' p = fs p) \<and> (\<forall>p \<in> re_purpose ` set es. key_of env pass (fs' p) = Inr (K p))"
proof (induction es arbitrary: i fs rs)
  case (Cons e es)
  have h: "hex_decode env (re_key_bytes_hex e) = Some (K (re_purpose e))" using Cons.prems(2) by simp
  from Cons.prems(1) h obtain m fs1 where s: "seal env (rnd i) (K (re_purpose e)) (re_purpose e) pcrs pass fs = (Inr m, fs1)"
    by (simp split: prod.splits sum.splits)
  from Cons.prems(1) h s obtain rs' where r: "import_entries env rnd at (i + 1) pass pcrs es fs1 = (Inr rs', fs')"
      and rs: "map rr_purpose rs = re_purpose e # map rr_purpose rs'"
    by (auto split: prod.splits sum.splits)
  from Cons.IH[OF r] Cons.prems(2) have ih: "map rr_purpose rs' = map re_purpose es" "\<forall>p. bd_fail (fs' p) = bd_fail (fs1 p)"
      "\<forall>p. p \<notin> re_purpose ` set es \<longrightarrow> fs' p = fs1 p" "\<forall>p \<in> re_purpose ` set es. key_of env pass (fs' p) = Inr (K p)"
    by auto
  have "key_of env pass (fs' (re_purpose e)) = Inr (K (re_purpose e))"
    using ih(3,4) seal_key(1)[OF ok(1) ok(2) s] by (cases "re_purpose e \<in> re_purpose ` set es") auto
  with ih rs seal_key(2)[OF ok(1) ok(2) s] seal_frame[OF s] show ?case by auto
qed simp

lemma bundle_roundtrip:
  assumes ok: "seal_ok env" "\<And>i. rnd_ok (rnd i)" "rnd_ok r"
    and ex: "export_recovery_bundle env clock r created purposes pass fs = (Inr bundle, fs1)"
    and im: "import_recovery_bundle env rnd at bundle pass pcrs fs0 = (Inr records, fs2)"
  shows "map rr_purpose records = purposes"
    and "\<And>p n l n' l'. p \<in> set purposes \<Longrightarrow> check_dos_limit env n (fs0 p) = Inr () \<Longrightarrow> check_dos_limit env n' (fs p) = Inr () \<Longrightarrow>
      \<exists>key. fst (unseal env n' l' p pass fs) = Inr key \<and> fst (unseal env n l p pass fs2) = Inr key"
    and "\<And>p. p \<notin> set purposes \<Longrightarrow> fs2 p = fs0 p"
proof -
  obtain es where e: "export_entries env clock 0 pass purposes fs = (Inr es, fs1)" and
    b: "bundle = encrypt_bundle env r (bundle_json env \<lparr>rb_version = BUNDLE_VERSION, rb_created_at = created, rb_purposes = es\<rparr>) pass"
    using ex by (auto simp: export_recovery_bundle_def split: prod.splits sum.splits)
  have cr: "crypto_ok (crypto.truncate env)" using ok(1) by (simp add: seal_ok_def)
  have i: "import_entries env rnd at 0 pass pcrs es fs0 = (Inr records, fs2)"
    using im b decrypt_encrypt_bundle[OF cr ok(3)] ok(1) by (simp add: import_recovery_bundle_def seal_ok_def)
  note ek = export_entries_keys[OF e]
  define K where "K p = (case key_of env pass (fs p) of Inr k \<Rightarrow> k)" for p
  have "hex_decode env (re_key_bytes_hex x) = Some (K (re_purpose x))" if "x \<in> set es" for x
    using ek that cr by (force simp: K_def crypto_ok_def crypto.defs)
  note ik = import_entries_keys[OF ok(1,2) i this]
  have ps: "re_purpose ` set es = set purposes" using ek by force
  show "map rr_purpose records = purposes" using ik ek by simp
  show "\<And>p. p \<notin> set purposes \<Longrightarrow> fs2 p = fs0 p" using ik ps by simp
  fix p n l n' l' assume p: "p \<in> set purposes" "check_dos_limit env n (fs0 p) = Inr ()" "check_dos_limit env n' (fs p) = Inr ()"
  have "check_dos_limit env n (fs2 p) = Inr ()" using check_dos_fail[of "fs2 p" "fs0 p" env n] ik p(2) by simp
  then have "fst (unseal env n l p pass fs2) = key_of env pass (fs2 p)" by (metis unseal_key(1) prod.collapse)
  moreover have "fst (unseal env n' l' p pass fs) = key_of env pass (fs p)" using p(3) by (metis unseal_key(1) prod.collapse)
  moreover have "key_of env pass (fs2 p) = Inr (K p)" using ik ps p(1) by simp
  moreover have "key_of env pass (fs p) = Inr (K p)" using ek ps p(1) by (force simp: K_def)
  ultimately show "\<exists>key. fst (unseal env n' l' p pass fs) = Inr key \<and> fst (unseal env n l p pass fs2) = Inr key" by simp
qed

text \<open>A recovery bundle brings the keys over: importing what was exported, into any data directory and
  under any policy for the TPM there, leaves for every exported purpose the key it had, readable with the
  passphrase of the bundle unless the purpose is locked out there.\<close>

lemma recovery_roundtrip:
  assumes "seal_ok env" "\<And>i. rnd_ok (rnd i)" "rnd_ok r"
    and "export_recovery_bundle env clock r created purposes pass fs = (Inr bundle, fs1)"
    and "import_recovery_bundle env rnd at bundle pass pcrs fs0 = (Inr records, fs2)"
  shows "map rr_purpose records = purposes \<and> (\<forall>p. p \<notin> set purposes \<longrightarrow> fs2 p = fs0 p) \<and>
     (\<forall>p n l n' l'. p \<in> set purposes \<and> check_dos_limit env n (fs0 p) = Inr () \<and> check_dos_limit env n' (fs p) = Inr () \<longrightarrow>
       (\<exists>key. fst (unseal env n' l' p pass fs) = Inr key \<and> fst (unseal env n l p pass fs2) = Inr key))"
  using bundle_roundtrip[OF assms] by blast

subsection \<open>An environment that keeps the laws\<close>

instance seal_backend :: countable
  by (rule countable_classI[of "\<lambda>b. case b of Tpm2 \<Rightarrow> 0 | Software \<Rightarrow> 1"]) (simp split: seal_backend.splits)

instance seal_meta_ext :: (countable) countable
  by (rule countable_classI[of "\<lambda>m. to_nat (sm_backend m, sm_purpose m, sm_sealed_at m, sm_pcr_list m, seal_meta.more m)"]) simp

instance fail_counter_ext :: (countable) countable
  by (rule countable_classI[of "\<lambda>c. to_nat (fc_count c, fc_last_fail_ts c, fail_counter.more c)"]) simp

instance recovery_entry_ext :: (countable) countable
  by (rule countable_classI[of "\<lambda>e. to_nat (re_purpose e, re_meta e, re_key_bytes_hex e, recovery_entry.more e)"]) simp

instance recovery_bundle_ext :: (countable) countable
  by (rule countable_classI[of "\<lambda>b. to_nat (rb_version b, rb_created_at b, rb_purposes b, recovery_bundle.more b)"]) simp

instance rotation_record_ext :: (countable) countable
  by (rule countable_classI[of "\<lambda>r. to_nat (rr_purpose r, rr_rotated_at r, rr_reason r, rr_old_backend r, rr_new_backend r,
      rr_old_pcr_list r, rr_new_pcr_list r, rotation_record.more r)"]) simp

text \<open>Records travel as their number; the TPM releases an object to the policy it was sealed under.\<close>

definition num_json :: "'a :: countable \<Rightarrow> bytes" where
  "num_json x = show_nat (to_nat x)"

definition num_parse :: "bytes \<Rightarrow> 'a :: countable option" where
  "num_parse b = Some (from_nat (read_nat b))"

lemma num_parse_json [simp]: "num_parse (num_json x) = Some x"
  by (simp add: num_parse_def num_json_def)

definition demo_seal_env :: "bool \<Rightarrow> seal_env" where
  "demo_seal_env tpm = crypto.extend demo_crypto
     \<lparr>hmac_sha256 = (\<lambda>k m. replicate 32 (CHR ''h'')), meta_json = num_json, meta_parse = num_parse,
      counter_json = num_json, counter_parse = num_parse, bundle_json = num_json, bundle_parse = num_parse,
      record_json = num_json, record_parse = num_parse, io_ok = (\<lambda>_. True), tpm2_tools = tpm, tpm2_createprimary = True,
      tpm2_createpolicy = (\<lambda>l. Some l), tpm2_create = (\<lambda>pol data. (True, Some pol, Some data)),
      tpm2_load = (\<lambda>pub priv. case (pub, priv) of (Some a, Some b) \<Rightarrow> Some (num_json (a, b)) | _ \<Rightarrow> None),
      tpm2_unseal_cmd = (\<lambda>h l. case num_parse h of Some (pol, data) \<Rightarrow> if l = Some pol then Some data else None | None \<Rightarrow> None)\<rparr>"

lemma demo_seal_env_sel [simp]:
  "aead_seal (demo_seal_env t) = (\<lambda>k n p. k @ p)" "aead_open (demo_seal_env t) = (\<lambda>k n c. strip_prefix k c)"
  "meta_json (demo_seal_env t) = num_json" "meta_parse (demo_seal_env t) = num_parse"
  "counter_json (demo_seal_env t) = num_json" "counter_parse (demo_seal_env t) = num_parse"
  "bundle_json (demo_seal_env t) = num_json" "bundle_parse (demo_seal_env t) = num_parse"
  "record_json (demo_seal_env t) = num_json" "record_parse (demo_seal_env t) = num_parse"
  "io_ok (demo_seal_env t) s" "tpm2_tools (demo_seal_env t) = t" "tpm2_createprimary (demo_seal_env t)"
  "hex_encode (demo_seal_env t) b = b" "hex_decode (demo_seal_env t) b = Some b"
  "tpm2_createpolicy (demo_seal_env t) l = Some l" "tpm2_create (demo_seal_env t) l b = (True, Some l, Some b)"
  by (simp_all add: demo_seal_env_def crypto.defs demo_crypto_def)

lemma demo_seal_ok: "seal_ok (demo_seal_env t)"
proof -
  have "crypto.truncate (demo_seal_env t) = demo_crypto" by (simp add: demo_seal_env_def crypto.defs)
  then show ?thesis
    by (simp add: seal_ok_def demo_crypto_ok) (simp add: demo_seal_env_def crypto.defs)
qed

definition demo_rnd :: seal_rnd where
  "demo_rnd = \<lparr>sr_salt = replicate 16 CHR ''s'', sr_nonce = replicate 12 CHR ''n'', sr_sealed_at = ''now''\<rparr>"

lemma demo_rnd_ok [simp]: "rnd_ok demo_rnd"
  by (simp add: rnd_ok_def demo_rnd_def)

text \<open>The first six attempts are a second apart, the next one comes a minute later.\<close>

definition demo_locked_dir :: blob_files where
  "demo_locked_dir = empty_dir\<lparr>bd_meta := Some (num_json
     \<lparr>sm_backend = Software, sm_purpose = ''audit'', sm_sealed_at = ''now'', sm_pcr_list = None\<rparr>)\<rparr>"

definition demo_attempts :: "(nat \<times> nat \<times> string) list" where
  "demo_attempts = 
     [(100, 100, ''a''), (101, 101, ''b''), (102, 102, ''c''), (103, 103, ''d''), (104, 104, ''e''), (105, 105, ''f''), (165, 166, ''g'')]"

lemmas demo_run = demo_attempts_def demo_locked_dir_def empty_dir_def unseal_dir_def check_dos_limit_def read_fail_counter_def load_meta_def
  software_unseal_def increment_fail_counter_def write_fail_counter_def u32_saturating_add_def UNSEAL_FAIL_LOCKOUT_def LOCKOUT_SECS_def

lemma demo_attempts_run:
  "unseal_run (demo_seal_env t) demo_attempts demo_locked_dir =
     [Inl NoBlob, Inl NoBlob, Inl NoBlob, Inl NoBlob, Inl NoBlob, Inl (LockedOut 59), Inl NoBlob]"
  by (simp add: demo_run Let_def)

theorem unseal_rate_limited_witness:
  "attempts (unseal_run (demo_seal_env False) demo_attempts demo_locked_dir) = 6 \<and>
   attempts (unseal_run (demo_seal_env False) demo_attempts demo_locked_dir) \<le> 5 + (166 - 100) div 60"
proof -
  obtain m where m: "load_meta (demo_seal_env False) demo_locked_dir = Inr m" by (simp add: demo_locked_dir_def load_meta_def)
  have "clock_from 100 demo_attempts" "\<forall>x \<in> set demo_attempts. fst (snd x) \<le> 166"
    by (simp_all add: demo_attempts_def)
  from unseal_rate_limited[OF demo_seal_ok _ m this] show ?thesis
    by (simp add: demo_attempts_run attempts_def)
qed

definition demo_sealed :: "bool \<Rightarrow> seal_dir" where
  "demo_sealed t = snd (seal (demo_seal_env t) demo_rnd ''key'' ''audit'' None ''old'' (\<lambda>_. empty_dir))"

lemma demo_sealed_seal:
  obtains m where "seal (demo_seal_env t) demo_rnd ''key'' ''audit'' None ''old'' (\<lambda>_. empty_dir) = (Inr m, demo_sealed t)"
    "sm_backend m = Software"
  by (simp add: demo_sealed_def seal_def seal_with_tpm_def software_seal_def save_meta_def Let_def)

lemma demo_unlocked: "check_dos_limit env now empty_dir = Inr ()"
  by (rule check_dos_zero) (simp add: read_fail_counter_def empty_dir_def)

lemma demo_unseal:
  obtains fs1 m where "seal_status (demo_seal_env t) ''audit'' (demo_sealed t) = Some m" "sm_backend m = Software"
    "unseal (demo_seal_env t) now later ''audit'' ''old'' (demo_sealed t) = (Inr ''key'', fs1)"
proof -
  obtain m where m: "seal (demo_seal_env t) demo_rnd ''key'' ''audit'' None ''old'' (\<lambda>_. empty_dir) = (Inr m, demo_sealed t)"
    "sm_backend m = Software" by (rule demo_sealed_seal)
  have "fst (unseal (demo_seal_env t) now later ''audit'' ''old'' (demo_sealed t)) = Inr ''key''"
    by (rule unseal_after_seal[OF demo_seal_ok _ m(1)]) (simp_all add: demo_unlocked)
  then obtain fs1 where "unseal (demo_seal_env t) now later ''audit'' ''old'' (demo_sealed t) = (Inr ''key'', fs1)"
    by (metis prod.collapse)
  moreover have "seal_status (demo_seal_env t) ''audit'' (demo_sealed t) = Some m"
    using seal_key(3)[OF demo_seal_ok demo_rnd_ok m(1)] by (simp add: seal_status_def)
  ultimately show thesis using m(2) that by blast
qed


end
