(* ===== verification/Daemon_Config.thy ===== *)
theory Daemon_Config
  imports Accounts Isolation Rag_Engine Registry Seal Audit_Log
begin

section \<open>Configuration, start and reload of the daemon\<close>

text \<open>
  \<open>crates/maranode-daemon/src/config.rs\<close>, \<open>reload.rs\<close>, \<open>probe.rs\<close>, \<open>admin.rs\<close> and, of \<open>main.rs\<close>, how the settings are put together
  and applied at a start, the first administrator, and the keys that a start loads or unseals. The TOML parser, the
  command line parser (clap), the log filter and the network are parameters, and so are the variables of the
  environment. A path is its text. The parser of TOML gets the defaults it fills in for missing fields.
\<close>

subsection \<open>config.rs\<close>

record inference_section =
  inf_max_queue_depth :: nat
  inf_max_parallel :: nat
  inf_max_loaded_models :: nat

definition default_inference :: inference_section where
  "default_inference = \<lparr>inf_max_queue_depth = 32, inf_max_parallel = 4, inf_max_loaded_models = 2\<rparr>"

text \<open>An entry of the white list has the fields of the isolator's.\<close>

record isolation_section =
  isec_mode :: air_gap_mode
  isec_api_port :: nat
  isec_allowed_sources :: "string list"
  isec_whitelist :: "whitelist_entry list"

definition default_isolation_section :: isolation_section where
  "default_isolation_section = \<lparr>isec_mode = AirGap, isec_api_port = 11984, isec_allowed_sources = [''127.0.0.1'', ''::1''], isec_whitelist = []\<rparr>"

record oidc_section =
  os_issuer_url :: string
  os_client_id :: string
  os_client_secret :: string
  os_redirect_uri :: string
  os_default_role :: string

record ldap_group_role =
  lg_group_dn :: string
  lg_role :: string

record ldap_section =
  ls_url :: string
  ls_bind_dn :: string
  ls_bind_pw :: string
  ls_base_dn :: string
  ls_uid_attr :: string
  ls_group_role_map :: "ldap_group_role list"
  ls_default_role :: string

record saml_section =
  ss_idp_metadata_url :: string
  ss_sp_entity_id :: string
  ss_sp_cert :: "string option"
  ss_sp_key :: "string option"
  ss_idp_cert :: "string option"
  ss_default_role :: string

record auth_section =
  au_admin_key :: "string option"
  au_session_hours :: int
  au_oidc :: "oidc_section option"
  au_ldap :: "ldap_section option"
  au_saml :: "saml_section option"

definition default_auth :: auth_section where
  "default_auth = \<lparr>au_admin_key = None, au_session_hours = 24, au_oidc = None, au_ldap = None, au_saml = None\<rparr>"

record logging_section =
  lo_log_prompts :: bool
  lo_content_log_retention_days :: nat
  lo_audit_max_mb :: nat
  lo_audit_max_age_days :: nat

definition default_logging :: logging_section where
  "default_logging = \<lparr>lo_log_prompts = False, lo_content_log_retention_days = 90, lo_audit_max_mb = 256, lo_audit_max_age_days = 0\<rparr>"

record metrics_section =
  me_enabled :: bool
  me_require_auth :: bool

definition default_metrics :: metrics_section where
  "default_metrics = \<lparr>me_enabled = False, me_require_auth = True\<rparr>"

record smtp_section =
  sp_host :: string
  sp_port :: nat
  sp_username :: "string option"
  sp_password :: "string option"
  sp_from :: string
  sp_starttls :: bool

record integrity_section =
  ig_baselines_dir :: "string option"
  ig_drift_action :: drift_action

definition default_integrity :: integrity_section where
  "default_integrity = \<lparr>ig_baselines_dir = None, ig_drift_action = Warn\<rparr>"

record registry_section =
  rs_require_approval_token :: bool
  rs_tokens_dir :: "string option"

definition default_registry :: registry_section where
  "default_registry = \<lparr>rs_require_approval_token = False, rs_tokens_dir = None\<rparr>"

record tpm_section =
  tp_enabled :: bool
  tp_pcr_indices :: string
  tp_software_passphrase :: "string option"
  tp_seal_purposes :: "string list"

definition default_tpm :: tpm_section where
  "default_tpm = \<lparr>tp_enabled = False, tp_pcr_indices = ''0,7'', tp_software_passphrase = None,
     tp_seal_purposes = [''workspace-kek'', ''audit-hmac'']\<rparr>"

datatype ingest_policy = Anyone | AdminOnly | Allowlist

record rag_section =
  ra_enabled :: bool
  ra_embedding_model :: string
  ra_default_collection :: string
  ra_chunk_size :: nat
  ra_chunk_overlap :: nat
  ra_top_k :: nat
  ra_min_score :: f32
  ra_max_context_chars :: nat
  ra_ingest_policy :: ingest_policy
  ra_ingest_allowlist :: "string list"

definition default_rag_section :: rag_section where
  "default_rag_section = \<lparr>ra_enabled = False, ra_embedding_model = ''bge-m3:latest'', ra_default_collection = ''default'',
     ra_chunk_size = 1200, ra_chunk_overlap = 200, ra_top_k = 5, ra_min_score = 0x3ECCCCCD, ra_max_context_chars = 6000,
     ra_ingest_policy = Anyone, ra_ingest_allowlist = []\<rparr>"

record assistant_section =
  as_name :: string
  as_system_prompt :: string
  as_system_prompt_file :: "string option"

definition default_assistant :: assistant_section where
  "default_assistant = \<lparr>as_name = [], as_system_prompt = [], as_system_prompt_file = None\<rparr>"

text \<open>The prompt file, when it has more than white space; else the prompt in the configuration; else one made of the name.\<close>

definition named_prompt :: "string \<Rightarrow> string" where
  "named_prompt name = ''You are '' @ name @ '', a helpful and honest AI assistant. Be polite, concise, and accurate. ''
     @ ''Never assist with requests that could harm people.''"

definition resolved_system_prompt :: "(string \<Rightarrow> string option) \<Rightarrow> assistant_section \<Rightarrow> (unit, string option) result" where
  "resolved_system_prompt read a =
     rbind (case as_system_prompt_file a of None \<Rightarrow> Inr [] | Some path \<Rightarrow> map_sum id str_trim (ok_or () (read path))) (\<lambda>from_file.
       Inr (if from_file \<noteq> [] then Some from_file
            else if str_trim (as_system_prompt a) \<noteq> [] then Some (str_trim (as_system_prompt a))
            else if str_trim (as_name a) \<noteq> [] then Some (named_prompt (str_trim (as_name a)))
            else None))"

text \<open>The sections on DLP products and change management, which this development does not use, are of any type.\<close>

record ('dlp, 'cm) daemon_config =
  dc_data_dir :: string
  dc_models_dir :: string
  dc_bind :: string
  dc_unix_socket :: "string option"
  dc_tls_cert :: "string option"
  dc_tls_key :: "string option"
  dc_log_level :: string
  dc_device :: string
  dc_inference :: inference_section
  dc_isolation :: isolation_section
  dc_auth :: auth_section
  dc_rag :: rag_section
  dc_assistant :: assistant_section
  dc_logging :: logging_section
  dc_integrity :: integrity_section
  dc_registry :: registry_section
  dc_change_mgmt :: 'cm
  dc_dlp :: 'dlp
  dc_tpm :: tpm_section
  dc_metrics :: metrics_section
  dc_smtp :: "smtp_section option"
  dc_tee_encrypt_key :: "string option"

text \<open>What the daemon reads: variables, files (a path that exists may fail to be read), the parsers. \<open>de_default\<close> is the
  default configuration, with the paths of \<open>paths.rs\<close>.\<close>

record ('dlp, 'cm) daemon_env =
  de_linux :: bool
  de_vars :: "string \<Rightarrow> string option"
  de_exists :: "string \<Rightarrow> bool"
  de_read :: "string \<Rightarrow> string option"
  de_no_dlp :: 'dlp
  de_no_change_mgmt :: 'cm
  de_toml :: "('dlp, 'cm) daemon_config \<Rightarrow> string \<Rightarrow> ('dlp, 'cm) daemon_config option"
  de_filter :: "string \<Rightarrow> bool"
  de_filter_reload :: bool
  de_lowercase :: "string \<Rightarrow> string"
  de_iptables :: iptables
  de_audit_ok :: bool

definition home_path :: "string \<Rightarrow> string \<Rightarrow> string" where
  "home_path base name = (if base = [] \<or> last base = CHR ''/'' then base @ name else base @ ''/'' @ name)"

definition default_data_dir :: "(string \<Rightarrow> string option) \<Rightarrow> string" where
  "default_data_dir vars = (case vars ''MARANODE_DATA_DIR'' of
      Some dir \<Rightarrow> dir
    | None \<Rightarrow> (case vars ''HOME'' of Some home \<Rightarrow> home_path home ''.local/share/maranode'' | None \<Rightarrow> ''.maranode-data''))"

definition default_models_dir :: "(string \<Rightarrow> string option) \<Rightarrow> string" where
  "default_models_dir vars = (case vars ''MARANODE_MODELS_DIR'' of
      Some dir \<Rightarrow> dir | None \<Rightarrow> (case vars ''MODEL_DIR'' of Some dir \<Rightarrow> dir | None \<Rightarrow> ''models''))"

definition default_unix_socket :: "bool \<Rightarrow> (string \<Rightarrow> string option) \<Rightarrow> string option" where
  "default_unix_socket linux vars = Some (if linux then ''/run/maranode/api.sock'' else home_path (default_data_dir vars) ''api.sock'')"

definition default_config :: "('dlp, 'cm) daemon_env \<Rightarrow> ('dlp, 'cm) daemon_config" where
  "default_config env = \<lparr>dc_data_dir = default_data_dir (de_vars env), dc_models_dir = default_models_dir (de_vars env),
     dc_bind = ''127.0.0.1:11984'', dc_unix_socket = default_unix_socket (de_linux env) (de_vars env), dc_tls_cert = None, dc_tls_key = None,
     dc_log_level = ''info'', dc_device = ''auto'', dc_inference = default_inference, dc_isolation = default_isolation_section,
     dc_auth = default_auth, dc_rag = default_rag_section, dc_assistant = default_assistant, dc_logging = default_logging,
     dc_integrity = default_integrity, dc_registry = default_registry, dc_change_mgmt = de_no_change_mgmt env, dc_dlp = de_no_dlp env,
     dc_tpm = default_tpm, dc_metrics = default_metrics, dc_smtp = None, dc_tee_encrypt_key = None\<rparr>"

datatype daemon_error =
    NoConfigFile | ConfigNotFound string | ConfigUnreadable | ConfigInvalid | BadLogLevel | LogReload | IsolationFailed iso_error
  | PromptUnreadable | AuditFailed | BadDevice string | BadEmbeddingModel

definition config_load :: "('dlp, 'cm) daemon_env \<Rightarrow> string \<Rightarrow> (daemon_error, ('dlp, 'cm) daemon_config) result" where
  "config_load env path =
     (if \<not> de_exists env path then Inr (default_config env)
      else rbind (ok_or ConfigUnreadable (de_read env path)) (\<lambda>text. ok_or ConfigInvalid (de_toml env (default_config env) text)))"

definition config_search_paths :: "(string \<Rightarrow> string option) \<Rightarrow> string list" where
  "config_search_paths vars =
     (case vars ''XDG_CONFIG_HOME'' of
        Some xdg \<Rightarrow> [home_path xdg ''maranode/config.toml'']
      | None \<Rightarrow> (case vars ''HOME'' of Some home \<Rightarrow> [home_path home ''.config/maranode/config.toml''] | None \<Rightarrow> []))
     @ [''/etc/maranode/config.toml'']"

definition discover :: "('dlp, 'cm) daemon_env \<Rightarrow> (daemon_error, ('dlp, 'cm) daemon_config \<times> string option) result" where
  "discover env = (case find (de_exists env) (config_search_paths (de_vars env)) of
      Some path \<Rightarrow> map_sum id (\<lambda>cfg. (cfg, Some path)) (config_load env path)
    | None \<Rightarrow> Inr (default_config env, None))"

definition discover_or_explicit ::
  "('dlp, 'cm) daemon_env \<Rightarrow> string option \<Rightarrow> (daemon_error, ('dlp, 'cm) daemon_config \<times> string option) result" where
  "discover_or_explicit env explicit = (case explicit of
      None \<Rightarrow> discover env
    | Some p \<Rightarrow>
        if \<not> de_exists env p then Inl (ConfigNotFound p)
        else map_sum id (\<lambda>cfg. (cfg, Some p)) (config_load env p))"

text \<open>A setting that is given takes the place of the one in the configuration.\<close>

definition given :: "'a option \<Rightarrow> ('a \<Rightarrow> 'c \<Rightarrow> 'c) \<Rightarrow> 'c \<Rightarrow> 'c" where
  "given v f c = (case v of None \<Rightarrow> c | Some x \<Rightarrow> f x c)"

definition var_on :: "(string \<Rightarrow> string option) \<Rightarrow> string \<Rightarrow> bool" where
  "var_on vars name \<longleftrightarrow> vars name = Some ''1'' \<or> vars name = Some ''true''"

definition nonempty :: "string \<Rightarrow> string option" where
  "nonempty s = (if s = [] then None else Some s)"

definition set_rag_enabled :: "bool \<Rightarrow> ('dlp, 'cm) daemon_config \<Rightarrow> ('dlp, 'cm) daemon_config" where
  "set_rag_enabled b c = c\<lparr>dc_rag := (dc_rag c)\<lparr>ra_enabled := b\<rparr>\<rparr>"

definition set_embedding_model :: "string \<Rightarrow> ('dlp, 'cm) daemon_config \<Rightarrow> ('dlp, 'cm) daemon_config" where
  "set_embedding_model m c = c\<lparr>dc_rag := (dc_rag c)\<lparr>ra_embedding_model := m\<rparr>\<rparr>"

definition set_rag_collection :: "string \<Rightarrow> ('dlp, 'cm) daemon_config \<Rightarrow> ('dlp, 'cm) daemon_config" where
  "set_rag_collection n c = c\<lparr>dc_rag := (dc_rag c)\<lparr>ra_default_collection := n\<rparr>\<rparr>"

definition set_admin_key :: "string \<Rightarrow> ('dlp, 'cm) daemon_config \<Rightarrow> ('dlp, 'cm) daemon_config" where
  "set_admin_key k c = c\<lparr>dc_auth := (dc_auth c)\<lparr>au_admin_key := Some k\<rparr>\<rparr>"

definition set_isolation_mode :: "air_gap_mode \<Rightarrow> ('dlp, 'cm) daemon_config \<Rightarrow> ('dlp, 'cm) daemon_config" where
  "set_isolation_mode m c = c\<lparr>dc_isolation := (dc_isolation c)\<lparr>isec_mode := m\<rparr>\<rparr>"

definition apply_env_overrides :: "(string \<Rightarrow> string option) \<Rightarrow> ('dlp, 'cm) daemon_config \<Rightarrow> ('dlp, 'cm) daemon_config" where
  "apply_env_overrides vars c =
     (let c1 = given (vars ''MARANODE_DATA_DIR'') (\<lambda>v c. c\<lparr>dc_data_dir := v\<rparr>) c;
          c2 = given (vars ''MARANODE_MODELS_DIR'') (\<lambda>v c. c\<lparr>dc_models_dir := v\<rparr>) c1;
          c3 = given (vars ''MARANODE_BIND'') (\<lambda>v c. c\<lparr>dc_bind := v\<rparr>) c2;
          c4 = given (vars ''RUST_LOG'') (\<lambda>v c. c\<lparr>dc_log_level := v\<rparr>) c3;
          c5 = given (vars ''MARANODE_DEVICE'') (\<lambda>v c. c\<lparr>dc_device := v\<rparr>) c4;
          c6 = given (vars ''MARANODE_UNIX_SOCKET'') (\<lambda>v c. c\<lparr>dc_unix_socket := nonempty v\<rparr>) c5;
          c7 = given (vars ''MARANODE_ADMIN_KEY'') set_admin_key c6;
          c8 = (if var_on vars ''MARANODE_RAG'' then set_rag_enabled True c7 else c7);
          c9 = (if var_on vars ''MARANODE_LOG_PROMPTS'' then c8\<lparr>dc_logging := (dc_logging c8)\<lparr>lo_log_prompts := True\<rparr>\<rparr> else c8);
          c10 = given (vars ''MARANODE_EMBEDDING_MODEL'') set_embedding_model c9;
          c11 = given (vars ''MARANODE_RAG_COLLECTION'') set_rag_collection c10;
          c12 = given (vars ''MARANODE_TPM_PASSPHRASE'') (\<lambda>v c. c\<lparr>dc_tpm := (dc_tpm c)\<lparr>tp_software_passphrase := Some v\<rparr>\<rparr>) c11
      in if var_on vars ''MARANODE_TPM'' then c12\<lparr>dc_tpm := (dc_tpm c12)\<lparr>tp_enabled := True\<rparr>\<rparr> else c12)"

subsection \<open>Command line and pins\<close>

text \<open>What clap leaves of the command line and the variables it knows.\<close>

record daemon_args =
  ar_config :: "string option"
  ar_no_isolation :: bool
  ar_data_dir :: "string option"
  ar_bind :: "string option"
  ar_log_level :: "string option"
  ar_device :: "string option"
  ar_rag :: bool
  ar_embedding_model :: "string option"
  ar_rag_collection :: "string option"
  ar_admin_key :: "string option"
  ar_models_dir :: "string option"
  ar_unix_socket :: "string option"
  ar_no_unix_socket :: bool
  ar_tls_cert :: "string option"
  ar_tls_key :: "string option"

record startup_pins =
  pin_data_dir :: "string option"
  pin_bind :: "string option"
  pin_log_level :: "string option"
  pin_device :: "string option"
  pin_unix_socket :: "string option option"
  pin_no_isolation :: bool
  pin_rag_enabled :: "bool option"
  pin_embedding_model :: "string option"
  pin_rag_collection :: "string option"
  pin_admin_key :: "string option"
  pin_models_dir :: "string option"

definition pins_of :: "daemon_args \<Rightarrow> startup_pins" where
  "pins_of a = \<lparr>pin_data_dir = ar_data_dir a, pin_bind = ar_bind a, pin_log_level = ar_log_level a, pin_device = ar_device a,
     pin_unix_socket = (if ar_no_unix_socket a then Some None else map_option nonempty (ar_unix_socket a)),
     pin_no_isolation = ar_no_isolation a, pin_rag_enabled = (if ar_rag a then Some True else None),
     pin_embedding_model = ar_embedding_model a, pin_rag_collection = ar_rag_collection a, pin_admin_key = ar_admin_key a,
     pin_models_dir = ar_models_dir a\<rparr>"

definition pins_apply :: "bool \<Rightarrow> startup_pins \<Rightarrow> ('dlp, 'cm) daemon_config \<Rightarrow> ('dlp, 'cm) daemon_config" where
  "pins_apply linux p c =
     (let c1 = given (pin_data_dir p) (\<lambda>v c. c\<lparr>dc_data_dir := v\<rparr>) c;
          c2 = given (pin_bind p) (\<lambda>v c. c\<lparr>dc_bind := v\<rparr>) c1;
          c3 = given (pin_log_level p) (\<lambda>v c. c\<lparr>dc_log_level := v\<rparr>) c2;
          c4 = given (pin_device p) (\<lambda>v c. c\<lparr>dc_device := v\<rparr>) c3;
          c5 = given (pin_unix_socket p) (\<lambda>v c. c\<lparr>dc_unix_socket := v\<rparr>) c4;
          c6 = (if pin_no_isolation p \<or> \<not> linux then set_isolation_mode Disabled c5 else c5);
          c7 = given (pin_rag_enabled p) set_rag_enabled c6;
          c8 = given (pin_embedding_model p) set_embedding_model c7;
          c9 = given (pin_rag_collection p) set_rag_collection c8;
          c10 = given (pin_admin_key p) set_admin_key c9
      in given (pin_models_dir p) (\<lambda>v c. c\<lparr>dc_models_dir := v\<rparr>) c10)"

text \<open>The configuration of a start: the arguments over the file. \<open>apply_env_overrides\<close> is not called.\<close>

definition start_config :: "bool \<Rightarrow> daemon_args \<Rightarrow> ('dlp, 'cm) daemon_config \<Rightarrow> ('dlp, 'cm) daemon_config" where
  "start_config linux a c =
     (let c1 = given (ar_data_dir a) (\<lambda>v c. c\<lparr>dc_data_dir := v\<rparr>) c;
          c2 = given (ar_bind a) (\<lambda>v c. c\<lparr>dc_bind := v\<rparr>) c1;
          c3 = given (ar_log_level a) (\<lambda>v c. c\<lparr>dc_log_level := v\<rparr>) c2;
          c4 = given (ar_device a) (\<lambda>v c. c\<lparr>dc_device := v\<rparr>) c3;
          c5 = given (ar_unix_socket a) (\<lambda>v c. c\<lparr>dc_unix_socket := nonempty v\<rparr>) c4;
          c6 = (if ar_no_unix_socket a then c5\<lparr>dc_unix_socket := None\<rparr> else c5);
          c7 = given (ar_tls_cert a) (\<lambda>v c. c\<lparr>dc_tls_cert := Some v\<rparr>) c6;
          c8 = given (ar_tls_key a) (\<lambda>v c. c\<lparr>dc_tls_key := Some v\<rparr>) c7;
          c9 = (if ar_no_isolation a \<or> \<not> linux then set_isolation_mode Disabled c8 else c8);
          c10 = (if ar_rag a then set_rag_enabled True c9 else c9);
          c11 = given (ar_embedding_model a) set_embedding_model c10;
          c12 = given (ar_rag_collection a) set_rag_collection c11;
          c13 = given (ar_admin_key a) set_admin_key c12
      in given (ar_models_dir a) (\<lambda>v c. c\<lparr>dc_models_dir := v\<rparr>) c13)"

record startup_snapshot =
  sn_bind :: string
  sn_data_dir :: string
  sn_device :: string
  sn_rag_enabled :: bool
  sn_embedding_model :: string
  sn_unix_socket :: "string option"
  sn_max_parallel :: nat

definition snapshot_of :: "('dlp, 'cm) daemon_config \<Rightarrow> startup_snapshot" where
  "snapshot_of c = \<lparr>sn_bind = dc_bind c, sn_data_dir = dc_data_dir c, sn_device = dc_device c, sn_rag_enabled = ra_enabled (dc_rag c),
     sn_embedding_model = ra_embedding_model (dc_rag c), sn_unix_socket = dc_unix_socket c, sn_max_parallel = inf_max_parallel (dc_inference c)\<rparr>"

subsection \<open>Settings in force\<close>

record oidc_settings =
  oi_issuer_url :: string
  oi_client_id :: string
  oi_client_secret :: string
  oi_redirect_uri :: string
  oi_role :: string

record ldap_settings =
  li_url :: string
  li_bind_dn :: string
  li_bind_pw :: string
  li_base_dn :: string
  li_uid_attr :: string
  li_group_role_map :: "(string \<times> string) list"
  li_role :: string

record saml_settings =
  si_idp_metadata_url :: string
  si_sp_entity_id :: string
  si_sp_cert :: "string option"
  si_sp_key :: "string option"
  si_idp_cert :: "string option"
  si_role :: string

record identity_config =
  ic_oidc :: "oidc_settings option"
  ic_ldap :: "ldap_settings option"
  ic_saml :: "saml_settings option"
  ic_session_hours :: int

definition identity_from_config :: "('dlp, 'cm) daemon_config \<Rightarrow> identity_config" where
  "identity_from_config c = \<lparr>
     ic_oidc = map_option (\<lambda>o'. \<lparr>oi_issuer_url = os_issuer_url o', oi_client_id = os_client_id o', oi_client_secret = os_client_secret o',
        oi_redirect_uri = os_redirect_uri o', oi_role = os_default_role o'\<rparr>) (au_oidc (dc_auth c)),
     ic_ldap = map_option (\<lambda>l. \<lparr>li_url = ls_url l, li_bind_dn = ls_bind_dn l, li_bind_pw = ls_bind_pw l, li_base_dn = ls_base_dn l,
        li_uid_attr = ls_uid_attr l, li_group_role_map = map (\<lambda>g. (lg_group_dn g, lg_role g)) (ls_group_role_map l),
        li_role = ls_default_role l\<rparr>) (au_ldap (dc_auth c)),
     ic_saml = map_option (\<lambda>s. \<lparr>si_idp_metadata_url = ss_idp_metadata_url s, si_sp_entity_id = ss_sp_entity_id s, si_sp_cert = ss_sp_cert s,
        si_sp_key = ss_sp_key s, si_idp_cert = ss_idp_cert s, si_role = ss_default_role s\<rparr>) (au_saml (dc_auth c)),
     ic_session_hours = au_session_hours (dc_auth c)\<rparr>"

record smtp_settings =
  smt_host :: string
  smt_port :: nat
  smt_username :: "string option"
  smt_password :: "string option"
  smt_from :: string
  smt_starttls :: bool

record runtime_settings =
  rt_admin_key :: "string option"
  rt_rag_ingest_policy :: ingest_policy
  rt_rag_ingest_allowlist :: "string list"
  rt_system_prompt :: "string option"
  rt_identity :: identity_config
  rt_air_gap :: bool
  rt_log_prompts :: bool
  rt_content_log_retention_days :: nat
  rt_audit_max_mb :: nat
  rt_audit_max_age_days :: nat
  rt_metrics_enabled :: bool
  rt_metrics_require_auth :: bool
  rt_smtp :: "smtp_settings option"
  rt_tee_encrypt_key :: "string option"

definition runtime_from_config :: "('dlp, 'cm) daemon_config \<Rightarrow> bool \<Rightarrow> string option \<Rightarrow> runtime_settings" where
  "runtime_from_config c air_gap prompt = \<lparr>rt_admin_key = au_admin_key (dc_auth c),
     rt_rag_ingest_policy = ra_ingest_policy (dc_rag c), rt_rag_ingest_allowlist = ra_ingest_allowlist (dc_rag c), rt_system_prompt = prompt,
     rt_identity = identity_from_config c, rt_air_gap = air_gap, rt_log_prompts = lo_log_prompts (dc_logging c),
     rt_content_log_retention_days = lo_content_log_retention_days (dc_logging c), rt_audit_max_mb = lo_audit_max_mb (dc_logging c),
     rt_audit_max_age_days = lo_audit_max_age_days (dc_logging c), rt_metrics_enabled = me_enabled (dc_metrics c),
     rt_metrics_require_auth = me_require_auth (dc_metrics c),
     rt_smtp = map_option (\<lambda>s. \<lparr>smt_host = sp_host s, smt_port = sp_port s, smt_username = sp_username s, smt_password = sp_password s,
        smt_from = sp_from s, smt_starttls = sp_starttls s\<rparr>) (dc_smtp c),
     rt_tee_encrypt_key = dc_tee_encrypt_key c\<rparr>"

definition isolation_from_config :: "('dlp, 'cm) daemon_config \<Rightarrow> isolation_config" where
  "isolation_from_config c = \<lparr>iso_mode = isec_mode (dc_isolation c), api_port = isec_api_port (dc_isolation c),
     api_allowed_sources = isec_allowed_sources (dc_isolation c),
     whitelist = map (\<lambda>e. \<lparr>wl_host = wl_host e, wl_port = wl_port e, wl_comment = wl_comment e\<rparr>) (isec_whitelist (dc_isolation c))\<rparr>"

definition rag_from_config :: "('dlp, 'cm) daemon_config \<Rightarrow> rag_config" where
  "rag_from_config c = \<lparr>rg_enabled = True, rg_embedding_model = ra_embedding_model (dc_rag c),
     rg_default_collection = ra_default_collection (dc_rag c), rg_chunk_size = ra_chunk_size (dc_rag c),
     rg_chunk_overlap = ra_chunk_overlap (dc_rag c), rg_top_k = ra_top_k (dc_rag c), rg_min_score = ra_min_score (dc_rag c),
     rg_max_context_chars = ra_max_context_chars (dc_rag c)\<rparr>"

definition air_gapped :: "('dlp, 'cm) daemon_config \<Rightarrow> bool" where
  "air_gapped c \<longleftrightarrow> isec_mode (dc_isolation c) \<noteq> Disabled"

text \<open>The parts of the running daemon that settings act on. \<open>ds_audit\<close> is what was appended to the audit log.\<close>

record daemon_state =
  ds_log_level :: string
  ds_queue :: inference_queue
  ds_isolator :: isolator
  ds_firewall :: firewall
  ds_rag :: "rag_config option"
  ds_runtime :: runtime_settings
  ds_isolation_ok :: bool
  ds_audit :: "(string \<times> audit_event) list"

definition device_ok :: "string \<Rightarrow> bool" where
  "device_ok lower \<longleftrightarrow> lower \<in> {''cpu'', ''gpu'', ''npu'', ''ryzenai'', ''auto'', []}"

text \<open>A start, as far as it applies settings: the rules, the queue, retrieval, the prompt. On a failure the rules stay.\<close>

definition start_daemon ::
  "('dlp, 'cm) daemon_env \<Rightarrow> string \<Rightarrow> ('dlp, 'cm) daemon_config \<Rightarrow> firewall \<Rightarrow> (daemon_error, daemon_state) result \<times> firewall" where
  "start_daemon env version c fw =
     (case isolator_apply (de_iptables env) \<lparr>isor_config = isolation_from_config c\<rparr> fw of
        (Inl e, fw1) \<Rightarrow> (Inl (IsolationFailed e), fw1)
      | (Inr _, fw1) \<Rightarrow>
          (if \<not> de_audit_ok env then Inl AuditFailed
           else if \<not> device_ok (de_lowercase env (dc_device c)) then Inl (BadDevice (dc_device c))
           else if ra_enabled (dc_rag c) \<and> model_id_parse (ra_embedding_model (dc_rag c)) = None then Inl BadEmbeddingModel
           else rbind (map_sum (\<lambda>_. PromptUnreadable) id (resolved_system_prompt (de_read env) (dc_assistant c))) (\<lambda>prompt.
             Inr \<lparr>ds_log_level = (if de_filter env (dc_log_level c) then dc_log_level c else ''info''),
                  ds_queue = queue_new (inf_max_queue_depth (dc_inference c)) (inf_max_parallel (dc_inference c)),
                  ds_isolator = \<lparr>isor_config = isolation_from_config c\<rparr>, ds_firewall = fw1,
                  ds_rag = (if ra_enabled (dc_rag c) then Some (rag_from_config c) else None),
                  ds_runtime = runtime_from_config c (air_gapped c) prompt, ds_isolation_ok = True,
                  ds_audit = [(''daemon'', DaemonStart version (air_gapped c))]\<rparr>), fw1))"

subsection \<open>reload.rs\<close>

record reload_services =
  rv_config_path :: "string option"
  rv_pins :: startup_pins
  rv_snapshot :: startup_snapshot

record reload_response =
  rr_path :: string
  rr_applied :: "string list"
  rr_requires_restart :: "string list"

definition reload_config ::
  "('dlp, 'cm) daemon_env \<Rightarrow> startup_pins \<Rightarrow> string \<Rightarrow> (daemon_error, ('dlp, 'cm) daemon_config) result" where
  "reload_config env pins path =
     rbind (config_load env path) (\<lambda>c. Inr (pins_apply (de_linux env) pins (apply_env_overrides (de_vars env) c)))"

definition noted :: "bool \<Rightarrow> string \<Rightarrow> string list" where
  "noted b s = (if b then [s] else [])"

definition restart_needed :: "startup_pins \<Rightarrow> startup_snapshot \<Rightarrow> ('dlp, 'cm) daemon_config \<Rightarrow> string list" where
  "restart_needed p sn c =
     noted (dc_bind c \<noteq> sn_bind sn \<and> pin_bind p = None) ''bind''
     @ noted (dc_data_dir c \<noteq> sn_data_dir sn \<and> pin_data_dir p = None) ''data_dir''
     @ noted (dc_device c \<noteq> sn_device sn \<and> pin_device p = None) ''device''
     @ noted (ra_enabled (dc_rag c) \<noteq> sn_rag_enabled sn \<and> pin_rag_enabled p = None) ''rag.enabled''
     @ noted (ra_embedding_model (dc_rag c) \<noteq> sn_embedding_model sn \<and> pin_embedding_model p = None) ''rag.embedding_model''
     @ noted (inf_max_parallel (dc_inference c) \<noteq> sn_max_parallel sn) ''inference.max_parallel''
     @ noted (dc_unix_socket c \<noteq> sn_unix_socket sn \<and> pin_unix_socket p = None) ''unix_socket''"

text \<open>The log level, the length of the queue and the rules; then the prompt, retrieval and the settings.\<close>

definition reload_rules ::
  "('dlp, 'cm) daemon_env \<Rightarrow> startup_pins \<Rightarrow> ('dlp, 'cm) daemon_config \<Rightarrow> daemon_state \<Rightarrow> (daemon_error, unit) result \<times> daemon_state" where
  "reload_rules env pins c st =
     (let st1 = st\<lparr>ds_log_level := (if pin_log_level pins = None then dc_log_level c else ds_log_level st)\<rparr>;
          st2 = st1\<lparr>ds_queue := set_max_waiting (inf_max_queue_depth (dc_inference c)) (ds_queue st1)\<rparr>;
          (applied, iso, fw) = reconfigure (de_iptables env) (isolation_from_config c) (ds_isolator st2, ds_firewall st2)
      in (map_sum IsolationFailed id applied, st2\<lparr>ds_isolator := iso, ds_firewall := fw\<rparr>))"

definition reload_settings ::
  "('dlp, 'cm) daemon_env \<Rightarrow> reload_services \<Rightarrow> string \<Rightarrow> ('dlp, 'cm) daemon_config \<Rightarrow> daemon_state \<Rightarrow>
     (daemon_error, reload_response) result \<times> daemon_state" where
  "reload_settings env svc path c st =
     (case resolved_system_prompt (de_read env) (dc_assistant c) of
        Inl _ \<Rightarrow> (Inl PromptUnreadable, st)
      | Inr prompt \<Rightarrow>
          (let st1 = st\<lparr>ds_rag := map_option (apply_runtime_config (rag_from_config c)) (ds_rag st),
                        ds_runtime := runtime_from_config c (air_gapped c) prompt\<rparr>
           in if \<not> de_audit_ok env then (Inl AuditFailed, st1)
              else (Inr \<lparr>rr_path = path,
                      rr_applied = noted (pin_log_level (rv_pins svc) = None) ''log_level''
                        @ [''inference.max_queue_depth'', ''isolation'', ''assistant''] @ noted (ds_rag st \<noteq> None) ''rag'' @ [''auth''],
                      rr_requires_restart = restart_needed (rv_pins svc) (rv_snapshot svc) c
                        @ noted (ds_rag st = None \<and> ra_enabled (dc_rag c)) ''rag.enabled''\<rparr>,
                    st1\<lparr>ds_audit := ds_audit st1 @ [(''daemon'', ConfigReloaded path)]\<rparr>)))"

definition reload ::
  "('dlp, 'cm) daemon_env \<Rightarrow> reload_services \<Rightarrow> daemon_state \<Rightarrow> (daemon_error, reload_response) result \<times> daemon_state" where
  "reload env svc st = (case rv_config_path svc of
      None \<Rightarrow> (Inl NoConfigFile, st)
    | Some path \<Rightarrow>
        (case reload_config env (rv_pins svc) path of
           Inl e \<Rightarrow> (Inl e, st)
         | Inr c \<Rightarrow>
             if pin_log_level (rv_pins svc) = None \<and> \<not> de_filter env (dc_log_level c) then (Inl BadLogLevel, st)
             else if pin_log_level (rv_pins svc) = None \<and> \<not> de_filter_reload env then (Inl LogReload, st)
             else (case reload_rules env (rv_pins svc) c st of
                 (Inl e, st1) \<Rightarrow> (Inl e, st1)
               | (Inr _, st1) \<Rightarrow> reload_settings env svc path c st1)))"

subsection \<open>admin.rs and probe.rs\<close>

text \<open>\<open>x_api_key\<close> is the value of that header.\<close>

definition require_admin :: "runtime_settings \<Rightarrow> headers \<Rightarrow> string option \<Rightarrow> bool" where
  "require_admin rt h x_api_key = (case rt_admin_key rt of
      None \<Rightarrow> False
    | Some key \<Rightarrow> key \<noteq> [] \<and>
        ct_eq_str (unwrap_or [] (case Option.bind (hd_authorization h) (strip_prefix ''Bearer '') of Some t \<Rightarrow> Some t | None \<Rightarrow> x_api_key)) key)"

text \<open>\<open>None\<close> when the caller is not the administrator.\<close>

definition route_reload ::
  "('dlp, 'cm) daemon_env \<Rightarrow> reload_services \<Rightarrow> headers \<Rightarrow> string option \<Rightarrow> daemon_state \<Rightarrow> (daemon_error, reload_response) result option \<times> daemon_state" where
  "route_reload env svc h x_api_key st =
     (if \<not> require_admin (ds_runtime st) h x_api_key then (None, st)
      else let (r, st') = reload env svc st in (Some r, st'))"

definition PROBE_TARGETS_daemon :: "(string \<times> nat) list" where
  "PROBE_TARGETS_daemon = [(''1.1.1.1'', 53), (''8.8.8.8'', 53), (''93.184.216.34'', 80)]"

definition run_probe :: "(string \<Rightarrow> nat \<Rightarrow> bool) \<Rightarrow> bool \<times> probe_result list" where
  "run_probe connects =
     (let results = map (\<lambda>(host, port). \<lparr>pr_host = host, pr_port = port, pr_reachable = connects host port\<rparr>) PROBE_TARGETS_daemon
      in (\<not> (\<exists>p \<in> set results. pr_reachable p), results))"

text \<open>One tick of the loop; the digest of the rules is given.\<close>

definition probe_tick :: "(string \<Rightarrow> nat \<Rightarrow> bool) \<Rightarrow> string \<Rightarrow> daemon_state \<Rightarrow> daemon_state" where
  "probe_tick connects iptables_hash st =
     (if \<not> rt_air_gap (ds_runtime st) then st
      else let (isolated, results) = run_probe connects
           in st\<lparr>ds_isolation_ok := isolated, ds_audit := ds_audit st @ [(''probe'', IsolationProbe isolated results iptables_hash)]\<rparr>)"

subsection \<open>Keys and the first account at a start\<close>

datatype key_start_error = KekFile seal_error | KekLength nat | AuditKeyFile key_error | UnsealFailed unseal_error

record key_draw =
  kd_seal :: seal_rnd
  kd_now :: nat
  kd_later :: nat

definition tpm_passphrase :: "('dlp, 'cm) daemon_config \<Rightarrow> string" where
  "tpm_passphrase c = unwrap_or [] (tp_software_passphrase (dc_tpm c))"

definition tpm_pcr_list :: "('dlp, 'cm) daemon_config \<Rightarrow> string" where
  "tpm_pcr_list c = ''sha256:'' @ tp_pcr_indices (dc_tpm c)"

text \<open>A key that cannot be sealed is used as it is, with a warning.\<close>

definition load_master_kek ::
  "seal_env \<Rightarrow> ('dlp, 'cm) daemon_config \<Rightarrow> key_draw \<Rightarrow> bytes \<Rightarrow> string option \<times> seal_dir \<Rightarrow>
     (key_start_error, bytes) result \<times> string option \<times> seal_dir" where
  "load_master_kek env c d random st = (case st of (file, fs) \<Rightarrow>
     if \<not> tp_enabled (dc_tpm c)
     then let (r, file') = kek_load_or_create (crypto.truncate env) random file in (map_sum KekFile id r, file', fs)
     else if is_sealed ''workspace-kek'' fs
     then let (r, fs') = unseal env (kd_now d) (kd_later d) ''workspace-kek'' (tpm_passphrase c) fs
          in (case r of Inl e \<Rightarrow> Inl (UnsealFailed e) | Inr b \<Rightarrow> if length b \<noteq> 32 then Inl (KekLength (length b)) else Inr b, file, fs')
     else case kek_load_or_create (crypto.truncate env) random file of
       (Inl e, file') \<Rightarrow> (Inl (KekFile e), file', fs)
     | (Inr key, file') \<Rightarrow>
         (Inr key, file', snd (seal env (kd_seal d) key ''workspace-kek'' (Some (tpm_pcr_list c)) (tpm_passphrase c) fs)))"

definition open_audit_key ::
  "seal_env \<Rightarrow> ('dlp, 'cm) daemon_config \<Rightarrow> key_draw \<Rightarrow> nat list \<Rightarrow> key_file \<times> seal_dir \<Rightarrow>
     (key_start_error, nat list) result \<times> key_file \<times> seal_dir" where
  "open_audit_key env c d random st = (case st of (file, fs) \<Rightarrow>
     if \<not> tp_enabled (dc_tpm c) \<or> ''audit-hmac'' \<notin> set (tp_seal_purposes (dc_tpm c))
     then let (r, file') = load_or_generate random file in (map_sum AuditKeyFile id r, file', fs)
     else if is_sealed ''audit-hmac'' fs
     then let (r, fs') = unseal env (kd_now d) (kd_later d) ''audit-hmac'' (tpm_passphrase c) fs in (map_sum UnsealFailed ascii r, file, fs')
     else case load_or_generate random file of
       (Inl e, file') \<Rightarrow> (Inl (AuditKeyFile e), file', fs)
     | (Inr key, file') \<Rightarrow>
         (Inr key, file', snd (seal env (kd_seal d) (map char_of key) ''audit-hmac'' (Some (tpm_pcr_list c)) (tpm_passphrase c) fs)))"

definition first_admin :: "acc_env \<Rightarrow> timestamp \<Rightarrow> string \<Rightarrow> string \<Rightarrow> string option \<Rightarrow> user_db \<Rightarrow> (acc_error, user_db) result" where
  "first_admin env now uuid salt admin_key db =
     (if user_count db \<noteq> 0 then Inr db
      else case admin_key of
        None \<Rightarrow> Inr db
      | Some key \<Rightarrow>
          (case pw_hash env salt key of
             None \<Rightarrow> Inl AccInternal
           | Some hash \<Rightarrow> map_sum (\<lambda>_. AccInternal) id
               (create_user \<lparr>u_id = uuid, u_username = ''admin'', u_email = None, u_password_hash = Some hash, u_role = Admin,
                  u_provider = LocalLogin, u_provider_sub = None, u_active = True, u_created_at = now, u_last_login = None\<rparr> db)))"

subsection \<open>The configuration in one piece\<close>

lemma given_fields:
  "given v (\<lambda>v c. c\<lparr>dc_data_dir := v\<rparr>) c = c\<lparr>dc_data_dir := unwrap_or (dc_data_dir c) v\<rparr>"
  "given v (\<lambda>v c. c\<lparr>dc_models_dir := v\<rparr>) c = c\<lparr>dc_models_dir := unwrap_or (dc_models_dir c) v\<rparr>"
  "given v (\<lambda>v c. c\<lparr>dc_bind := v\<rparr>) c = c\<lparr>dc_bind := unwrap_or (dc_bind c) v\<rparr>"
  "given v (\<lambda>v c. c\<lparr>dc_log_level := v\<rparr>) c = c\<lparr>dc_log_level := unwrap_or (dc_log_level c) v\<rparr>"
  "given v (\<lambda>v c. c\<lparr>dc_device := v\<rparr>) c = c\<lparr>dc_device := unwrap_or (dc_device c) v\<rparr>"
  "given v (\<lambda>v c. c\<lparr>dc_unix_socket := nonempty v\<rparr>) c = c\<lparr>dc_unix_socket := unwrap_or (dc_unix_socket c) (map_option nonempty v)\<rparr>"
  "given s (\<lambda>v c. c\<lparr>dc_unix_socket := v\<rparr>) c = c\<lparr>dc_unix_socket := unwrap_or (dc_unix_socket c) s\<rparr>"
  "given v (\<lambda>v c. c\<lparr>dc_tls_cert := Some v\<rparr>) c = c\<lparr>dc_tls_cert := unwrap_or (dc_tls_cert c) (map_option Some v)\<rparr>"
  "given v (\<lambda>v c. c\<lparr>dc_tls_key := Some v\<rparr>) c = c\<lparr>dc_tls_key := unwrap_or (dc_tls_key c) (map_option Some v)\<rparr>"
  "given k set_admin_key c = c\<lparr>dc_auth := (dc_auth c)\<lparr>au_admin_key := unwrap_or (au_admin_key (dc_auth c)) (map_option Some k)\<rparr>\<rparr>"
  "given v set_embedding_model c = c\<lparr>dc_rag := (dc_rag c)\<lparr>ra_embedding_model := unwrap_or (ra_embedding_model (dc_rag c)) v\<rparr>\<rparr>"
  "given v set_rag_collection c = c\<lparr>dc_rag := (dc_rag c)\<lparr>ra_default_collection := unwrap_or (ra_default_collection (dc_rag c)) v\<rparr>\<rparr>"
  "given b set_rag_enabled c = c\<lparr>dc_rag := (dc_rag c)\<lparr>ra_enabled := unwrap_or (ra_enabled (dc_rag c)) b\<rparr>\<rparr>"
  "given v (\<lambda>v c. c\<lparr>dc_tpm := (dc_tpm c)\<lparr>tp_software_passphrase := Some v\<rparr>\<rparr>) c =
     c\<lparr>dc_tpm := (dc_tpm c)\<lparr>tp_software_passphrase := unwrap_or (tp_software_passphrase (dc_tpm c)) (map_option Some v)\<rparr>\<rparr>"
  by (simp_all add: given_def set_embedding_model_def set_rag_collection_def set_admin_key_def set_rag_enabled_def split: option.split)

lemma if_fields:
  "(if p then set_rag_enabled True c else c) = c\<lparr>dc_rag := (dc_rag c)\<lparr>ra_enabled := p \<or> ra_enabled (dc_rag c)\<rparr>\<rparr>"
  "(if p then set_isolation_mode Disabled c else c) = c\<lparr>dc_isolation := (dc_isolation c)\<lparr>isec_mode := if p then Disabled else isec_mode (dc_isolation c)\<rparr>\<rparr>"
  "(if p then c\<lparr>dc_unix_socket := None\<rparr> else c) = c\<lparr>dc_unix_socket := if p then None else dc_unix_socket c\<rparr>"
  "(if p then c\<lparr>dc_logging := (dc_logging c)\<lparr>lo_log_prompts := True\<rparr>\<rparr> else c) =
     c\<lparr>dc_logging := (dc_logging c)\<lparr>lo_log_prompts := p \<or> lo_log_prompts (dc_logging c)\<rparr>\<rparr>"
  "(if p then c\<lparr>dc_tpm := (dc_tpm c)\<lparr>tp_enabled := True\<rparr>\<rparr> else c) = c\<lparr>dc_tpm := (dc_tpm c)\<lparr>tp_enabled := p \<or> tp_enabled (dc_tpm c)\<rparr>\<rparr>"
  by (simp_all add: set_rag_enabled_def set_isolation_mode_def)

lemma start_config_fields:
  "start_config linux a c = c\<lparr>dc_data_dir := unwrap_or (dc_data_dir c) (ar_data_dir a), dc_models_dir := unwrap_or (dc_models_dir c) (ar_models_dir a),
     dc_bind := unwrap_or (dc_bind c) (ar_bind a),
     dc_unix_socket := (if ar_no_unix_socket a then None else unwrap_or (dc_unix_socket c) (map_option nonempty (ar_unix_socket a))),
     dc_tls_cert := unwrap_or (dc_tls_cert c) (map_option Some (ar_tls_cert a)), dc_tls_key := unwrap_or (dc_tls_key c) (map_option Some (ar_tls_key a)),
     dc_log_level := unwrap_or (dc_log_level c) (ar_log_level a), dc_device := unwrap_or (dc_device c) (ar_device a),
     dc_isolation := (dc_isolation c)\<lparr>isec_mode := if ar_no_isolation a \<or> \<not> linux then Disabled else isec_mode (dc_isolation c)\<rparr>,
     dc_auth := (dc_auth c)\<lparr>au_admin_key := unwrap_or (au_admin_key (dc_auth c)) (map_option Some (ar_admin_key a))\<rparr>,
     dc_rag := (dc_rag c)\<lparr>ra_enabled := ar_rag a \<or> ra_enabled (dc_rag c),
       ra_embedding_model := unwrap_or (ra_embedding_model (dc_rag c)) (ar_embedding_model a),
       ra_default_collection := unwrap_or (ra_default_collection (dc_rag c)) (ar_rag_collection a)\<rparr>\<rparr>"
  by (cases c) (simp add: start_config_def given_fields if_fields)

lemma env_overrides_fields:
  "apply_env_overrides vars c = c\<lparr>dc_data_dir := unwrap_or (dc_data_dir c) (vars ''MARANODE_DATA_DIR''),
     dc_models_dir := unwrap_or (dc_models_dir c) (vars ''MARANODE_MODELS_DIR''), dc_bind := unwrap_or (dc_bind c) (vars ''MARANODE_BIND''),
     dc_unix_socket := unwrap_or (dc_unix_socket c) (map_option nonempty (vars ''MARANODE_UNIX_SOCKET'')),
     dc_log_level := unwrap_or (dc_log_level c) (vars ''RUST_LOG''), dc_device := unwrap_or (dc_device c) (vars ''MARANODE_DEVICE''),
     dc_auth := (dc_auth c)\<lparr>au_admin_key := unwrap_or (au_admin_key (dc_auth c)) (map_option Some (vars ''MARANODE_ADMIN_KEY''))\<rparr>,
     dc_rag := (dc_rag c)\<lparr>ra_enabled := var_on vars ''MARANODE_RAG'' \<or> ra_enabled (dc_rag c),
       ra_embedding_model := unwrap_or (ra_embedding_model (dc_rag c)) (vars ''MARANODE_EMBEDDING_MODEL''),
       ra_default_collection := unwrap_or (ra_default_collection (dc_rag c)) (vars ''MARANODE_RAG_COLLECTION'')\<rparr>,
     dc_logging := (dc_logging c)\<lparr>lo_log_prompts := var_on vars ''MARANODE_LOG_PROMPTS'' \<or> lo_log_prompts (dc_logging c)\<rparr>,
     dc_tpm := (dc_tpm c)\<lparr>tp_enabled := var_on vars ''MARANODE_TPM'' \<or> tp_enabled (dc_tpm c),
        tp_software_passphrase := unwrap_or (tp_software_passphrase (dc_tpm c)) (map_option Some (vars ''MARANODE_TPM_PASSPHRASE''))\<rparr>\<rparr>"
  by (cases c) (simp add: apply_env_overrides_def given_fields if_fields)

lemma pins_fields:
  "pins_apply linux p c = c\<lparr>dc_data_dir := unwrap_or (dc_data_dir c) (pin_data_dir p), dc_models_dir := unwrap_or (dc_models_dir c) (pin_models_dir p),
     dc_bind := unwrap_or (dc_bind c) (pin_bind p), dc_unix_socket := unwrap_or (dc_unix_socket c) (pin_unix_socket p),
     dc_log_level := unwrap_or (dc_log_level c) (pin_log_level p), dc_device := unwrap_or (dc_device c) (pin_device p),
     dc_isolation := (dc_isolation c)\<lparr>isec_mode := if pin_no_isolation p \<or> \<not> linux then Disabled else isec_mode (dc_isolation c)\<rparr>,
     dc_auth := (dc_auth c)\<lparr>au_admin_key := unwrap_or (au_admin_key (dc_auth c)) (map_option Some (pin_admin_key p))\<rparr>,
     dc_rag := (dc_rag c)\<lparr>ra_enabled := unwrap_or (ra_enabled (dc_rag c)) (pin_rag_enabled p),
       ra_embedding_model := unwrap_or (ra_embedding_model (dc_rag c)) (pin_embedding_model p),
       ra_default_collection := unwrap_or (ra_default_collection (dc_rag c)) (pin_rag_collection p)\<rparr>\<rparr>"
  by (cases c) (simp add: pins_apply_def given_fields if_fields)

text \<open>What clap does with the variables it knows: an argument that has one is given whenever the variable is set.\<close>

definition clap_filled :: "(string \<Rightarrow> string option) \<Rightarrow> daemon_args \<Rightarrow> bool" where
  "clap_filled vars a \<longleftrightarrow>
     (vars ''MARANODE_DATA_DIR'' \<noteq> None \<longrightarrow> ar_data_dir a \<noteq> None) \<and> (vars ''MARANODE_MODELS_DIR'' \<noteq> None \<longrightarrow> ar_models_dir a \<noteq> None) \<and>
     (vars ''MARANODE_BIND'' \<noteq> None \<longrightarrow> ar_bind a \<noteq> None) \<and> (vars ''RUST_LOG'' \<noteq> None \<longrightarrow> ar_log_level a \<noteq> None) \<and>
     (vars ''MARANODE_DEVICE'' \<noteq> None \<longrightarrow> ar_device a \<noteq> None) \<and> (vars ''MARANODE_UNIX_SOCKET'' \<noteq> None \<longrightarrow> ar_unix_socket a \<noteq> None) \<and>
     (vars ''MARANODE_ADMIN_KEY'' \<noteq> None \<longrightarrow> ar_admin_key a \<noteq> None) \<and> (var_on vars ''MARANODE_RAG'' \<longrightarrow> ar_rag a) \<and>
     (vars ''MARANODE_EMBEDDING_MODEL'' \<noteq> None \<longrightarrow> ar_embedding_model a \<noteq> None) \<and>
     (vars ''MARANODE_RAG_COLLECTION'' \<noteq> None \<longrightarrow> ar_rag_collection a \<noteq> None)"

text \<open>The configuration that a reload sees against that of a start: the same but for the TLS files, which only a start takes from the
  command line, and for the three variables that only a reload reads.\<close>

definition reload_view :: "(string \<Rightarrow> string option) \<Rightarrow> ('dlp, 'cm) daemon_config \<Rightarrow> ('dlp, 'cm) daemon_config \<Rightarrow> ('dlp, 'cm) daemon_config" where
  "reload_view vars file c = c\<lparr>dc_tls_cert := dc_tls_cert file, dc_tls_key := dc_tls_key file,
     dc_logging := (dc_logging c)\<lparr>lo_log_prompts := var_on vars ''MARANODE_LOG_PROMPTS'' \<or> lo_log_prompts (dc_logging c)\<rparr>,
     dc_tpm := (dc_tpm c)\<lparr>tp_enabled := var_on vars ''MARANODE_TPM'' \<or> tp_enabled (dc_tpm c),
        tp_software_passphrase := unwrap_or (tp_software_passphrase (dc_tpm c)) (map_option Some (vars ''MARANODE_TPM_PASSPHRASE''))\<rparr>\<rparr>"

lemma unwrap_over: "(v \<noteq> None \<longrightarrow> w \<noteq> None) \<Longrightarrow> unwrap_or (unwrap_or x v) w = unwrap_or x w"
  by (cases v; cases w) auto

lemma unwrap_over_map: "v \<noteq> None \<longrightarrow> w \<noteq> None \<Longrightarrow> unwrap_or (unwrap_or x (map_option f v)) (map_option g w) = unwrap_or x (map_option g w)"
  by (cases v; cases w) auto

lemma reload_config_view:
  assumes "clap_filled vars a"
  shows "pins_apply linux (pins_of a) (apply_env_overrides vars file) = reload_view vars file (start_config linux a file)"
proof -
  note c = assms[unfolded clap_filled_def]
  have plain: "unwrap_or (unwrap_or x (vars ''MARANODE_DATA_DIR'')) (ar_data_dir a) = unwrap_or x (ar_data_dir a)"
    "unwrap_or (unwrap_or x (vars ''MARANODE_MODELS_DIR'')) (ar_models_dir a) = unwrap_or x (ar_models_dir a)"
    "unwrap_or (unwrap_or x (vars ''MARANODE_BIND'')) (ar_bind a) = unwrap_or x (ar_bind a)"
    "unwrap_or (unwrap_or x (vars ''RUST_LOG'')) (ar_log_level a) = unwrap_or x (ar_log_level a)"
    "unwrap_or (unwrap_or x (vars ''MARANODE_DEVICE'')) (ar_device a) = unwrap_or x (ar_device a)"
    "unwrap_or (unwrap_or x (vars ''MARANODE_EMBEDDING_MODEL'')) (ar_embedding_model a) = unwrap_or x (ar_embedding_model a)"
    "unwrap_or (unwrap_or x (vars ''MARANODE_RAG_COLLECTION'')) (ar_rag_collection a) = unwrap_or x (ar_rag_collection a)"
    for x by (rule unwrap_over; use c in blast)+
  have key: "unwrap_or (unwrap_or x (map_option Some (vars ''MARANODE_ADMIN_KEY''))) (map_option Some (ar_admin_key a)) =
      unwrap_or x (map_option Some (ar_admin_key a))" for x by (rule unwrap_over_map) (use c in blast)
  have sock: "unwrap_or (unwrap_or x (map_option nonempty (vars ''MARANODE_UNIX_SOCKET''))) (pin_unix_socket (pins_of a)) =
      (if ar_no_unix_socket a then None else unwrap_or x (map_option nonempty (ar_unix_socket a)))" for x
  proof -
    have "vars ''MARANODE_UNIX_SOCKET'' \<noteq> None \<longrightarrow> ar_unix_socket a \<noteq> None" using c by blast
    then show ?thesis by (simp add: pins_of_def unwrap_over_map)
  qed
  have rag: "unwrap_or (var_on vars ''MARANODE_RAG'' \<or> b) (pin_rag_enabled (pins_of a)) = (ar_rag a \<or> b)" for b
    using c by (auto simp: pins_of_def)
  have pins: "pin_data_dir (pins_of a) = ar_data_dir a" "pin_models_dir (pins_of a) = ar_models_dir a" "pin_bind (pins_of a) = ar_bind a"
    "pin_log_level (pins_of a) = ar_log_level a" "pin_device (pins_of a) = ar_device a" "pin_no_isolation (pins_of a) = ar_no_isolation a"
    "pin_embedding_model (pins_of a) = ar_embedding_model a" "pin_rag_collection (pins_of a) = ar_rag_collection a"
    "pin_admin_key (pins_of a) = ar_admin_key a" by (simp_all add: pins_of_def)
  show ?thesis
    unfolding pins_fields env_overrides_fields start_config_fields reload_view_def
    by (cases "file") (simp add: plain key sock rag pins)
qed

subsection \<open>A reload against a start\<close>

text \<open>What happens to a daemon between its start and a reload: other reloads, whatever the files are then, and ticks of the probe.\<close>

inductive daemon_step :: "('dlp, 'cm) daemon_env \<Rightarrow> reload_services \<Rightarrow> daemon_state \<Rightarrow> daemon_state \<Rightarrow> bool" for env0 svc where
  step_reload: "daemon_step env0 svc st (snd (reload (env0\<lparr>de_exists := ex, de_read := rd, de_filter_reload := fr, de_audit_ok := au\<rparr>) svc st))"
| step_probe: "daemon_step env0 svc st (probe_tick connects h st)"

definition started_with :: "startup_snapshot \<Rightarrow> daemon_state \<Rightarrow> bool" where
  "started_with sn st \<longleftrightarrow> iq_max_parallel (ds_queue st) = max (sn_max_parallel sn) 1 \<and>
     (case ds_rag st of None \<Rightarrow> \<not> sn_rag_enabled sn
      | Some r \<Rightarrow> sn_rag_enabled sn \<and> rg_enabled r \<and> rg_embedding_model r = sn_embedding_model sn)"

lemma start_cases:
  assumes "start_daemon env v c fw = (Inr s, fw')"
  obtains prompt where "resolved_system_prompt (de_read env) (dc_assistant c) = Inr prompt"
    "ds_runtime s = runtime_from_config c (air_gapped c) prompt" "ds_isolator s = \<lparr>isor_config = isolation_from_config c\<rparr>"
    "ds_rag s = (if ra_enabled (dc_rag c) then Some (rag_from_config c) else None)"
    "ds_queue s = queue_new (inf_max_queue_depth (dc_inference c)) (inf_max_parallel (dc_inference c))"
    "ds_log_level s = (if de_filter env (dc_log_level c) then dc_log_level c else ''info'')"
proof (cases "resolved_system_prompt (de_read env) (dc_assistant c)")
  case (Inl e)
  then show thesis using assms by (auto simp: start_daemon_def split: prod.splits sum.splits if_splits)
next
  case (Inr prompt)
  with assms show thesis by (intro that[OF Inr]) (auto simp: start_daemon_def split: prod.splits sum.splits if_splits)
qed

lemma reload_rules_eq:
  "\<exists>ok fw. reload_rules env pins c st = (map_sum IsolationFailed id ok,
     st\<lparr>ds_log_level := (if pin_log_level pins = None then dc_log_level c else ds_log_level st),
        ds_queue := set_max_waiting (inf_max_queue_depth (dc_inference c)) (ds_queue st),
        ds_isolator := \<lparr>isor_config = isolation_from_config c\<rparr>, ds_firewall := fw\<rparr>)"
proof -
  have "\<exists>ok fw. reconfigure (de_iptables env) (isolation_from_config c) (ds_isolator st, ds_firewall st) =
      (ok, \<lparr>isor_config = isolation_from_config c\<rparr>, fw)"
    by (cases "ds_isolator st") (auto simp: reconfigure_def Let_def split: prod.splits)
  then show ?thesis by (auto simp: reload_rules_def Let_def)
qed

lemma reload_cases:
  assumes "reload env svc st = (r, st')"
  obtains (early) e where "r = Inl e" "st' = st" "e \<in> {NoConfigFile, ConfigUnreadable, ConfigInvalid, BadLogLevel, LogReload}"
  | (rules) path c e fw where "rv_config_path svc = Some path" "reload_config env (rv_pins svc) path = Inr c" "r = Inl e" "e = PromptUnreadable \<or> (\<exists>x. e = IsolationFailed x)"
      "st' = st\<lparr>ds_log_level := (if pin_log_level (rv_pins svc) = None then dc_log_level c else ds_log_level st),
                ds_queue := set_max_waiting (inf_max_queue_depth (dc_inference c)) (ds_queue st),
                ds_isolator := \<lparr>isor_config = isolation_from_config c\<rparr>, ds_firewall := fw\<rparr>"
  | (full) path c fw prompt evs where "rv_config_path svc = Some path" "reload_config env (rv_pins svc) path = Inr c"
      "resolved_system_prompt (de_read env) (dc_assistant c) = Inr prompt"
      "pin_log_level (rv_pins svc) = None \<longrightarrow> de_filter env (dc_log_level c)"
      "st' = st\<lparr>ds_log_level := (if pin_log_level (rv_pins svc) = None then dc_log_level c else ds_log_level st),
                ds_queue := set_max_waiting (inf_max_queue_depth (dc_inference c)) (ds_queue st),
                ds_isolator := \<lparr>isor_config = isolation_from_config c\<rparr>, ds_firewall := fw,
                ds_rag := map_option (apply_runtime_config (rag_from_config c)) (ds_rag st),
                ds_runtime := runtime_from_config c (air_gapped c) prompt, ds_audit := ds_audit st @ evs\<rparr>"
      "(r = Inl AuditFailed \<and> evs = []) \<or> (evs = [(''daemon'', ConfigReloaded path)] \<and> (\<exists>resp. r = Inr resp \<and> rr_requires_restart resp =
         restart_needed (rv_pins svc) (rv_snapshot svc) c @ noted (ds_rag st = None \<and> ra_enabled (dc_rag c)) ''rag.enabled''))"
proof -
  have load: "e \<in> {ConfigUnreadable, ConfigInvalid}" if "reload_config env p path = Inl e" for p path e
    using that by (auto simp: reload_config_def config_load_def rbind_def ok_or_def split: if_splits option.splits sum.splits)
  show thesis
  proof (cases "rv_config_path svc")
    case None
    then show thesis using assms early[of NoConfigFile] by (simp add: reload_def)
  next
    case (Some path)
    show thesis
    proof (cases "reload_config env (rv_pins svc) path")
      case (Inl e)
      then show thesis using assms Some load[OF Inl] early[of e] by (auto simp: reload_def)
    next
      case (Inr c)
      define st1 where "st1 fw = st\<lparr>ds_log_level := (if pin_log_level (rv_pins svc) = None then dc_log_level c else ds_log_level st),
                ds_queue := set_max_waiting (inf_max_queue_depth (dc_inference c)) (ds_queue st),
                ds_isolator := \<lparr>isor_config = isolation_from_config c\<rparr>, ds_firewall := fw\<rparr>" for fw
      obtain ok fw where rec: "reload_rules env (rv_pins svc) c st = (map_sum IsolationFailed id ok, st1 fw)"
        using reload_rules_eq unfolding st1_def by metis
      show thesis
      proof (cases "pin_log_level (rv_pins svc) = None \<and> (\<not> de_filter env (dc_log_level c) \<or> \<not> de_filter_reload env)")
        case True
        then show thesis using assms early[of BadLogLevel] early[of LogReload]
          by (cases "de_filter env (dc_log_level c)") (simp_all add: reload_def Some Inr)
      next
        case False
        then have run: "(r, st') = (case (map_sum IsolationFailed id ok, st1 fw) of (Inl e, st1) \<Rightarrow> (Inl e, st1)
               | (Inr _, st1) \<Rightarrow> reload_settings env svc path c st1)"
          using assms by (auto simp: reload_def Some Inr rec)
        show thesis
        proof (cases ok)
          case ok: (Inl e)
          with run show thesis using rules[OF Some Inr, of "IsolationFailed e" fw] by (simp add: st1_def)
        next
          case ok: (Inr u)
          show thesis
          proof (cases "resolved_system_prompt (de_read env) (dc_assistant c)")
            case pr: (Inl e)
            with run ok show thesis using rules[OF Some Inr, of PromptUnreadable fw] by (simp add: st1_def reload_settings_def)
          next
            case pr: (Inr prompt)
            show thesis
              by (rule full[OF Some Inr pr, of "if de_audit_ok env then [(''daemon'', ConfigReloaded path)] else []" fw])
                (use run ok pr False in \<open>auto simp: st1_def reload_settings_def Let_def split: if_splits\<close>)
          qed
        qed
      qed
    qed
  qed
qed

lemma started_start: "start_daemon env v c fw = (Inr s, fw') \<Longrightarrow> started_with (snapshot_of c) s"
  by (erule start_cases) (simp add: started_with_def snapshot_of_def queue_new_def rag_from_config_def Let_def)

lemma step_started: "daemon_step env0 svc st st' \<Longrightarrow> started_with sn st \<Longrightarrow> started_with sn st'"
proof (induction rule: daemon_step.induct)
  case (step_reload st au fr rd ex)
  obtain r st' where run: "reload (env0\<lparr>de_exists := ex, de_read := rd, de_filter_reload := fr, de_audit_ok := au\<rparr>) svc st = (r, st')" by force
  then have "started_with sn st'" using step_reload
    by (cases rule: reload_cases) (auto simp: started_with_def set_max_waiting_def apply_runtime_config_def split: option.splits)
  then show ?case by (simp add: run)
qed (auto simp: probe_tick_def run_probe_def started_with_def Let_def split: option.splits)

interpretation daemon: inv_system "\<lambda>st. \<exists>env v c fw fw'. start_daemon env v c fw = (Inr st, fw') \<and> sn = snapshot_of c"
    "daemon_step env0 svc" "started_with sn" for env0 svc sn
  by unfold_locales (auto intro: started_start step_started)

lemma noted_Nil [simp]: "noted b s = [] \<longleftrightarrow> \<not> b"
  by (simp add: noted_def)

lemma reload_view_fields [simp]:
  "dc_bind (reload_view vars f c) = dc_bind c" "dc_rag (reload_view vars f c) = dc_rag c" "dc_inference (reload_view vars f c) = dc_inference c"
  "dc_assistant (reload_view vars f c) = dc_assistant c" "dc_log_level (reload_view vars f c) = dc_log_level c"
  "isolation_from_config (reload_view vars f c) = isolation_from_config c" "rag_from_config (reload_view vars f c) = rag_from_config c"
  "air_gapped (reload_view vars f c) = air_gapped c"
  "runtime_from_config (reload_view vars f c) g p = (runtime_from_config c g p)
     \<lparr>rt_log_prompts := var_on vars ''MARANODE_LOG_PROMPTS'' \<or> lo_log_prompts (dc_logging c)\<rparr>"
  by (simp_all add: reload_view_def isolation_from_config_def rag_from_config_def air_gapped_def runtime_from_config_def identity_from_config_def)



definition demo_denv :: "(unit, unit) daemon_env" where
  "demo_denv = \<lparr>de_linux = True, de_vars = Map.empty, de_exists = (\<lambda>p. p = ''c''), de_read = (\<lambda>_. Some []), de_no_dlp = (),
     de_no_change_mgmt = (), de_toml = (\<lambda>c _. Some (c\<lparr>dc_logging := (dc_logging c)\<lparr>lo_audit_max_mb := 9\<rparr>\<rparr>)), de_filter = (\<lambda>_. True),
     de_filter_reload = True, de_lowercase = (\<lambda>s. s), de_iptables = (\<lambda>_ fw. Some (True, fw)), de_audit_ok = True\<rparr>"

definition demo_args :: daemon_args where
  "demo_args = \<lparr>ar_config = Some ''c'', ar_no_isolation = True, ar_data_dir = None, ar_bind = None, ar_log_level = None, ar_device = None,
     ar_rag = True, ar_embedding_model = None, ar_rag_collection = None, ar_admin_key = Some ''root'', ar_models_dir = None,
     ar_unix_socket = None, ar_no_unix_socket = True, ar_tls_cert = None, ar_tls_key = None\<rparr>"

definition demo_fw :: firewall where
  "demo_fw = \<lparr>fw_policy = (\<lambda>_. ''ACCEPT''), fw_rules = (\<lambda>_. [])\<rparr>"

definition demo_file :: "(unit, unit) daemon_config" where
  "demo_file = (default_config demo_denv)\<lparr>dc_logging := default_logging\<lparr>lo_audit_max_mb := 9\<rparr>\<rparr>"

abbreviation demo_started_cfg :: "(unit, unit) daemon_config" where
  "demo_started_cfg \<equiv> start_config (de_linux demo_denv) demo_args (default_config demo_denv)"

definition demo_services :: reload_services where
  "demo_services = \<lparr>rv_config_path = Some ''c'', rv_pins = pins_of demo_args, rv_snapshot = snapshot_of demo_started_cfg\<rparr>"

lemma demo_embedding: "model_id_parse ''bge-m3:latest'' \<noteq> None"
  by code_simp

lemma demo_start:
  assumes "cfg \<in> {default_config demo_denv, demo_file}"
  obtains s where "start_daemon demo_denv ''v'' (start_config (de_linux demo_denv) demo_args cfg) demo_fw = (Inr s, demo_fw)"
    "ds_isolator s = \<lparr>isor_config = default_isolation\<lparr>iso_mode := Disabled\<rparr>\<rparr>"
proof -
  have prompt: "resolved_system_prompt r default_assistant = Inr None" for r
    by (simp add: resolved_system_prompt_def default_assistant_def)
  let ?c = "start_config (de_linux demo_denv) demo_args cfg"
  have c: "isolation_from_config ?c = default_isolation\<lparr>iso_mode := Disabled\<rparr>" "dc_assistant ?c = default_assistant"
    "dc_device ?c = ''auto''" "ra_embedding_model (dc_rag ?c) = ''bge-m3:latest''"
    using assms by (auto simp: start_config_fields demo_args_def demo_file_def default_config_def isolation_from_config_def default_isolation_def
        default_isolation_section_def default_rag_section_def)
  obtain emb where emb: "model_id_parse ''bge-m3:latest'' = Some emb" using demo_embedding by blast
  have sel: "de_audit_ok demo_denv" "de_lowercase demo_denv x = x" for x by (simp_all add: demo_denv_def)
  have "start_daemon demo_denv ''v'' ?c demo_fw = (Inr (projr (fst (start_daemon demo_denv ''v'' ?c demo_fw))), demo_fw)"
    "ds_isolator (projr (fst (start_daemon demo_denv ''v'' ?c demo_fw))) = \<lparr>isor_config = isolation_from_config ?c\<rparr>"
    by (simp_all add: start_daemon_def c isolator_apply_def prompt sel device_ok_def emb)
  with that c(1) show thesis by metis
qed



subsection \<open>Keys at a start\<close>

lemma map_sum_id_Inr: "map_sum f id x = Inr y \<longleftrightarrow> x = Inr y"
  by (cases x) auto

lemma seal_fails_meta: "seal env r data p pcrs pass fs = (Inl e, fs') \<Longrightarrow> bd_meta (fs' p) = bd_meta (fs p)"
  by (auto simp: seal_def seal_with_tpm_def tpm2_seal_def software_seal_def save_meta_def Let_def
      split: if_splits option.splits prod.splits sum.splits)

lemma kek_reread:
  assumes "kek_load_or_create cr random file = (Inr key, file')" "crypto_ok cr" "length random = 32"
    and "str_trim (hex_encode cr random) = hex_encode cr random"
  shows "kek_load_or_create cr random' file' = (Inr key, file')" "length key = 32"
  using assms by (auto simp: kek_load_or_create_def crypto_ok_def rbind_Inr_iff split: option.splits if_splits)


definition demo_tpm_cfg :: "(unit, unit) daemon_config" where
  "demo_tpm_cfg = (default_config demo_denv)\<lparr>dc_tpm := default_tpm\<lparr>tp_enabled := True, tp_software_passphrase := Some ''pw''\<rparr>\<rparr>"

definition demo_key_draw :: key_draw where
  "demo_key_draw = \<lparr>kd_seal = demo_rnd, kd_now = 0, kd_later = 0\<rparr>"

definition demo_kek :: bytes where
  "demo_kek = replicate 32 (CHR ''k'')"

definition demo_first_start :: "(key_start_error, bytes) result \<times> string option \<times> seal_dir" where
  "demo_first_start = load_master_kek (demo_seal_env True) demo_tpm_cfg demo_key_draw demo_kek (None, \<lambda>_. empty_dir)"


text \<open>The first account has the administrator's key for its password; once there is an account, a new key changes nothing, so
  that the old one still opens it.\<close>

lemma first_admin_password:
  assumes "pw_ok env" "db_users db = []" "first_admin env now uuid salt (Some key) db = Inr db'"
  shows "(\<exists>u. may_login env ''admin'' pw db' u) \<longleftrightarrow> pw = key" "first_admin env now' uuid' salt' (Some key') db' = Inr db'"
proof -
  obtain h where h: "pw_hash env salt key = Some h" "db_users db' = [user_to_row \<lparr>u_id = uuid, u_username = ''admin'', u_email = None,
      u_password_hash = Some h, u_role = Admin, u_provider = LocalLogin, u_provider_sub = None, u_active = True, u_created_at = now, u_last_login = None\<rparr>]"
    using assms(2,3) by (auto simp: first_admin_def user_count_def create_user_def Let_def split: option.splits if_splits)
  have "pw_verify env pw h = Some (pw = key)" using assms(1) h(1) by (auto simp: pw_ok_def)
  then show "(\<exists>u. may_login env ''admin'' pw db' u) \<longleftrightarrow> pw = key"
    using h(2) by (auto simp: may_login_def get_by_username_def find_user_def row_to_user_def user_to_row_def provider_from_str_def)
  show "first_admin env now' uuid' salt' (Some key') db' = Inr db'" using h(2) by (simp add: first_admin_def user_count_def)
qed

text \<open>With the air gap off the probe does nothing: the flag of the last probe stays.\<close>

lemma probe_tick_flag:
  "ds_isolation_ok (probe_tick connects h st) =
     (if rt_air_gap (ds_runtime st) then \<forall>t \<in> set PROBE_TARGETS_daemon. \<not> connects (fst t) (snd t) else ds_isolation_ok st)"
  by (auto simp: probe_tick_def run_probe_def PROBE_TARGETS_def)

end
