(* ===== verification/Legal_Hold.thy ===== *)
theory Legal_Hold
  imports Access Signature "HOL-Library.Countable"
begin

section \<open>Legal holds\<close>

text \<open>
  \<open>hold.rs\<close> of \<open>maranode-common\<close>, \<open>legal_hold.rs\<close>, \<open>hold_recovery.rs\<close> and \<open>routes/hold.rs\<close> of
  \<open>maranode-api\<close>: placing a hold on a range of audit entries, releasing it with a signature of the
  hold key, and the checks that a deletion should make. The data directory is the record \<open>hold_dir\<close>:
  the two key files and the directory \<open>legal-holds\<close> as an association list from file names to
  contents, in the order in which it is read. Writing a file is taken to succeed. Ed25519, base64,
  hex, serde and the TPM are the record \<open>hold_env\<close>; random bytes are an argument, and so is the
  clock, one reading of which stands for those of a request.
\<close>

record hold_record =
  hr_id :: string
  hr_placed_at :: timestamp
  hr_placed_by :: string
  hr_reason :: string
  hr_seq_from :: nat
  hr_seq_to :: nat
  hr_expires_at :: "timestamp option"
  hr_hold_key_pubkey :: string
  hr_placement_sig :: string
  hr_released_at :: "timestamp option"
  hr_released_by :: "string option"
  hr_release_sig :: "string option"
  hr_tpm_sealed :: bool

definition hold_is_active :: "timestamp \<Rightarrow> hold_record \<Rightarrow> bool" where
  "hold_is_active now h =
     (if hr_released_at h \<noteq> None then False
      else case hr_expires_at h of Some e \<Rightarrow> now < e | None \<Rightarrow> True)"

definition covers_seq :: "timestamp \<Rightarrow> hold_record \<Rightarrow> nat \<Rightarrow> bool" where
  "covers_seq now h seq \<longleftrightarrow> hold_is_active now h \<and> seq \<ge> hr_seq_from h \<and> seq \<le> hr_seq_to h"

text \<open>The payloads that are signed; a derived \<open>Serialize\<close> keeps the order of the fields.\<close>

definition placement_payload ::
  "string \<Rightarrow> string \<Rightarrow> string \<Rightarrow> nat \<Rightarrow> nat \<Rightarrow> timestamp \<Rightarrow> string \<Rightarrow> json" where
  "placement_payload hold_id placed_by reason seq_from seq_to placed_at pubkey = JObj
     [(''hold_id'', JStr hold_id), (''placed_by'', JStr placed_by), (''reason'', JStr reason),
      (''seq_from'', jnat seq_from), (''seq_to'', jnat seq_to), (''placed_at'', JTime placed_at),
      (''hold_key_pubkey'', JStr pubkey)]"

definition release_payload :: "string \<Rightarrow> string \<Rightarrow> timestamp \<Rightarrow> json" where
  "release_payload hold_id released_by released_at = JObj
     [(''hold_id'', JStr hold_id), (''released_by'', JStr released_by), (''released_at'', JTime released_at)]"

subsection \<open>legal\_hold.rs\<close>

record hold_env = sig_env +
  hold_text :: "hold_record \<Rightarrow> bytes"
  hold_parse :: "bytes \<Rightarrow> hold_record option"
  card_time :: "timestamp \<Rightarrow> string"
  tpm_seal :: "bytes \<Rightarrow> string \<Rightarrow> bool"
  tpm_unseal :: "string \<Rightarrow> bytes option"

record hold_dir =
  hd_pub :: "string option"
  hd_key :: "string option"
  hd_files :: "(string \<times> bytes) list"

datatype hold_error =
    NoPublicKey | BadPublicKey | NoPrivateKey | BadPrivateKey | HoldNotFound | BadHoldRecord
  | HoldNotActive | BadSignature | SignatureRefused | HeldRange string nat nat string | TpmFailed
  | BadRange

definition generate_hold_key :: "hold_env \<Rightarrow> bytes \<Rightarrow> hold_dir \<Rightarrow> (string \<times> string) \<times> hold_dir" where
  "generate_hold_key env seed d =
     (let pubkey_b64 = b64_encode env (ed_public env seed);
          privkey_hex = hexenc env seed
      in ((privkey_hex, pubkey_b64), d\<lparr>hd_pub := Some pubkey_b64, hd_key := Some privkey_hex\<rparr>))"

definition load_hold_pubkey :: "hold_env \<Rightarrow> hold_dir \<Rightarrow> (hold_error, bytes) result" where
  "load_hold_pubkey env d =
     rbind (ok_or NoPublicKey (hd_pub d)) (\<lambda>b64.
     rbind (ok_or BadPublicKey (b64_decode env (str_trim b64))) (\<lambda>b.
       if length b \<noteq> 32 then Inl BadPublicKey
       else if \<not> ed_point env b then Inl BadPublicKey else Inr b))"

definition resolve_signing_key :: "hold_env \<Rightarrow> hold_dir \<Rightarrow> string option \<Rightarrow> (hold_error, bytes) result" where
  "resolve_signing_key env d hex_override =
     rbind (case hex_override of Some h \<Rightarrow> Inr h | None \<Rightarrow> ok_or NoPrivateKey (hd_key d)) (\<lambda>hex.
     rbind (ok_or BadPrivateKey (hexdec env (str_trim hex))) (\<lambda>b.
       if length b \<noteq> 32 then Inl BadPrivateKey else Inr b))"

definition hold_file :: "string \<Rightarrow> string" where
  "hold_file hold_id = hold_id @ ''.json''"

definition save_hold :: "hold_env \<Rightarrow> hold_record \<Rightarrow> hold_dir \<Rightarrow> hold_dir" where
  "save_hold env h d = d\<lparr>hd_files := put_key (hold_file (hr_id h)) (hold_text env h) (hd_files d)\<rparr>"

definition load_hold :: "hold_env \<Rightarrow> hold_dir \<Rightarrow> string \<Rightarrow> (hold_error, hold_record) result" where
  "load_hold env d hold_id =
     rbind (ok_or HoldNotFound (map_of (hd_files d) (hold_file hold_id))) (\<lambda>b. ok_or BadHoldRecord (hold_parse env b))"

text \<open>\<open>Path::extension\<close> is \<open>json\<close>: the name ends in it and has something before the dot.\<close>

definition json_extension :: "string \<Rightarrow> bool" where
  "json_extension name \<longleftrightarrow> suffix ''.json'' name \<and> name \<noteq> ''.json''"

definition list_holds :: "hold_env \<Rightarrow> hold_dir \<Rightarrow> hold_record list" where
  "list_holds env d = sort_key hr_placed_at
     (List.map_filter (\<lambda>(name, b). if json_extension name then hold_parse env b else None) (hd_files d))"

definition is_seq_held :: "hold_env \<Rightarrow> timestamp \<Rightarrow> hold_dir \<Rightarrow> nat \<Rightarrow> bool" where
  "is_seq_held env now d seq \<longleftrightarrow> (\<exists>h \<in> set (list_holds env d). covers_seq now h seq)"

fun guard_holds :: "timestamp \<Rightarrow> nat \<Rightarrow> nat \<Rightarrow> hold_record list \<Rightarrow> (hold_error, unit) result" where
  "guard_holds now seq_from seq_to [] = Inr ()"
| "guard_holds now seq_from seq_to (h # hs) =
     (if \<not> hold_is_active now h then guard_holds now seq_from seq_to hs
      else if seq_from \<le> hr_seq_to h \<and> seq_to \<ge> hr_seq_from h
        then Inl (HeldRange (hr_id h) (hr_seq_from h) (hr_seq_to h) (hr_reason h))
        else guard_holds now seq_from seq_to hs)"

definition guard_retention_delete ::
  "hold_env \<Rightarrow> timestamp \<Rightarrow> hold_dir \<Rightarrow> nat \<Rightarrow> nat \<Rightarrow> (hold_error, unit) result" where
  "guard_retention_delete env now d seq_from seq_to = guard_holds now seq_from seq_to (list_holds env d)"

definition place_hold ::
  "hold_env \<Rightarrow> timestamp \<Rightarrow> string \<Rightarrow> string \<Rightarrow> string \<Rightarrow> nat \<Rightarrow> nat \<Rightarrow> timestamp option \<Rightarrow> string option \<Rightarrow>
     bool \<Rightarrow> hold_dir \<Rightarrow> (hold_error, hold_record) result \<times> hold_dir" where
  "place_hold env now hold_id placed_by reason seq_from seq_to expires_at signing_key_hex tpm_sealed d =
     (case load_hold_pubkey env d of
        Inl e \<Rightarrow> (Inl e, d)
      | Inr pubkey \<Rightarrow>
          (let pubkey_b64 = b64_encode env pubkey;
               payload = placement_payload hold_id placed_by reason seq_from seq_to now pubkey_b64
           in case resolve_signing_key env d signing_key_hex of
                Inl e \<Rightarrow> (Inl e, d)
              | Inr sk \<Rightarrow>
                  (let h = \<lparr>hr_id = hold_id, hr_placed_at = now, hr_placed_by = placed_by, hr_reason = reason,
                            hr_seq_from = seq_from, hr_seq_to = seq_to, hr_expires_at = expires_at,
                            hr_hold_key_pubkey = pubkey_b64,
                            hr_placement_sig = b64_encode env (ed_sign env sk (json_vec env payload)),
                            hr_released_at = None, hr_released_by = None, hr_release_sig = None,
                            hr_tpm_sealed = tpm_sealed\<rparr>
                   in (Inr h, save_hold env h d))))"

definition release_hold ::
  "hold_env \<Rightarrow> timestamp \<Rightarrow> string \<Rightarrow> string \<Rightarrow> string \<Rightarrow> hold_dir \<Rightarrow> (hold_error, hold_record) result \<times> hold_dir" where
  "release_hold env now hold_id released_by release_sig_b64 d =
     (case load_hold env d hold_id of
        Inl e \<Rightarrow> (Inl e, d)
      | Inr h \<Rightarrow>
          if \<not> hold_is_active now h then (Inl HoldNotActive, d)
          else (case load_hold_pubkey env d of
            Inl e \<Rightarrow> (Inl e, d)
          | Inr pubkey \<Rightarrow>
              (let payload = release_payload hold_id released_by now
               in case b64_decode env release_sig_b64 of
                    None \<Rightarrow> (Inl BadSignature, d)
                  | Some sig \<Rightarrow>
                      if length sig \<noteq> 64 then (Inl BadSignature, d)
                      else if \<not> ed_verify env pubkey (json_vec env payload) sig then (Inl SignatureRefused, d)
                      else (let h1 = h\<lparr>hr_released_at := Some now, hr_released_by := Some released_by,
                                       hr_release_sig := Some release_sig_b64\<rparr>
                            in (Inr h1, save_hold env h1 d)))))"

definition sign_release_payload ::
  "hold_env \<Rightarrow> string \<Rightarrow> string \<Rightarrow> timestamp \<Rightarrow> string \<Rightarrow> (hold_error, string) result" where
  "sign_release_payload env hold_id released_by released_at privkey_hex =
     rbind (ok_or BadPrivateKey (hexdec env (str_trim privkey_hex))) (\<lambda>b.
       if length b \<noteq> 32 then Inl BadPrivateKey
       else Inr (b64_encode env (ed_sign env b (json_vec env (release_payload hold_id released_by released_at)))))"

subsection \<open>hold\_recovery.rs\<close>

text \<open>The card is UTF-8 text, an em dash is three bytes.\<close>

definition em_dash :: bytes where
  "em_dash = [CHR 0xE2, CHR 0x80, CHR 0x94]"

definition generate_recovery_card :: "hold_env \<Rightarrow> timestamp \<Rightarrow> string \<Rightarrow> string \<Rightarrow> string \<Rightarrow> bytes" where
  "generate_recovery_card env now hold_key_hex pubkey_b64 org_name = concat (map (\<lambda>l. l @ [CHR 0x0A])
     [''=============================================================='',
      ''   MARANODE LEGAL HOLD KEY '' @ em_dash @ '' RECOVERY CARD'',
      ''=============================================================='',
      ''Organization: '' @ org_name,
      ''Generated:    '' @ card_time env now,
      [],
      ''IMPORTANT: Store this document securely. This key allows'',
      ''releasing legal holds on audit data. Treat like a physical'',
      ''key to a safe deposit box.'',
      [],
      ''PUBLIC KEY (server-side, for verification only):'',
      pubkey_b64,
      [],
      ''PRIVATE KEY (keep offline '' @ em_dash @ '' never share with IT):'',
      hold_key_hex,
      [],
      ''HOW TO RELEASE A HOLD:'',
      ''1. Contact your Maranode administrator for the hold ID and'',
      ''   release payload details.'',
      ''2. Use: maranode hold sign-release --hold-id <ID> '' @ [CHR 0x5C],
      ''       --released-by <your-name> --key-hex <PRIVATE KEY ABOVE>'',
      ''3. Give the resulting signature to the administrator who'',
      ''   will complete the release via the API.'',
      [],
      ''The administrator CANNOT release a hold without this key.'',
      ''IT access alone is not sufficient.'',
      ''==============================================================''])"

definition export_hold_backup :: "hold_env \<Rightarrow> timestamp \<Rightarrow> string \<Rightarrow> string \<Rightarrow> hold_dir \<Rightarrow> hold_dir" where
  "export_hold_backup env now hold_key_hex pubkey_b64 d =
     d\<lparr>hd_files := put_key ''HOLD-KEY-RECOVERY.txt''
         (generate_recovery_card env now hold_key_hex pubkey_b64 ''your organization'') (hd_files d)\<rparr>"

subsection \<open>routes/hold.rs\<close>

text \<open>A handler gives its answer, the new directory and the events that it hands to the audit log,
  whose result it ignores. No handler here asks for a permission: the extractor \<open>UserCtx\<close> lets every
  active user in, and \<open>sign_release\<close> and \<open>list\<close> do not even have it.\<close>

definition hex_digit :: "nat \<Rightarrow> char" where
  "hex_digit d = (if d < 10 then char_of (48 + d) else char_of (87 + d))"

fun show_hex :: "nat \<Rightarrow> string" where
  "show_hex n = (if n < 16 then [hex_digit n] else show_hex (n div 16) @ [hex_digit (n mod 16)])"

declare show_hex.simps [simp del]

text \<open>A \<open>timestamp\<close> counts nanoseconds; the id has the seconds since the epoch.\<close>

definition new_hold_id :: "timestamp \<Rightarrow> string" where
  "new_hold_id now = ''HOLD-'' @ show_hex (nat (now div 1000000000))"

definition route_generate_key ::
  "hold_env \<Rightarrow> timestamp \<Rightarrow> bytes \<Rightarrow> user \<Rightarrow> bool \<Rightarrow> string option \<Rightarrow> hold_dir \<Rightarrow>
     (hold_error, string \<times> string \<times> bool) result \<times> hold_dir \<times> audit_event list" where
  "route_generate_key env now seed user seal pass d =
     (let ((privkey_hex, pubkey_b64), d1) = generate_hold_key env seed d
      in if seal \<and> \<not> (case hexdec env privkey_hex of None \<Rightarrow> False
                       | Some key_bytes \<Rightarrow> tpm_seal env key_bytes (unwrap_or '''' pass))
         then (Inl TpmFailed, d1, [])
         else (Inr (pubkey_b64, privkey_hex, seal), export_hold_backup env now privkey_hex pubkey_b64 d1,
               [LegalHoldKeyGenerated (hexenc env (unwrap_or [] (b64_decode env pubkey_b64))) (u_username user) seal]))"

record place_request =
  pr_reason :: string
  pr_seq_from :: nat
  pr_seq_to :: nat
  pr_expires_at :: "timestamp option"
  pr_key_hex :: "string option"
  pr_tpm_seal :: bool
  pr_tpm_passphrase :: "string option"

definition route_place ::
  "hold_env \<Rightarrow> timestamp \<Rightarrow> user \<Rightarrow> place_request \<Rightarrow> hold_dir \<Rightarrow>
     (hold_error, hold_record) result \<times> hold_dir \<times> audit_event list" where
  "route_place env now user req d =
     (if pr_seq_to req < pr_seq_from req then (Inl BadRange, d, [])
      else case (if pr_tpm_seal req \<and> pr_key_hex req = None
                 then (case tpm_unseal env (unwrap_or '''' (pr_tpm_passphrase req)) of
                         None \<Rightarrow> Inl TpmFailed | Some b \<Rightarrow> Inr (Some (hexenc env b)))
                 else Inr (pr_key_hex req)) of
             Inl e \<Rightarrow> (Inl e, d, [])
           | Inr key_hex \<Rightarrow>
               (case place_hold env now (new_hold_id now) (u_username user) (pr_reason req)
                       (pr_seq_from req) (pr_seq_to req) (pr_expires_at req) key_hex (pr_tpm_seal req) d of
                  (Inl e, d1) \<Rightarrow> (Inl e, d1, [])
                | (Inr h, d1) \<Rightarrow>
                    (Inr h, d1, [LegalHoldPlaced (hr_id h) (u_username user) (hr_seq_from h) (hr_seq_to h)
                                   (hr_reason h) (hr_tpm_sealed h)])))"

definition route_release ::
  "hold_env \<Rightarrow> timestamp \<Rightarrow> user \<Rightarrow> string \<Rightarrow> string \<Rightarrow> hold_dir \<Rightarrow>
     (hold_error, hold_record) result \<times> hold_dir \<times> audit_event list" where
  "route_release env now user hold_id release_sig_b64 d =
     (case release_hold env now hold_id (u_username user) release_sig_b64 d of
        (Inl e, d1) \<Rightarrow> (Inl e, d1, [])
      | (Inr h, d1) \<Rightarrow> (Inr h, d1, [LegalHoldReleased (hr_id h) (u_username user)]))"

definition route_sign_release ::
  "hold_env \<Rightarrow> timestamp \<Rightarrow> string \<Rightarrow> string \<Rightarrow> timestamp option \<Rightarrow> string \<Rightarrow> (hold_error, timestamp \<times> string) result" where
  "route_sign_release env now hold_id released_by released_at privkey_hex =
     (let at = unwrap_or now released_at
      in rbind (sign_release_payload env hold_id released_by at privkey_hex) (\<lambda>sig. Inr (at, sig)))"

definition route_list :: "hold_env \<Rightarrow> timestamp \<Rightarrow> hold_dir \<Rightarrow> nat \<times> nat \<times> hold_record list" where
  "route_list env now d =
     (let holds = list_holds env d
      in (length holds, length (filter (hold_is_active now) holds), holds))"

subsection \<open>What a hold protects\<close>

text \<open>What the code relies on: serde reads a record back, decoding undoes encoding, encoded text is
  printable ASCII, and Ed25519 accepts its own signatures.\<close>

definition graphic :: "string \<Rightarrow> bool" where
  "graphic s \<longleftrightarrow> (\<forall>c \<in> set s. 33 \<le> (of_char c :: nat) \<and> of_char c < (127 :: nat))"

definition hold_env_ok :: "hold_env \<Rightarrow> bool" where
  "hold_env_ok env \<longleftrightarrow>
     (\<forall>h. hold_parse env (hold_text env h) = Some h) \<and>
     (\<forall>b. b64_decode env (b64_encode env b) = Some b \<and> graphic (b64_encode env b)) \<and>
     (\<forall>b. hexdec env (hexenc env b) = Some b \<and> graphic (hexenc env b)) \<and>
     (\<forall>sk. length sk = 32 \<longrightarrow> length (ed_public env sk) = 32 \<and> ed_point env (ed_public env sk) \<and>
        (\<forall>m. length (ed_sign env sk m) = 64 \<and> ed_verify env (ed_public env sk) m (ed_sign env sk m)))"

lemma hold_env_okD:
  assumes "hold_env_ok env"
  shows "hold_parse env (hold_text env h) = Some h"
    "b64_decode env (b64_encode env b) = Some b" "str_trim (b64_encode env b) = b64_encode env b"
    "hexdec env (hexenc env b) = Some b" "str_trim (hexenc env b) = hexenc env b"
    "length sk = 32 \<Longrightarrow> length (ed_public env sk) = 32 \<and> ed_point env (ed_public env sk) \<and>
        length (ed_sign env sk m) = 64 \<and> ed_verify env (ed_public env sk) m (ed_sign env sk m)"
  using assms by (auto simp: hold_env_ok_def graphic_def intro!: str_trim_graphic)

text \<open>The requests that change the directory.\<close>

datatype hold_op =
    OpGenerateKey timestamp bytes user bool "string option"
  | OpPlace timestamp user place_request
  | OpRelease timestamp user string string

fun hold_step :: "hold_env \<Rightarrow> hold_op \<Rightarrow> hold_dir \<Rightarrow> hold_dir" where
  "hold_step env (OpGenerateKey now seed u seal pass) d = fst (snd (route_generate_key env now seed u seal pass d))"
| "hold_step env (OpPlace now u req) d = fst (snd (route_place env now u req d))"
| "hold_step env (OpRelease now u hold_id sig) d = fst (snd (route_release env now u hold_id sig d))"

fun hold_touches :: "hold_env \<Rightarrow> string \<Rightarrow> hold_op \<Rightarrow> hold_dir \<Rightarrow> bool" where
  "hold_touches env x (OpGenerateKey now seed u seal pass) d = False"
| "hold_touches env x (OpPlace now u req) d = (new_hold_id now = x)"
| "hold_touches env x (OpRelease now u hold_id sig) d =
     (\<exists>h. fst (route_release env now u hold_id sig d) = Inr h \<and> hr_id h = x)"

fun hold_run :: "hold_env \<Rightarrow> hold_op list \<Rightarrow> hold_dir \<Rightarrow> hold_dir" where
  "hold_run env [] d = d"
| "hold_run env (op # ops) d = hold_run env ops (hold_step env op d)"

fun hold_untouched :: "hold_env \<Rightarrow> string \<Rightarrow> hold_op list \<Rightarrow> hold_dir \<Rightarrow> bool" where
  "hold_untouched env x [] d = True"
| "hold_untouched env x (op # ops) d = (\<not> hold_touches env x op d \<and> hold_untouched env x ops (hold_step env op d))"

definition stored_hold :: "hold_env \<Rightarrow> hold_record \<Rightarrow> hold_dir \<Rightarrow> bool" where
  "stored_hold env h d \<longleftrightarrow> map_of (hd_files d) (hold_file (hr_id h)) = Some (hold_text env h)"

lemma hold_file_inj [simp]: "hold_file x = hold_file y \<longleftrightarrow> x = y"
  by (simp add: hold_file_def)

lemma stored_save [simp]: "stored_hold env h (save_hold env h d)"
  by (simp add: stored_hold_def save_hold_def map_of_put_key)

lemma stored_save_other: "hr_id g \<noteq> hr_id h \<Longrightarrow> stored_hold env h d \<Longrightarrow> stored_hold env h (save_hold env g d)"
  by (simp add: stored_hold_def save_hold_def map_of_put_key)

lemma place_hold_cases:
  obtains e where "place_hold env now x by' reason a b ex key tpm d = (Inl e, d)"
  | h where "place_hold env now x by' reason a b ex key tpm d = (Inr h, save_hold env h d)"
      "hr_id h = x" "hr_seq_from h = a" "hr_seq_to h = b" "hr_expires_at h = ex" "hr_released_at h = None"
proof (cases "load_hold_pubkey env d")
  case Inr
  then show ?thesis using that
    by (cases "resolve_signing_key env d key") (simp_all add: place_hold_def Let_def)
qed (simp add: place_hold_def that)

lemma route_place_cases:
  obtains e where "route_place env now u req d = (Inl e, d, [])"
  | h ev where "route_place env now u req d = (Inr h, save_hold env h d, ev)"
      "hr_id h = new_hold_id now" "hr_seq_from h = pr_seq_from req" "hr_seq_to h = pr_seq_to req"
      "hr_expires_at h = pr_expires_at req" "hr_released_at h = None"
proof (cases "pr_seq_to req < pr_seq_from req")
  case True
  then show ?thesis using that by (simp add: route_place_def)
next
  case False
  let ?k = "if pr_tpm_seal req \<and> pr_key_hex req = None
                 then (case tpm_unseal env (unwrap_or '''' (pr_tpm_passphrase req)) of
                         None \<Rightarrow> Inl TpmFailed | Some b \<Rightarrow> Inr (Some (hexenc env b)))
                 else Inr (pr_key_hex req)"
  show ?thesis
  proof (cases ?k)
    case (Inl e)
    with False have "route_place env now u req d = (Inl e, d, [])" by (simp only: route_place_def if_False sum.case)
    then show ?thesis by (rule that)
  next
    case (Inr key_hex)
    show ?thesis
      by (rule place_hold_cases[of env now "new_hold_id now" "u_username u" "pr_reason req" "pr_seq_from req"
            "pr_seq_to req" "pr_expires_at req" key_hex "pr_tpm_seal req" d])
        (use False Inr that in \<open>simp_all only: route_place_def if_False sum.case prod.case\<close>)
  qed
qed

lemma load_hold_id:
  assumes "hold_env_ok env" "stored_hold env h d" "load_hold env d x = Inr g" "x = hr_id h"
  shows "g = h"
  using assms by (simp add: load_hold_def stored_hold_def hold_env_okD)

lemma release_hold_ok:
  assumes "release_hold env now x by' sig d = (Inr g, d1)"
  obtains h where "load_hold env d x = Inr h" "hold_is_active now h" "hr_id g = hr_id h" "d1 = save_hold env g d"
    "hr_released_at g = Some now"
  using assms by (auto simp: release_hold_def Let_def split: sum.splits if_splits option.splits)

lemma release_hold_fail: "release_hold env now x by' sig d = (Inl e, d1) \<Longrightarrow> d1 = d"
  by (auto simp: release_hold_def Let_def split: sum.splits if_splits option.splits)

lemma hold_step_keeps:
  assumes "stored_hold env h d" "\<not> hold_touches env (hr_id h) op d"
  shows "stored_hold env h (hold_step env op d)"
proof (cases op)
  case (OpGenerateKey now seed u seal pass)
  have "hold_file (hr_id h) \<noteq> ''HOLD-KEY-RECOVERY.txt''"
    by (auto simp: hold_file_def)
  then show ?thesis using assms(1) OpGenerateKey
    by (auto simp: route_generate_key_def generate_hold_key_def export_hold_backup_def stored_hold_def map_of_put_key Let_def)
next
  case (OpPlace now u req)
  then show ?thesis using assms
    by (cases rule: route_place_cases[of env now u req d]) (auto intro!: stored_save_other)
next
  case (OpRelease now u x sig)
  show ?thesis
  proof (cases "release_hold env now x (u_username u) sig d")
    case (Pair r d1)
    show ?thesis
    proof (cases r)
      case (Inl e)
      then show ?thesis using Pair OpRelease assms(1) release_hold_fail[of env now x "u_username u" sig d e d1]
        by (simp add: route_release_def)
    next
      case (Inr g)
      then obtain h0 where "d1 = save_hold env g d"
        using Pair by (auto elim: release_hold_ok)
      then show ?thesis using Pair Inr OpRelease assms stored_save_other[of g h env d]
        by (simp add: route_release_def)
    qed
  qed
qed

lemma hold_run_keeps:
  "stored_hold env h d \<Longrightarrow> hold_untouched env (hr_id h) ops d \<Longrightarrow> stored_hold env h (hold_run env ops d)"
  by (induction ops arbitrary: d) (simp_all add: hold_step_keeps)

lemma stored_listed:
  assumes "hold_env_ok env" "stored_hold env h d" "hr_id h \<noteq> []"
  shows "h \<in> set (list_holds env d)"
proof -
  have "(hold_file (hr_id h), hold_text env h) \<in> set (hd_files d)"
    using assms(2) map_of_SomeD by (fastforce simp: stored_hold_def)
  moreover have "json_extension (hold_file (hr_id h))"
    using assms(3) by (simp add: json_extension_def hold_file_def suffix_def)
  ultimately show ?thesis
    unfolding list_holds_def List.map_filter_def
    by (force simp: hold_env_okD[OF assms(1)] intro!: image_eqI)
qed

lemma guard_holds_iff:
  "guard_holds now a b hs = Inr () \<longleftrightarrow>
     (\<forall>h \<in> set hs. hold_is_active now h \<longrightarrow> \<not> (a \<le> hr_seq_to h \<and> hr_seq_from h \<le> b))"
  by (induction hs) auto

lemma hold_protects_parts:
  assumes "hold_env_ok env" "route_place env now u req d = (Inr h, d1, events)"
    and "hold_untouched env (hr_id h) ops d1"
    and "case pr_expires_at req of None \<Rightarrow> True | Some e \<Rightarrow> t < e"
  shows "pr_seq_from req \<le> seq \<Longrightarrow> seq \<le> pr_seq_to req \<Longrightarrow> is_seq_held env t (hold_run env ops d1) seq"
    and "a \<le> pr_seq_to req \<Longrightarrow> pr_seq_from req \<le> b \<Longrightarrow>
           guard_retention_delete env t (hold_run env ops d1) a b \<noteq> Inr ()"
proof -
  have h: "d1 = save_hold env h d" "hr_id h = new_hold_id now" "hr_seq_from h = pr_seq_from req"
    "hr_seq_to h = pr_seq_to req" "hr_expires_at h = pr_expires_at req" "hr_released_at h = None"
    using assms(2) by (cases rule: route_place_cases[of env now u req d]; simp)+
  have listed: "h \<in> set (list_holds env (hold_run env ops d1))"
    using assms(3) h by (intro stored_listed[OF assms(1)] hold_run_keeps) (auto simp: new_hold_id_def)
  have active: "hold_is_active t h"
    using assms(4) h by (simp add: hold_is_active_def split: option.splits)
  show "is_seq_held env t (hold_run env ops d1) seq" if "pr_seq_from req \<le> seq" "seq \<le> pr_seq_to req"
    using that listed active h by (auto simp: is_seq_held_def covers_seq_def)
  show "guard_retention_delete env t (hold_run env ops d1) a b \<noteq> Inr ()"
    if "a \<le> pr_seq_to req" "pr_seq_from req \<le> b"
    using that listed active h by (auto simp: guard_retention_delete_def guard_holds_iff)
qed


text \<open>An instance of the parameters: two printable characters for a byte, a number for a record.\<close>

definition demo_b64 :: "bytes \<Rightarrow> string" where
  "demo_b64 b = concat (map (\<lambda>c. [char_of (48 + of_char c div 16 :: nat), char_of (48 + of_char c mod 16 :: nat)]) b)"

fun demo_unb64 :: "string \<Rightarrow> bytes" where
  "demo_unb64 (x # y # r) = char_of (16 * (of_char x - 48) + (of_char y - 48) :: nat) # demo_unb64 r"
| "demo_unb64 _ = []"

lemma of_char_lt: "of_char c < (256 :: nat)"
  using nat_of_char_less_256[of c] by simp

lemma nibbles: "of_char c div 16 < (16 :: nat)" "of_char c mod 16 < (16 :: nat)"
  using of_char_lt[of c] by (simp_all add: less_mult_imp_div_less)

lemma demo_b64_byte:
  "of_char (char_of (48 + of_char c div 16 :: nat)) = (48 + of_char c div 16 :: nat)"
  "of_char (char_of (48 + of_char c mod 16 :: nat)) = (48 + of_char c mod 16 :: nat)"
proof -
  have "of_char (char_of (48 + n :: nat)) = 48 + n" if "n < 16" for n :: nat
    using that by simp
  from this[OF nibbles(1)] this[OF nibbles(2)] show
    "of_char (char_of (48 + of_char c div 16 :: nat)) = (48 + of_char c div 16 :: nat)"
    "of_char (char_of (48 + of_char c mod 16 :: nat)) = (48 + of_char c mod 16 :: nat)" .
qed

lemma demo_unb64_b64: "demo_unb64 (demo_b64 b) = b"
  by (induction b) (simp_all add: demo_b64_def demo_b64_byte del: of_char_of)

lemma demo_b64_graphic: "graphic (demo_b64 b)"
proof -
  have "33 \<le> 48 + n \<and> 48 + n < 127" if "n < 16" for n :: nat
    using that by simp
  note range = this[OF nibbles(1)] this[OF nibbles(2)]
  have "33 \<le> (of_char x :: nat) \<and> of_char x < (127 :: nat)" if x: "x \<in> set (demo_b64 b)" for x
  proof -
    from x obtain c where "x = char_of (48 + of_char c div 16 :: nat) \<or> x = char_of (48 + of_char c mod 16 :: nat)"
      unfolding demo_b64_def by auto
    then show ?thesis
    proof
      assume "x = char_of (48 + of_char c div 16 :: nat)"
      then show ?thesis using range(1)[of c] by (simp only: demo_b64_byte)
    next
      assume "x = char_of (48 + of_char c mod 16 :: nat)"
      then show ?thesis using range(2)[of c] by (simp only: demo_b64_byte)
    qed
  qed
  then show ?thesis by (simp only: graphic_def)  blast
qed

definition hold_tuple where
  "hold_tuple h = ((hr_id h, hr_placed_at h, hr_placed_by h, hr_reason h), (hr_seq_from h, hr_seq_to h, hr_expires_at h),
     (hr_hold_key_pubkey h, hr_placement_sig h), (hr_released_at h, hr_released_by h, hr_release_sig h, hr_tpm_sealed h))"

definition hold_untuple where
  "hold_untuple t = (case t of ((a, b, c, d), (e, f, g), (i, j), (k, l, m, n)) \<Rightarrow>
     \<lparr>hr_id = a, hr_placed_at = b, hr_placed_by = c, hr_reason = d, hr_seq_from = e, hr_seq_to = f, hr_expires_at = g,
      hr_hold_key_pubkey = i, hr_placement_sig = j, hr_released_at = k, hr_released_by = l, hr_release_sig = m,
      hr_tpm_sealed = n\<rparr>)"

definition demo_hold_env :: hold_env where
  "demo_hold_env = \<lparr>ed_public = (\<lambda>sk. sk), ed_sign = (\<lambda>sk m. sk @ take 32 (m @ replicate 32 CHR ''.'')),
     ed_verify = (\<lambda>pk m s. s = pk @ take 32 (m @ replicate 32 CHR ''.'')), ed_point = (\<lambda>_. True),
     b64_encode = demo_b64, b64_decode = (\<lambda>s. Some (demo_unb64 s)), hexenc = demo_b64,
     hexdec = (\<lambda>s. Some (demo_unb64 s)), json_vec = (\<lambda>_. []),
     hold_text = (\<lambda>h. replicate (to_nat (hold_tuple h)) CHR ''.''),
     hold_parse = (\<lambda>b. Some (hold_untuple (from_nat (length b)))),
     card_time = (\<lambda>_. []), tpm_seal = (\<lambda>_ _. True), tpm_unseal = (\<lambda>_. None)\<rparr>"

lemma demo_hold_env_ok: "hold_env_ok demo_hold_env"
  by (simp add: hold_env_ok_def demo_hold_env_def demo_unb64_b64 demo_b64_graphic hold_tuple_def hold_untuple_def
      min_def)

definition demo_seed :: bytes where
  "demo_seed = replicate 32 CHR ''s''"

definition demo_hold_dir :: hold_dir where
  "demo_hold_dir = snd (generate_hold_key demo_hold_env demo_seed \<lparr>hd_pub = None, hd_key = None, hd_files = []\<rparr>)"

definition demo_place :: place_request where
  "demo_place = \<lparr>pr_reason = ''r'', pr_seq_from = 3, pr_seq_to = 7, pr_expires_at = None, pr_key_hex = None,
     pr_tpm_seal = False, pr_tpm_passphrase = None\<rparr>"

lemma demo_keys:
  "load_hold_pubkey demo_hold_env demo_hold_dir = Inr demo_seed"
  "resolve_signing_key demo_hold_env demo_hold_dir None = Inr demo_seed"
proof -
  note ok = hold_env_okD[OF demo_hold_env_ok]
  have [simp]: "hd_pub demo_hold_dir = Some (b64_encode demo_hold_env demo_seed)"
    "hd_key demo_hold_dir = Some (hexenc demo_hold_env demo_seed)" "ed_point demo_hold_env demo_seed" "length demo_seed = 32"
    by (simp_all add: demo_hold_dir_def generate_hold_key_def demo_hold_env_def demo_seed_def Let_def)
  show "load_hold_pubkey demo_hold_env demo_hold_dir = Inr demo_seed"
    "resolve_signing_key demo_hold_env demo_hold_dir None = Inr demo_seed"
    by (simp_all add: load_hold_pubkey_def resolve_signing_key_def ok(2-5))
qed

lemma demo_route_place:
  obtains h ev where "route_place demo_hold_env 5 (synthetic_admin 0) demo_place demo_hold_dir = (Inr h, save_hold demo_hold_env h demo_hold_dir, ev)"
    "hr_id h = new_hold_id 5" "hr_expires_at h = None" "hr_released_at h = None"
  by (cases rule: route_place_cases[of demo_hold_env 5 "synthetic_admin 0" demo_place demo_hold_dir])
    (auto simp: demo_place_def route_place_def place_hold_def demo_keys Let_def)


lemma hold_release_key_parts:
  assumes "hold_env_ok env" "load_hold env d x = Inr h" "hr_id h = x" "hold_is_active now h"
  shows "load_hold_pubkey env d = Inr pk \<Longrightarrow> b64_decode env sig = Some s \<Longrightarrow> length s = 64 \<Longrightarrow>
     (\<exists>g. fst (route_release env now u x sig d) = Inr g) \<longleftrightarrow>
       ed_verify env pk (json_vec env (release_payload x (u_username u) now)) s"
    and "length seed = 32 \<Longrightarrow> route_generate_key env t0 seed u False None d = (r1, d1, ev1) \<Longrightarrow>
     route_release env now u x
       (b64_encode env (ed_sign env seed (json_vec env (release_payload x (u_username u) now)))) d1 = (r2, d2, ev2) \<Longrightarrow>
     (\<exists>g. r2 = Inr g \<and> load_hold env d2 x = Inr g \<and> \<not> hold_is_active t g)"
proof -
  note ok = hold_env_okD[OF assms(1)]
  show "(\<exists>g. fst (route_release env now u x sig d) = Inr g) \<longleftrightarrow>
       ed_verify env pk (json_vec env (release_payload x (u_username u) now)) s"
    if "load_hold_pubkey env d = Inr pk" "b64_decode env sig = Some s" "length s = 64"
    using that assms by (simp add: route_release_def release_hold_def Let_def)
  let ?sig = "b64_encode env (ed_sign env seed (json_vec env (release_payload x (u_username u) now)))"
  assume len: "length seed = 32" and gen: "route_generate_key env t0 seed u False None d = (r1, d1, ev1)"
    and rel: "route_release env now u x ?sig d1 = (r2, d2, ev2)"
  have d1: "hd_pub d1 = Some (b64_encode env (ed_public env seed))" "load_hold env d1 x = Inr h"
    using gen assms(2)
    by (auto simp: route_generate_key_def generate_hold_key_def export_hold_backup_def load_hold_def map_of_put_key
        hold_file_def Let_def)
  have pk: "load_hold_pubkey env d1 = Inr (ed_public env seed)"
    using ok(6)[OF len] d1 by (simp add: load_hold_pubkey_def ok(2,3))
  let ?g = "h\<lparr>hr_released_at := Some now, hr_released_by := Some (u_username u), hr_release_sig := Some ?sig\<rparr>"
  have "release_hold env now x (u_username u) ?sig d1 = (Inr ?g, save_hold env ?g d1)"
    using ok(6)[OF len] by (simp add: release_hold_def d1 pk assms(4) ok(2) Let_def)
  then have r2: "r2 = Inr ?g" "d2 = save_hold env ?g d1"
    using rel by (auto simp: route_release_def)
  have "load_hold env d2 x = Inr ?g"
    by (simp add: r2 load_hold_def save_hold_def map_of_put_key assms(3) ok(1))
  then show "\<exists>g. r2 = Inr g \<and> load_hold env d2 x = Inr g \<and> \<not> hold_is_active t g"
    using r2 by (simp add: hold_is_active_def)
qed

text \<open>Who can release a hold. A release succeeds exactly when the hold is stored and active and the
  signature is one of the key in \<open>hold.pub\<close> over the payload with the time that the server reads
  during the request; the key that the hold was placed with is not looked at. So whoever may use the
  API ends any hold without the compliance officer's key: a new key pair replaces \<open>hold.pub\<close>, and the
  new private key signs the release.\<close>

lemma hold_release_key:
  assumes "hold_env_ok env" "load_hold env d x = Inr h" "hr_id h = x" "hold_is_active now h"
  shows "(load_hold_pubkey env d = Inr pk \<and> b64_decode env sig = Some s \<and> length s = 64 \<longrightarrow>
       ((\<exists>g. fst (route_release env now u x sig d) = Inr g) \<longleftrightarrow>
         ed_verify env pk (json_vec env (release_payload x (u_username u) now)) s)) \<and>
    (length seed = 32 \<and> route_generate_key env t0 seed u False None d = (r1, d1, ev1) \<and>
     route_release env now u x
       (b64_encode env (ed_sign env seed (json_vec env (release_payload x (u_username u) now)))) d1 = (r2, d2, ev2) \<longrightarrow>
       (\<exists>g. r2 = Inr g \<and> load_hold env d2 x = Inr g \<and> \<not> hold_is_active t g))"
  using hold_release_key_parts[OF assms] by blast

end
