(* ===== verification/Incident.thy ===== *)
theory Incident
  imports Legal_Hold Limits
begin

section \<open>Incidents and break-glass credentials\<close>

text \<open>
  \<open>incident.rs\<close> of \<open>maranode-common\<close> and of \<open>maranode-api\<close>, \<open>routes/incident.rs\<close>, the recovery of an
  incident at the start of the daemon (\<open>main.rs\<close>) and the guards at the head of a chat request
  (\<open>routes/chat.rs\<close>). The incident of the server is behind a mutex that a handler holds to its end, so
  a handler is one step. A handler gives its answer, the new state and the events that it hands to the
  audit log, whose result it ignores. The write of the state file may fail; what is then in the file is
  part of the outcome. SHA-256, hex and serde are the record \<open>incident_env\<close>.
\<close>

subsection \<open>incident.rs of maranode-common\<close>

datatype incident_phase = Declared | Investigating | Resolved

fun phase_str :: "incident_phase \<Rightarrow> string" where
  "phase_str Declared = ''declared''"
| "phase_str Investigating = ''investigating''"
| "phase_str Resolved = ''resolved''"

record phase_entry =
  pe_phase :: incident_phase
  pe_at :: timestamp
  pe_by :: string
  pe_note :: "string option"

record incident_state =
  in_id :: string
  in_declared_at :: timestamp
  in_declared_by :: string
  in_reason :: string
  in_phase :: incident_phase
  in_audit_frozen :: bool
  in_resolved_at :: "timestamp option"
  in_resolution_summary :: "string option"
  in_phase_log :: "phase_entry list"
  in_webhook_urls :: "string list"

definition incident_new :: "timestamp \<Rightarrow> string \<Rightarrow> string \<Rightarrow> string \<Rightarrow> string list \<Rightarrow> incident_state" where
  "incident_new now incident_id declared_by reason webhook_urls =
     \<lparr>in_id = incident_id, in_declared_at = now, in_declared_by = declared_by, in_reason = reason,
      in_phase = Declared, in_audit_frozen = True, in_resolved_at = None, in_resolution_summary = None,
      in_phase_log = [\<lparr>pe_phase = Declared, pe_at = now, pe_by = declared_by, pe_note = Some reason\<rparr>],
      in_webhook_urls = webhook_urls\<rparr>"

record break_glass_cred =
  bg_id :: string
  bg_purpose :: string
  bg_token_hash :: string
  bg_created_at :: timestamp
  bg_used_at :: "timestamp option"
  bg_used_by :: "string option"

definition is_used :: "break_glass_cred \<Rightarrow> bool" where
  "is_used c \<longleftrightarrow> bg_used_at c \<noteq> None"

subsection \<open>incident.rs of maranode-api\<close>

record incident_env =
  incident_text :: "incident_state \<Rightarrow> bytes"
  incident_parse :: "bytes \<Rightarrow> incident_state option"
  cred_text :: "break_glass_cred \<Rightarrow> bytes"
  cred_parse :: "bytes \<Rightarrow> break_glass_cred option"
  sha256 :: "bytes \<Rightarrow> bytes"
  hex_of :: "bytes \<Rightarrow> string"

datatype file_write = Written | NotWritten "bytes option"

datatype incident_error =
    Forbidden | IncidentActive | NoIncident | NotDeclared | PersistFailed | SnapshotFailed
  | TokenNotFound | TokenUsed

definition persist_incident ::
  "incident_env \<Rightarrow> file_write \<Rightarrow> incident_state \<Rightarrow> bytes option \<Rightarrow> (incident_error, unit) result \<times> bytes option" where
  "persist_incident env io st file = (case io of
      Written \<Rightarrow> (Inr (), Some (incident_text env st))
    | NotWritten left \<Rightarrow> (Inl PersistFailed, left))"

definition load_incident_on_start :: "incident_env \<Rightarrow> bytes option \<Rightarrow> incident_state option" where
  "load_incident_on_start env file = (case file of None \<Rightarrow> None | Some b \<Rightarrow> incident_parse env b)"

definition transition_phase ::
  "incident_env \<Rightarrow> timestamp \<Rightarrow> file_write \<Rightarrow> incident_phase \<Rightarrow> string \<Rightarrow> string option \<Rightarrow>
     incident_state \<times> bytes option \<Rightarrow> (incident_error, unit) result \<times> incident_state \<times> bytes option" where
  "transition_phase env now io new_phase by note st = (case st of (inc, file) \<Rightarrow>
     let inc1 = inc\<lparr>in_phase_log := in_phase_log inc @
                     [\<lparr>pe_phase = new_phase, pe_at = now, pe_by = by, pe_note = note\<rparr>]\<rparr>;
         inc2 = inc1\<lparr>in_phase := new_phase\<rparr>;
         inc3 = (if in_phase inc2 = Resolved
                 then inc2\<lparr>in_resolved_at := Some now, in_resolution_summary := note, in_audit_frozen := False\<rparr>
                 else inc2);
         (r, file1) = persist_incident env io inc3 file
     in (r, inc3, file1))"

text \<open>\<open>{:08x}\<close>: at least eight hexadecimal digits, padded with zeros.\<close>

definition hex_pad :: "nat \<Rightarrow> nat \<Rightarrow> string" where
  "hex_pad w n = (let s = show_hex n in replicate (w - length s) CHR ''0'' @ s)"

definition from_be_bytes :: "bytes \<Rightarrow> nat" where
  "from_be_bytes b = foldl (\<lambda>n c. 256 * n + of_char c) 0 b"

definition uuid_from_bytes :: "bytes \<Rightarrow> string" where
  "uuid_from_bytes b =
     hex_pad 8 (from_be_bytes (take 4 b)) @ ''-'' @ hex_pad 4 (from_be_bytes (take 2 (drop 4 b))) @ ''-''
     @ hex_pad 4 (from_be_bytes (take 2 (drop 6 b))) @ ''-'' @ hex_pad 4 (from_be_bytes (take 2 (drop 8 b))) @ ''-''
     @ hex_pad 12 (from_be_bytes (take 6 (drop 10 b)))"

text \<open>The nanoseconds within the second and the process id are the only varying inputs.\<close>

definition generate_break_glass_cred ::
  "incident_env \<Rightarrow> timestamp \<Rightarrow> nat \<Rightarrow> string \<Rightarrow> string \<times> break_glass_cred" where
  "generate_break_glass_cred env now pid purpose =
     (let ts = nat (now mod 1000000000);
          raw = ''bglass-'' @ purpose @ ''-'' @ hex_pad 8 ts @ ''-'' @ hex_pad 8 pid;
          cred_id = uuid_from_bytes (sha256 env raw);
          token = ''bg1_'' @ hex_of env (take 16 (sha256 env (raw @ ''-token'')));
          token_hash = hex_of env (sha256 env token)
      in (token, \<lparr>bg_id = cred_id, bg_purpose = purpose, bg_token_hash = token_hash, bg_created_at = now,
                  bg_used_at = None, bg_used_by = None\<rparr>))"

type_synonym cred_dir = "(string \<times> bytes) list"

definition load_break_glass_creds :: "incident_env \<Rightarrow> cred_dir \<Rightarrow> break_glass_cred list" where
  "load_break_glass_creds env d =
     List.map_filter (\<lambda>(name, b). if json_extension name then cred_parse env b else None) d"

definition save_break_glass_cred :: "incident_env \<Rightarrow> break_glass_cred \<Rightarrow> cred_dir \<Rightarrow> cred_dir" where
  "save_break_glass_cred env c d = put_key (hold_file (bg_id c)) (cred_text env c) d"

definition verify_and_consume_break_glass ::
  "incident_env \<Rightarrow> timestamp \<Rightarrow> string \<Rightarrow> string \<Rightarrow> cred_dir \<Rightarrow> (incident_error, break_glass_cred) result \<times> cred_dir" where
  "verify_and_consume_break_glass env now token used_by d =
     (let token_hash = hex_of env (sha256 env token)
      in case find (\<lambda>c. bg_token_hash c = token_hash) (load_break_glass_creds env d) of
           None \<Rightarrow> (Inl TokenNotFound, d)
         | Some c \<Rightarrow>
             if is_used c then (Inl TokenUsed, d)
             else (let c1 = c\<lparr>bg_used_at := Some now, bg_used_by := Some used_by\<rparr>
                   in (Inr c1, save_break_glass_cred env c1 d)))"

subsection \<open>routes/incident.rs\<close>

record incident_sys =
  sy_incident :: "incident_state option"
  sy_frozen :: bool
  sy_file :: "bytes option"
  sy_creds :: cred_dir

type_synonym 'a handled = "(incident_error, 'a) result \<times> incident_sys \<times> audit_event list"

definition new_incident_id :: "timestamp \<Rightarrow> string" where
  "new_incident_id now = ''INC-'' @ show_hex (nat (now div 1000000000))"

definition allowed :: "user \<Rightarrow> bool" where
  "allowed u \<longleftrightarrow> user_require u IncidentManage = Inr ()"

definition sessions_in_flight :: "workspace_usage list \<Rightarrow> nat" where
  "sessions_in_flight usage = foldl u32_add 0 (map wu_concurrent usage)"

definition declare_incident ::
  "incident_env \<Rightarrow> timestamp \<Rightarrow> file_write \<Rightarrow> workspace_usage list \<Rightarrow> user \<Rightarrow> string \<Rightarrow> string list \<Rightarrow>
     incident_sys \<Rightarrow> (string \<times> string \<times> bool) handled" where
  "declare_incident env now io usage u reason webhooks s =
     (if \<not> allowed u then (Inl Forbidden, s, [])
      else if (case sy_incident s of None \<Rightarrow> False | Some inc \<Rightarrow> in_phase inc \<noteq> Resolved)
        then (Inl IncidentActive, s, [])
      else (let inc_id = new_incident_id now;
                inc = incident_new now inc_id (u_username u) reason webhooks;
                file1 = snd (persist_incident env io inc (sy_file s))
            in (Inr (inc_id, phase_str (in_phase inc), in_audit_frozen inc),
                s\<lparr>sy_incident := Some inc, sy_frozen := True, sy_file := file1\<rparr>,
                [IncidentDeclared inc_id (u_username u) (in_reason inc) (sessions_in_flight usage),
                 AuditFrozen inc_id (u_username u)])))"

definition investigate ::
  "incident_env \<Rightarrow> timestamp \<Rightarrow> file_write \<Rightarrow> user \<Rightarrow> string option \<Rightarrow> incident_sys \<Rightarrow> (string \<times> string) handled" where
  "investigate env now io u note s =
     (if \<not> allowed u then (Inl Forbidden, s, [])
      else case sy_incident s of
        None \<Rightarrow> (Inl NoIncident, s, [])
      | Some inc \<Rightarrow>
          if in_phase inc \<noteq> Declared then (Inl NotDeclared, s, [])
          else (case transition_phase env now io Investigating (u_username u) note (inc, sy_file s) of
                  (Inl e, inc1, file1) \<Rightarrow> (Inl e, s\<lparr>sy_incident := Some inc1, sy_file := file1\<rparr>, [])
                | (Inr _, inc1, file1) \<Rightarrow>
                    (Inr (in_id inc, ''investigating''), s\<lparr>sy_incident := Some inc1, sy_file := file1\<rparr>,
                     [IncidentPhaseChanged (in_id inc) (phase_str (in_phase inc)) ''investigating'' (u_username u) note])))"

definition resolve_incident ::
  "incident_env \<Rightarrow> timestamp \<Rightarrow> file_write \<Rightarrow> user \<Rightarrow> string \<Rightarrow> incident_sys \<Rightarrow> (string \<times> string) handled" where
  "resolve_incident env now io u summary s =
     (if \<not> allowed u then (Inl Forbidden, s, [])
      else case sy_incident s of
        None \<Rightarrow> (Inl NoIncident, s, [])
      | Some inc \<Rightarrow>
          (case transition_phase env now io Resolved (u_username u) (Some summary) (inc, sy_file s) of
             (Inl e, inc1, file1) \<Rightarrow> (Inl e, s\<lparr>sy_incident := Some inc1, sy_file := file1\<rparr>, [])
           | (Inr _, inc1, file1) \<Rightarrow>
               (Inr (in_id inc, ''resolved''),
                s\<lparr>sy_incident := Some inc1, sy_file := file1, sy_frozen := False\<rparr>,
                [IncidentPhaseChanged (in_id inc) (phase_str (in_phase inc)) ''resolved'' (u_username u) (Some summary),
                 AuditUnfrozen (in_id inc) (u_username u), IncidentResolved (in_id inc) (u_username u) summary])))"

definition incident_status :: "incident_sys \<Rightarrow> bool \<times> bool \<times> incident_state option" where
  "incident_status s = (case sy_incident s of
      None \<Rightarrow> (False, sy_frozen s, None)
    | Some inc \<Rightarrow> (in_phase inc \<noteq> Resolved, sy_frozen s, Some inc))"

text \<open>\<open>take_snapshot\<close> (a zip archive of the runtime state) gives its path and digest or fails.\<close>

definition incident_snapshot :: "(string \<Rightarrow> (string \<times> string) option) \<Rightarrow> user \<Rightarrow> incident_sys \<Rightarrow> (string \<times> string) handled" where
  "incident_snapshot take_snapshot u s =
     (if \<not> allowed u then (Inl Forbidden, s, [])
      else (let inc_id = (case sy_incident s of None \<Rightarrow> ''manual'' | Some inc \<Rightarrow> in_id inc)
            in case take_snapshot inc_id of
                 None \<Rightarrow> (Inl SnapshotFailed, s, [])
               | Some (path, sha) \<Rightarrow> (Inr (path, sha), s, [ForensicSnapshot inc_id path sha])))"

definition bg_generate ::
  "incident_env \<Rightarrow> timestamp \<Rightarrow> nat \<Rightarrow> user \<Rightarrow> string \<Rightarrow> incident_sys \<Rightarrow> (string \<times> string \<times> string) handled" where
  "bg_generate env now pid u purpose s =
     (if \<not> allowed u then (Inl Forbidden, s, [])
      else (let (token, c) = generate_break_glass_cred env now pid purpose
            in (Inr (bg_id c, token, bg_purpose c), s\<lparr>sy_creds := save_break_glass_cred env c (sy_creds s)\<rparr>, [])))"

definition bg_use ::
  "incident_env \<Rightarrow> timestamp \<Rightarrow> user \<Rightarrow> string \<Rightarrow> incident_sys \<Rightarrow> break_glass_cred handled" where
  "bg_use env now u token s =
     (if \<not> allowed u then (Inl Forbidden, s, [])
      else case verify_and_consume_break_glass env now token (u_username u) (sy_creds s) of
             (Inl e, d1) \<Rightarrow> (Inl e, s\<lparr>sy_creds := d1\<rparr>, [])
           | (Inr c, d1) \<Rightarrow>
               (Inr c, s\<lparr>sy_creds := d1\<rparr>, [BreakGlassUsed (bg_id c) (u_username u) (bg_purpose c)]))"

subsection \<open>Start of the daemon, and the guards of a chat request\<close>

definition incident_restart :: "incident_env \<Rightarrow> incident_sys \<Rightarrow> incident_sys" where
  "incident_restart env s =
     (let recovered = load_incident_on_start env (sy_file s);
          recovered_frozen = (case recovered of None \<Rightarrow> False | Some inc \<Rightarrow> in_audit_frozen inc)
      in s\<lparr>sy_incident := recovered, sy_frozen := recovered_frozen\<rparr>)"

datatype chat_refusal = EgressDetected | AuditLogFrozen

definition chat_guards :: "bool \<Rightarrow> bool \<Rightarrow> bool \<Rightarrow> (chat_refusal, unit) result" where
  "chat_guards air_gap isolation_ok audit_frozen =
     (if air_gap \<and> \<not> isolation_ok then Inl EgressDetected
      else if audit_frozen then Inl AuditLogFrozen else Inr ())"

subsection \<open>The freeze follows the incident\<close>

text \<open>serde reads back what it wrote.\<close>

definition incident_env_ok :: "incident_env \<Rightarrow> bool" where
  "incident_env_ok env \<longleftrightarrow>
     (\<forall>i. incident_parse env (incident_text env i) = Some i) \<and> (\<forall>c. cred_parse env (cred_text env c) = Some c)"

inductive incident_step :: "incident_env \<Rightarrow> incident_sys \<Rightarrow> incident_sys \<Rightarrow> bool" for env where
  step_declare: "declare_incident env now Written usage u reason webhooks s = (r, t, events) \<Longrightarrow> incident_step env s t"
| step_investigate: "investigate env now Written u note s = (r, t, events) \<Longrightarrow> incident_step env s t"
| step_resolve: "resolve_incident env now Written u summary s = (r, t, events) \<Longrightarrow> incident_step env s t"
| step_generate: "bg_generate env now pid u purpose s = (r, t, events) \<Longrightarrow> incident_step env s t"
| step_use: "bg_use env now u token s = (r, t, events) \<Longrightarrow> incident_step env s t"
| step_restart: "incident_step env s (incident_restart env s)"

definition no_incident :: incident_sys where
  "no_incident = \<lparr>sy_incident = None, sy_frozen = False, sy_file = None, sy_creds = []\<rparr>"

fun phases_ok :: "incident_phase list \<Rightarrow> bool" where
  "phases_ok (Declared # Investigating # ps) = list_all (\<lambda>p. p = Resolved) ps"
| "phases_ok (Declared # ps) = list_all (\<lambda>p. p = Resolved) ps"
| "phases_ok _ = False"

definition incident_ok :: "incident_state \<Rightarrow> bool" where
  "incident_ok i \<longleftrightarrow>
     phases_ok (map pe_phase (in_phase_log i)) \<and> in_phase i = last (map pe_phase (in_phase_log i)) \<and>
     in_audit_frozen i = (in_phase i \<noteq> Resolved) \<and> (in_resolved_at i = None) = (in_phase i \<noteq> Resolved)"

definition incident_inv :: "incident_env \<Rightarrow> incident_sys \<Rightarrow> bool" where
  "incident_inv env s \<longleftrightarrow>
     sy_file s = map_option (incident_text env) (sy_incident s) \<and>
     (case sy_incident s of
        None \<Rightarrow> \<not> sy_frozen s
      | Some i \<Rightarrow> incident_ok i \<and> sy_frozen s = (in_phase i \<noteq> Resolved))"

lemma phases_snoc_resolved: "phases_ok ps \<Longrightarrow> phases_ok (ps @ [Resolved])"
  by (induction ps rule: phases_ok.induct) auto

lemma phases_snoc_investigating: "phases_ok ps \<Longrightarrow> last ps = Declared \<Longrightarrow> phases_ok (ps @ [Investigating])"
proof -
  have no: "list_all (\<lambda>p. p = Resolved) qs \<Longrightarrow> last qs = Declared \<Longrightarrow> qs = []" for qs
    by (induction qs) (auto split: if_splits)
  show "phases_ok ps \<Longrightarrow> last ps = Declared \<Longrightarrow> phases_ok (ps @ [Investigating])"
    using no by (induction ps rule: phases_ok.induct) (auto split: if_splits)
qed

lemma incident_new_ok: "incident_ok (incident_new now i u r w)"
  by (simp add: incident_ok_def incident_new_def)

lemma transition_ok:
  assumes "incident_ok i" "p = Resolved \<or> (p = Investigating \<and> in_phase i = Declared)"
    "transition_phase env now Written p u note (i, file) = (r, i1, file1)"
  shows "r = Inr () \<and> file1 = Some (incident_text env i1) \<and> incident_ok i1 \<and> in_phase i1 = p"
  using assms
  by (auto simp: transition_phase_def persist_incident_def incident_ok_def Let_def
      phases_snoc_resolved phases_snoc_investigating)

lemma incident_step_inv:
  assumes "incident_env_ok env" "incident_inv env s" "incident_step env s t"
  shows "incident_inv env t"
  using assms(3)
proof cases
  case step_declare
  then show ?thesis using assms(2)
    by (auto simp: declare_incident_def incident_inv_def Let_def persist_incident_def incident_new_ok
        split: if_splits option.splits) (auto simp: incident_new_def)
next
  case (step_investigate now u nt r events)
  show ?thesis
  proof (cases "sy_incident s")
    case None
    then show ?thesis using step_investigate assms(2) by (auto simp: investigate_def split: if_splits)
  next
    case (Some i)
    obtain r' i1 f1 where tr: "transition_phase env now Written Investigating (u_username u) nt (i, sy_file s) = (r', i1, f1)"
      by (metis surj_pair)
    have "incident_ok i" using assms(2) Some by (simp add: incident_inv_def)
    with tr have "in_phase i = Declared \<Longrightarrow> r' = Inr () \<and> f1 = Some (incident_text env i1) \<and> incident_ok i1 \<and> in_phase i1 = Investigating"
      using transition_ok by blast
    then show ?thesis using step_investigate Some tr assms(2)
      by (auto simp: investigate_def incident_inv_def split: if_splits)
  qed
next
  case (step_resolve now u summary r events)
  show ?thesis
  proof (cases "sy_incident s")
    case None
    then show ?thesis using step_resolve assms(2) by (auto simp: resolve_incident_def split: if_splits)
  next
    case (Some i)
    obtain r' i1 f1 where tr: "transition_phase env now Written Resolved (u_username u) (Some summary) (i, sy_file s) = (r', i1, f1)"
      by (metis surj_pair)
    have "incident_ok i" using assms(2) Some by (simp add: incident_inv_def)
    with tr have "r' = Inr () \<and> f1 = Some (incident_text env i1) \<and> incident_ok i1 \<and> in_phase i1 = Resolved"
      using transition_ok by blast
    then show ?thesis using step_resolve Some tr assms(2)
      by (auto simp: resolve_incident_def incident_inv_def split: if_splits)
  qed
next
  case step_generate
  then show ?thesis using assms(2)
    by (auto simp: bg_generate_def incident_inv_def Let_def split: if_splits prod.splits option.splits)
next
  case step_use
  then show ?thesis using assms(2)
    by (auto simp: bg_use_def incident_inv_def split: if_splits prod.splits sum.splits option.splits)
next
  case step_restart
  then show ?thesis using assms(1,2)
    by (cases "sy_incident s") (auto simp: incident_restart_def load_incident_on_start_def incident_inv_def
        incident_env_ok_def incident_ok_def)
qed

interpretation incidents: inv_system "\<lambda>s. s = no_incident" "incident_step env"
  "\<lambda>s. incident_env_ok env \<longrightarrow> incident_inv env s" for env
  by unfold_locales (simp add: no_incident_def incident_inv_def, blast intro: incident_step_inv)

lemma incident_freezes_parts:
  assumes "incident_env_ok env" "reach (\<lambda>s. s = no_incident) (incident_step env) s"
  shows "sy_frozen s \<longleftrightarrow> fst (incident_status s)"
    and "chat_guards air_gap isolation_ok (sy_frozen s) = Inr () \<longleftrightarrow>
           \<not> (air_gap \<and> \<not> isolation_ok) \<and> (\<nexists>i. sy_incident s = Some i \<and> in_phase i \<noteq> Resolved)"
    and "incident_restart env s = s"
    and "sy_incident s = Some i \<Longrightarrow>
           phases_ok (map pe_phase (in_phase_log i)) \<and> in_phase i = pe_phase (last (in_phase_log i))"
proof -
  have inv: "incident_inv env s" using incidents.reach_inv[OF assms(2)] assms(1) by blast
  show "sy_frozen s \<longleftrightarrow> fst (incident_status s)"
    using inv by (auto simp: incident_inv_def incident_status_def split: option.splits)
  show "chat_guards air_gap isolation_ok (sy_frozen s) = Inr () \<longleftrightarrow>
           \<not> (air_gap \<and> \<not> isolation_ok) \<and> (\<nexists>i. sy_incident s = Some i \<and> in_phase i \<noteq> Resolved)"
    using inv by (auto simp: incident_inv_def chat_guards_def split: option.splits)
  show "incident_restart env s = s"
    using inv assms(1) by (cases "sy_incident s")
      (auto simp: incident_inv_def incident_env_ok_def incident_restart_def load_incident_on_start_def incident_ok_def)
  show "phases_ok (map pe_phase (in_phase_log i)) \<and> in_phase i = pe_phase (last (in_phase_log i))"
    if "sy_incident s = Some i"
  proof -
    have "incident_ok i" using inv that by (simp add: incident_inv_def)
    moreover have "in_phase_log i \<noteq> []" using calculation by (auto simp: incident_ok_def)
    ultimately show ?thesis by (simp add: incident_ok_def last_map)
  qed
qed

text \<open>C31: the freeze follows the incident. Through any sequence of declarations, phase changes,
  resolutions, uses of break-glass credentials and restarts of the daemon (writes of the state file
  succeeding), inference is suspended exactly while an incident is declared or under investigation, a
  restart changes nothing, and the log of phases begins with the declaration, has at most one
  investigation, right after it, and then only resolutions.\<close>

theorem incident_freezes:
  assumes "incident_env_ok env" "reach (\<lambda>s. s = no_incident) (incident_step env) s"
  shows "(sy_frozen s \<longleftrightarrow> fst (incident_status s)) \<and>
    (chat_guards air_gap isolation_ok (sy_frozen s) = Inr () \<longleftrightarrow>
       \<not> (air_gap \<and> \<not> isolation_ok) \<and> (\<nexists>i. sy_incident s = Some i \<and> in_phase i \<noteq> Resolved)) \<and>
    incident_restart env s = s \<and>
    (\<forall>i. sy_incident s = Some i \<longrightarrow>
       phases_ok (map pe_phase (in_phase_log i)) \<and> in_phase i = pe_phase (last (in_phase_log i)))"
  using incident_freezes_parts[OF assms] by simp

text \<open>An instance of the parameters, in which the text of a record is a number.\<close>

fun phase_num :: "incident_phase \<Rightarrow> nat" where
  "phase_num Declared = 0"
| "phase_num Investigating = 1"
| "phase_num Resolved = 2"

definition phase_of_num :: "nat \<Rightarrow> incident_phase" where
  "phase_of_num n = (if n = 0 then Declared else if n = 1 then Investigating else Resolved)"

lemma phase_of_num [simp]: "phase_of_num (phase_num p) = p"
  by (cases p) (simp_all add: phase_of_num_def)

definition entry_tuple where
  "entry_tuple e = (phase_num (pe_phase e), pe_at e, pe_by e, pe_note e)"

definition entry_untuple where
  "entry_untuple t = (case t of (p, a, b, n) \<Rightarrow> \<lparr>pe_phase = phase_of_num p, pe_at = a, pe_by = b, pe_note = n\<rparr>)"

lemma entry_untuple [simp]: "entry_untuple (entry_tuple e) = e"
  by (simp add: entry_untuple_def entry_tuple_def)

definition incident_tuple where
  "incident_tuple i = ((in_id i, in_declared_at i, in_declared_by i, in_reason i), (phase_num (in_phase i), in_audit_frozen i),
     (in_resolved_at i, in_resolution_summary i), (map entry_tuple (in_phase_log i), in_webhook_urls i))"

definition incident_untuple where
  "incident_untuple t = (case t of ((a, b, c, d), (e, f), (g, h), (l, w)) \<Rightarrow>
     \<lparr>in_id = a, in_declared_at = b, in_declared_by = c, in_reason = d, in_phase = phase_of_num e, in_audit_frozen = f,
      in_resolved_at = g, in_resolution_summary = h, in_phase_log = map entry_untuple l, in_webhook_urls = w\<rparr>)"

definition cred_tuple where
  "cred_tuple c = (bg_id c, bg_purpose c, bg_token_hash c, bg_created_at c, bg_used_at c, bg_used_by c)"

definition cred_untuple where
  "cred_untuple t = (case t of (a, b, c, d, e, f) \<Rightarrow> \<lparr>bg_id = a, bg_purpose = b, bg_token_hash = c,
     bg_created_at = d, bg_used_at = e, bg_used_by = f\<rparr>)"

definition demo_incident_env :: incident_env where
  "demo_incident_env = \<lparr>incident_text = (\<lambda>i. replicate (to_nat (incident_tuple i)) CHR ''.''),
     incident_parse = (\<lambda>b. Some (incident_untuple (from_nat (length b)))),
     cred_text = (\<lambda>c. replicate (to_nat (cred_tuple c)) CHR ''.''),
     cred_parse = (\<lambda>b. Some (cred_untuple (from_nat (length b)))), sha256 = (\<lambda>b. b), hex_of = (\<lambda>b. b)\<rparr>"

lemma demo_incident_env_ok: "incident_env_ok demo_incident_env"
  by (simp add: incident_env_ok_def demo_incident_env_def incident_tuple_def incident_untuple_def cred_tuple_def
      cred_untuple_def comp_def)

lemma admin_allowed: "allowed (synthetic_admin 0)"
  by (simp add: allowed_def user_require_def synthetic_admin_def role_has_def)

theorem incident_freezes_witness:
  "sy_frozen (fst (snd (declare_incident demo_incident_env 0 Written [] (synthetic_admin 0) ''r'' [] no_incident)))"
proof -
  let ?t = "fst (snd (declare_incident demo_incident_env 0 Written [] (synthetic_admin 0) ''r'' [] no_incident))"
  have "incident_step demo_incident_env no_incident ?t"
    by (rule step_declare[of _ 0 "[]" "synthetic_admin 0" "''r''" "[]"]) (simp add: prod_eq_iff)
  then have "reach (\<lambda>s. s = no_incident) (incident_step demo_incident_env) ?t"
    using reach_init[of "\<lambda>s. s = no_incident" no_incident] reach_step by fast
  moreover have "fst (incident_status ?t)"
    by (simp add: declare_incident_def admin_allowed no_incident_def Let_def incident_status_def incident_new_def)
  ultimately show ?thesis using incident_freezes[OF demo_incident_env_ok] by blast
qed

subsection \<open>Break-glass credentials work once\<close>

text \<open>The directory as the code fills it: a file that reads as a credential is named by its id.\<close>

definition cred_names_ok :: "incident_env \<Rightarrow> cred_dir \<Rightarrow> bool" where
  "cred_names_ok env d \<longleftrightarrow> distinct (map fst d) \<and>
     (\<forall>(name, b) \<in> set d. \<forall>c. json_extension name \<longrightarrow> cred_parse env b = Some c \<longrightarrow> name = hold_file (bg_id c))"

lemma json_extension_file [simp]: "json_extension (hold_file x) \<longleftrightarrow> x \<noteq> []"
  by (simp add: json_extension_def hold_file_def suffix_def)

lemma loaded_iff:
  assumes "cred_names_ok env d"
  shows "c \<in> set (load_break_glass_creds env d) \<longleftrightarrow>
           bg_id c \<noteq> [] \<and> (\<exists>b. map_of d (hold_file (bg_id c)) = Some b \<and> cred_parse env b = Some c)"
proof -
  have "c \<in> set (load_break_glass_creds env d) \<longleftrightarrow>
      (\<exists>(name, b) \<in> set d. json_extension name \<and> cred_parse env b = Some c)"
    by (force simp: load_break_glass_creds_def List.map_filter_def image_iff split: if_splits)
  also have "\<dots> \<longleftrightarrow> (\<exists>b. (hold_file (bg_id c), b) \<in> set d \<and> bg_id c \<noteq> [] \<and> cred_parse env b = Some c)"
    using assms unfolding cred_names_ok_def by (fastforce simp flip: json_extension_file)
  finally show ?thesis using assms by (auto simp: cred_names_ok_def)
qed

lemma put_key_mem: "x \<in> set (put_key k v kvs) \<Longrightarrow> x = (k, v) \<or> x \<in> set kvs"
  by (induction k v kvs rule: put_key.induct) (auto split: if_splits)

lemma save_names_ok:
  assumes "incident_env_ok env" "cred_names_ok env d"
  shows "cred_names_ok env (save_break_glass_cred env c d)"
  using assms
  by (auto simp: cred_names_ok_def save_break_glass_cred_def incident_env_ok_def put_key_distinct dest!: put_key_mem)

lemma loaded_save:
  assumes "incident_env_ok env" "cred_names_ok env d"
  shows "c' \<in> set (load_break_glass_creds env (save_break_glass_cred env c d)) \<longleftrightarrow>
           bg_id c' \<noteq> [] \<and> (if bg_id c' = bg_id c then c' = c else c' \<in> set (load_break_glass_creds env d))"
  using loaded_iff[OF save_names_ok[OF assms], of c' c] loaded_iff[OF assms(2), of c'] assms(1)
  by (auto simp: save_break_glass_cred_def map_of_put_key incident_env_ok_def)

text \<open>What may happen to the directory after a credential \<open>c\<close> has been used: any attempts to use any
  tokens, and new credentials with another id and another token.\<close>

inductive cred_later :: "incident_env \<Rightarrow> break_glass_cred \<Rightarrow> cred_dir \<Rightarrow> cred_dir \<Rightarrow> bool" for env c d where
  later_refl: "cred_later env c d d"
| later_use: "cred_later env c d d1 \<Longrightarrow> verify_and_consume_break_glass env now token by' d1 = (r, d2) \<Longrightarrow>
    cred_later env c d d2"
| later_generate: "cred_later env c d d1 \<Longrightarrow> generate_break_glass_cred env now pid purpose = (token, c') \<Longrightarrow>
    bg_id c' \<noteq> bg_id c \<Longrightarrow> bg_token_hash c' \<noteq> bg_token_hash c \<Longrightarrow>
    cred_later env c d (save_break_glass_cred env c' d1)"

definition used_up :: "incident_env \<Rightarrow> break_glass_cred \<Rightarrow> cred_dir \<Rightarrow> bool" where
  "used_up env c d \<longleftrightarrow> cred_names_ok env d \<and> is_used c \<and> c \<in> set (load_break_glass_creds env d) \<and>
     (\<forall>c' \<in> set (load_break_glass_creds env d). bg_token_hash c' = bg_token_hash c \<longrightarrow> c' = c)"

lemma consume_cases:
  obtains e where "verify_and_consume_break_glass env now token by' d = (Inl e, d)"
  | c0 c1 where "verify_and_consume_break_glass env now token by' d = (Inr c1, save_break_glass_cred env c1 d)"
      "c0 \<in> set (load_break_glass_creds env d)" "\<not> is_used c0" "bg_token_hash c0 = hex_of env (sha256 env token)"
      "c1 = c0\<lparr>bg_used_at := Some now, bg_used_by := Some by'\<rparr>"
proof (cases "find (\<lambda>c. bg_token_hash c = hex_of env (sha256 env token)) (load_break_glass_creds env d)")
  case None
  then show ?thesis using that(1) by (simp add: verify_and_consume_break_glass_def Let_def)
next
  case (Some c0)
  then have "c0 \<in> set (load_break_glass_creds env d)" "bg_token_hash c0 = hex_of env (sha256 env token)"
    by (auto simp: find_Some_iff)
  with Some show ?thesis
    using that(1)[of TokenUsed] that(2)[OF _ _ _ _ refl, of c0]
    by (cases "is_used c0") (simp_all add: verify_and_consume_break_glass_def Let_def)
qed

lemma used_up_save:
  assumes "incident_env_ok env" "used_up env c d" "bg_id c' \<noteq> bg_id c" "bg_token_hash c' \<noteq> bg_token_hash c"
  shows "used_up env c (save_break_glass_cred env c' d)"
proof -
  have ok: "cred_names_ok env d" using assms(2) by (simp add: used_up_def)
  note mem = loaded_save[OF assms(1) ok, where c = c']
  have "bg_id c \<noteq> []" using assms(2) loaded_iff[OF ok, of c] by (simp add: used_up_def)
  then have "c \<in> set (load_break_glass_creds env (save_break_glass_cred env c' d))"
    using assms(2,3) by (simp add: mem used_up_def)
  moreover have "x = c" if "x \<in> set (load_break_glass_creds env (save_break_glass_cred env c' d))"
    "bg_token_hash x = bg_token_hash c" for x
    using that assms(2,4) by (auto simp: mem used_up_def split: if_splits)
  ultimately show ?thesis
    using assms(2) save_names_ok[OF assms(1) ok] by (simp add: used_up_def)
qed

lemma later_used_up:
  assumes "incident_env_ok env" "used_up env c d"
  shows "cred_later env c d d1 \<Longrightarrow> used_up env c d1"
proof (induction rule: cred_later.induct)
  case (later_use d1 now token by' r d2)
  show ?case
  proof (cases rule: consume_cases[of env now token by' d1])
    case (1 e)
    then show ?thesis using later_use by simp
  next
    case (2 c0 c1)
    then have d2: "d2 = save_break_glass_cred env c1 d1" using later_use.hyps by simp
    have "c0 \<noteq> c" using later_use.IH 2 by (auto simp: used_up_def)
    then have "bg_token_hash c1 \<noteq> bg_token_hash c" using later_use.IH 2 by (auto simp: used_up_def)
    moreover have "bg_id c1 \<noteq> bg_id c"
    proof
      assume "bg_id c1 = bg_id c"
      moreover have "cred_names_ok env d1" "c \<in> set (load_break_glass_creds env d1)"
        using later_use.IH by (simp_all add: used_up_def)
      ultimately have "c0 = c" using 2 loaded_iff[of env d1 c0] loaded_iff[of env d1 c] by auto
      with \<open>c0 \<noteq> c\<close> show False ..
    qed
    ultimately show ?thesis using used_up_save[OF assms(1) later_use.IH] d2 by simp
  qed
next
  case (later_generate d1 now pid purpose token c')
  then show ?case using used_up_save[OF assms(1)] by simp
qed (use assms in simp)

lemma used_up_refused:
  assumes "used_up env c d" "bg_token_hash c = hex_of env (sha256 env token)"
  shows "verify_and_consume_break_glass env now token by' d = (Inl TokenUsed, d)"
proof (cases "find (\<lambda>c. bg_token_hash c = hex_of env (sha256 env token)) (load_break_glass_creds env d)")
  case None
  then show ?thesis using assms by (auto simp: used_up_def find_None_iff)
next
  case (Some c0)
  then have "c0 \<in> set (load_break_glass_creds env d)" "bg_token_hash c0 = bg_token_hash c"
    using assms(2) by (auto simp: find_Some_iff)
  then have "c0 = c" using assms(1) unfolding used_up_def by blast
  then show ?thesis using Some assms by (simp add: verify_and_consume_break_glass_def used_up_def)
qed

lemma break_glass_once_parts:
  assumes "incident_env_ok env" "cred_names_ok env (sy_creds s)"
    and "bg_use env now u token s = (Inr c, t, events)"
    and "\<forall>c' \<in> set (load_break_glass_creds env (sy_creds s)). bg_token_hash c' = bg_token_hash c \<longrightarrow> bg_id c' = bg_id c"
    and "cred_later env c (sy_creds t) (sy_creds t1)"
  shows "allowed u \<and> events = [BreakGlassUsed (bg_id c) (u_username u) (bg_purpose c)] \<and>
     bg_used_at c = Some now \<and> bg_used_by c = Some (u_username u)"
    and "\<exists>c0. c0 \<in> set (load_break_glass_creds env (sy_creds s)) \<and> \<not> is_used c0 \<and> bg_id c0 = bg_id c"
    and "bg_use env now1 u1 token t1 = (Inl (if allowed u1 then TokenUsed else Forbidden), t1, [])"
proof -
  have al: "allowed u" using assms(3) by (auto simp: bg_use_def split: if_splits)
  obtain c0 where 1: "c0 \<in> set (load_break_glass_creds env (sy_creds s))" "\<not> is_used c0"
    "bg_token_hash c0 = hex_of env (sha256 env token)"
    "c = c0\<lparr>bg_used_at := Some now, bg_used_by := Some (u_username u)\<rparr>"
    "sy_creds t = save_break_glass_cred env c (sy_creds s)"
    "events = [BreakGlassUsed (bg_id c) (u_username u) (bg_purpose c)]"
    using assms(3) al by (cases rule: consume_cases[of env now token "u_username u" "sy_creds s"]) (auto simp: bg_use_def)
  then show "allowed u \<and> events = [BreakGlassUsed (bg_id c) (u_username u) (bg_purpose c)] \<and>
     bg_used_at c = Some now \<and> bg_used_by c = Some (u_username u)" using al by simp
  show "\<exists>c0. c0 \<in> set (load_break_glass_creds env (sy_creds s)) \<and> \<not> is_used c0 \<and> bg_id c0 = bg_id c"
    using 1 by auto
  have "bg_id c \<noteq> []" using 1 loaded_iff[OF assms(2)] by auto
  then have "c \<in> set (load_break_glass_creds env (sy_creds t))" "is_used c"
    using 1 by (simp_all add: loaded_save[OF assms(1,2)] is_used_def)
  moreover have "x = c" if "x \<in> set (load_break_glass_creds env (sy_creds t))" "bg_token_hash x = bg_token_hash c" for x
    using that assms(4) unfolding \<open>sy_creds t = _\<close> loaded_save[OF assms(1,2)] by (auto split: if_splits)
  ultimately have "used_up env c (sy_creds t)"
    using save_names_ok[OF assms(1,2)] by (simp add: used_up_def \<open>sy_creds t = _\<close>)
  then have "used_up env c (sy_creds t1)" using later_used_up[OF assms(1)] assms(5) by blast
  then have "verify_and_consume_break_glass env now1 token (u_username u1) (sy_creds t1) = (Inl TokenUsed, sy_creds t1)"
    using used_up_refused 1 by auto
  then show "bg_use env now1 u1 token t1 = (Inl (if allowed u1 then TokenUsed else Forbidden), t1, [])"
    by (simp add: bg_use_def)
qed

text \<open>C32: a break-glass token works once. A use that succeeds found the token's credential unused, marks
  it with the user and the time and reports it to the audit log; whatever tokens are tried and
  whatever other credentials are made afterwards, the token is refused from then on. Nobody without
  the permission to manage incidents can use one.\<close>

theorem break_glass_once:
  assumes "incident_env_ok env" "cred_names_ok env (sy_creds s)"
    and "bg_use env now u token s = (Inr c, t, events)"
    and "\<forall>c' \<in> set (load_break_glass_creds env (sy_creds s)). bg_token_hash c' = bg_token_hash c \<longrightarrow> bg_id c' = bg_id c"
    and "cred_later env c (sy_creds t) (sy_creds t1)"
  shows "allowed u \<and> events = [BreakGlassUsed (bg_id c) (u_username u) (bg_purpose c)] \<and>
    bg_used_at c = Some now \<and> bg_used_by c = Some (u_username u) \<and>
    (\<exists>c0. c0 \<in> set (load_break_glass_creds env (sy_creds s)) \<and> \<not> is_used c0 \<and> bg_id c0 = bg_id c) \<and>
    bg_use env now1 u1 token t1 = (Inl (if allowed u1 then TokenUsed else Forbidden), t1, [])"
  using break_glass_once_parts[OF assms] by simp

definition demo_cred :: break_glass_cred where
  "demo_cred = \<lparr>bg_id = ''i'', bg_purpose = ''p'', bg_token_hash = ''t'', bg_created_at = 0, bg_used_at = None, bg_used_by = None\<rparr>"

definition demo_cred_sys :: incident_sys where
  "demo_cred_sys = no_incident\<lparr>sy_creds := save_break_glass_cred demo_incident_env demo_cred []\<rparr>"

theorem break_glass_once_witness:
  "\<exists>c t events. bg_use demo_incident_env 5 (synthetic_admin 0) ''t'' demo_cred_sys = (Inr c, t, events) \<and>
     bg_use demo_incident_env 6 (synthetic_admin 0) ''t'' t = (Inl TokenUsed, t, [])"
proof -
  let ?c = "demo_cred\<lparr>bg_used_at := Some 5, bg_used_by := Some (u_username (synthetic_admin 0))\<rparr>"
  have ok: "cred_names_ok demo_incident_env (sy_creds demo_cred_sys)"
    using save_names_ok[OF demo_incident_env_ok, of "[]" demo_cred] by (simp add: demo_cred_sys_def cred_names_ok_def)
  have load: "load_break_glass_creds demo_incident_env (sy_creds demo_cred_sys) = [demo_cred]"
    using demo_incident_env_ok
    by (simp add: demo_cred_sys_def save_break_glass_cred_def load_break_glass_creds_def List.map_filter_def
        incident_env_ok_def) (simp add: demo_cred_def)
  have hash: "hex_of demo_incident_env (sha256 demo_incident_env ''t'') = ''t''"
    by (simp add: demo_incident_env_def)
  obtain t events where u: "bg_use demo_incident_env 5 (synthetic_admin 0) ''t'' demo_cred_sys = (Inr ?c, t, events)"
    by (simp add: bg_use_def admin_allowed verify_and_consume_break_glass_def load hash)
      (simp add: demo_cred_def is_used_def Let_def)
  have "bg_use demo_incident_env 6 (synthetic_admin 0) ''t'' t = (Inl TokenUsed, t, [])"
    using break_glass_once[OF demo_incident_env_ok ok u _ later_refl, of 6 "synthetic_admin 0"]
    by (simp add: load admin_allowed)
  with u show ?thesis by blast
qed

end
