(* ===== verification/Bootstrap.thy ===== *)
theory Bootstrap
  imports Model_Store
begin

section \<open>First start: finding, importing and downloading models\<close>

text \<open>
  \<open>crates/maranode-store/src/bootstrap.rs\<close>, \<open>defaults.rs\<close> and \<open>download.rs\<close>, over the model store. The models
  directory is part of the file system of the store. What the run meets outside is the record
  \<open>boot_env\<close>: Unicode lower-casing, how reading a file goes, which files the walk of a directory reaches,
  whether a file can be linked or copied, the answers of servers and of the user.
\<close>

record boot_env =
  be_store :: store_env
  be_lower :: "string \<Rightarrow> string"
  be_reader :: "path \<Rightarrow> files \<Rightarrow> (bytes option) list option"
  be_visible :: "path \<Rightarrow> bool"
  be_can_write :: "path \<Rightarrow> bool"
  be_fetch :: "string \<Rightarrow> fetch"
  be_rnd :: "model_id \<Rightarrow> import_random"
  be_yes :: bool
  be_tty :: bool
  be_answer :: "string option"

type_synonym 'a boot = "(store_error, 'a) result \<times> model_store"

definition then_do :: "'a boot \<Rightarrow> ('a \<Rightarrow> model_store \<Rightarrow> 'b boot) \<Rightarrow> 'b boot" where
  "then_do r f = (case r of (Inl e, st) \<Rightarrow> (Inl e, st) | (Inr a, st) \<Rightarrow> f a st)"

primrec each_do :: "('a \<Rightarrow> model_store \<Rightarrow> unit boot) \<Rightarrow> 'a list \<Rightarrow> model_store \<Rightarrow> unit boot" where
  "each_do f [] st = (Inr (), st)"
| "each_do f (x # xs) st = then_do (f x st) (\<lambda>_. each_do f xs)"

subsection \<open>Default models\<close>

record model_spec =
  sp_model_id :: model_id
  sp_model_type :: model_type
  sp_hf_repo :: string
  sp_hf_filename :: string
  sp_local_filename :: string
  sp_quant :: string
  sp_size_hint :: string

definition default_llm :: model_spec where
  "default_llm = \<lparr>sp_model_id = \<lparr>mid_name = ''qwen2.5'', mid_tag = ''7b''\<rparr>, sp_model_type = Llm,
     sp_hf_repo = ''bartowski/Qwen2.5-7B-Instruct-GGUF'', sp_hf_filename = ''Qwen2.5-7B-Instruct-Q4_K_M.gguf'',
     sp_local_filename = ''Qwen2.5-7B-Instruct-Q4_K_M.gguf'', sp_quant = ''Q4_K_M'', sp_size_hint = ''~4.4 GB''\<rparr>"

definition default_embedding :: model_spec where
  "default_embedding = \<lparr>sp_model_id = \<lparr>mid_name = ''bge-m3'', mid_tag = ''latest''\<rparr>, sp_model_type = Embedding,
     sp_hf_repo = ''gpustack/bge-m3-GGUF'', sp_hf_filename = ''bge-m3-Q4_K_M.gguf'',
     sp_local_filename = ''bge-m3-Q4_K_M.gguf'', sp_quant = ''Q4_K_M'', sp_size_hint = ''~420 MB''\<rparr>"

definition download_url :: "model_spec \<Rightarrow> string" where
  "download_url s = ''https://huggingface.co/'' @ sp_hf_repo s @ ''/resolve/main/'' @ sp_hf_filename s"

subsection \<open>Paths\<close>

definition file_name :: "path \<Rightarrow> string" where
  "file_name p = rev (takeWhile (\<lambda>c. c \<noteq> CHR ''/'') (rev p))"

text \<open>\<open>file_stem\<close> and \<open>extension\<close>: at the last dot, unless the name has none or begins with its only one.\<close>

definition name_split :: "string \<Rightarrow> string \<times> string option" where
  "name_split name =
     (let ext = rev (takeWhile (\<lambda>c. c \<noteq> CHR ''.'') (rev name));
          stem = take (length name - length ext - 1) name
      in if CHR ''.'' \<notin> set name \<or> stem = [] then (name, None) else (stem, Some ext))"

definition with_extension :: "path \<Rightarrow> string \<Rightarrow> path" where
  "with_extension p ext =
     (let name = file_name p in take (length p - length name) p @ fst (name_split name) @ ''.'' @ ext)"

definition to_ascii_lower :: "char \<Rightarrow> char" where
  "to_ascii_lower c = (if 65 \<le> (of_char c :: nat) \<and> (of_char c :: nat) \<le> 90 then char_of ((of_char c :: nat) + 32) else c)"

definition path_comps :: "path \<Rightarrow> string list" where
  "path_comps p = (let f = foldr (\<lambda>c (w, ws). if c = CHR ''/'' then ([], w # ws) else (c # w, ws)) p ([], [])
     in filter (\<lambda>w. w \<noteq> [] \<and> w \<noteq> ''.'') (fst f # snd f))"

definition find_gguf_files :: "boot_env \<Rightarrow> path \<Rightarrow> files \<Rightarrow> path list" where
  "find_gguf_files env dir fs =
     sort_key path_comps (filter (\<lambda>p. prefix (path_join dir []) p \<and> be_visible env p \<and>
        map_option (map to_ascii_lower) (snd (name_split (file_name p))) = Some ''gguf'') (remdups (map fst fs)))"

definition classify_gguf_name :: "string \<Rightarrow> model_type" where
  "classify_gguf_name name =
     (if contains_str name ''/rag/'' \<or> contains_str name ''/embed'' \<or> contains_str name ''/embedding'' \<or>
         contains_str name ''bge'' \<or> contains_str name ''embed'' \<or> contains_str name ''nomic'' \<or>
         contains_str name ''-e5'' \<or> contains_str name ''gte-''
      then Embedding else Llm)"

definition classify_gguf_path :: "boot_env \<Rightarrow> path \<Rightarrow> model_type" where
  "classify_gguf_path env p = classify_gguf_name (be_lower env p)"

text \<open>Every character of the stem that is no ASCII letter or digit, dot or dash becomes a dash; of a
  character of several bytes the first does.\<close>

definition ascii_alnum :: "char \<Rightarrow> bool" where
  "ascii_alnum c \<longleftrightarrow> (let n = (of_char c :: nat) in (48 \<le> n \<and> n \<le> 57) \<or> (65 \<le> n \<and> n \<le> 90) \<or> (97 \<le> n \<and> n \<le> 122))"

definition stem_id :: "string \<Rightarrow> string" where
  "stem_id stem = map to_ascii_lower (concat (map (\<lambda>c.
     if ascii_alnum c \<or> c = CHR ''.'' \<or> c = CHR ''-'' then [c]
     else if utf8_cont (of_char c) then [] else ''-'') stem))"

definition spec_for_local_file :: "boot_env \<Rightarrow> path \<Rightarrow> model_spec" where
  "spec_for_local_file env p =
     (let name = be_lower env (file_name p);
          model_type = classify_gguf_name name
      in if contains_str name ''qwen2.5'' \<and> contains_str name ''7b'' then default_llm
         else if contains_str name ''bge-m3'' \<or> contains_str name ''bge_m3'' then default_embedding
         else \<lparr>sp_model_id = \<lparr>mid_name = stem_id (fst (name_split (file_name p))), mid_tag = ''latest''\<rparr>,
               sp_model_type = model_type, sp_hf_repo = [], sp_hf_filename = [], sp_local_filename = [],
               sp_quant = ''unknown'', sp_size_hint = []\<rparr>)"

subsection \<open>Coverage\<close>

record model_coverage =
  has_llm :: bool
  has_embedding :: bool

fun add_type :: "model_coverage \<Rightarrow> model_type \<Rightarrow> model_coverage" where
  "add_type cov Llm = cov\<lparr>has_llm := True\<rparr>"
| "add_type cov Embedding = cov\<lparr>has_embedding := True\<rparr>"

definition no_coverage :: model_coverage where
  "no_coverage = \<lparr>has_llm = False, has_embedding = False\<rparr>"

definition coverage_from_manifests :: "model_manifest list \<Rightarrow> model_coverage" where
  "coverage_from_manifests models = foldl (\<lambda>cov m. add_type cov (mm_model_type m)) no_coverage models"

definition store_coverage :: "model_store \<Rightarrow> model_coverage" where
  "store_coverage st = coverage_from_manifests (store_list st)"

definition scan_models_dir :: "boot_env \<Rightarrow> path \<Rightarrow> files \<Rightarrow> model_coverage" where
  "scan_models_dir env dir fs =
     foldl (\<lambda>cov p. add_type cov (classify_gguf_path env p)) no_coverage (find_gguf_files env dir fs)"

definition missing_defaults :: "model_coverage \<Rightarrow> model_spec list" where
  "missing_defaults cov =
     (if \<not> has_llm cov then [default_llm] else []) @ (if \<not> has_embedding cov then [default_embedding] else [])"

text \<open>The answer of \<open>prompt_download\<close>; an error reading the terminal is the error of the run.\<close>

definition prompt_download :: "boot_env \<Rightarrow> bool \<Rightarrow> (store_error, bool) result" where
  "prompt_download env auto_yes =
     (if auto_yes \<or> be_yes env then Inr True
      else if \<not> be_tty env then Inr False
      else (case be_answer env of
          None \<Rightarrow> Inl IoError
        | Some line \<Rightarrow> (let answer = be_lower env (str_trim line) in Inr (answer = [] \<or> answer = ''y'' \<or> answer = ''yes''))))"

subsection \<open>Import, link and download\<close>

definition import_gguf :: "boot_env \<Rightarrow> path \<Rightarrow> model_id \<Rightarrow> model_type \<Rightarrow> string option \<Rightarrow> model_store \<Rightarrow> unit boot" where
  "import_gguf env p model_id model_type quant st =
     (if store_get st model_id \<noteq> None then (Inr (), st)
      else then_do (import_from_file (be_store env) (be_rnd env model_id) (be_reader env p (ms_files st)) model_id quant model_type st)
             (\<lambda>_ st. (Inr (), st)))"

definition import_local_file :: "boot_env \<Rightarrow> path \<Rightarrow> model_store \<Rightarrow> unit boot" where
  "import_local_file env p st =
     (let spec = spec_for_local_file env p
      in if store_get st (sp_model_id spec) \<noteq> None then (Inr (), st)
         else import_gguf env p (sp_model_id spec) (sp_model_type spec) (Some (sp_quant spec)) st)"

definition import_local_gguf :: "boot_env \<Rightarrow> path \<Rightarrow> model_store \<Rightarrow> unit boot" where
  "import_local_gguf env models_dir st = each_do (import_local_file env) (find_gguf_files env models_dir (ms_files st)) st"

definition link_or_copy :: "boot_env \<Rightarrow> path \<Rightarrow> path \<Rightarrow> model_store \<Rightarrow> unit boot" where
  "link_or_copy env src dest st =
     (case map_of (ms_files st) src of
        None \<Rightarrow> (Inl IoError, st)
      | Some c \<Rightarrow> if be_can_write env dest then (Inr (), st\<lparr>ms_files := put_key dest c (ms_files st)\<rparr>) else (Inl IoError, st))"

definition materialize_default :: "boot_env \<Rightarrow> path \<Rightarrow> model_spec \<Rightarrow> model_store \<Rightarrow> unit boot" where
  "materialize_default env models_dir spec st =
     (let dest = path_join models_dir (sp_local_filename spec)
      in if path_exists (ms_files st) dest then (Inr (), st)
         else if store_get st (sp_model_id spec) = None then (Inr (), st)
         else (case blob_path (be_store env) st (sp_model_id spec) of
             Inl e \<Rightarrow> (Inl e, st)
           | Inr src \<Rightarrow> link_or_copy env src dest st))"

definition materialize_defaults_from_store :: "boot_env \<Rightarrow> path \<Rightarrow> model_store \<Rightarrow> unit boot" where
  "materialize_defaults_from_store env models_dir =
     each_do (materialize_default env models_dir) [default_llm, default_embedding]"

definition ensure_default :: "boot_env \<Rightarrow> path \<Rightarrow> model_spec \<Rightarrow> model_store \<Rightarrow> unit boot" where
  "ensure_default env models_dir spec st =
     (let p = path_join models_dir (sp_local_filename spec)
      in if store_get st (sp_model_id spec) \<noteq> None then (Inr (), st)
         else if \<not> path_exists (ms_files st) p then (Inr (), st)
         else import_gguf env p (sp_model_id spec) (sp_model_type spec) (Some (sp_quant spec)) st)"

definition ensure_store_has_defaults :: "boot_env \<Rightarrow> path \<Rightarrow> model_store \<Rightarrow> unit boot" where
  "ensure_store_has_defaults env models_dir = each_do (ensure_default env models_dir) [default_llm, default_embedding]"

definition download_file :: "boot_env \<Rightarrow> string \<Rightarrow> path \<Rightarrow> model_store \<Rightarrow> unit boot" where
  "download_file env url dest st =
     (let part = with_extension dest ''part'';
          fs = remove_path part (ms_files st)
      in case be_fetch env url of
           Refused \<Rightarrow> (Inl DownloadFailed, st\<lparr>ms_files := fs\<rparr>)
         | Broken b \<Rightarrow> (Inl DownloadFailed, st\<lparr>ms_files := put_key part b fs\<rparr>)
         | Complete c \<Rightarrow>
             if be_can_write env dest then (Inr (), st\<lparr>ms_files := rename_path part dest (put_key part c fs)\<rparr>)
             else (Inl IoError, st\<lparr>ms_files := put_key part c fs\<rparr>))"

definition download_and_import :: "boot_env \<Rightarrow> path \<Rightarrow> model_spec \<Rightarrow> model_store \<Rightarrow> unit boot" where
  "download_and_import env models_dir spec st =
     (let dest = path_join models_dir (sp_local_filename spec)
      in then_do (if \<not> path_exists (ms_files st) dest then download_file env (download_url spec) dest st else (Inr (), st))
           (\<lambda>_. import_gguf env dest (sp_model_id spec) (sp_model_type spec) (Some (sp_quant spec))))"

definition maybe_bootstrap :: "boot_env \<Rightarrow> path \<Rightarrow> bool \<Rightarrow> bool \<Rightarrow> model_store \<Rightarrow> unit boot" where
  "maybe_bootstrap env models_dir skip yes st =
     (if skip then (Inr (), st)
      else then_do (import_local_gguf env models_dir st) (\<lambda>_ st.
           then_do (materialize_defaults_from_store env models_dir st) (\<lambda>_ st.
             let dir = scan_models_dir env models_dir (ms_files st)
             in if has_llm dir \<and> has_embedding dir then ensure_store_has_defaults env models_dir st
                else (let missing = missing_defaults dir
                  in if missing = [] then (Inr (), st)
                     else (case prompt_download env yes of
                         Inl e \<Rightarrow> (Inl e, st)
                       | Inr False \<Rightarrow> (Inr (), st)
                       | Inr True \<Rightarrow> each_do (download_and_import env models_dir) missing st)))))"

subsection \<open>What every step keeps\<close>

text \<open>No step takes a model away or damages the contents of one.\<close>

definition safe_step :: "boot_env \<Rightarrow> model_store \<Rightarrow> model_store \<Rightarrow> bool" where
  "safe_step env st st' \<longleftrightarrow> (\<forall>i m. store_get st i = Some m \<longrightarrow> store_get st' i = Some m) \<and>
     (store_ok (be_store env) st \<longrightarrow> store_ok (be_store env) st')"

lemma safe_refl [simp]: "safe_step env st st"
  by (simp add: safe_step_def)

lemma safe_trans: "safe_step env a b \<Longrightarrow> safe_step env b c \<Longrightarrow> safe_step env a c"
  by (simp add: safe_step_def)

text \<open>A loop over steps that keep the store and establish something that stays.\<close>

locale boot_loop =
  fixes env :: boot_env and dom :: "'a set" and f :: "'a \<Rightarrow> model_store \<Rightarrow> unit boot" and settled :: "'a \<Rightarrow> model_store \<Rightarrow> bool"
  assumes step_safe: "digest_ok (se_crypto (be_store env)) \<Longrightarrow> x \<in> dom \<Longrightarrow> f x st = (r, st') \<Longrightarrow> safe_step env st st'"
    and step_settles: "digest_ok (se_crypto (be_store env)) \<Longrightarrow> x \<in> dom \<Longrightarrow> f x st = (Inr (), st') \<Longrightarrow> settled x st'"
    and settled_stays: "settled x st \<Longrightarrow> safe_step env st st' \<Longrightarrow> settled x st'"
begin

lemma loop_safe:
  "digest_ok (se_crypto (be_store env)) \<Longrightarrow> set xs \<subseteq> dom \<Longrightarrow> each_do f xs st = (r, st') \<Longrightarrow> safe_step env st st'"
proof (induction xs arbitrary: st)
  case (Cons x xs)
  obtain r1 st1 where f: "f x st = (r1, st1)" by fastforce
  have safe: "safe_step env st st1" using step_safe[OF Cons.prems(1) _ f] Cons.prems(2) by simp
  show ?case
  proof (cases r1)
    case (Inl e)
    then show ?thesis using Cons.prems(3) f safe by (auto simp: then_do_def)
  next
    case (Inr u)
    then have "each_do f xs st1 = (r, st')" using Cons.prems(3) f by (simp add: then_do_def)
    then have "safe_step env st1 st'" using Cons.IH[OF Cons.prems(1)] Cons.prems(2) by simp
    then show ?thesis using safe safe_trans by blast
  qed
qed simp

lemma loop_settles:
  "digest_ok (se_crypto (be_store env)) \<Longrightarrow> set xs \<subseteq> dom \<Longrightarrow> each_do f xs st = (Inr (), st') \<Longrightarrow> x \<in> set xs \<Longrightarrow> settled x st'"
proof (induction xs arbitrary: st)
  case (Cons y ys)
  obtain r1 st1 where f: "f y st = (r1, st1)" by fastforce
  then have r1: "r1 = Inr ()" "each_do f ys st1 = (Inr (), st')"
    using Cons.prems(3) by (auto simp: then_do_def split: sum.splits)
  have safe: "safe_step env st1 st'" using loop_safe[OF Cons.prems(1) _ r1(2)] Cons.prems(2) by simp
  show ?case
  proof (cases "x = y")
    case True
    then have "settled x st1" using step_settles[OF Cons.prems(1), of x st] f r1(1) Cons.prems(2) by simp
    then show ?thesis using settled_stays safe by blast
  next
    case False
    then show ?thesis using Cons.IH[OF Cons.prems(1) _ r1(2)] Cons.prems(2,4) by simp
  qed
qed simp

end

lemma import_safe:
  assumes "digest_ok (se_crypto (be_store env))" "import_from_file (be_store env) rnd reader i quant ty st = (r, st')"
  shows "safe_step env st st'" "r = Inr m \<Longrightarrow> store_get st' i \<noteq> None"
proof -
  have "store_ok (be_store env) st \<Longrightarrow> store_ok (be_store env) st'"
    using store_step_ok[OF assms(1)] step_import[OF assms(2)] by blast
  moreover have "store_get st' j = Some x" if g: "store_get st j = Some x" for j x
  proof -
    have "x \<in> set (ms_db st)" "mm_model_id x = j" using g db_get_mem by (auto simp: store_get_def)
    then show ?thesis using import_cases[OF assms] g by (auto simp: store_get_def db_insert_iff db_get_snoc)
  qed
  ultimately show "safe_step env st st'" by (simp add: safe_step_def)
  show "r = Inr m \<Longrightarrow> store_get st' i \<noteq> None"
    using import_cases[OF assms] by (auto simp: store_get_def db_insert_iff db_get_snoc)
qed

lemma import_gguf_safe:
  assumes "digest_ok (se_crypto (be_store env))" "import_gguf env p i ty quant st = (r, st')"
  shows "safe_step env st st' \<and> (r = Inr () \<longrightarrow> store_get st' i \<noteq> None)"
proof (cases "store_get st i")
  case None
  obtain r1 st1 where imp: "import_from_file (be_store env) (be_rnd env i) (be_reader env p (ms_files st)) i quant ty st = (r1, st1)"
    by fastforce
  then show ?thesis using None assms(2) import_safe[OF assms(1) imp]
    by (cases r1) (auto simp: import_gguf_def then_do_def)
qed (use assms(2) in \<open>auto simp: import_gguf_def\<close>)

text \<open>The names that the run writes have a dot, those of blobs have none.\<close>

lemma file_name_join: "CHR ''/'' \<notin> set n \<Longrightarrow> file_name (path_join d n) = n"
proof -
  assume n: "CHR ''/'' \<notin> set n"
  have "takeWhile (\<lambda>c. c \<noteq> CHR ''/'') (rev n @ rest) = rev n" if "rest = [] \<or> hd rest = CHR ''/''" for rest
    using n that by (subst takeWhile_append2) (auto simp: takeWhile_eq_Nil_iff)
  then show ?thesis by (auto simp: file_name_def path_join_def hd_rev)
qed

lemma dotted_not_blob:
  assumes "is_sha256_hex sha" "CHR ''.'' \<in> set (file_name p)"
  shows "p \<noteq> blob_file env sha"
proof
  assume "p = blob_file env sha"
  moreover have "file_name (blob_file env sha) = ''sha256-'' @ sha"
    using is_sha256_hex_no_path(1)[OF assms(1)] unfolding blob_file_def by (intro file_name_join) simp
  ultimately show False using assms is_sha256_hex_no_path(2)[OF assms(1)] by simp
qed

lemma write_safe:
  assumes "CHR ''.'' \<in> set (file_name p)"
  shows "safe_step env st (st\<lparr>ms_files := put_key p c (ms_files st)\<rparr>)" "safe_step env st (st\<lparr>ms_files := remove_path p (ms_files st)\<rparr>)"
proof -
  have "blob_view (be_store env) (put_key p c (ms_files st)) = blob_view (be_store env) (ms_files st)"
    "blob_view (be_store env) (remove_path p (ms_files st)) = blob_view (be_store env) (ms_files st)"
    using blob_view_other[of p "be_store env"] dotted_not_blob[OF _ assms] by metis+
  then show "safe_step env st (st\<lparr>ms_files := put_key p c (ms_files st)\<rparr>)" "safe_step env st (st\<lparr>ms_files := remove_path p (ms_files st)\<rparr>)"
    using store_ok_same by (simp_all add: safe_step_def store_get_def)
qed

lemma default_names:
  "spec \<in> {default_llm, default_embedding} \<Longrightarrow> CHR ''.'' \<in> set (file_name (path_join d (sp_local_filename spec)))"
  by (auto simp: default_llm_def default_embedding_def file_name_join)

lemma download_file_safe:
  assumes "CHR ''.'' \<in> set (file_name dest)" "download_file env url dest st = (r, st')"
  shows "safe_step env st st'"
proof -
  let ?part = "with_extension dest ''part''"
  have name: "CHR ''.'' \<in> set (file_name ?part)" by (simp add: with_extension_def file_name_def Let_def)
  let ?s1 = "st\<lparr>ms_files := remove_path ?part (ms_files st)\<rparr>"
  have s1: "safe_step env st ?s1" by (rule write_safe(2)[OF name])
  have s2: "safe_step env st (?s1\<lparr>ms_files := put_key ?part c (ms_files ?s1)\<rparr>)" for c
    by (rule safe_trans[OF s1 write_safe(1)[OF name]])
  have s3: "safe_step env st (st\<lparr>ms_files := rename_path ?part dest (put_key ?part c (remove_path ?part (ms_files st)))\<rparr>)" for c
  proof -
    let ?fs = "put_key ?part c (remove_path ?part (ms_files st))"
    have "rename_path ?part dest ?fs = put_key dest c (remove_path ?part ?fs)" by (simp add: rename_path_def map_of_put_key)
    moreover have "safe_step env st (st\<lparr>ms_files := put_key dest c (remove_path ?part ?fs)\<rparr>)"
      using safe_trans[OF safe_trans[OF s2[of c] write_safe(2)[OF name]] write_safe(1)[OF assms(1), of _ _ c]] by simp
    ultimately show ?thesis by simp
  qed
  show ?thesis using assms(2) s1 s2 s3
    by (auto simp: download_file_def Let_def split: fetch.splits if_splits)
qed

interpretation local_files: boot_loop env UNIV "import_local_file env"
  "\<lambda>p st. store_get st (sp_model_id (spec_for_local_file env p)) \<noteq> None" for env
proof
  fix p st r st' assume d: "digest_ok (se_crypto (be_store env))" and f: "import_local_file env p st = (r, st')"
  let ?s = "spec_for_local_file env p"
  note imp = import_gguf_safe[OF d, of p "sp_model_id ?s" "sp_model_type ?s" "Some (sp_quant ?s)" st]
  show "safe_step env st st'" using f imp by (auto simp: import_local_file_def Let_def split: if_splits)
next
  fix p st st' assume d: "digest_ok (se_crypto (be_store env))" and f: "import_local_file env p st = (Inr (), st')"
  let ?s = "spec_for_local_file env p"
  note imp = import_gguf_safe[OF d, of p "sp_model_id ?s" "sp_model_type ?s" "Some (sp_quant ?s)" st]
  show "store_get st' (sp_model_id ?s) \<noteq> None"
    using f imp by (auto simp: import_local_file_def Let_def split: if_splits)
qed (auto simp: safe_step_def)

interpretation materialize: boot_loop env "{default_llm, default_embedding}" "materialize_default env models_dir" "\<lambda>_ _. True"
  for env models_dir
proof
  fix spec st r st' assume s: "spec \<in> {default_llm, default_embedding}" and f: "materialize_default env models_dir spec st = (r, st')"
  let ?dest = "path_join models_dir (sp_local_filename spec)"
  have "safe_step env st (st\<lparr>ms_files := put_key ?dest c (ms_files st)\<rparr>)" for c
    by (rule write_safe(1)[OF default_names[OF s]])
  then show "safe_step env st st'" using f
    by (auto simp: materialize_default_def link_or_copy_def Let_def split: if_splits sum.splits option.splits)
qed simp_all

interpretation ensure: boot_loop env "{default_llm, default_embedding}" "ensure_default env models_dir" "\<lambda>_ _. True"
  for env models_dir
proof
  fix spec st r st' assume "digest_ok (se_crypto (be_store env))" "ensure_default env models_dir spec st = (r, st')"
  then show "safe_step env st st'"
    using import_gguf_safe by (auto simp: ensure_default_def Let_def split: if_splits)
qed simp_all

interpretation downloads: boot_loop env "{default_llm, default_embedding}" "download_and_import env models_dir"
  "\<lambda>spec st. store_get st (sp_model_id spec) \<noteq> None" for env models_dir
proof
  fix spec st r st'
  assume d: "digest_ok (se_crypto (be_store env))" and s: "spec \<in> {default_llm, default_embedding}"
    and f: "download_and_import env models_dir spec st = (r, st')"
  let ?dest = "path_join models_dir (sp_local_filename spec)"
  obtain r1 st1 where r1: "(if \<not> path_exists (ms_files st) ?dest then download_file env (download_url spec) ?dest st else (Inr (), st)) = (r1, st1)"
    by fastforce
  then have safe: "safe_step env st st1" using download_file_safe[OF default_names[OF s]] by (auto split: if_splits)
  show "safe_step env st st'"
  proof (cases r1)
    case (Inl e)
    then show ?thesis using f r1 safe by (simp add: download_and_import_def then_do_def Let_def)
  next
    case (Inr u)
    then have "import_gguf env ?dest (sp_model_id spec) (sp_model_type spec) (Some (sp_quant spec)) st1 = (r, st')"
      using f r1 by (simp add: download_and_import_def then_do_def Let_def)
    then show ?thesis using import_gguf_safe[OF d] safe safe_trans by blast
  qed
next
  fix spec st st'
  assume d: "digest_ok (se_crypto (be_store env))" and f: "download_and_import env models_dir spec st = (Inr (), st')"
  let ?dest = "path_join models_dir (sp_local_filename spec)"
  obtain st1 where "import_gguf env ?dest (sp_model_id spec) (sp_model_type spec) (Some (sp_quant spec)) st1 = (Inr (), st')"
    using f unfolding download_and_import_def then_do_def Let_def by (auto split: prod.splits sum.splits if_splits)
  then show "store_get st' (sp_model_id spec) \<noteq> None" using import_gguf_safe[OF d] by blast
qed (auto simp: safe_step_def)

lemma foldl_coverage:
  "has_llm (foldl (\<lambda>cov x. add_type cov (g x)) cov xs) \<longleftrightarrow> has_llm cov \<or> (\<exists>x \<in> set xs. g x = Llm)"
  "has_embedding (foldl (\<lambda>cov x. add_type cov (g x)) cov xs) \<longleftrightarrow> has_embedding cov \<or> (\<exists>x \<in> set xs. g x = Embedding)"
proof (induction xs arbitrary: cov)
  case (Cons x xs)
  { case 1 show ?case by (cases "g x") (auto simp: Cons) }
  { case 2 show ?case by (cases "g x") (auto simp: Cons) }
qed simp_all

lemma scan_kinds:
  "has_llm (scan_models_dir env dir fs) \<longleftrightarrow> (\<exists>p \<in> set (find_gguf_files env dir fs). classify_gguf_path env p = Llm)"
  "has_embedding (scan_models_dir env dir fs) \<longleftrightarrow> (\<exists>p \<in> set (find_gguf_files env dir fs). classify_gguf_path env p = Embedding)"
  by (simp_all add: scan_models_dir_def foldl_coverage no_coverage_def)

text \<open>The last stage: what is missing is downloaded.\<close>

definition boot_rest :: "boot_env \<Rightarrow> path \<Rightarrow> bool \<Rightarrow> model_store \<Rightarrow> unit boot" where
  "boot_rest env models_dir yes st =
     (let dir = scan_models_dir env models_dir (ms_files st)
      in if has_llm dir \<and> has_embedding dir then ensure_store_has_defaults env models_dir st
         else (let missing = missing_defaults dir
           in if missing = [] then (Inr (), st)
              else (case prompt_download env yes of
                  Inl e \<Rightarrow> (Inl e, st)
                | Inr False \<Rightarrow> (Inr (), st)
                | Inr True \<Rightarrow> each_do (download_and_import env models_dir) missing st)))"

lemma boot_rest_ok:
  assumes "digest_ok (se_crypto (be_store env))" "boot_rest env models_dir yes st = (r, st')"
  shows "safe_step env st st' \<and> (r = Inr () \<and> prompt_download env yes = Inr True \<longrightarrow>
    (\<forall>spec \<in> {default_llm, default_embedding}. store_get st' (sp_model_id spec) \<noteq> None \<or>
       (\<exists>p \<in> set (find_gguf_files env models_dir (ms_files st)). classify_gguf_path env p = sp_model_type spec)))"
proof -
  let ?dir = "scan_models_dir env models_dir (ms_files st)"
  have sub: "set (missing_defaults ?dir) \<subseteq> {default_llm, default_embedding}" by (auto simp: missing_defaults_def)
  have ty: "sp_model_type default_llm = Llm" "sp_model_type default_embedding = Embedding"
    by (simp_all add: default_llm_def default_embedding_def)
  consider (both) "has_llm ?dir \<and> has_embedding ?dir" | (some) "missing_defaults ?dir \<noteq> []" "\<not> (has_llm ?dir \<and> has_embedding ?dir)"
    by (cases "has_llm ?dir \<and> has_embedding ?dir") (auto simp: missing_defaults_def)
  then show ?thesis
  proof cases
    case both
    then show ?thesis
      using assms ensure.loop_safe[OF assms(1), of "[default_llm, default_embedding]" models_dir st r st'] ty
      by (simp add: boot_rest_def ensure_store_has_defaults_def Let_def scan_kinds)
  next
    case some
    note loop = downloads.loop_safe[OF assms(1) sub, of models_dir st r st'] downloads.loop_settles[OF assms(1) sub, of models_dir st st']
    show ?thesis
    proof (cases "prompt_download env yes = Inr True")
      case True
      then have run: "each_do (download_and_import env models_dir) (missing_defaults ?dir) st = (r, st')"
        using assms(2) some by (simp add: boot_rest_def Let_def del: each_do.simps)
      have "store_get st' (sp_model_id spec) \<noteq> None \<or> (\<exists>p \<in> set (find_gguf_files env models_dir (ms_files st)). classify_gguf_path env p = sp_model_type spec)"
        if r: "r = Inr ()" and spec: "spec \<in> {default_llm, default_embedding}" for spec
      proof (cases "spec \<in> set (missing_defaults ?dir)")
        case True
        then show ?thesis using loop(2) run r by blast
      next
        case False
        then show ?thesis using spec ty by (auto simp: missing_defaults_def scan_kinds split: if_splits)
      qed
      then show ?thesis using loop(1)[OF run] by blast
    next
      case False
      then show ?thesis using assms(2) some
        by (auto simp: boot_rest_def Let_def simp del: each_do.simps split: sum.splits bool.splits)
    qed
  qed
qed


definition demo_boot :: boot_env where
  "demo_boot = \<lparr>be_store = demo_store_env, be_lower = map to_ascii_lower,
     be_reader = (\<lambda>p fs. map_option (\<lambda>c. [Some c]) (map_of fs p)), be_visible = (\<lambda>_. True), be_can_write = (\<lambda>_. True),
     be_fetch = (\<lambda>_. Complete ''abc''), be_rnd = (\<lambda>i. demo_im\<lparr>im_id := mid_name i\<rparr>), be_yes = False, be_tty = False, be_answer = None\<rparr>"


end
