(* ===== verification/Receipt.thy ===== *)
theory Receipt
  imports Signature Rag_Engine
begin

section \<open>Inference receipts and their verifier\<close>

text \<open>
  \<open>crates/maranode-audit/src/sign.rs\<close>, \<open>crates/maranode-common/src/receipt.rs\<close>, \<open>build_receipt\<close> of
  \<open>crates/maranode-api/src/routes/chat.rs\<close> and the offline verifier \<open>crates/maranode-verifier/src/main.rs\<close>. A
  receipt is signed over its JSON without the signature; the fields stand in the order of the struct. Ed25519,
  hex and the printing of JSON are those of \<open>sig_env\<close>; SHA-256, the reading of a receipt and the file system
  are further parameters.
\<close>

record receipt_env = sig_env +
  sha256_fn :: "bytes \<Rightarrow> string"
  receipt_parse :: "bytes \<Rightarrow> inference_receipt option"

subsection \<open>sign.rs\<close>

record sign_dir =
  sd_key :: "bytes option"
  sd_pub :: "bytes option"

datatype sign_error = KeyWrongLength | SignIo

text \<open>\<open>random\<close> is the generated key; \<open>can_write\<close> tells for each of the two files whether it can be written.\<close>

definition load_or_create ::
  "'a sig_env_scheme \<Rightarrow> bytes \<Rightarrow> bool \<times> bool \<Rightarrow> sign_dir \<Rightarrow> (sign_error, bytes) result \<times> sign_dir" where
  "load_or_create env random can_write d =
     (case sd_key d of
        Some raw \<Rightarrow> (if length raw = 32 then (Inr raw, d) else (Inl KeyWrongLength, d))
      | None \<Rightarrow>
          if \<not> fst can_write then (Inl SignIo, d)
          else let d1 = d\<lparr>sd_key := Some random\<rparr>
               in if snd can_write then (Inr random, d1\<lparr>sd_pub := Some (ed_public env random)\<rparr>) else (Inl SignIo, d1))"

subsection \<open>receipt.rs\<close>

definition RECEIPT_VERSION :: nat where "RECEIPT_VERSION = 1"

datatype chat_role = RoleSystem | RoleUser | RoleAssistant

record chat_message =
  cm_role :: chat_role
  cm_content :: string

fun role_str :: "chat_role \<Rightarrow> string" where
  "role_str RoleSystem = ''system''"
| "role_str RoleUser = ''user''"
| "role_str RoleAssistant = ''assistant''"

definition message_json :: "chat_message \<Rightarrow> json" where
  "message_json m = JObj [(''role'', JStr (role_str (cm_role m))), (''content'', JStr (cm_content m))]"

definition source_ref_json :: "source_ref \<Rightarrow> json" where
  "source_ref_json s = JObj
     [(''chunk_id'', JStr (sr_chunk_id s)), (''doc_id'', JStr (sr_doc_id s)), (''source'', JStr (sr_source s)),
      (''doc_sha256'', JStr (sr_doc_sha256 s)), (''chunk_hash'', JStr (sr_chunk_hash s)), (''score'', JF32 (sr_score s))]"

definition env_fingerprint_json :: "env_fingerprint \<Rightarrow> json" where
  "env_fingerprint_json e = JObj
     [(''kernel_build_id'', JStr (kernel_build_id e)), (''thread_count'', jnat (thread_count e)), (''device_class'', JStr (device_class e))]"

definition decode_params_json :: "decode_params \<Rightarrow> json" where
  "decode_params_json d = JObj
     [(''temperature'', jopt JF32 (dp_temperature d)), (''top_k'', jopt jnat (dp_top_k d)), (''max_tokens'', jopt jnat (dp_max_tokens d)),
      (''seed'', jopt jnat (dp_seed d)), (''deterministic'', JBool (dp_deterministic d))]"

definition receipt_json :: "inference_receipt \<Rightarrow> json" where
  "receipt_json r = JObj
     ([(''version'', jnat (rc_version r)), (''receipt_id'', JStr (rc_receipt_id r)), (''request_id'', JStr (rc_request_id r)),
       (''timestamp'', JTime (rc_timestamp r)), (''model_id'', JStr (rc_model_id r)), (''model_sha256'', JStr (rc_model_sha256 r))]
      @ skip_none ''model_quant'' JStr (rc_model_quant r)
      @ [(''input_sha256'', JStr (rc_input_sha256 r)), (''output_sha256'', JStr (rc_output_sha256 r)),
         (''decode_params'', decode_params_json (rc_decode_params r)), (''tokens_in'', jnat (rc_tokens_in r)),
         (''tokens_out'', jnat (rc_tokens_out r)), (''signing_key_id'', JStr (rc_signing_key_id r))]
      @ skip_none ''tpm_pcr'' JStr (rc_tpm_pcr r)
      @ [(''env'', env_fingerprint_json (rc_env r))]
      @ (if rc_sources r = [] then [] else [(''sources'', JArr (map source_ref_json (rc_sources r)))])
      @ [(''grounded'', JBool (rc_grounded r))]
      @ skip_none ''signature'' JStr (rc_signature r))"

definition canonical_bytes :: "'a sig_env_scheme \<Rightarrow> inference_receipt \<Rightarrow> bytes" where
  "canonical_bytes env r = json_vec env (receipt_json (r\<lparr>rc_signature := None\<rparr>))"

definition hash_messages :: "receipt_env \<Rightarrow> chat_message list \<Rightarrow> string" where
  "hash_messages env messages = sha256_fn env (concat (map (\<lambda>m. json_vec env (message_json m)) messages))"

definition hash_output :: "receipt_env \<Rightarrow> string \<Rightarrow> string" where
  "hash_output env txt = sha256_fn env txt"

subsection \<open>build\_receipt\<close>

record receipt_request =
  rq_request_id :: string
  rq_model_id :: string
  rq_model_sha256 :: string
  rq_model_quant :: "string option"
  rq_messages :: "chat_message list"
  rq_output :: string
  rq_tokens_in :: nat
  rq_tokens_out :: nat
  rq_temperature :: f32
  rq_max_tokens :: nat
  rq_seed :: "nat option"
  rq_deterministic :: bool
  rq_chunks :: "retrieved_chunk list"

record receipt_rnd =
  rr_key :: bytes
  rr_can_write :: "bool \<times> bool"
  rr_uuid :: string
  rr_now :: timestamp
  rr_fingerprint :: env_fingerprint

definition chunk_source_ref :: "retrieved_chunk \<Rightarrow> source_ref" where
  "chunk_source_ref c = \<lparr>sr_chunk_id = rt_chunk_id c, sr_doc_id = rt_doc_id c, sr_source = rt_source c,
     sr_doc_sha256 = rt_doc_sha256 c, sr_chunk_hash = rt_content_hash c, sr_score = rt_score c\<rparr>"

definition unsigned_receipt :: "receipt_env \<Rightarrow> receipt_rnd \<Rightarrow> receipt_request \<Rightarrow> bytes \<Rightarrow> inference_receipt" where
  "unsigned_receipt env rnd q sk =
     \<lparr>rc_version = RECEIPT_VERSION, rc_receipt_id = rr_uuid rnd, rc_request_id = rq_request_id q, rc_timestamp = rr_now rnd,
      rc_model_id = rq_model_id q, rc_model_sha256 = rq_model_sha256 q, rc_model_quant = rq_model_quant q,
      rc_input_sha256 = hash_messages env (rq_messages q), rc_output_sha256 = hash_output env (rq_output q),
      rc_decode_params = \<lparr>dp_temperature = Some (rq_temperature q), dp_top_k = (if rq_deterministic q then Some 1 else None),
        dp_max_tokens = Some (rq_max_tokens q), dp_seed = rq_seed q, dp_deterministic = rq_deterministic q\<rparr>,
      rc_tokens_in = rq_tokens_in q, rc_tokens_out = rq_tokens_out q, rc_signing_key_id = hexenc env (ed_public env sk),
      rc_tpm_pcr = None, rc_env = rr_fingerprint rnd, rc_sources = map chunk_source_ref (rq_chunks q),
      rc_grounded = (rq_chunks q \<noteq> []), rc_signature = None\<rparr>"

definition build_receipt ::
  "receipt_env \<Rightarrow> receipt_rnd \<Rightarrow> receipt_request \<Rightarrow> sign_dir \<Rightarrow> inference_receipt option \<times> sign_dir" where
  "build_receipt env rnd q d =
     (case load_or_create env (rr_key rnd) (rr_can_write rnd) d of
        (Inl _, d1) \<Rightarrow> (None, d1)
      | (Inr sk, d1) \<Rightarrow>
          (let r = unsigned_receipt env rnd q sk; sig = ed_sign env sk (canonical_bytes env r)
           in (Some (r\<lparr>rc_signature := Some (hexenc env sig)\<rparr>), d1)))"

subsection \<open>The verifier\<close>

datatype verify_error =
    NoSignature | BadSignatureHex | BadSignatureLength | BadKeyHex | WrongKeyLength | BadPublicKey | SignatureMismatch
  | UnreadableFile string | HashMismatch string string

definition verify_signature :: "receipt_env \<Rightarrow> inference_receipt \<Rightarrow> (verify_error, unit) result" where
  "verify_signature env r =
     rbind (ok_or NoSignature (rc_signature r)) (\<lambda>sig_hex.
     rbind (ok_or BadSignatureHex (hexdec env sig_hex)) (\<lambda>sig.
       if length sig \<noteq> 64 then Inl BadSignatureLength
       else rbind (ok_or BadKeyHex (hexdec env (rc_signing_key_id r))) (\<lambda>key.
         if length key \<noteq> 32 then Inl WrongKeyLength
         else if \<not> ed_point env key then Inl BadPublicKey
         else if ed_verify env key (canonical_bytes env r) sig then Inr () else Inl SignatureMismatch)))"

definition check_file_hash :: "receipt_env \<Rightarrow> (string \<Rightarrow> bytes option) \<Rightarrow> string \<Rightarrow> string \<Rightarrow> (verify_error, unit) result" where
  "check_file_hash env files path expected =
     rbind (ok_or (UnreadableFile path) (files path)) (\<lambda>data.
       let got = sha256_fn env data in if got = expected then Inr () else Inl (HashMismatch expected got))"

record verifier_opts =
  vo_receipt :: "string option"
  vo_input :: "string option"
  vo_output :: "string option"

datatype arg_error = MissingArgument string | UnknownFlag string
datatype args_result = ArgsHelp | ArgsError arg_error | ArgsOk verifier_opts

fun parse_args :: "string list \<Rightarrow> verifier_opts \<Rightarrow> args_result" where
  "parse_args [] v = ArgsOk v"
| "parse_args (a # as) v =
     (if a = ''--help'' \<or> a = ''-h'' then ArgsHelp
      else if a = ''--input'' then
        (case as of [] \<Rightarrow> ArgsError (MissingArgument a) | f # as' \<Rightarrow> parse_args as' (v\<lparr>vo_input := Some f\<rparr>))
      else if a = ''--output'' then
        (case as of [] \<Rightarrow> ArgsError (MissingArgument a) | f # as' \<Rightarrow> parse_args as' (v\<lparr>vo_output := Some f\<rparr>))
      else if starts_with ''-'' a then ArgsError (UnknownFlag a)
      else parse_args as (v\<lparr>vo_receipt := Some a\<rparr>))"

datatype exit_code = ExitSuccess | ExitFailure

definition read_receipt :: "(string \<Rightarrow> bytes option) \<Rightarrow> bytes \<Rightarrow> string option \<Rightarrow> bytes option" where
  "read_receipt files stdin path = (case path of None \<Rightarrow> from_utf8 stdin | Some p \<Rightarrow> Option.bind (files p) from_utf8)"

definition succeeded :: "('e, unit) result \<Rightarrow> bool" where
  "succeeded r = (case r of Inr _ \<Rightarrow> True | Inl _ \<Rightarrow> False)"

definition verifier_main :: "receipt_env \<Rightarrow> (string \<Rightarrow> bytes option) \<Rightarrow> bytes \<Rightarrow> string list \<Rightarrow> exit_code" where
  "verifier_main env files stdin args =
     (case parse_args args \<lparr>vo_receipt = None, vo_input = None, vo_output = None\<rparr> of
        ArgsHelp \<Rightarrow> ExitSuccess
      | ArgsError _ \<Rightarrow> ExitFailure
      | ArgsOk opts \<Rightarrow>
          (case Option.bind (read_receipt files stdin (vo_receipt opts)) (receipt_parse env) of
             None \<Rightarrow> ExitFailure
           | Some r \<Rightarrow>
               (if succeeded (verify_signature env r)
                 \<and> (case vo_input opts of None \<Rightarrow> True | Some f \<Rightarrow> succeeded (check_file_hash env files f (rc_input_sha256 r)))
                 \<and> (case vo_output opts of None \<Rightarrow> True | Some f \<Rightarrow> succeeded (check_file_hash env files f (rc_output_sha256 r)))
                then ExitSuccess else ExitFailure)))"

subsection \<open>A built receipt verifies\<close>

definition hex_ok :: "'a sig_env_scheme \<Rightarrow> bool" where
  "hex_ok env \<longleftrightarrow> (\<forall>b. hexdec env (hexenc env b) = Some b)"

lemma canonical_bytes_signature [simp]: "canonical_bytes env (r\<lparr>rc_signature := s\<rparr>) = canonical_bytes env r"
  by (simp add: canonical_bytes_def)

definition resign :: "receipt_env \<Rightarrow> bytes \<Rightarrow> inference_receipt \<Rightarrow> inference_receipt" where
  "resign env sk r = (let r1 = r\<lparr>rc_signing_key_id := hexenc env (ed_public env sk)\<rparr>
     in r1\<lparr>rc_signature := Some (hexenc env (ed_sign env sk (canonical_bytes env r1)))\<rparr>)"

lemma verify_resigned:
  assumes "sig_ok env" "hex_ok env" "length sk = 32"
  shows "verify_signature env (resign env sk r) = Inr ()"
  using assms by (simp add: verify_signature_def resign_def Let_def sig_ok_def hex_ok_def)

lemma verify_signature_iff:
  "verify_signature env r = Inr () \<longleftrightarrow> (\<exists>s sig key. rc_signature r = Some s \<and> hexdec env s = Some sig \<and> length sig = 64 \<and>
     hexdec env (rc_signing_key_id r) = Some key \<and> length key = 32 \<and> ed_point env key \<and> ed_verify env key (canonical_bytes env r) sig)"
  by (auto simp: verify_signature_def rbind_Inr_iff split: if_splits)

lemma load_or_create_key:
  "load_or_create env random w d = (Inr sk, d') \<Longrightarrow> length random = 32 \<Longrightarrow> length sk = 32 \<and> sd_key d' = Some sk"
  by (auto simp: load_or_create_def Let_def split: option.splits if_splits)

lemma build_receipt_signed:
  assumes "build_receipt env rnd q d = (Some r, d')" "length (rr_key rnd) = 32"
  obtains sk where "length sk = 32" "sd_key d' = Some sk" "r = resign env sk (unsigned_receipt env rnd q sk)"
proof -
  obtain sk d1 where k: "load_or_create env (rr_key rnd) (rr_can_write rnd) d = (Inr sk, d1)"
    using assms(1) by (auto simp: build_receipt_def split: prod.splits sum.splits)
  with assms(1) have "d' = d1" "r = resign env sk (unsigned_receipt env rnd q sk)"
    by (simp_all add: build_receipt_def resign_def Let_def) (auto simp: unsigned_receipt_def)
  with load_or_create_key[OF k assms(2)] that show thesis by blast
qed

lemma resign_fields [simp]:
  "rc_input_sha256 (resign env sk r) = rc_input_sha256 r" "rc_output_sha256 (resign env sk r) = rc_output_sha256 r"
  by (simp_all add: resign_def Let_def)

lemma parse_three:
  assumes "\<not> starts_with ''-'' fr"
  shows "parse_args [fr, ''--input'', fi, ''--output'', fo] v = ArgsOk (v\<lparr>vo_receipt := Some fr, vo_input := Some fi, vo_output := Some fo\<rparr>)"
proof -
  have "fr \<noteq> ''--help''" "fr \<noteq> ''-h''" "fr \<noteq> ''--input''" "fr \<noteq> ''--output''" using assms by (auto simp: starts_with_def)
  with assms show ?thesis by simp
qed

lemma verifier_run:
  assumes "\<not> starts_with ''-'' fr" "files fr = Some b" "is_utf8 b" "receipt_parse env b = Some r"
  shows "verifier_main env files stdin [fr, ''--input'', fi, ''--output'', fo] = ExitSuccess \<longleftrightarrow>
    verify_signature env r = Inr () \<and> map_option (sha256_fn env) (files fi) = Some (rc_input_sha256 r) \<and>
    map_option (sha256_fn env) (files fo) = Some (rc_output_sha256 r)"
proof -
  have s: "succeeded (check_file_hash env files f e) \<longleftrightarrow> map_option (sha256_fn env) (files f) = Some e" for f e
    by (cases "files f") (simp_all add: succeeded_def check_file_hash_def Let_def)
  have v: "succeeded (verify_signature env r) \<longleftrightarrow> verify_signature env r = Inr ()"
    by (cases "verify_signature env r") (simp_all add: succeeded_def)
  show ?thesis
    using assms by (simp add: verifier_main_def parse_three s v read_receipt_def from_utf8_def del: parse_args.simps)
qed

text \<open>The offline verifier accepts every receipt the daemon builds, given the messages and the output it
  was built for; with another input or output it accepts only content of the same digest. The key is the one
  named in the receipt: any receipt, signed again with any key, passes the check of its signature.\<close>

lemma receipt_verifies_offline:
  assumes "sig_ok env" "hex_ok env" "length (rr_key rnd) = 32" "build_receipt env rnd q d = (Some r, d')"
    "is_utf8 (json_vec env (receipt_json r))" "receipt_parse env (json_vec env (receipt_json r)) = Some r"
    "\<not> starts_with ''-'' fr" "files fr = Some (json_vec env (receipt_json r))"
  shows "(verifier_main env files stdin [fr, ''--input'', fi, ''--output'', fo] = ExitSuccess \<longleftrightarrow>
       map_option (sha256_fn env) (files fi) = Some (sha256_fn env (concat (map (\<lambda>m. json_vec env (message_json m)) (rq_messages q)))) \<and>
       map_option (sha256_fn env) (files fo) = Some (sha256_fn env (rq_output q))) \<and>
     (\<forall>sk r1. length sk = 32 \<longrightarrow> verify_signature env (resign env sk r1) = Inr ())"
proof -
  obtain sk where r: "length sk = 32" "r = resign env sk (unsigned_receipt env rnd q sk)"
    using build_receipt_signed[OF assms(4,3)] by blast
  show ?thesis
    using verifier_run[of fr files, OF assms(7,8,5,6), of stdin fi fo] verify_resigned[OF assms(1,2)] r
    by (simp add: unsigned_receipt_def hash_messages_def hash_output_def)
qed

definition demo_receipt_env :: receipt_env where
  "demo_receipt_env = \<lparr>ed_public = (\<lambda>sk. sk), ed_sign = (\<lambda>sk m. sk @ take 32 (m @ replicate 32 CHR ''.'')),
     ed_verify = (\<lambda>pk m s. s = pk @ take 32 (m @ replicate 32 CHR ''.'')), ed_point = (\<lambda>_. True),
     b64_encode = (\<lambda>b. b), b64_decode = Some, hexenc = (\<lambda>b. b), hexdec = Some,
     json_vec = (\<lambda>j. case j of JObj ((_, JStr s) # _) \<Rightarrow> s | _ \<Rightarrow> ''{}''), sha256_fn = (\<lambda>b. b), receipt_parse = (\<lambda>_. None)\<rparr>"

definition demo_request :: receipt_request where
  "demo_request = \<lparr>rq_request_id = ''r1'', rq_model_id = ''m:1'', rq_model_sha256 = ''aa'', rq_model_quant = None,
     rq_messages = [\<lparr>cm_role = RoleUser, cm_content = ''hi''\<rparr>], rq_output = ''hello'', rq_tokens_in = 1, rq_tokens_out = 1,
     rq_temperature = 0, rq_max_tokens = 8, rq_seed = None, rq_deterministic = False, rq_chunks = []\<rparr>"

definition demo_receipt_rnd :: receipt_rnd where
  "demo_receipt_rnd = \<lparr>rr_key = replicate 32 CHR ''k'', rr_can_write = (True, True), rr_uuid = ''u'', rr_now = 5,
     rr_fingerprint = \<lparr>kernel_build_id = ''b'', thread_count = 4, device_class = ''cpu''\<rparr>\<rparr>"

end
