(* ===== verification/Classification.thy ===== *)
theory Classification
  imports Events Crypto
begin

section \<open>Data classification\<close>

text \<open>
  \<open>crates/maranode-common/src/classification.rs\<close>, and its enforcement in the chat route
  (\<open>crates/maranode-api/src/routes/chat.rs\<close>, block "classification enforcement"). The labels form a
  linear order by their level. A \<open>HashMap\<close> is an association list with distinct keys in the order of
  its iteration. A label is read from text after \<open>to_uppercase\<close>, which also maps some characters
  outside ASCII to ASCII letters (the dotless i, the long s, the sharp s and the Latin ligatures);
  what it maps to characters outside ASCII is left as it is, since no label holds such a character.
\<close>

datatype data_label = Public | Restricted | Confidential | Pii | Phi

primrec label_str :: "data_label \<Rightarrow> string" where
  "label_str Public = ''PUBLIC''"
| "label_str Restricted = ''RESTRICTED''"
| "label_str Confidential = ''CONFIDENTIAL''"
| "label_str Pii = ''PII''"
| "label_str Phi = ''PHI''"

primrec level :: "data_label \<Rightarrow> nat" where
  "level Public = 0"
| "level Restricted = 1"
| "level Confidential = 2"
| "level Pii = 3"
| "level Phi = 4"

lemma level_inj [simp]: "level a = level b \<longleftrightarrow> a = b"
  by (cases a; cases b) simp_all

instantiation data_label :: linorder
begin

definition less_eq_data_label :: "data_label \<Rightarrow> data_label \<Rightarrow> bool" where
  "a \<le> b \<longleftrightarrow> level a \<le> level b"

definition less_data_label :: "data_label \<Rightarrow> data_label \<Rightarrow> bool" where
  "a < b \<longleftrightarrow> level a < level b"

instance
proof
  fix x y z :: data_label
  show "(x < y) = (x \<le> y \<and> \<not> y \<le> x)" by (auto simp: less_eq_data_label_def less_data_label_def)
  show "x \<le> x" by (simp add: less_eq_data_label_def)
  show "x \<le> z" if "x \<le> y" "y \<le> z" using that by (simp add: less_eq_data_label_def)
  show "x = y" if "x \<le> y" "y \<le> x" using that by (simp add: less_eq_data_label_def le_antisym flip: level_inj)
  show "x \<le> y \<or> y \<le> x" by (auto simp: less_eq_data_label_def)
qed

end

definition upper_char :: "uchar \<Rightarrow> ustring" where
  "upper_char c =
     (if 97 \<le> c \<and> c \<le> 122 then [c - 32]
      else if c = 305 then ascii ''I''
      else if c = 383 then ascii ''S''
      else if c = 223 then ascii ''SS''
      else if c = 64256 then ascii ''FF''
      else if c = 64257 then ascii ''FI''
      else if c = 64258 then ascii ''FL''
      else if c = 64259 then ascii ''FFI''
      else if c = 64260 then ascii ''FFL''
      else if c = 64261 \<or> c = 64262 then ascii ''ST''
      else [c])"

definition to_uppercase :: "ustring \<Rightarrow> ustring" where
  "to_uppercase s = concat (map upper_char s)"

definition label_from_str :: "ustring \<Rightarrow> data_label option" where
  "label_from_str s =
     (let u = to_uppercase s in
      if u = ascii ''PUBLIC'' then Some Public
      else if u = ascii ''RESTRICTED'' then Some Restricted
      else if u = ascii ''CONFIDENTIAL'' then Some Confidential
      else if u = ascii ''PII'' then Some Pii
      else if u = ascii ''PHI'' then Some Phi
      else None)"

lemma to_uppercase_label [simp]: "to_uppercase (ascii (label_str l)) = ascii (label_str l)"
  by (cases l) (simp_all add: to_uppercase_def upper_char_def ascii_def)

interpretation label: string_enum "\<lambda>l. ascii (label_str l)" label_from_str to_uppercase
proof
  show "label_from_str (ascii (label_str l)) = Some l" for l
    unfolding label_from_str_def to_uppercase_label by (cases l) (simp_all add: ascii_def)
  show "to_uppercase s = ascii (label_str l)" if "label_from_str s = Some l" for s l
    using that by (auto simp: label_from_str_def Let_def split: if_splits)
qed

subsection \<open>The policy\<close>

record collection_policy =
  cp_label :: data_label
  cp_block :: bool

record classification_policy =
  pol_collections :: "(string \<times> collection_policy) list"
  pol_workspaces :: "(string \<times> data_label) list"

record violation_info =
  vi_collection :: string
  vi_required :: data_label
  vi_clearance :: data_label
  vi_block :: bool

definition default_policy :: classification_policy where
  "default_policy = \<lparr>pol_collections = [], pol_workspaces = []\<rparr>"

definition collection_label :: "classification_policy \<Rightarrow> string \<Rightarrow> collection_policy option" where
  "collection_label p c = map_of (pol_collections p) c"

definition workspace_clearance :: "classification_policy \<Rightarrow> string \<Rightarrow> data_label" where
  "workspace_clearance p slug = unwrap_or Public (map_of (pol_workspaces p) slug)"

definition check_access :: "classification_policy \<Rightarrow> string \<Rightarrow> string \<Rightarrow> violation_info option" where
  "check_access p slug c =
     (let clearance = workspace_clearance p slug
      in case map_of (pol_collections p) c of
           None \<Rightarrow> None
         | Some cp \<Rightarrow>
             (if clearance < cp_label cp
              then Some \<lparr>vi_collection = c, vi_required = cp_label cp, vi_clearance = clearance, vi_block = cp_block cp\<rparr>
              else None))"

definition check_all_collections :: "classification_policy \<Rightarrow> string \<Rightarrow> violation_info list" where
  "check_all_collections p slug =
     (let clearance = workspace_clearance p slug
      in map (\<lambda>(c, cp). \<lparr>vi_collection = c, vi_required = cp_label cp, vi_clearance = clearance, vi_block = cp_block cp\<rparr>)
           (filter (\<lambda>(_, cp). clearance < cp_label cp) (pol_collections p)))"

text \<open>\<open>HashMap::insert\<close>: the value of a key that is there is replaced.\<close>

definition set_collection_label ::
  "string \<Rightarrow> data_label \<Rightarrow> bool \<Rightarrow> classification_policy \<Rightarrow> classification_policy" where
  "set_collection_label c l block p =
     p\<lparr>pol_collections := put_key c \<lparr>cp_label = l, cp_block = block\<rparr> (pol_collections p)\<rparr>"

definition remove_collection :: "string \<Rightarrow> classification_policy \<Rightarrow> bool \<times> classification_policy" where
  "remove_collection c p =
     (map_of (pol_collections p) c \<noteq> None,
      p\<lparr>pol_collections := filter (\<lambda>(k, _). k \<noteq> c) (pol_collections p)\<rparr>)"

definition set_workspace :: "string \<Rightarrow> data_label \<Rightarrow> classification_policy \<Rightarrow> classification_policy" where
  "set_workspace slug l p = p\<lparr>pol_workspaces := put_key slug l (pol_workspaces p)\<rparr>"

text \<open>The check of a chat request that retrieved from \<open>collection\<close> (a star stands for all): every
  violation up to the first blocking one is logged, and that one refuses the request.\<close>

fun enforce_violations :: "violation_info list \<Rightarrow> violation_info list \<times> violation_info option" where
  "enforce_violations [] = ([], None)"
| "enforce_violations (v # vs) =
     (if vi_block v then ([v], Some v)
      else (let (logged, r) = enforce_violations vs in (v # logged, r)))"

definition enforce_classification ::
  "classification_policy \<Rightarrow> string \<Rightarrow> string \<Rightarrow> violation_info list \<times> violation_info option" where
  "enforce_classification p slug collection =
     enforce_violations
       (if collection = ''*'' then check_all_collections p slug
        else (case check_access p slug collection of None \<Rightarrow> [] | Some v \<Rightarrow> [v]))"

subsection \<open>No read above the clearance\<close>

definition policy_ok :: "classification_policy \<Rightarrow> bool" where
  "policy_ok p \<longleftrightarrow> distinct (map fst (pol_collections p)) \<and> distinct (map fst (pol_workspaces p))"

lemma policy_ok_steps:
  "policy_ok default_policy"
  "policy_ok p \<Longrightarrow> policy_ok (set_collection_label c l b p)"
  "policy_ok p \<Longrightarrow> policy_ok (snd (remove_collection c p))"
  "policy_ok p \<Longrightarrow> policy_ok (set_workspace s l p)"
  by (auto simp: policy_ok_def default_policy_def set_collection_label_def remove_collection_def
      set_workspace_def put_key_distinct distinct_map_filter)

definition violation_of :: "classification_policy \<Rightarrow> string \<Rightarrow> string \<Rightarrow> collection_policy \<Rightarrow> violation_info" where
  "violation_of p slug c cp =
     \<lparr>vi_collection = c, vi_required = cp_label cp, vi_clearance = workspace_clearance p slug, vi_block = cp_block cp\<rparr>"

lemma violation_of_simps [simp]:
  "vi_collection (violation_of p slug c cp) = c" "vi_block (violation_of p slug c cp) = cp_block cp"
  by (simp_all add: violation_of_def)

lemma check_access_iff:
  "check_access p slug c = Some v \<longleftrightarrow> (\<exists>cp. map_of (pol_collections p) c = Some cp \<and>
      workspace_clearance p slug < cp_label cp \<and> v = violation_of p slug c cp)"
  by (auto simp: check_access_def violation_of_def Let_def split: option.splits)

lemma check_all_iff:
  assumes "policy_ok p"
  shows "v \<in> set (check_all_collections p slug) \<longleftrightarrow> (\<exists>c. check_access p slug c = Some v)"
proof -
  have "set (check_all_collections p slug) = {violation_of p slug c cp | c cp.
      (c, cp) \<in> set (pol_collections p) \<and> workspace_clearance p slug < cp_label cp}"
    by (auto simp: check_all_collections_def violation_of_def Let_def image_iff)
  moreover have "(c, cp) \<in> set (pol_collections p) \<longleftrightarrow> map_of (pol_collections p) c = Some cp" for c cp
    using assms by (simp add: policy_ok_def)
  ultimately show ?thesis unfolding check_access_iff by blast
qed

lemma enforce_passes: "snd (enforce_violations vs) = None \<longleftrightarrow> (\<forall>v \<in> set vs. \<not> vi_block v)"
  by (induction vs) (auto split: prod.splits)

lemma enforce_logs: "snd (enforce_violations vs) = None \<Longrightarrow> fst (enforce_violations vs) = vs"
  by (induction vs) (auto split: prod.splits if_splits)

text \<open>A workspace reads above its clearance only where the policy says so. A request that
  retrieved from a collection (or from all) passes the check exactly when every labelled collection it
  covers is within the clearance of the workspace (Public when the policy names none) or is marked as
  not blocking; and then every collection above the clearance has been logged as a violation.\<close>

lemma classification_enforced:
  assumes "policy_ok p"
  shows "(snd (enforce_classification p slug coll) = None \<longleftrightarrow>
      (\<forall>c cp. map_of (pol_collections p) c = Some cp \<and> (coll = ''*'' \<or> c = coll) \<longrightarrow>
         cp_label cp \<le> workspace_clearance p slug \<or> \<not> cp_block cp)) \<and>
    (snd (enforce_classification p slug coll) = None \<longrightarrow>
      (\<forall>c cp. map_of (pol_collections p) c = Some cp \<and> (coll = ''*'' \<or> c = coll) \<and>
         workspace_clearance p slug < cp_label cp \<longrightarrow>
         c \<in> vi_collection ` set (fst (enforce_classification p slug coll))))"
proof -
  let ?vs = "if coll = ''*'' then check_all_collections p slug
        else (case check_access p slug coll of None \<Rightarrow> [] | Some v \<Rightarrow> [v])"
  have mem: "v \<in> set ?vs \<longleftrightarrow> (\<exists>c. (coll = ''*'' \<or> c = coll) \<and> check_access p slug c = Some v)" for v
    using check_all_iff[OF assms, of v slug] by (auto split: option.split)
  have pass: "snd (enforce_classification p slug coll) = None \<longleftrightarrow> (\<forall>v \<in> set ?vs. \<not> vi_block v)"
    unfolding enforce_classification_def by (rule enforce_passes)
  have first: "snd (enforce_classification p slug coll) = None \<longleftrightarrow>
      (\<forall>c cp. map_of (pol_collections p) c = Some cp \<and> (coll = ''*'' \<or> c = coll) \<longrightarrow>
         cp_label cp \<le> workspace_clearance p slug \<or> \<not> cp_block cp)"
    unfolding pass Ball_def mem check_access_iff not_less[symmetric] using violation_of_simps(2) by metis
  have seen: "c \<in> vi_collection ` set ?vs"
    if "map_of (pol_collections p) c = Some cp" "coll = ''*'' \<or> c = coll" "workspace_clearance p slug < cp_label cp" for c cp
  proof -
    have "violation_of p slug c cp \<in> set ?vs" unfolding mem check_access_iff using that by blast
    then show ?thesis by (metis imageI violation_of_simps(1))
  qed
  have "snd (enforce_classification p slug coll) = None \<Longrightarrow> fst (enforce_classification p slug coll) = ?vs"
    unfolding enforce_classification_def by (rule enforce_logs)
  then show ?thesis using first seen by (intro conjI impI allI) simp_all
qed

end
