(* ===== verification/Chat.thy ===== *)
theory Chat
  imports Receipt Limits Classification Incident Model_Store
begin

section \<open>The chat route\<close>

text \<open>
  \<open>crates/maranode-api/src/routes/chat.rs\<close>, with \<open>openai.rs\<close>, \<open>tee_encrypt.rs\<close> and the request types of
  \<open>crates/maranode-inference/src/types.rs\<close>: the path of a request from the guards over the quotas, the
  retrieval and the classification check to the engine, the audit events and the receipt. It composes the
  operations of the other theories in the order of \<open>run\<close>.

  The engine is a function of the request, for an answer and for a stream of tokens. Audit events are kept
  in the order in which they are handed to the log; the route ignores whether an append succeeds. The usage
  of the workspace is released when the guard is dropped, here at the end of the handler or of its stream.
\<close>

subsection \<open>openai.rs and types.rs\<close>

record oai_message =
  om_role :: string
  om_content :: string

record rag_options =
  ro_collection :: "string option"
  ro_top_k :: "nat option"
  ro_require_context :: bool

record chat_request =
  cr_model :: string
  cr_messages :: "oai_message list"
  cr_temperature :: f32
  cr_max_tokens :: nat
  cr_stream :: bool
  cr_stop :: "string list option"
  cr_rag :: "rag_options option"
  cr_with_receipt :: bool
  cr_deterministic :: bool
  cr_seed :: "nat option"

record rag_source =
  rs_index :: nat
  rs_source :: string
  rs_score :: f32
  rs_text :: string
  rs_title :: "string option"
  rs_author :: "string option"
  rs_page_number :: nat

record usage_info =
  ui_prompt_tokens :: nat
  ui_completion_tokens :: nat
  ui_total_tokens :: nat

record chat_response =
  cp_id :: string
  cp_created :: int
  cp_model :: string
  cp_content :: string
  cp_finish_reason :: string
  cp_usage :: usage_info
  cp_sources :: "rag_source list option"
  cp_receipt :: "inference_receipt option"

record inference_request =
  iq_request_id :: string
  iq_model :: model_id
  iq_model_path :: path
  iq_messages :: "chat_message list"
  iq_temperature :: f32
  iq_max_tokens :: nat
  iq_stop_sequences :: "string list"
  iq_stream :: bool
  iq_seed :: "nat option"
  iq_deterministic :: bool

record inference_response =
  ip_content :: string
  ip_tokens_in :: nat
  ip_tokens_out :: nat
  ip_device :: inference_device

record token =
  tk_text :: string
  tk_is_last :: bool

record chunk_event =
  ce_id :: string
  ce_created :: int
  ce_model :: string
  ce_role :: "string option"
  ce_content :: "string option"
  ce_finish_reason :: "string option"
  ce_sources :: "rag_source list option"

datatype sse_event = SseChunk chunk_event | SseError | SseDone

datatype chat_reply = ChatJson chat_response | ChatStream "sse_event list"

subsection \<open>tee\_encrypt.rs\<close>

definition tee_from_hex :: "crypto \<Rightarrow> string \<Rightarrow> bytes option" where
  "tee_from_hex cr hex_key = (case hex_decode cr hex_key of
      None \<Rightarrow> None
    | Some b \<Rightarrow> if length b \<noteq> 32 then None else Some b)"

definition tee_encrypt :: "crypto \<Rightarrow> bytes \<Rightarrow> bytes \<Rightarrow> bytes \<Rightarrow> bytes" where
  "tee_encrypt cr key nonce plaintext = nonce @ aead_seal cr key nonce plaintext"

definition tee_decrypt :: "crypto \<Rightarrow> bytes \<Rightarrow> bytes \<Rightarrow> bytes option" where
  "tee_decrypt cr key data = (if length data < 12 then None else aead_open cr key (take 12 data) (drop 12 data))"

definition encrypt_str :: "crypto \<Rightarrow> 'a sig_env_scheme \<Rightarrow> bytes \<Rightarrow> bytes \<Rightarrow> string \<Rightarrow> string" where
  "encrypt_str cr env key nonce s = b64_encode env (tee_encrypt cr key nonce s)"

definition decrypt_str :: "crypto \<Rightarrow> 'a sig_env_scheme \<Rightarrow> bytes \<Rightarrow> string \<Rightarrow> string option" where
  "decrypt_str cr env key b64 =
     Option.bind (b64_decode env b64) (\<lambda>raw. Option.bind (tee_decrypt cr key raw) from_utf8)"

subsection \<open>The state and the parameters\<close>

record chat_env =
  ce_receipt :: receipt_env
  ce_crypto :: crypto
  ce_rag :: rag_env
  ce_embedder :: embedder
  ce_engine :: "inference_request \<Rightarrow> (string, inference_response) result"
  ce_stream :: "inference_request \<Rightarrow> (string, token) result list"
  ce_device :: inference_device

record chat_rnd =
  cr_request_id :: string
  cr_now_secs :: nat
  cr_created :: int
  cr_duration_ms :: nat
  cr_tee_nonce :: bytes
  cr_receipt_rnd :: receipt_rnd

record chat_app =
  ca_isolation_ok :: bool
  ca_audit_frozen :: bool
  ca_air_gap :: bool
  ca_log_prompts :: bool
  ca_system_prompt :: "string option"
  ca_tee_key :: "string option"
  ca_rate :: rate_map
  ca_usage :: "string \<Rightarrow> workspace_usage"
  ca_models :: manifest_db
  ca_policy :: classification_policy
  ca_rag :: "(rag_config \<times> vector_store) option"
  ca_sign :: sign_dir
  ca_audit :: "(string \<times> audit_event) list"

datatype chat_error =
    Refused chat_refusal | EmptyMessages | TooManyMessages nat | InvalidModelName | ModelNotAllowed | RateLimited nat
  | UnknownModelId | QuotaExceeded quota_error | RagNotEnabled | NoUserMessage | RagInternal rag_error
  | ClassificationDenied violation_info | EngineBusy string | EngineFailed string

definition MAX_MESSAGES :: nat where "MAX_MESSAGES = 512"

definition log_event :: "string \<Rightarrow> audit_event \<Rightarrow> chat_app \<Rightarrow> chat_app" where
  "log_event actor e a = a\<lparr>ca_audit := ca_audit a @ [(actor, e)]\<rparr>"

subsection \<open>Up to the admission\<close>

definition check_request :: "chat_app \<Rightarrow> workspace \<Rightarrow> chat_request \<Rightarrow> (chat_error, model_id) result" where
  "check_request a ws req =
     (case chat_guards (ca_air_gap a) (ca_isolation_ok a) (ca_audit_frozen a) of
        Inl r \<Rightarrow> Inl (Refused r)
      | Inr _ \<Rightarrow>
          if cr_messages req = [] then Inl EmptyMessages
          else if length (cr_messages req) > MAX_MESSAGES then Inl (TooManyMessages (length (cr_messages req)))
          else case model_id_parse (cr_model req) of
            None \<Rightarrow> Inl InvalidModelName
          | Some mid \<Rightarrow> if \<not> allows_model ws (cr_model req) then Inl ModelNotAllowed else Inr mid)"

definition rate_step :: "nat \<Rightarrow> workspace \<Rightarrow> chat_app \<Rightarrow> (chat_error, unit) result \<times> chat_app" where
  "rate_step now ws a =
     (case ws_rate_limit_rpm ws of
        None \<Rightarrow> (Inr (), a)
      | Some rpm \<Rightarrow>
          (case check_workspace_rate now (ws_slug ws) rpm (ca_rate a) of
             (ok, m) \<Rightarrow> (if ok then Inr () else Inl (RateLimited rpm), a\<lparr>ca_rate := m\<rparr>)))"

definition admit_step :: "workspace \<Rightarrow> model_id \<Rightarrow> chat_app \<Rightarrow> (chat_error, model_manifest) result \<times> chat_app" where
  "admit_step ws mid a =
     (case db_get (ca_models a) mid of
        None \<Rightarrow> (Inl UnknownModelId, a)
      | Some manifest \<Rightarrow>
          (case admit ws (model_id_display mid) (mm_size_bytes manifest) (ca_usage a (ws_slug ws)) of
             Inl e \<Rightarrow> (Inl (QuotaExceeded e), a)
           | Inr u \<Rightarrow> (Inr manifest, a\<lparr>ca_usage := (ca_usage a)(ws_slug ws := u)\<rparr>)))"

definition drop_guard :: "workspace \<Rightarrow> model_id \<Rightarrow> chat_app \<Rightarrow> chat_app" where
  "drop_guard ws mid a =
     a\<lparr>ca_usage := (ca_usage a)(ws_slug ws := usage_release (model_id_display mid) (ca_usage a (ws_slug ws)))\<rparr>"

subsection \<open>Messages\<close>

definition role_of :: "string \<Rightarrow> chat_role" where
  "role_of s = (if s = ''system'' then RoleSystem else if s = ''assistant'' then RoleAssistant else RoleUser)"

definition tee_key :: "chat_env \<Rightarrow> chat_app \<Rightarrow> bytes option" where
  "tee_key env a = Option.bind (ca_tee_key a) (tee_from_hex (ce_crypto env))"

definition incoming_message :: "chat_env \<Rightarrow> bytes option \<Rightarrow> oai_message \<Rightarrow> chat_message" where
  "incoming_message env key m =
     \<lparr>cm_role = role_of (om_role m),
      cm_content = (case key of
          Some k \<Rightarrow> unwrap_or (om_content m) (decrypt_str (ce_crypto env) (ce_receipt env) k (om_content m))
        | None \<Rightarrow> om_content m)\<rparr>"

text \<open>The query of the retrieval is the last user message as it came in.\<close>

definition rag_query :: "chat_request \<Rightarrow> string option" where
  "rag_query req = map_option om_content (find (\<lambda>m. om_role m = ''user'') (rev (cr_messages req)))"

fun number_sources :: "nat \<Rightarrow> retrieved_chunk list \<Rightarrow> rag_source list" where
  "number_sources i [] = []"
| "number_sources i (c # cs) =
     \<lparr>rs_index = i, rs_source = rt_source c, rs_score = rt_score c, rs_text = rt_text c, rs_title = rt_title c,
      rs_author = rt_author c, rs_page_number = rt_page_number c\<rparr> # number_sources (i + 1) cs"

datatype grounding =
    Grounded "rag_source list option" "retrieved_chunk list" "chat_message list"
  | NoContext

fun log_violations :: "string \<Rightarrow> violation_info list \<Rightarrow> chat_app \<Rightarrow> chat_app" where
  "log_violations slug [] a = a"
| "log_violations slug (v # vs) a =
     log_violations slug vs (log_event ''classification''
       (DataClassificationViolation slug (vi_collection v) (label_str (vi_required v)) (label_str (vi_clearance v)) (vi_block v)) a)"

definition ground ::
  "chat_env \<Rightarrow> workspace \<Rightarrow> chat_request \<Rightarrow> chat_message list \<Rightarrow> chat_app \<Rightarrow> (chat_error, grounding) result \<times> chat_app" where
  "ground env ws req messages a =
     (case cr_rag req of
        None \<Rightarrow> (Inr (Grounded None [] messages), a)
      | Some opts \<Rightarrow>
          (case ca_rag a of
             None \<Rightarrow> (Inl RagNotEnabled, a)
           | Some (cfg, store) \<Rightarrow>
               (case rag_query req of
                  None \<Rightarrow> (Inl NoUserMessage, a)
                | Some query \<Rightarrow>
                    (case (case ro_collection opts of
                             Some col \<Rightarrow> retrieve (ce_rag env) (ce_embedder env) cfg store col query (ro_top_k opts)
                           | None \<Rightarrow> retrieve_all_collections (ce_rag env) (ce_embedder env) cfg store query (ro_top_k opts)) of
                       Inl e \<Rightarrow> (Inl (RagInternal e), a)
                     | Inr retrieved \<Rightarrow>
                         (let collection = unwrap_or ''*'' (ro_collection opts);
                              a1 = log_event ''api'' (RagRetrieval collection (sha256_fn (ce_receipt env) query) (length retrieved)) a;
                              (violations, blocked) = enforce_classification (ca_policy a1) (ws_slug ws) collection;
                              a2 = log_violations (ws_slug ws) violations a1
                          in case blocked of
                               Some v \<Rightarrow> (Inl (ClassificationDenied v), a2)
                             | None \<Rightarrow>
                                 (case build_context_prompt cfg retrieved of
                                    Some prompt \<Rightarrow>
                                      (Inr (Grounded (Some (number_sources 1 retrieved)) retrieved
                                         (\<lparr>cm_role = RoleSystem, cm_content = prompt\<rparr> # messages)), a2)
                                  | None \<Rightarrow>
                                      (Inr (if ro_require_context opts then NoContext else Grounded None retrieved messages), a2)))))))"

subsection \<open>The prompt\<close>

definition with_system_prompt :: "workspace \<Rightarrow> chat_app \<Rightarrow> chat_message list \<Rightarrow> chat_message list" where
  "with_system_prompt ws a messages =
     (case (case ws_system_prompt ws of Some p \<Rightarrow> Some p | None \<Rightarrow> ca_system_prompt a) of
        Some sp \<Rightarrow> \<lparr>cm_role = RoleSystem, cm_content = sp\<rparr> # messages
      | None \<Rightarrow> messages)"

fun role_debug :: "chat_role \<Rightarrow> string" where
  "role_debug RoleSystem = ''System''"
| "role_debug RoleUser = ''User''"
| "role_debug RoleAssistant = ''Assistant''"

definition prompt_sha256 :: "chat_env \<Rightarrow> chat_message list \<Rightarrow> string" where
  "prompt_sha256 env messages =
     sha256_fn (ce_receipt env) (concat (map (\<lambda>m. role_debug (cm_role m) @ cm_content m) messages))"

text \<open>\<open>(n as f64 * 3.5) as usize\<close> is exact for 32 bit integers.\<close>

definition max_prompt_chars :: "nat option \<Rightarrow> nat" where
  "max_prompt_chars context_length = (case context_length of
      Some ctx \<Rightarrow> (ctx - 512) * 7 div 2
    | None \<Rightarrow> 6000)"

text \<open>\<open>chars().take(n)\<close> on UTF-8: a character is a byte with the continuation bytes after it.\<close>

definition continuation :: "char \<Rightarrow> bool" where
  "continuation c = utf8_cont (of_char c)"

fun take_chars :: "nat \<Rightarrow> string \<Rightarrow> string" where
  "take_chars 0 s = []"
| "take_chars (Suc n) [] = []"
| "take_chars (Suc n) (c # s) = c # takeWhile continuation s @ take_chars n (dropWhile continuation s)"

definition truncation_mark :: string where
  "truncation_mark = [CHR 0x0A, CHR 0x0A] @ ''[context truncated]''"

definition content_len :: "chat_message list \<Rightarrow> nat" where
  "content_len messages = sum_list (map (length \<circ> cm_content) messages)"

definition truncate_messages :: "nat \<Rightarrow> chat_message list \<Rightarrow> chat_message list" where
  "truncate_messages max_chars messages =
     (if content_len messages > max_chars then
        (let rest_chars = content_len (drop 1 messages); budget = max (max_chars - rest_chars) 200
         in case messages of
              [] \<Rightarrow> []
            | sys # ms \<Rightarrow>
                if cm_role sys = RoleSystem \<and> length (cm_content sys) > budget
                then sys\<lparr>cm_content := take_chars budget (cm_content sys) @ truncation_mark\<rparr> # ms
                else messages)
      else messages)"

definition engine_request :: "chat_rnd \<Rightarrow> model_id \<Rightarrow> model_manifest \<Rightarrow> chat_message list \<Rightarrow> chat_request \<Rightarrow> inference_request" where
  "engine_request rnd mid manifest messages req =
     \<lparr>iq_request_id = cr_request_id rnd, iq_model = mid, iq_model_path = mm_blob_path manifest, iq_messages = messages,
      iq_temperature = (if cr_deterministic req then 0 else cr_temperature req), iq_max_tokens = cr_max_tokens req,
      iq_stop_sequences = unwrap_or [] (cr_stop req), iq_stream = cr_stream req,
      iq_seed = (if cr_deterministic req then Some 0 else cr_seed req), iq_deterministic = cr_deterministic req\<rparr>"

subsection \<open>The answer\<close>

definition chunk :: "chat_rnd \<Rightarrow> chat_request \<Rightarrow> string option \<Rightarrow> string option \<Rightarrow> string option \<Rightarrow> rag_source list option \<Rightarrow> sse_event" where
  "chunk rnd req role content finish sources = SseChunk
     \<lparr>ce_id = ''chatcmpl-'' @ cr_request_id rnd, ce_created = cr_created rnd, ce_model = cr_model req, ce_role = role,
      ce_content = content, ce_finish_reason = finish, ce_sources = sources\<rparr>"

definition no_context_text :: string where
  "no_context_text = ''This information is not in the provided documents.''"

definition no_context_reply :: "chat_rnd \<Rightarrow> chat_request \<Rightarrow> chat_reply" where
  "no_context_reply rnd req =
     (if cr_stream req then ChatStream
        [chunk rnd req (Some ''assistant'') (Some []) None None, chunk rnd req None (Some no_context_text) None None,
         chunk rnd req None None (Some ''stop'') (Some []), SseDone]
      else ChatJson
        \<lparr>cp_id = ''chatcmpl-'' @ cr_request_id rnd, cp_created = cr_created rnd, cp_model = cr_model req, cp_content = no_context_text,
         cp_finish_reason = ''stop'', cp_usage = \<lparr>ui_prompt_tokens = 0, ui_completion_tokens = 0, ui_total_tokens = 0\<rparr>,
         cp_sources = Some [], cp_receipt = None\<rparr>)"

definition stream_event :: "chat_rnd \<Rightarrow> chat_request \<Rightarrow> rag_source list option \<Rightarrow> (string, token) result \<Rightarrow> sse_event" where
  "stream_event rnd req sources res = (case res of
      Inl _ \<Rightarrow> SseError
    | Inr t \<Rightarrow> chunk rnd req None (if tk_is_last t then None else Some (tk_text t))
        (if tk_is_last t then Some ''stop'' else None) (if tk_is_last t then sources else None))"

definition stream_reply :: "chat_env \<Rightarrow> chat_rnd \<Rightarrow> chat_request \<Rightarrow> rag_source list option \<Rightarrow> inference_request \<Rightarrow> chat_reply" where
  "stream_reply env rnd req sources ireq =
     ChatStream (chunk rnd req (Some ''assistant'') (Some []) None None
       # map (stream_event rnd req sources) (ce_stream env ireq) @ [SseDone])"

definition receipt_query ::
  "chat_rnd \<Rightarrow> model_manifest \<Rightarrow> retrieved_chunk list \<Rightarrow> inference_request \<Rightarrow> inference_response \<Rightarrow> receipt_request" where
  "receipt_query rnd manifest chunks ireq resp =
     \<lparr>rq_request_id = cr_request_id rnd, rq_model_id = model_id_display (iq_model ireq), rq_model_sha256 = mm_sha256 manifest,
      rq_model_quant = mm_quantization manifest, rq_messages = iq_messages ireq, rq_output = ip_content resp,
      rq_tokens_in = ip_tokens_in resp, rq_tokens_out = ip_tokens_out resp, rq_temperature = iq_temperature ireq,
      rq_max_tokens = iq_max_tokens ireq, rq_seed = iq_seed ireq, rq_deterministic = iq_deterministic ireq, rq_chunks = chunks\<rparr>"

definition answer ::
  "chat_env \<Rightarrow> chat_rnd \<Rightarrow> chat_request \<Rightarrow> model_manifest \<Rightarrow> rag_source list option \<Rightarrow> retrieved_chunk list \<Rightarrow>
     inference_request \<Rightarrow> chat_app \<Rightarrow> (chat_error, chat_reply) result \<times> chat_app" where
  "answer env rnd req manifest sources chunks ireq a =
     (case ce_engine env ireq of
        Inl e \<Rightarrow>
          (Inl (if starts_with ''server busy'' e then EngineBusy e else EngineFailed e),
           log_event ''api'' (InferenceFailed (iq_request_id ireq) (iq_model ireq) e) a)
      | Inr resp \<Rightarrow>
          (let a1 = log_event ''api'' (InferenceComplete (iq_request_id ireq) (iq_model ireq) (ip_tokens_in resp) (ip_tokens_out resp)
                 (cr_duration_ms rnd) (ip_device resp) (if ca_log_prompts a then Some (ip_content resp) else None)) a;
               (receipt, sign) = build_receipt (ce_receipt env) (cr_receipt_rnd rnd) (receipt_query rnd manifest chunks ireq resp) (ca_sign a1);
               a2 = a1\<lparr>ca_sign := sign\<rparr>;
               a3 = (case receipt of None \<Rightarrow> a2 | Some r \<Rightarrow> log_event ''api'' (InferenceReceipt r) a2);
               out = (case tee_key env a of
                   Some key \<Rightarrow> encrypt_str (ce_crypto env) (ce_receipt env) key (cr_tee_nonce rnd) (ip_content resp)
                 | None \<Rightarrow> ip_content resp)
           in (Inr (ChatJson \<lparr>cp_id = ''chatcmpl-'' @ cr_request_id rnd, cp_created = cr_created rnd, cp_model = cr_model req,
                   cp_content = out, cp_finish_reason = ''stop'',
                   cp_usage = \<lparr>ui_prompt_tokens = ip_tokens_in resp, ui_completion_tokens = ip_tokens_out resp,
                     ui_total_tokens = u32_saturating_add (ip_tokens_in resp) (ip_tokens_out resp)\<rparr>,
                   cp_sources = sources, cp_receipt = (if cr_with_receipt req then receipt else None)\<rparr>), a3)))"

text \<open>What follows the grounding: the system prompt, the event of the start, the truncation, the engine.\<close>

definition infer ::
  "chat_env \<Rightarrow> chat_rnd \<Rightarrow> workspace \<Rightarrow> chat_request \<Rightarrow> model_id \<Rightarrow> model_manifest \<Rightarrow> rag_source list option \<Rightarrow> retrieved_chunk list \<Rightarrow>
     chat_message list \<Rightarrow> chat_app \<Rightarrow> (chat_error, chat_reply) result \<times> chat_app" where
  "infer env rnd ws req mid manifest sources chunks messages a =
     (let prompt = with_system_prompt ws a messages;
          a1 = log_event ''api'' (InferenceStart (cr_request_id rnd) mid (prompt_sha256 env prompt) (ce_device env)
            (if ca_log_prompts a then Some (json_vec (ce_receipt env) (JArr (map message_json prompt))) else None)) a;
          ireq = engine_request rnd mid manifest (truncate_messages (max_prompt_chars (mm_context_length manifest)) prompt) req
      in if cr_stream req then (Inr (stream_reply env rnd req sources ireq), a1)
         else answer env rnd req manifest sources chunks ireq a1)"

definition admitted_run ::
  "chat_env \<Rightarrow> chat_rnd \<Rightarrow> workspace \<Rightarrow> chat_request \<Rightarrow> model_id \<Rightarrow> model_manifest \<Rightarrow> chat_app \<Rightarrow>
     (chat_error, chat_reply) result \<times> chat_app" where
  "admitted_run env rnd ws req mid manifest a =
     (case ground env ws req (map (incoming_message env (tee_key env a)) (cr_messages req)) a of
        (Inl e, a1) \<Rightarrow> (Inl e, a1)
      | (Inr NoContext, a1) \<Rightarrow> (Inr (no_context_reply rnd req), a1)
      | (Inr (Grounded sources chunks messages), a1) \<Rightarrow> infer env rnd ws req mid manifest sources chunks messages a1)"

definition chat_run ::
  "chat_env \<Rightarrow> chat_rnd \<Rightarrow> workspace \<Rightarrow> chat_request \<Rightarrow> chat_app \<Rightarrow> (chat_error, chat_reply) result \<times> chat_app" where
  "chat_run env rnd ws req a =
     (case check_request a ws req of
        Inl e \<Rightarrow> (Inl e, a)
      | Inr mid \<Rightarrow>
          (case rate_step (cr_now_secs rnd) ws a of
             (Inl e, a1) \<Rightarrow> (Inl e, a1)
           | (Inr _, a1) \<Rightarrow>
               (case admit_step ws mid a1 of
                  (Inl e, a2) \<Rightarrow> (Inl e, a2)
                | (Inr manifest, a2) \<Rightarrow>
                    (case admitted_run env rnd ws req mid manifest a2 of (res, a3) \<Rightarrow> (res, drop_guard ws mid a3)))))"

subsection \<open>What each step leaves alone\<close>

definition violation_event :: "string \<Rightarrow> violation_info \<Rightarrow> string \<times> audit_event" where
  "violation_event slug v = (''classification'',
     DataClassificationViolation slug (vi_collection v) (label_str (vi_required v)) (label_str (vi_clearance v)) (vi_block v))"

text \<open>The events of a retrieval.\<close>

fun retrieval_event :: "string \<times> audit_event \<Rightarrow> bool" where
  "retrieval_event (actor, RagRetrieval c q n) = (actor = ''api'')"
| "retrieval_event (actor, DataClassificationViolation s c l m b) = (actor = ''classification'')"
| "retrieval_event _ = False"

lemma log_violations_eq: "log_violations slug vs a = a\<lparr>ca_audit := ca_audit a @ map (violation_event slug) vs\<rparr>"
  by (induction vs arbitrary: a) (simp_all add: log_event_def violation_event_def)

text \<open>What the grounding of a request needs besides the engine of retrieval.\<close>

definition grounding_allowed :: "workspace \<Rightarrow> chat_request \<Rightarrow> chat_app \<Rightarrow> bool" where
  "grounding_allowed ws req a = (case cr_rag req of
      None \<Rightarrow> True
    | Some opts \<Rightarrow> ca_rag a \<noteq> None \<and> snd (enforce_classification (ca_policy a) (ws_slug ws) (unwrap_or ''*'' (ro_collection opts))) = None)"

lemma ground_spec:
  assumes "ground env ws req ms a = (res, a1)"
  shows "\<exists>evs. a1 = a\<lparr>ca_audit := ca_audit a @ evs\<rparr> \<and> list_all retrieval_event evs \<and> (res = Inr g \<longrightarrow> grounding_allowed ws req a)"
proof (cases "cr_rag req")
  case None
  then show ?thesis using assms by (intro exI[of _ "[]"]) (auto simp: ground_def grounding_allowed_def)
next
  case (Some opts)
  show ?thesis
  proof (cases "\<exists>e. res = Inl e \<and> a1 = a")
    case True
    then show ?thesis by (intro exI[of _ "[]"]) auto
  next
    case False
    define coll where "coll = unwrap_or ''*'' (ro_collection opts)"
    obtain cfg store query hits where r: "ca_rag a = Some (cfg, store)" "rag_query req = Some query"
      "(case ro_collection opts of Some col \<Rightarrow> retrieve (ce_rag env) (ce_embedder env) cfg store col query (ro_top_k opts)
        | None \<Rightarrow> retrieve_all_collections (ce_rag env) (ce_embedder env) cfg store query (ro_top_k opts)) = Inr hits"
      using assms False Some unfolding ground_def by (auto split: option.splits prod.splits sum.splits)
    obtain vs b where e: "enforce_classification (ca_policy a) (ws_slug ws) coll = (vs, b)" by fastforce
    let ?evs = "(''api'', RagRetrieval coll (sha256_fn (ce_receipt env) query) (length hits)) # map (violation_event (ws_slug ws)) vs"
    have "a1 = a\<lparr>ca_audit := ca_audit a @ ?evs\<rparr> \<and> (b \<noteq> None \<longrightarrow> (\<exists>e. res = Inl e))"
      using assms Some r e by (auto simp: ground_def Let_def coll_def log_event_def log_violations_eq split: option.splits)
    moreover have "list_all retrieval_event ?evs" by (auto simp: list_all_iff violation_event_def)
    ultimately show ?thesis using Some r(1) e by (auto simp: grounding_allowed_def coll_def)
  qed
qed

lemma answer_spec:
  assumes "answer env rnd req manifest sources chunks ireq a = (res, a')"
  obtains (failed) e where "ce_engine env ireq = Inl e" "res = Inl (if starts_with ''server busy'' e then EngineBusy e else EngineFailed e)"
    "a' = a\<lparr>ca_audit := ca_audit a @ [(''api'', InferenceFailed (iq_request_id ireq) (iq_model ireq) e)]\<rparr>"
  | (complete) resp receipt sg r where "ce_engine env ireq = Inr resp"
    "build_receipt (ce_receipt env) (cr_receipt_rnd rnd) (receipt_query rnd manifest chunks ireq resp) (ca_sign a) = (receipt, sg)"
    "res = Inr (ChatJson r)" "cp_receipt r = (if cr_with_receipt req then receipt else None)"
    "cp_content r = (case tee_key env a of None \<Rightarrow> ip_content resp
       | Some key \<Rightarrow> encrypt_str (ce_crypto env) (ce_receipt env) key (cr_tee_nonce rnd) (ip_content resp))"
    "a' = a\<lparr>ca_sign := sg, ca_audit := ca_audit a @ [(''api'', InferenceComplete (iq_request_id ireq) (iq_model ireq) (ip_tokens_in resp)
       (ip_tokens_out resp) (cr_duration_ms rnd) (ip_device resp) (if ca_log_prompts a then Some (ip_content resp) else None))]
       @ (case receipt of None \<Rightarrow> [] | Some rc \<Rightarrow> [(''api'', InferenceReceipt rc)])\<rparr>"
proof (cases "ce_engine env ireq")
  case (Inl e)
  show thesis by (rule failed[OF Inl]) (use assms Inl in \<open>auto simp: answer_def log_event_def\<close>)
next
  case (Inr resp)
  obtain receipt sg where b: "build_receipt (ce_receipt env) (cr_receipt_rnd rnd) (receipt_query rnd manifest chunks ireq resp) (ca_sign a) = (receipt, sg)"
    by fastforce
  have "\<exists>r. res = Inr (ChatJson r) \<and> cp_receipt r = (if cr_with_receipt req then receipt else None) \<and>
      cp_content r = (case tee_key env a of None \<Rightarrow> ip_content resp
        | Some key \<Rightarrow> encrypt_str (ce_crypto env) (ce_receipt env) key (cr_tee_nonce rnd) (ip_content resp))"
    using assms Inr b by (auto simp: answer_def log_event_def Let_def)
  then obtain r where r: "res = Inr (ChatJson r)" "cp_receipt r = (if cr_with_receipt req then receipt else None)"
      "cp_content r = (case tee_key env a of None \<Rightarrow> ip_content resp
        | Some key \<Rightarrow> encrypt_str (ce_crypto env) (ce_receipt env) key (cr_tee_nonce rnd) (ip_content resp))" by blast
  show thesis
    by (rule complete[OF Inr b r]) (use assms Inr b in \<open>auto simp: answer_def log_event_def Let_def split: option.splits\<close>)
qed

text \<open>The run of a request: it is turned away before the admission, or admitted with a model of the table
  and released at the end.\<close>

lemma chat_run_cases:
  assumes "chat_run env rnd ws req a = (res, a')"
  obtains (refused) e where "res = Inl e" "\<And>m. e \<noteq> EngineBusy m" "\<And>m. e \<noteq> EngineFailed m" "\<exists>m. a' = a\<lparr>ca_rate := m\<rparr>"
    "\<And>env'. chat_run env' rnd ws req a = (res, a')"
  | (admitted) mid manifest u m a3 where "check_request a ws req = Inr mid" "fst (rate_step (cr_now_secs rnd) ws a) = Inr ()"
    "db_get (ca_models a) mid = Some manifest"
    "admit ws (model_id_display mid) (mm_size_bytes manifest) (ca_usage a (ws_slug ws)) = Inr u"
    "admitted_run env rnd ws req mid manifest (a\<lparr>ca_rate := m, ca_usage := (ca_usage a)(ws_slug ws := u)\<rparr>) = (res, a3)"
    "a' = drop_guard ws mid a3"
    "\<And>env' r4 a4. admitted_run env' rnd ws req mid manifest (a\<lparr>ca_rate := m, ca_usage := (ca_usage a)(ws_slug ws := u)\<rparr>) = (r4, a4) \<Longrightarrow>
       chat_run env' rnd ws req a = (r4, drop_guard ws mid a4)"
proof (cases "check_request a ws req")
  case (Inl e)
  then have e: "res = Inl e" "a' = a" using assms by (simp_all add: chat_run_def)
  show thesis
  proof (rule refused[OF e(1)])
    show "e \<noteq> EngineBusy m" "e \<noteq> EngineFailed m" for m
      using Inl by (auto simp: check_request_def split: sum.splits if_splits option.splits)
    show "\<exists>m. a' = a\<lparr>ca_rate := m\<rparr>" using e(2) by (intro exI[of _ "ca_rate a"]) simp
    show "chat_run env' rnd ws req a = (res, a')" for env' using Inl e by (simp add: chat_run_def)
  qed
next
  case (Inr mid)
  obtain r1 a1 where r: "rate_step (cr_now_secs rnd) ws a = (r1, a1)" by fastforce
  then obtain m where m: "a1 = a\<lparr>ca_rate := m\<rparr>" and r1: "r1 = Inr () \<or> (\<exists>rpm. r1 = Inl (RateLimited rpm))"
    by (auto simp: rate_step_def split: option.splits prod.splits if_splits intro: that[of "ca_rate a"])
  show thesis
  proof (cases "r1 = Inr ()")
    case False
    with r1 obtain rpm where "r1 = Inl (RateLimited rpm)" by blast
    then show thesis using assms Inr r m by (intro refused[of "RateLimited rpm"]) (auto simp: chat_run_def)
  next
    case True
    show thesis
    proof (cases "db_get (ca_models a) mid")
      case None
      then show thesis using assms Inr r m True by (intro refused[of UnknownModelId]) (auto simp: chat_run_def admit_step_def)
    next
      case (Some manifest)
      show thesis
      proof (cases "admit ws (model_id_display mid) (mm_size_bytes manifest) (ca_usage a (ws_slug ws))")
        case (Inl e)
        then show thesis using assms Inr r m True Some
          by (intro refused[of "QuotaExceeded e"]) (auto simp: chat_run_def admit_step_def)
      next
        case u: (Inr u)
        obtain res3 a3 where a3: "admitted_run env rnd ws req mid manifest (a\<lparr>ca_rate := m, ca_usage := (ca_usage a)(ws_slug ws := u)\<rparr>) = (res3, a3)"
          by fastforce
        have "res = res3" "a' = drop_guard ws mid a3"
          using assms Inr r m True Some u a3 by (simp_all add: chat_run_def admit_step_def)
        then show thesis using Inr r m True Some u a3 by (intro admitted[OF Inr _ Some u, of m a3]) (auto simp: chat_run_def admit_step_def)
      qed
    qed
  qed
qed

lemma admitted_run_cases:
  assumes "admitted_run env rnd ws req mid manifest a = (res, a')"
  obtains (ungrounded) e evs where "res = Inl e" "\<And>m. e \<noteq> EngineBusy m" "\<And>m. e \<noteq> EngineFailed m" "a' = a\<lparr>ca_audit := ca_audit a @ evs\<rparr>" "list_all retrieval_event evs"
  | (no_context) evs where "res = Inr (no_context_reply rnd req)" "a' = a\<lparr>ca_audit := ca_audit a @ evs\<rparr>" "list_all retrieval_event evs"
  | (inferred) sources chunks messages evs where "grounding_allowed ws req a" "list_all retrieval_event evs"
    "infer env rnd ws req mid manifest sources chunks messages (a\<lparr>ca_audit := ca_audit a @ evs\<rparr>) = (res, a')"
proof -
  obtain g a1 where g: "ground env ws req (map (incoming_message env (tee_key env a)) (cr_messages req)) a = (g, a1)" by fastforce
  obtain evs where evs: "a1 = a\<lparr>ca_audit := ca_audit a @ evs\<rparr>" "list_all retrieval_event evs" using ground_spec[OF g] by blast
  show thesis
  proof (cases g)
    case (Inl e)
    have "e \<noteq> EngineBusy m" "e \<noteq> EngineFailed m" for m
      using g Inl by (auto simp: ground_def Let_def split: option.splits sum.splits prod.splits)
    then show thesis using assms g Inl evs by (intro ungrounded[of e evs]) (simp_all add: admitted_run_def)
  next
    case (Inr gr)
    have al: "grounding_allowed ws req a" using ground_spec[OF g, of gr] Inr by auto
    show thesis
    proof (cases gr)
      case NoContext
      then show thesis using assms g Inr evs by (intro no_context[of evs]) (simp_all add: admitted_run_def)
    next
      case (Grounded sources chunks messages)
      then show thesis using assms g Inr evs al by (intro inferred) (simp_all add: admitted_run_def)
    qed
  qed
qed

subsection \<open>Usage is given back\<close>

definition usage_ok :: "workspace_usage \<Rightarrow> bool" where
  "usage_ok u \<longleftrightarrow> wu_concurrent u + 1 < 2 ^ 32 \<and> (\<forall>k sz n. wu_models u k = Some (sz, n) \<longrightarrow> 0 < n \<and> n + 1 < 2 ^ 32)"

lemma release_acquire: "usage_ok u \<Longrightarrow> usage_release key (usage_acquire key size_bytes u) = u"
proof (cases "wu_models u key")
  case None
  assume "usage_ok u"
  then show ?thesis using None
    by (auto simp: usage_ok_def usage_release_def usage_acquire_def u32_add_def Let_def fun_upd_idem)
next
  case (Some p)
  obtain sz n where p: "p = (sz, n)" by (cases p)
  assume "usage_ok u"
  then have "wu_concurrent u + 1 < 2 ^ 32" "0 < n" "n + 1 < 2 ^ 32" using Some p by (auto simp: usage_ok_def)
  then show ?thesis using Some p
    by (simp add: usage_release_def usage_acquire_def u32_add_def Let_def fun_upd_idem)
qed

lemma admit_acquires: "admit ws key size_bytes u = Inr u' \<Longrightarrow> u' = usage_acquire key size_bytes u"
  by (auto simp: admit_def rbind_Inr_iff)

lemma infer_spec:
  assumes "infer env rnd ws req mid manifest sources chunks messages a = (res, a')"
  obtains evs where "ca_audit a' = ca_audit a @ (''api'', InferenceStart (cr_request_id rnd) mid (prompt_sha256 env (with_system_prompt ws a messages))
      (ce_device env) (if ca_log_prompts a then Some (json_vec (ce_receipt env) (JArr (map message_json (with_system_prompt ws a messages)))) else None)) # evs"
    "ca_usage a' = ca_usage a"
    "(cr_stream req \<and> evs = [] \<and> (\<exists>s. res = Inr (ChatStream s))) \<or>
     (\<not> cr_stream req \<and> (\<exists>e. evs = [(''api'', InferenceFailed (cr_request_id rnd) mid e)] \<and> (res = Inl (EngineBusy e) \<or> res = Inl (EngineFailed e)))) \<or>
     (\<not> cr_stream req \<and> (\<exists>r ti to dev resp receipt. evs = (''api'', InferenceComplete (cr_request_id rnd) mid ti to (cr_duration_ms rnd) dev resp)
          # (case receipt of None \<Rightarrow> [] | Some rc \<Rightarrow> [(''api'', InferenceReceipt rc)]) \<and> res = Inr (ChatJson r) \<and>
        cp_receipt r = (if cr_with_receipt req then receipt else None) \<and> (\<forall>rc. receipt = Some rc \<longrightarrow> rc_request_id rc = cr_request_id rnd)))"
proof -
  define start where "start = InferenceStart (cr_request_id rnd) mid (prompt_sha256 env (with_system_prompt ws a messages))
      (ce_device env) (if ca_log_prompts a then Some (json_vec (ce_receipt env) (JArr (map message_json (with_system_prompt ws a messages)))) else None)"
  define ireq where "ireq = engine_request rnd mid manifest (truncate_messages (max_prompt_chars (mm_context_length manifest)) (with_system_prompt ws a messages)) req"
  have ids: "iq_request_id ireq = cr_request_id rnd" "iq_model ireq = mid" by (simp_all add: ireq_def engine_request_def)
  note that' = that[folded start_def]
  show thesis
  proof (cases "cr_stream req")
    case True
    then show thesis using assms
      by (intro that'[of "[]"]) (auto simp: infer_def Let_def log_event_def stream_reply_def start_def)
  next
    case False
    then have an: "answer env rnd req manifest sources chunks ireq (log_event ''api'' start a) = (res, a')"
      using assms by (simp add: infer_def Let_def start_def ireq_def)
    then show thesis
    proof (cases rule: answer_spec)
      case (failed e)
      then show thesis using False ids by (intro that'[of "[(''api'', InferenceFailed (cr_request_id rnd) mid e)]"]) (auto simp: log_event_def)
    next
      case (complete resp receipt sg r)
      have "rc_request_id rc = cr_request_id rnd" if "receipt = Some rc" for rc
        using complete(2) that
        by (auto simp: build_receipt_def unsigned_receipt_def receipt_query_def Let_def split: prod.splits sum.splits)
      with complete False ids show thesis
        by (intro that'[of "(''api'', InferenceComplete (cr_request_id rnd) mid (ip_tokens_in resp) (ip_tokens_out resp) (cr_duration_ms rnd) (ip_device resp)
            (if ca_log_prompts a then Some (ip_content resp) else None)) # (case receipt of None \<Rightarrow> [] | Some rc \<Rightarrow> [(''api'', InferenceReceipt rc)])"])
          (auto simp: log_event_def)
    qed
  qed
qed

subsection \<open>Every inference is gated and leaves its trail\<close>

definition is_start :: "string \<times> audit_event \<Rightarrow> bool" where
  "is_start x = (case snd x of InferenceStart rid m h d p \<Rightarrow> True | _ \<Rightarrow> False)"

lemma retrieval_not_start: "list_all retrieval_event evs \<Longrightarrow> x \<in> set evs \<Longrightarrow> \<not> is_start x"
  by (cases x rule: retrieval_event.cases) (auto simp: list_all_iff is_start_def)

text \<open>The events of one request after those of its retrieval, with the outcome of the request.\<close>

definition chat_trail :: "chat_rnd \<Rightarrow> chat_request \<Rightarrow> (string \<times> audit_event) list \<Rightarrow> (chat_error, chat_reply) result \<Rightarrow> bool" where
  "chat_trail rnd req post res \<longleftrightarrow>
     (post = [] \<and> ((\<exists>e. res = Inl e \<and> (\<forall>m. e \<noteq> EngineBusy m \<and> e \<noteq> EngineFailed m)) \<or> res = Inr (no_context_reply rnd req))) \<or>
     (\<exists>mid h dev p evs. post = (''api'', InferenceStart (cr_request_id rnd) mid h dev p) # evs \<and>
       ((cr_stream req \<and> evs = [] \<and> (\<exists>s. res = Inr (ChatStream s))) \<or>
        (\<not> cr_stream req \<and> (\<exists>e. evs = [(''api'', InferenceFailed (cr_request_id rnd) mid e)] \<and> (res = Inl (EngineBusy e) \<or> res = Inl (EngineFailed e)))) \<or>
        (\<not> cr_stream req \<and> (\<exists>r ti to dev' resp receipt.
           evs = (''api'', InferenceComplete (cr_request_id rnd) mid ti to (cr_duration_ms rnd) dev' resp)
             # (case receipt of None \<Rightarrow> [] | Some rc \<Rightarrow> [(''api'', InferenceReceipt rc)]) \<and>
           res = Inr (ChatJson r) \<and> cp_receipt r = (if cr_with_receipt req then receipt else None) \<and>
           (\<forall>rc. receipt = Some rc \<longrightarrow> rc_request_id rc = cr_request_id rnd)))))"

lemma drop_guard_audit [simp]: "ca_audit (drop_guard ws mid a) = ca_audit a"
  by (simp add: drop_guard_def)


text \<open>The conditions under which a request may reach the engine.\<close>

definition chat_allowed :: "chat_rnd \<Rightarrow> workspace \<Rightarrow> chat_request \<Rightarrow> chat_app \<Rightarrow> bool" where
  "chat_allowed rnd ws req a \<longleftrightarrow>
     \<not> ca_audit_frozen a \<and> (ca_air_gap a \<longrightarrow> ca_isolation_ok a) \<and> cr_messages req \<noteq> [] \<and> length (cr_messages req) \<le> MAX_MESSAGES \<and>
     allows_model ws (cr_model req) \<and>
     (\<forall>rpm. ws_rate_limit_rpm ws = Some rpm \<longrightarrow> fst (check_workspace_rate (cr_now_secs rnd) (ws_slug ws) rpm (ca_rate a))) \<and>
     (\<exists>mid manifest u. model_id_parse (cr_model req) = Some mid \<and> db_get (ca_models a) mid = Some manifest \<and>
        admit ws (model_id_display mid) (mm_size_bytes manifest) (ca_usage a (ws_slug ws)) = Inr u) \<and>
     grounding_allowed ws req a"

definition chat_started :: "chat_app \<Rightarrow> chat_app \<Rightarrow> bool" where
  "chat_started a a' \<longleftrightarrow> (\<exists>x \<in> set (drop (length (ca_audit a)) (ca_audit a')). is_start x)"

lemma check_request_Inr:
  "check_request a ws req = Inr mid \<Longrightarrow> \<not> ca_audit_frozen a \<and> (ca_air_gap a \<longrightarrow> ca_isolation_ok a) \<and> cr_messages req \<noteq> [] \<and>
     length (cr_messages req) \<le> MAX_MESSAGES \<and> allows_model ws (cr_model req) \<and> model_id_parse (cr_model req) = Some mid"
  by (auto simp: check_request_def chat_guards_def split: if_splits option.splits)

lemma rate_step_Inr:
  "fst (rate_step now ws a) = Inr () \<Longrightarrow> ws_rate_limit_rpm ws = Some rpm \<Longrightarrow> fst (check_workspace_rate now (ws_slug ws) rpm (ca_rate a))"
  by (auto simp: rate_step_def split: prod.splits if_splits)

lemma ground_engine: "ground (env\<lparr>ce_engine := f, ce_stream := g\<rparr>) ws req ms a = ground env ws req ms a"
proof -
  have "ce_rag (env\<lparr>ce_engine := f, ce_stream := g\<rparr>) = ce_rag env" "ce_embedder (env\<lparr>ce_engine := f, ce_stream := g\<rparr>) = ce_embedder env"
    "ce_receipt (env\<lparr>ce_engine := f, ce_stream := g\<rparr>) = ce_receipt env" by simp_all
  then show ?thesis unfolding ground_def by (simp only:)
qed

lemma admitted_engine_free:
  assumes "admitted_run env rnd ws req mid manifest a = (res, a')" "\<not> chat_started a a'"
  shows "admitted_run (env\<lparr>ce_engine := f, ce_stream := g\<rparr>) rnd ws req mid manifest a = (res, a')"
proof -
  let ?env = "env\<lparr>ce_engine := f, ce_stream := g\<rparr>"
  have "tee_key ?env a = tee_key env a" "incoming_message ?env = incoming_message env"
    by (auto simp: tee_key_def incoming_message_def fun_eq_iff split: option.splits)
  then have gr: "ground ?env ws req (map (incoming_message ?env (tee_key ?env a)) (cr_messages req)) a =
      ground env ws req (map (incoming_message env (tee_key env a)) (cr_messages req)) a"
    by (simp add: ground_engine)
  obtain q a1 where q: "ground env ws req (map (incoming_message env (tee_key env a)) (cr_messages req)) a = (q, a1)" by fastforce
  obtain evs where evs: "a1 = a\<lparr>ca_audit := ca_audit a @ evs\<rparr>" using ground_spec[OF q] by blast
  have "\<nexists>sources chunks messages. q = Inr (Grounded sources chunks messages)"
  proof
    assume "\<exists>sources chunks messages. q = Inr (Grounded sources chunks messages)"
    then obtain sources chunks messages where "infer env rnd ws req mid manifest sources chunks messages a1 = (res, a')"
      using assms(1) q by (auto simp: admitted_run_def)
    then obtain xs h p where "ca_audit a' = ca_audit a1 @ (''api'', InferenceStart (cr_request_id rnd) mid h (ce_device env) p) # xs"
      by (rule infer_spec) blast
    then show False using assms(2) evs by (auto simp: chat_started_def is_start_def)
  qed
  then show ?thesis using assms(1) gr q
    by (auto simp: admitted_run_def split: sum.splits grounding.splits)
qed

text \<open>C33: a chat request reaches the engine only past every guard. If a start is logged, the log is not
  frozen, the isolation is confirmed where an air gap is asked for, the model is allowed and known, the rate
  and the quotas of the workspace permit it and the classification check passed; if none is logged, the
  answer does not depend on the engine at all. Either way the usage of the workspace is given back.\<close>

theorem chat_gated:
  assumes run: "chat_run env rnd ws req a = (res, a')" and ok: "usage_ok (ca_usage a (ws_slug ws))"
  shows "(chat_started a a' \<longrightarrow> chat_allowed rnd ws req a) \<and>
    (\<not> chat_started a a' \<longrightarrow> (\<forall>f g. chat_run (env\<lparr>ce_engine := f, ce_stream := g\<rparr>) rnd ws req a = (res, a'))) \<and>
    ca_usage a' = ca_usage a"
  using run
proof (cases rule: chat_run_cases)
  case (refused e)
  then show ?thesis by (auto simp: chat_started_def)
next
  case (admitted mid manifest u m a3)
  let ?a = "a\<lparr>ca_rate := m, ca_usage := (ca_usage a)(ws_slug ws := u)\<rparr>"
  have st: "chat_started a a' \<longleftrightarrow> chat_started ?a a3" using admitted(6) by (simp add: chat_started_def)
  have free: "chat_run (env\<lparr>ce_engine := f, ce_stream := g\<rparr>) rnd ws req a = (res, a')" if "\<not> chat_started a a'" for f g
    using admitted(7)[OF admitted_engine_free[OF admitted(5)]] that st admitted(6) by simp
  have gr: "grounding_allowed ws req ?a = grounding_allowed ws req a" by (simp add: grounding_allowed_def split: option.splits)
  have "(chat_started ?a a3 \<longrightarrow> grounding_allowed ws req ?a) \<and> ca_usage a3 = ca_usage ?a"
    using admitted(5)
  proof (cases rule: admitted_run_cases)
    case (ungrounded e evs)
    then show ?thesis using retrieval_not_start[of evs] by (auto simp: chat_started_def)
  next
    case (no_context evs)
    then show ?thesis using retrieval_not_start[of evs] by (auto simp: chat_started_def)
  next
    case (inferred sources chunks messages evs)
    from inferred(3) have "ca_usage a3 = ca_usage ?a" by (rule infer_spec) simp
    with inferred(1) show ?thesis by simp
  qed
  moreover from this have "ca_usage a' = ca_usage a"
    using admitted(6) release_acquire[OF ok] admit_acquires[OF admitted(4)] by (simp add: drop_guard_def fun_upd_idem)
  ultimately show ?thesis
    using free st gr check_request_Inr[OF admitted(1)] rate_step_Inr[OF admitted(2)] admitted(3,4)
    by (auto simp: chat_allowed_def)
qed

subsection \<open>The receipt binds the answer\<close>

lemma decrypt_encrypt_str:
  assumes "crypto_ok cr" "sig_ok env" "length nonce = 12" "is_utf8 s"
  shows "decrypt_str cr env key (encrypt_str cr env key nonce s) = Some s"
  using assms by (simp add: decrypt_str_def encrypt_str_def tee_decrypt_def tee_encrypt_def crypto_ok_def sig_ok_def from_utf8_def)

text \<open>What the client reads in an answer: the content, decrypted where the daemon has a key for it.\<close>

definition client_text :: "chat_env \<Rightarrow> chat_app \<Rightarrow> string \<Rightarrow> string option" where
  "client_text env a content = (case tee_key env a of
      None \<Rightarrow> Some content
    | Some key \<Rightarrow> decrypt_str (ce_crypto env) (ce_receipt env) key content)"

lemma infer_answer:
  assumes "infer env rnd ws req mid manifest sources chunks messages a = (Inr (ChatJson r), a')"
  obtains ireq a1 where "answer env rnd req manifest sources chunks ireq a1 = (Inr (ChatJson r), a')" "iq_model ireq = mid"
    "iq_request_id ireq = cr_request_id rnd" "ca_tee_key a1 = ca_tee_key a"
proof -
  have "\<not> cr_stream req" using assms by (auto simp: infer_def Let_def stream_reply_def split: if_splits)
  with assms have "answer env rnd req manifest sources chunks
      (engine_request rnd mid manifest (truncate_messages (max_prompt_chars (mm_context_length manifest)) (with_system_prompt ws a messages)) req)
      (log_event ''api'' (InferenceStart (cr_request_id rnd) mid (prompt_sha256 env (with_system_prompt ws a messages)) (ce_device env)
        (if ca_log_prompts a then Some (json_vec (ce_receipt env) (JArr (map message_json (with_system_prompt ws a messages)))) else None)) a) = (Inr (ChatJson r), a')"
    by (simp add: infer_def Let_def)
  then show thesis by (rule that) (simp_all add: engine_request_def log_event_def)
qed

lemma chat_run_answer:
  assumes "chat_run env rnd ws req a = (Inr (ChatJson r), a')" "cp_receipt r = Some rc"
  obtains mid manifest chunks ireq resp a1 sg where "model_id_parse (cr_model req) = Some mid" "db_get (ca_models a) mid = Some manifest"
    "iq_model ireq = mid" "ce_engine env ireq = Inr resp" "ca_tee_key a1 = ca_tee_key a"
    "build_receipt (ce_receipt env) (cr_receipt_rnd rnd) (receipt_query rnd manifest chunks ireq resp) (ca_sign a1) = (Some rc, sg)"
    "cp_content r = (case tee_key env a1 of None \<Rightarrow> ip_content resp
       | Some key \<Rightarrow> encrypt_str (ce_crypto env) (ce_receipt env) key (cr_tee_nonce rnd) (ip_content resp))"
  using assms(1)
proof (cases rule: chat_run_cases)
  case (admitted mid manifest u m a3)
  from admitted(5) show thesis
  proof (cases rule: admitted_run_cases)
    case (no_context evs)
    then show thesis using assms(2) by (auto simp: no_context_reply_def split: if_splits)
  next
    case (inferred sources chunks messages evs)
    then obtain ireq a1 where i: "answer env rnd req manifest sources chunks ireq a1 = (Inr (ChatJson r), a3)" "iq_model ireq = mid"
      "ca_tee_key a1 = ca_tee_key a" by (auto elim: infer_answer)
    from i(1) show thesis
    proof (cases rule: answer_spec)
      case (complete resp receipt sg r')
      then have "receipt = Some rc" using assms(2) by (auto split: if_splits)
      with complete i show thesis using check_request_Inr[OF admitted(1)] admitted(3) by (intro that) auto
    qed simp
  qed simp
qed simp

text \<open>C35: a receipt that comes with an answer is signed by the key of the daemon and verifies, names the
  model of the request by the digest in the model table, and binds the very text the client reads, after
  decryption where answers are encrypted. It never carries PCR values.\<close>

theorem chat_receipt_binds:
  assumes "sig_ok (ce_receipt env)" "hex_ok (ce_receipt env)" "crypto_ok (ce_crypto env)"
    "length (rr_key (cr_receipt_rnd rnd)) = 32" "length (cr_tee_nonce rnd) = 12" "\<forall>i resp. ce_engine env i = Inr resp \<longrightarrow> is_utf8 (ip_content resp)"
    "chat_run env rnd ws req a = (Inr (ChatJson r), a')" "cp_receipt r = Some rc"
  shows "verify_signature (ce_receipt env) rc = Inr () \<and> rc_tpm_pcr rc = None \<and>
    (\<exists>mid manifest. model_id_parse (cr_model req) = Some mid \<and> db_get (ca_models a) mid = Some manifest \<and>
       rc_model_sha256 rc = mm_sha256 manifest \<and> rc_model_id rc = model_id_display mid) \<and>
    (\<exists>txt. client_text env a (cp_content r) = Some txt \<and> rc_output_sha256 rc = sha256_fn (ce_receipt env) txt)"
proof -
  obtain mid manifest chunks ireq resp a1 sg where c: "model_id_parse (cr_model req) = Some mid" "db_get (ca_models a) mid = Some manifest"
    "iq_model ireq = mid" "ce_engine env ireq = Inr resp" "ca_tee_key a1 = ca_tee_key a"
    "build_receipt (ce_receipt env) (cr_receipt_rnd rnd) (receipt_query rnd manifest chunks ireq resp) (ca_sign a1) = (Some rc, sg)"
    "cp_content r = (case tee_key env a1 of None \<Rightarrow> ip_content resp
       | Some key \<Rightarrow> encrypt_str (ce_crypto env) (ce_receipt env) key (cr_tee_nonce rnd) (ip_content resp))"
    by (rule chat_run_answer[OF assms(7,8)])
  obtain sk where sk: "length sk = 32" "rc = resign (ce_receipt env) sk (unsigned_receipt (ce_receipt env) (cr_receipt_rnd rnd) (receipt_query rnd manifest chunks ireq resp) sk)"
    using build_receipt_signed[OF c(6) assms(4)] by blast
  have "verify_signature (ce_receipt env) rc = Inr ()" unfolding sk(2) by (rule verify_resigned[OF assms(1,2) sk(1)])
  moreover have "rc_tpm_pcr rc = None" "rc_model_sha256 rc = mm_sha256 manifest" "rc_model_id rc = model_id_display mid"
    "rc_output_sha256 rc = sha256_fn (ce_receipt env) (ip_content resp)"
    using sk(2) c(3) by (simp_all add: resign_def unsigned_receipt_def receipt_query_def hash_output_def Let_def)
  moreover have "client_text env a (cp_content r) = Some (ip_content resp)"
  proof -
    have t: "tee_key env a1 = tee_key env a" using c(5) by (simp add: tee_key_def)
    have "is_utf8 (ip_content resp)" using assms(6) c(4) by blast
    then show ?thesis using c(7) decrypt_encrypt_str[OF assms(3,1,5)] by (simp add: client_text_def t split: option.splits)
  qed
  ultimately show ?thesis using c(1,2) by blast
qed

definition demo_chat_ws :: workspace where
  "demo_chat_ws = \<lparr>ws_id = ''w'', ws_slug = ''lab'', ws_name = ''Lab'', ws_api_key_hash = None, ws_model_allowlist = [],
     ws_rate_limit_rpm = None, ws_system_prompt = Some ''Be brief.'', ws_created_at = 0, ws_net_namespace = False,
     ws_max_concurrent_requests = Some 4, ws_max_models = None, ws_max_memory_bytes = None, ws_dek = None\<rparr>"

definition demo_chat_model :: model_manifest where
  "demo_chat_model = \<lparr>mm_id = ''1'', mm_model_id = \<lparr>mid_name = ''m'', mid_tag = ''1''\<rparr>, mm_sha256 = ''aa'', mm_size_bytes = 7,
     mm_quantization = None, mm_imported_at = ''t'', mm_blob_path = ''b'', mm_model_type = Llm, mm_context_length = Some 4096\<rparr>"

definition demo_chat_req :: chat_request where
  "demo_chat_req = \<lparr>cr_model = ''m:1'', cr_messages = [\<lparr>om_role = ''user'', om_content = ''hi''\<rparr>], cr_temperature = 0, cr_max_tokens = 8,
     cr_stream = False, cr_stop = None, cr_rag = None, cr_with_receipt = True, cr_deterministic = True, cr_seed = None\<rparr>"

definition demo_chat_env :: chat_env where
  "demo_chat_env = \<lparr>ce_receipt = demo_receipt_env, ce_crypto = demo_crypto, ce_rag = Rag_Engine.demo_env, ce_embedder = \<lparr>em_label = ''e'', em_embed = (\<lambda>_. None)\<rparr>,
     ce_engine = (\<lambda>_. Inr \<lparr>ip_content = ''hello'', ip_tokens_in = 1, ip_tokens_out = 1, ip_device = Cpu\<rparr>), ce_stream = (\<lambda>_. []), ce_device = Cpu\<rparr>"

definition demo_chat_rnd :: chat_rnd where
  "demo_chat_rnd = \<lparr>cr_request_id = ''r1'', cr_now_secs = 100, cr_created = 100, cr_duration_ms = 5,
     cr_tee_nonce = replicate 12 CHR ''n'', cr_receipt_rnd = demo_receipt_rnd\<rparr>"

definition demo_chat_app :: chat_app where
  "demo_chat_app = \<lparr>ca_isolation_ok = True, ca_audit_frozen = False, ca_air_gap = True, ca_log_prompts = False, ca_system_prompt = None,
     ca_tee_key = Some (replicate 32 CHR ''t''), ca_rate = Map.empty, ca_usage = (\<lambda>_. empty_usage), ca_models = [demo_chat_model],
     ca_policy = default_policy, ca_rag = None, ca_sign = \<lparr>sd_key = None, sd_pub = None\<rparr>, ca_audit = []\<rparr>"

lemmas demo_chat = demo_chat_ws_def demo_chat_model_def demo_chat_req_def demo_chat_env_def demo_chat_rnd_def demo_chat_app_def

lemma demo_chat_admitted:
  "check_request demo_chat_app demo_chat_ws demo_chat_req = Inr \<lparr>mid_name = ''m'', mid_tag = ''1''\<rparr>"
  "rate_step (cr_now_secs demo_chat_rnd) demo_chat_ws demo_chat_app = (Inr (), demo_chat_app)"
  "admit_step demo_chat_ws \<lparr>mid_name = ''m'', mid_tag = ''1''\<rparr> demo_chat_app =
     (Inr demo_chat_model, demo_chat_app\<lparr>ca_usage := (\<lambda>_. empty_usage)(''lab'' := usage_acquire ''m:1'' 7 empty_usage)\<rparr>)"
  by (simp_all add: demo_chat check_request_def chat_guards_def MAX_MESSAGES_def model_id_parse_def split_once_colon_def allows_model_def
      rate_step_def admit_step_def db_get_def admit_def model_id_display_def empty_usage_def)

lemma demo_chat_run:
  obtains r rc a' where "chat_run demo_chat_env demo_chat_rnd demo_chat_ws demo_chat_req demo_chat_app = (Inr (ChatJson r), a')"
    "cp_receipt r = Some rc" "chat_started demo_chat_app a'"
    "cp_content r = replicate 12 CHR ''n'' @ replicate 32 CHR ''t'' @ ''hello''"
proof -
  obtain r3 a3 where a3: "admitted_run demo_chat_env demo_chat_rnd demo_chat_ws demo_chat_req \<lparr>mid_name = ''m'', mid_tag = ''1''\<rparr> demo_chat_model
      (demo_chat_app\<lparr>ca_usage := (\<lambda>_. empty_usage)(''lab'' := usage_acquire ''m:1'' 7 empty_usage)\<rparr>) = (r3, a3)" by fastforce
  have "\<exists>r rc. r3 = Inr (ChatJson r) \<and> cp_receipt r = Some rc \<and> cp_content r = replicate 12 CHR ''n'' @ replicate 32 CHR ''t'' @ ''hello'' \<and>
      chat_started demo_chat_app a3"
    using a3
    by (auto simp: admitted_run_def ground_def infer_def answer_def demo_chat build_receipt_def load_or_create_def demo_receipt_rnd_def
        log_event_def tee_key_def tee_from_hex_def demo_crypto_def encrypt_str_def tee_encrypt_def demo_receipt_env_def chat_started_def is_start_def Let_def
        split: prod.splits)
  then obtain r rc where r: "r3 = Inr (ChatJson r)" "cp_receipt r = Some rc" "cp_content r = replicate 12 CHR ''n'' @ replicate 32 CHR ''t'' @ ''hello''"
      "chat_started demo_chat_app a3" by blast
  have "chat_run demo_chat_env demo_chat_rnd demo_chat_ws demo_chat_req demo_chat_app = (Inr (ChatJson r), drop_guard demo_chat_ws \<lparr>mid_name = ''m'', mid_tag = ''1''\<rparr> a3)"
    using a3 r(1) by (simp add: chat_run_def demo_chat_admitted)
  from that[OF this r(2) _ r(3)] r(4) show thesis by (simp add: chat_started_def)
qed

theorem chat_gated_witness:
  "\<exists>res a'. chat_run demo_chat_env demo_chat_rnd demo_chat_ws demo_chat_req demo_chat_app = (res, a') \<and> chat_started demo_chat_app a' \<and>
     chat_allowed demo_chat_rnd demo_chat_ws demo_chat_req demo_chat_app \<and> ca_usage a' = ca_usage demo_chat_app"
proof -
  obtain r rc a' where r: "chat_run demo_chat_env demo_chat_rnd demo_chat_ws demo_chat_req demo_chat_app = (Inr (ChatJson r), a')"
    "chat_started demo_chat_app a'" by (rule demo_chat_run)
  have "usage_ok (ca_usage demo_chat_app (ws_slug demo_chat_ws))" by (simp add: demo_chat usage_ok_def empty_usage_def)
  from chat_gated[OF r(1) this] r show ?thesis by blast
qed


theorem chat_receipt_binds_witness:
  "\<exists>r rc a'. chat_run demo_chat_env demo_chat_rnd demo_chat_ws demo_chat_req demo_chat_app = (Inr (ChatJson r), a') \<and> cp_receipt r = Some rc \<and>
     verify_signature demo_receipt_env rc = Inr () \<and> client_text demo_chat_env demo_chat_app (cp_content r) = Some ''hello''"
proof -
  obtain r rc a' where r: "chat_run demo_chat_env demo_chat_rnd demo_chat_ws demo_chat_req demo_chat_app = (Inr (ChatJson r), a')"
    "cp_receipt r = Some rc" "cp_content r = replicate 12 CHR ''n'' @ replicate 32 CHR ''t'' @ ''hello''" by (rule demo_chat_run)
  have "sig_ok demo_receipt_env" "hex_ok demo_receipt_env" by (simp_all add: sig_ok_def hex_ok_def demo_receipt_env_def min_def)
  then have "verify_signature demo_receipt_env rc = Inr () \<and> (\<exists>txt. client_text demo_chat_env demo_chat_app (cp_content r) = Some txt)"
    using chat_receipt_binds[OF _ _ _ _ _ _ r(1,2)] demo_crypto_ok
    by (auto simp: demo_chat_env_def demo_chat_rnd_def demo_receipt_rnd_def is_utf8_def ascii_def)
  moreover have "client_text demo_chat_env demo_chat_app (cp_content r) = Some ''hello''"
    by (simp add: r(3) client_text_def tee_key_def demo_chat_env_def demo_chat_app_def tee_from_hex_def demo_crypto_def decrypt_str_def
        demo_receipt_env_def tee_decrypt_def from_utf8_def is_utf8_def ascii_def)
  ultimately show ?thesis using r by blast
qed

end
