(* ===== verification/Attestation.thy ===== *)
theory Attestation
  imports Crypto Audit_Log
begin

section \<open>Attestation\<close>

text \<open>
  \<open>crates/maranode-attestation/src/tpm.rs\<close>, \<open>pcr_policy.rs\<close>, \<open>binary.rs\<close>, \<open>tee.rs\<close> and \<open>report.rs\<close>: the PCRs are
  read from the TPM device with hand-built commands, compared with a stored policy, and reported together
  with digests of the program and of the audit log. The device is a function from the number of an exchange
  and its command to the answer; SHA-256 and hex are those of the record \<open>crypto\<close>. A \<open>BTreeMap\<close> is a list
  of pairs that \<open>bt_insert\<close> keeps sorted by key.
\<close>

unbundle bit_operations_syntax

fun bt_insert :: "nat \<Rightarrow> 'v \<Rightarrow> (nat \<times> 'v) list \<Rightarrow> (nat \<times> 'v) list" where
  "bt_insert k v [] = [(k, v)]"
| "bt_insert k v ((k', v') # kvs) =
     (if k < k' then (k, v) # (k', v') # kvs else if k = k' then (k, v) # kvs else (k', v') # bt_insert k v kvs)"

definition bt_extend :: "(nat \<times> 'v) list \<Rightarrow> (nat \<times> 'v) list \<Rightarrow> (nat \<times> 'v) list" where
  "bt_extend m kvs = fold (\<lambda>(k, v). bt_insert k v) kvs m"

subsection \<open>tpm.rs\<close>

type_synonym pcrs = "(nat \<times> string) list"

datatype tpm_result = TpmAvailable pcrs | TpmError string | TpmUnavailable

datatype tpm_error =
    DeviceError string | ResponseTooShort nat | ReturnCode nat | TruncatedSelectionCount | TruncatedSelection
  | TruncatedDigestCount | TruncatedDigestSize | TruncatedDigest

record tpm_device =
  td_open_error :: "string option"
  td_write_error :: "nat \<Rightarrow> string option"
  td_read :: "nat \<Rightarrow> bytes \<Rightarrow> (string, bytes) result"

definition be_bytes :: "nat \<Rightarrow> nat \<Rightarrow> bytes" where
  "be_bytes n x = map (\<lambda>i. char_of (x div 256 ^ (n - 1 - i) mod 256)) [0..<n]"

definition from_be_bytes :: "bytes \<Rightarrow> nat" where
  "from_be_bytes b = foldl (\<lambda>n c. 256 * n + of_char c) 0 b"

text \<open>The mask of PCR indices from \<open>start\<close> up to \<open>end\<close>, one bit per index.\<close>

definition mask_step :: "nat list \<Rightarrow> nat \<Rightarrow> nat list" where
  "mask_step m i = (let byte = i div 8; bit = i mod 8
     in if byte < 3 then m[byte := (m ! byte) OR push_bit bit 1] else m)"

definition pcr_select_mask :: "nat \<Rightarrow> nat \<Rightarrow> nat list" where
  "pcr_select_mask start end' = foldl mask_step [0, 0, 0] [start..<min end' 24]"

definition build_pcr_read_cmd :: "nat list \<Rightarrow> bytes" where
  "build_pcr_read_cmd pcr_select =
     be_bytes 2 32769 @ be_bytes 4 20 @ be_bytes 4 382 @ be_bytes 4 1 @ be_bytes 2 11 @ be_bytes 1 3 @ map char_of pcr_select"

fun skip_selections :: "bytes \<Rightarrow> nat \<Rightarrow> nat \<Rightarrow> (tpm_error, nat) result" where
  "skip_selections resp 0 pos = Inr pos"
| "skip_selections resp (Suc n) pos =
     (if pos + 6 > length resp then Inl TruncatedSelection
      else skip_selections resp n (pos + 2 + 1 + of_char (resp ! (pos + 2))))"

text \<open>The index is computed in \<open>u8\<close>.\<close>

fun read_digests :: "crypto \<Rightarrow> bytes \<Rightarrow> nat \<Rightarrow> nat \<Rightarrow> nat \<Rightarrow> nat \<Rightarrow> pcrs \<Rightarrow> (tpm_error, pcrs) result" where
  "read_digests cr resp batch_start i 0 pos m = Inr m"
| "read_digests cr resp batch_start i (Suc n) pos m =
     (if pos + 2 > length resp then Inl TruncatedDigestSize
      else let digest_size = from_be_bytes (take 2 (drop pos resp)); pos1 = pos + 2
           in if pos1 + digest_size > length resp then Inl TruncatedDigest
              else read_digests cr resp batch_start (i + 1) n (pos1 + digest_size)
                (if digest_size = 32 then bt_insert ((batch_start + i mod 256) mod 256) (hex_encode cr (take 32 (drop pos1 resp))) m else m))"

definition parse_pcr_read_response :: "crypto \<Rightarrow> bytes \<Rightarrow> nat \<Rightarrow> (tpm_error, pcrs) result" where
  "parse_pcr_read_response cr resp batch_start =
     (if length resp < 10 then Inl (ResponseTooShort (length resp))
      else let rc = from_be_bytes (take 4 (drop 6 resp))
           in if rc \<noteq> 0 then Inl (ReturnCode rc)
              else if length resp < 18 then Inl TruncatedSelectionCount
              else let sel_count = from_be_bytes (take 4 (drop 14 resp))
                   in if sel_count = 0 then Inr []
                      else rbind (skip_selections resp sel_count 18) (\<lambda>pos.
                        if pos + 4 > length resp then Inl TruncatedDigestCount
                        else read_digests cr resp batch_start 0 (from_be_bytes (take 4 (drop pos resp))) (pos + 4) []))"

text \<open>One exchange with the device: the reply is read into a buffer of 4096 bytes.\<close>

definition read_batch :: "crypto \<Rightarrow> tpm_device \<Rightarrow> nat \<Rightarrow> nat \<Rightarrow> (tpm_error, pcrs) result" where
  "read_batch cr dev j batch_start =
     (let cmd = build_pcr_read_cmd (pcr_select_mask batch_start (batch_start + 8))
      in case td_write_error dev j of
           Some e \<Rightarrow> Inl (DeviceError e)
         | None \<Rightarrow>
             (case td_read dev j cmd of
                Inl e \<Rightarrow> Inl (DeviceError e)
              | Inr resp \<Rightarrow> parse_pcr_read_response cr (take 4096 resp) batch_start))"

definition try_read_pcrs_linux :: "crypto \<Rightarrow> tpm_device \<Rightarrow> (tpm_error, pcrs) result" where
  "try_read_pcrs_linux cr dev =
     (case td_open_error dev of
        Some e \<Rightarrow> Inl (DeviceError e)
      | None \<Rightarrow>
          rbind (read_batch cr dev 0 0) (\<lambda>b0.
          rbind (read_batch cr dev 1 8) (\<lambda>b1.
          rbind (read_batch cr dev 2 16) (\<lambda>b2.
            Inr (bt_extend (bt_extend (bt_extend [] b0) b1) b2)))))"

definition hex_digit :: "nat \<Rightarrow> char" where
  "hex_digit d = char_of (if d < 10 then 48 + d else 55 + d)"

definition show_hex8 :: "nat \<Rightarrow> string" where
  "show_hex8 x = map (\<lambda>i. hex_digit (x div 16 ^ (7 - i) mod 16)) [0..<8]"

fun tpm_error_text :: "tpm_error \<Rightarrow> string" where
  "tpm_error_text (DeviceError e) = e"
| "tpm_error_text (ResponseTooShort n) = ''response too short ('' @ show_nat n @ '' bytes)''"
| "tpm_error_text (ReturnCode rc) = ''TPM2_PCR_Read returned error code 0x'' @ show_hex8 rc"
| "tpm_error_text TruncatedSelectionCount = ''response truncated before pcrSelectionOut''"
| "tpm_error_text TruncatedSelection = ''truncated pcrSelectionOut''"
| "tpm_error_text TruncatedDigestCount = ''truncated at digests.count''"
| "tpm_error_text TruncatedDigestSize = ''truncated at digest size''"
| "tpm_error_text TruncatedDigest = ''truncated digest data''"

definition read_pcrs :: "crypto \<Rightarrow> tpm_device \<Rightarrow> tpm_result" where
  "read_pcrs cr dev =
     (case try_read_pcrs_linux cr dev of
        Inr pcrs \<Rightarrow> TpmAvailable pcrs
      | Inl e \<Rightarrow>
          (let msg = tpm_error_text e
           in if contains_str msg ''No such file'' \<or> contains_str msg ''os error 2'' then TpmUnavailable else TpmError msg))"

subsection \<open>pcr\_policy.rs\<close>

record pcr_policy =
  pp_pcrs :: pcrs
  pp_description :: string

datatype policy_error =
    PcrRead string | NoTpmDevice | PcrMissing nat | PolicyViolation "(nat \<times> string \<times> string option) list" | PolicyIo | PolicyJson

fun join_with :: "string \<Rightarrow> string list \<Rightarrow> string" where
  "join_with sep [] = []"
| "join_with sep [s] = s"
| "join_with sep (s # ss) = s @ sep @ join_with sep ss"

definition current_pcrs :: "tpm_result \<Rightarrow> (policy_error, pcrs) result" where
  "current_pcrs r = (case r of
      TpmAvailable pcrs \<Rightarrow> Inr pcrs
    | TpmError reason \<Rightarrow> Inl (PcrRead reason)
    | TpmUnavailable \<Rightarrow> Inl NoTpmDevice)"

fun select_pcrs :: "pcrs \<Rightarrow> nat list \<Rightarrow> pcrs \<Rightarrow> (policy_error, pcrs) result" where
  "select_pcrs current [] m = Inr m"
| "select_pcrs current (idx # sel) m =
     (case map_of current idx of
        Some v \<Rightarrow> select_pcrs current sel (bt_insert idx v m)
      | None \<Rightarrow> Inl (PcrMissing idx))"

definition from_current :: "nat list \<Rightarrow> tpm_result \<Rightarrow> (policy_error, pcr_policy) result" where
  "from_current selected tpm =
     rbind (current_pcrs tpm) (\<lambda>current.
     rbind (select_pcrs current selected []) (\<lambda>pcrs.
       Inr \<lparr>pp_pcrs = pcrs, pp_description = ''captured from live TPM, PCRs: '' @ join_with '','' (map show_nat selected)\<rparr>))"

definition pcr_list_str :: "pcr_policy \<Rightarrow> string" where
  "pcr_list_str p = ''sha256:'' @ join_with '','' (map (show_nat \<circ> fst) (pp_pcrs p))"

text \<open>A mismatch is the index, the expected value and what there is.\<close>

definition mismatches :: "pcrs \<Rightarrow> pcrs \<Rightarrow> (nat \<times> string \<times> string option) list" where
  "mismatches expected current = List.map_filter (\<lambda>(idx, e).
     case map_of current idx of
       Some actual \<Rightarrow> if actual = e then None else Some (idx, e, Some actual)
     | None \<Rightarrow> Some (idx, e, None)) expected"

definition verify_current :: "pcr_policy \<Rightarrow> tpm_result \<Rightarrow> (policy_error, unit) result" where
  "verify_current p tpm =
     rbind (current_pcrs tpm) (\<lambda>current.
       let ms = mismatches (pp_pcrs p) current in if ms = [] then Inr () else Inl (PolicyViolation ms))"

definition is_satisfied :: "pcr_policy \<Rightarrow> tpm_result \<Rightarrow> bool" where
  "is_satisfied p tpm = (case verify_current p tpm of Inr _ \<Rightarrow> True | Inl _ \<Rightarrow> False)"

text \<open>The policy file is written as JSON; \<open>serde_json\<close> is a pair of functions.\<close>

definition policy_save :: "(pcr_policy \<Rightarrow> bytes) \<Rightarrow> bool \<Rightarrow> pcr_policy \<Rightarrow> bytes option \<Rightarrow> (policy_error, unit) result \<times> bytes option" where
  "policy_save to_json can_write p file = (if can_write then (Inr (), Some (to_json p)) else (Inl PolicyIo, file))"

definition policy_load :: "(bytes \<Rightarrow> pcr_policy option) \<Rightarrow> bytes option \<Rightarrow> (policy_error, pcr_policy) result" where
  "policy_load parse file = rbind (ok_or PolicyIo file) (\<lambda>b. ok_or PolicyJson (parse b))"

definition save_profile ::
  "(pcr_policy \<Rightarrow> bytes) \<Rightarrow> bool \<Rightarrow> nat list \<Rightarrow> string \<Rightarrow> tpm_result \<Rightarrow> bytes option \<Rightarrow> (policy_error, pcr_policy) result \<times> bytes option" where
  "save_profile to_json can_write selected description tpm file =
     (case from_current selected tpm of
        Inl e \<Rightarrow> (Inl e, file)
      | Inr p \<Rightarrow>
          (let p' = p\<lparr>pp_description := description\<rparr>
           in case policy_save to_json can_write p' file of
                (Inl e, f) \<Rightarrow> (Inl e, f)
              | (Inr _, f) \<Rightarrow> (Inr p', f)))"

definition server_profile ::
  "(pcr_policy \<Rightarrow> bytes) \<Rightarrow> bool \<Rightarrow> tpm_result \<Rightarrow> bytes option \<Rightarrow> (policy_error, pcr_policy) result \<times> bytes option" where
  "server_profile to_json can_write =
     save_profile to_json can_write [0, 7] ''server profile: PCR0 (firmware) + PCR7 (Secure Boot)''"

definition workstation_profile ::
  "(pcr_policy \<Rightarrow> bytes) \<Rightarrow> bool \<Rightarrow> tpm_result \<Rightarrow> bytes option \<Rightarrow> (policy_error, pcr_policy) result \<times> bytes option" where
  "workstation_profile to_json can_write =
     save_profile to_json can_write [0, 7, 11] ''workstation profile: PCR0 + PCR7 + PCR11 (kernel/UKI)''"

subsection \<open>Big-endian fields\<close>

lemma be_bytes_Suc: "be_bytes (Suc n) x = be_bytes n (x div 256) @ [char_of (x mod 256)]"
proof -
  have "map (\<lambda>i. char_of (x div 256 ^ (Suc n - 1 - i) mod 256)) [0..<n] = (be_bytes n (x div 256) :: string)"
    unfolding be_bytes_def
  proof (rule map_cong)
    fix i assume "i \<in> set [0..<n]"
    then have "Suc n - 1 - i = Suc (n - 1 - i)" by auto
    then show "char_of (x div 256 ^ (Suc n - 1 - i) mod 256) = char_of (x div 256 div 256 ^ (n - 1 - i) mod 256)"
      by (simp add: div_mult2_eq)
  qed simp
  then show ?thesis by (simp add: be_bytes_def)
qed

lemma length_be_bytes [simp]: "length (be_bytes n x) = n"
  by (simp add: be_bytes_def)

lemma from_be_bytes_be: "x < 256 ^ n \<Longrightarrow> from_be_bytes (be_bytes n x) = x"
proof (induction n arbitrary: x)
  case (Suc n)
  then have "x div 256 < 256 ^ n" by (simp add: less_mult_imp_div_less mult.commute)
  with Suc.IH show ?case by (simp add: be_bytes_Suc from_be_bytes_def)
qed (simp add: be_bytes_def from_be_bytes_def)

text \<open>The commands are the ones of the specification: twenty bytes, and a mask with one full byte.\<close>

lemma pcr_masks: "pcr_select_mask 0 8 = [255, 0, 0]" "pcr_select_mask 8 16 = [0, 255, 0]" "pcr_select_mask 16 24 = [0, 0, 255]"
  by code_simp+

lemma pcr_read_cmd_length: "length m = 3 \<Longrightarrow> length (build_pcr_read_cmd m) = 20"
  by (simp add: build_pcr_read_cmd_def)

subsection \<open>Reading well-formed replies\<close>

text \<open>The reply of the specification: a header with the code 0, a counter, the selections that were
  honoured (an algorithm and a mask each) and the digests.\<close>

definition sel_bytes :: "nat \<times> bytes \<Rightarrow> bytes" where
  "sel_bytes s = be_bytes 2 (fst s) @ [char_of (length (snd s))] @ snd s"

definition digest_bytes :: "bytes \<Rightarrow> bytes" where
  "digest_bytes d = be_bytes 2 (length d) @ d"

definition pcr_reply :: "nat \<Rightarrow> nat \<Rightarrow> (nat \<times> bytes) list \<Rightarrow> bytes list \<Rightarrow> bytes" where
  "pcr_reply sz counter sels ds =
     be_bytes 2 32769 @ be_bytes 4 sz @ be_bytes 4 0 @ be_bytes 4 counter @ be_bytes 4 (length sels)
     @ concat (map sel_bytes sels) @ be_bytes 4 (length ds) @ concat (map digest_bytes ds)"

definition reply_ok :: "(nat \<times> bytes) list \<Rightarrow> bytes list \<Rightarrow> bool" where
  "reply_ok sels ds \<longleftrightarrow> sels \<noteq> [] \<and> length sels < 256 \<and> length ds \<le> 8 \<and> (\<forall>s \<in> set sels. length (snd s) < 256) \<and> (\<forall>d \<in> set ds. length d = 32)"

lemma skip_selections_all:
  "\<forall>s \<in> set sels. length (snd s) < 256 \<Longrightarrow> 4 \<le> length post \<Longrightarrow>
   skip_selections (pre @ concat (map sel_bytes sels) @ post) (length sels) (length pre) = Inr (length pre + length (concat (map sel_bytes sels)))"
proof (induction sels arbitrary: pre)
  case (Cons s sels)
  let ?resp = "pre @ concat (map sel_bytes (s # sels)) @ post"
  have n: "?resp ! (length pre + 2) = char_of (length (snd s))"
    by (simp add: sel_bytes_def nth_append)
  have "skip_selections ?resp (length (s # sels)) (length pre) = skip_selections ?resp (length sels) (length (pre @ sel_bytes s))"
    using Cons.prems n by (simp add: sel_bytes_def)
  also have "\<dots> = Inr (length (pre @ sel_bytes s) + length (concat (map sel_bytes sels)))"
    using Cons.IH[of "pre @ sel_bytes s"] Cons.prems by simp
  finally show ?case by simp
qed simp

lemma bt_insert_last: "\<forall>x \<in> set m. fst x < k \<Longrightarrow> bt_insert k v m = m @ [(k, v)]"
  by (induction k v m rule: bt_insert.induct) auto

lemma read_digests_all:
  "\<forall>d \<in> set ds. length d = 32 \<Longrightarrow> b + i + length ds \<le> 256 \<Longrightarrow> \<forall>x \<in> set m. fst x < b + i \<Longrightarrow>
   read_digests cr (pre @ concat (map digest_bytes ds)) b i (length ds) (length pre) m =
     Inr (m @ map (\<lambda>k. (b + i + k, hex_encode cr (ds ! k))) [0..<length ds])"
proof (induction ds arbitrary: pre i m)
  case (Cons d ds)
  let ?resp = "pre @ concat (map digest_bytes (d # ds))" and ?m = "m @ [(b + i, hex_encode cr d)]"
  have d: "length d = 32" using Cons.prems by simp
  have r: "?resp = (pre @ digest_bytes d) @ concat (map digest_bytes ds)" by simp
  have size: "from_be_bytes (take 2 (drop (length pre) ?resp)) = 32"
    using d by (simp add: digest_bytes_def from_be_bytes_be)
  have "read_digests cr ?resp b i (length (d # ds)) (length pre) m =
      read_digests cr ?resp b (i + 1) (length ds) (length (pre @ digest_bytes d)) ?m"
    using Cons.prems d size by (simp add: digest_bytes_def bt_insert_last add.commute[of 34])
  also have "\<dots> = Inr (?m @ map (\<lambda>k. (b + (i + 1) + k, hex_encode cr (ds ! k))) [0..<length ds])"
    unfolding r using Cons.prems by (intro Cons.IH) auto
  also have "?m @ map (\<lambda>k. (b + (i + 1) + k, hex_encode cr (ds ! k))) [0..<length ds] =
      m @ map (\<lambda>k. (b + i + k, hex_encode cr ((d # ds) ! k))) [0..<length (d # ds)]"
    by (simp add: upt_conv_Cons map_Suc_upt[symmetric] comp_def del: upt_Suc map_Suc_upt)
  finally show ?case .
qed simp

lemma parse_reply:
  assumes "reply_ok sels ds" "b \<le> 16"
  shows "parse_pcr_read_response cr (pcr_reply sz counter sels ds) b = Inr (map (\<lambda>i. (b + i, hex_encode cr (ds ! i))) [0..<length ds])"
proof -
  define hd where "hd = be_bytes 2 32769 @ be_bytes 4 sz @ be_bytes 4 0 @ be_bytes 4 counter @ be_bytes 4 (length sels)"
  define post where "post = be_bytes 4 (length ds) @ concat (map digest_bytes ds)"
  let ?resp = "pcr_reply sz counter sels ds" and ?sels = "concat (map sel_bytes sels)"
  have resp: "?resp = hd @ ?sels @ post" by (simp add: pcr_reply_def hd_def post_def)
  have hd: "length hd = 18" by (simp add: hd_def)
  have rc: "from_be_bytes (take 4 (drop 6 ?resp)) = 0" "from_be_bytes (take 4 (drop 14 ?resp)) = length sels"
    using assms by (simp_all add: pcr_reply_def reply_ok_def from_be_bytes_be)
  have sk: "skip_selections ?resp (length sels) 18 = Inr (18 + length ?sels)"
    unfolding resp using skip_selections_all[of sels post hd] assms hd by (simp add: reply_ok_def post_def)
  have cnt: "from_be_bytes (take 4 (drop (18 + length ?sels) ?resp)) = length ds"
    using assms hd by (simp add: resp post_def from_be_bytes_be reply_ok_def)
  have dig: "read_digests cr ?resp b 0 (length ds) (18 + length ?sels + 4) [] = Inr (map (\<lambda>i. (b + i, hex_encode cr (ds ! i))) [0..<length ds])"
    using read_digests_all[of ds b 0 "[]" cr "hd @ ?sels @ be_bytes 4 (length ds)"] assms hd
    by (simp add: resp post_def reply_ok_def)
  have "18 + length ?sels + 4 \<le> length ?resp" by (simp add: resp post_def hd)
  with rc sk cnt dig assms show ?thesis
    by (simp add: parse_pcr_read_response_def Let_def reply_ok_def)
qed

definition dev_cmd :: "nat \<Rightarrow> bytes" where
  "dev_cmd j = build_pcr_read_cmd (pcr_select_mask (8 * j) (8 * j + 8))"

lemma bt_extend_append: "sorted_wrt (<) (map fst (m @ kvs)) \<Longrightarrow> bt_extend m kvs = m @ kvs"
proof (induction kvs arbitrary: m)
  case (Cons kv kvs)
  have "bt_extend m (kv # kvs) = bt_extend (bt_insert (fst kv) (snd kv) m) kvs"
    by (simp add: bt_extend_def split: prod.splits)
  also have "bt_insert (fst kv) (snd kv) m = m @ [kv]"
    using Cons.prems by (subst bt_insert_last) (auto simp: sorted_wrt_append)
  finally show ?case using Cons by simp
qed (simp add: bt_extend_def)

lemma read_batch_reply:
  assumes "td_write_error dev j = None" "td_read dev j (dev_cmd j) = Inr (pcr_reply sz counter sels ds)" "reply_ok sels ds"
    "length (pcr_reply sz counter sels ds) \<le> 4096" "j < 3"
  shows "read_batch cr dev j (8 * j) = Inr (map (\<lambda>i. (8 * j + i, hex_encode cr (ds ! i))) [0..<length ds])"
  using assms parse_reply[OF assms(3), of "8 * j" cr sz counter] by (simp add: read_batch_def dev_cmd_def)

definition batch_entries :: "crypto \<Rightarrow> nat \<Rightarrow> bytes list \<Rightarrow> pcrs" where
  "batch_entries cr j ds = map (\<lambda>i. (8 * j + i, hex_encode cr (ds ! i))) [0..<length ds]"

text \<open>When the device answers the three commands with well-formed replies, the PCRs are those of the
  replies, the i-th digest of batch j under the index 8 j + i. With the eight digests of a full batch these
  are the right indices. The selection in the reply is not looked at: with a digest missing, every later one
  of the batch is filed under the index of another PCR.\<close>

lemma read_pcrs_by_position:
  assumes "td_open_error dev = None" "\<forall>j<3. td_write_error dev j = None"
    "\<forall>j<3. td_read dev j (dev_cmd j) = Inr (pcr_reply (sz j) (counter j) (sels j) (ds j))"
    "\<forall>j<3. reply_ok (sels j) (ds j) \<and> length (pcr_reply (sz j) (counter j) (sels j) (ds j)) \<le> 4096"
  shows "read_pcrs cr dev = TpmAvailable (batch_entries cr 0 (ds 0) @ batch_entries cr 1 (ds 1) @ batch_entries cr 2 (ds 2))"
proof -
  have b: "read_batch cr dev j (8 * j) = Inr (batch_entries cr j (ds j))" if "j < 3" for j
    using read_batch_reply[of dev j "sz j" "counter j" "sels j" "ds j" cr] assms that by (simp add: batch_entries_def)
  have len: "length (ds j) \<le> 8" if "j < 3" for j using assms(4) that by (auto simp: reply_ok_def)
  have keys: "map fst (batch_entries cr j (ds j)) = map ((+) (8 * j)) [0..<length (ds j)]" for j
    by (simp add: batch_entries_def)
  have "sorted_wrt (<) (map fst (batch_entries cr 0 (ds 0) @ batch_entries cr 1 (ds 1) @ batch_entries cr 2 (ds 2)))"
    using len[of 0] len[of 1] by (auto simp: keys sorted_wrt_append sorted_wrt_map)
  moreover from this have "sorted_wrt (<) (map fst (batch_entries cr 0 (ds 0) @ batch_entries cr 1 (ds 1)))"
    "sorted_wrt (<) (map fst ([] @ batch_entries cr 0 (ds 0)))"
    by (simp_all add: sorted_wrt_append)
  ultimately show ?thesis
    using b[of 0] b[of 1] b[of 2] assms(1) by (simp add: read_pcrs_def try_read_pcrs_linux_def bt_extend_append)
qed

subsection \<open>Policies\<close>

lemma map_of_bt_insert: "map_of (bt_insert k v m) = (map_of m)(k \<mapsto> v)"
  by (induction k v m rule: bt_insert.induct) auto

lemma bt_insert_keys: "fst ` set (bt_insert k v m) = insert k (fst ` set m)"
  by (induction k v m rule: bt_insert.induct) auto

lemma bt_insert_sorted: "sorted_wrt (<) (map fst m) \<Longrightarrow> sorted_wrt (<) (map fst (bt_insert k v m))"
proof (induction k v m rule: bt_insert.induct)
  case (2 k v k' v' kvs)
  then show ?case using bt_insert_keys[of k v kvs] by auto
qed simp

lemma select_pcrs_spec:
  "select_pcrs current sel m = Inr m' \<Longrightarrow> sorted_wrt (<) (map fst m) \<Longrightarrow>
   sorted_wrt (<) (map fst m') \<and> (\<forall>i \<in> set sel. map_of current i \<noteq> None) \<and>
   map_of m' = (\<lambda>i. if i \<in> set sel then map_of current i else map_of m i)"
proof (induction sel arbitrary: m)
  case (Cons i sel)
  then obtain v where v: "map_of current i = Some v" "select_pcrs current sel (bt_insert i v m) = Inr m'"
    by (simp split: option.splits)
  from Cons.IH[OF v(2) bt_insert_sorted[OF Cons.prems(2)]] v(1) show ?case
    by (auto simp: map_of_bt_insert)
qed simp

lemma mismatches_Nil: "mismatches expected current = [] \<longleftrightarrow> (\<forall>(i, e) \<in> set expected. map_of current i = Some e)"
  by (auto simp: mismatches_def List.map_filter_def filter_empty_conv split: option.splits if_splits)

lemma sorted_keys_distinct: "sorted_wrt (<) (xs :: nat list) \<Longrightarrow> distinct xs"
  by (induction xs) auto

text \<open>A policy captured from the TPM lists the selected PCRs in increasing order with the values they
  had, and it is satisfied later exactly when the TPM can be read and each selected PCR has the value it had
  at the capture.\<close>

lemma pcr_policy_exact:
  assumes "from_current selected (TpmAvailable pcrs) = Inr p"
  shows "map fst (pp_pcrs p) = sorted_list_of_set (set selected) \<and> (\<forall>i \<in> set selected. map_of (pp_pcrs p) i = map_of pcrs i) \<and>
    (is_satisfied p tpm \<longleftrightarrow> (\<exists>pcrs'. tpm = TpmAvailable pcrs' \<and> (\<forall>i \<in> set selected. map_of pcrs' i = map_of pcrs i)))"
proof -
  obtain m where m: "select_pcrs pcrs selected [] = Inr m" and p: "pp_pcrs p = m"
    using assms by (auto simp: from_current_def current_pcrs_def rbind_Inr_iff)
  note s = select_pcrs_spec[OF m]
  have dom: "fst ` set m = set selected"
  proof -
    have "dom (map_of m) = set selected" using s by (auto split: if_splits)
    then show ?thesis by (simp add: dom_map_of_conv_image_fst)
  qed
  have d: "distinct (map fst m)" using s sorted_keys_distinct by simp
  have keys: "map fst m = sorted_list_of_set (set selected)"
    using s d dom by (intro sorted_distinct_set_unique) (auto simp: strict_sorted_iff)
  have eq: "(\<forall>(i, e) \<in> set m. map_of pcrs' i = Some e) \<longleftrightarrow> (\<forall>i \<in> set selected. map_of pcrs' i = map_of pcrs i)" for pcrs'
  proof
    assume l: "\<forall>(i, e) \<in> set m. map_of pcrs' i = Some e"
    show "\<forall>i \<in> set selected. map_of pcrs' i = map_of pcrs i"
    proof
      fix i assume i: "i \<in> set selected"
      then obtain e where "map_of pcrs i = Some e" "map_of m i = Some e" using s by fastforce
      then show "map_of pcrs' i = map_of pcrs i" using l by (auto dest: map_of_SomeD)
    qed
  next
    assume r: "\<forall>i \<in> set selected. map_of pcrs' i = map_of pcrs i"
    show "\<forall>(i, e) \<in> set m. map_of pcrs' i = Some e"
    proof (clarify)
      fix i e assume ie: "(i, e) \<in> set m"
      then have "map_of m i = Some e" "i \<in> set selected" using d dom by (auto simp: image_iff) (metis fst_conv image_eqI)
      then show "map_of pcrs' i = Some e" using s r by simp
    qed
  qed
  have "is_satisfied p tpm \<longleftrightarrow> (\<exists>pcrs'. tpm = TpmAvailable pcrs' \<and> (\<forall>i \<in> set selected. map_of pcrs' i = map_of pcrs i))"
    by (cases tpm) (auto simp: is_satisfied_def verify_current_def current_pcrs_def p mismatches_Nil eq[symmetric] Let_def split: if_splits)
  then show ?thesis using keys s p by simp
qed

definition demo_digests :: "bytes list" where
  "demo_digests = [replicate 32 (CHR ''a''), replicate 32 (CHR ''b'')]"

text \<open>A TPM whose bank has the first and the last PCR of each batch only, as its selections say.\<close>

definition demo_device :: tpm_device where
  "demo_device = \<lparr>td_open_error = None, td_write_error = (\<lambda>_. None),
     td_read = (\<lambda>j cmd. Inr (pcr_reply 0 7 [(11, map char_of [129 :: nat, 129, 129])] demo_digests))\<rparr>"

end
