(* ===== verification/Evidence.thy ===== *)
theory Evidence
  imports Attestation Receipt
begin

section \<open>Evidence: attestation reports and signed bundles\<close>

text \<open>
  \<open>crates/maranode-attestation/src/binary.rs\<close>, \<open>tee.rs\<close> and \<open>report.rs\<close>, the routes of
  \<open>crates/maranode-api/src/routes/attestation.rs\<close> and the signed bundle of
  \<open>crates/maranode-audit/src/bundle.rs\<close>. An archive is the list of its members; the log is text that is
  stored in UTF-8. How a violation and a failure to load the key are worded is a parameter. A struct is
  written in the order of its fields, a \<open>serde_json::Value\<close> in the order of its keys: \<open>mk\<close> is \<open>JObj\<close> or
  \<open>json_object\<close>.
\<close>

record evidence_env = receipt_env +
  ev_audit :: env
  ev_crypto :: crypto
  ev_device :: tpm_device
  ev_exists :: "string \<Rightarrow> bool"
  ev_json_pretty :: "json \<Rightarrow> bytes"
  ev_violation_text :: "violation_detail \<Rightarrow> string"
  ev_key_text :: "key_error \<Rightarrow> string"
  ev_hmac_bytes :: "string \<Rightarrow> bytes \<Rightarrow> string"
  ed_verify_strict :: "bytes \<Rightarrow> bytes \<Rightarrow> bytes \<Rightarrow> bool"

subsection \<open>binary.rs and tee.rs\<close>

record binary_measurement =
  bm_path :: string
  bm_sha256 :: string
  bm_size_bytes :: nat

definition measure_path :: "evidence_env \<Rightarrow> string \<Rightarrow> bytes option \<Rightarrow> binary_measurement option" where
  "measure_path env path content =
     map_option (\<lambda>b. \<lparr>bm_path = path, bm_sha256 = sha256_fn env b, bm_size_bytes = length b\<rparr>) content"

definition measure_paths :: "evidence_env \<Rightarrow> (string \<Rightarrow> bytes option) \<Rightarrow> string list \<Rightarrow> (string \<times> string) list" where
  "measure_paths env files paths = List.map_filter (\<lambda>p. map_option (\<lambda>b. (p, sha256_fn env b)) (files p)) paths"

datatype tee_type = IntelTdx | AmdSevSnp | NoTee

fun tee_type_str :: "tee_type \<Rightarrow> string" where
  "tee_type_str IntelTdx = ''intel_tdx''"
| "tee_type_str AmdSevSnp = ''amd_sev_snp''"
| "tee_type_str NoTee = ''none''"

record tee_report =
  tr_tee_type :: tee_type
  tr_report_data :: string
  tr_report_hash :: string
  tr_measurement :: string
  tr_is_synthetic :: bool

definition detect_tee :: "evidence_env \<Rightarrow> tee_type" where
  "detect_tee env =
     (if ev_exists env ''/dev/tdx-guest'' \<or> ev_exists env ''/dev/tdx_guest'' then IntelTdx
      else if ev_exists env ''/dev/sev-guest'' then AmdSevSnp else NoTee)"

definition synthetic_report :: "evidence_env \<Rightarrow> bytes option \<Rightarrow> bytes \<Rightarrow> tee_report" where
  "synthetic_report env exe nonce =
     (let binary_hash = (case measure_path env ''exe'' exe of Some m \<Rightarrow> bm_sha256 m | None \<Rightarrow> ''unknown'');
          combined = binary_hash @ '':'' @ hexenc env nonce;
          report_data = sha256_fn env combined
      in \<lparr>tr_tee_type = NoTee, tr_report_data = report_data, tr_report_hash = sha256_fn env report_data,
          tr_measurement = report_data, tr_is_synthetic = True\<rparr>)"

text \<open>Neither device is asked yet.\<close>

definition try_tdx_ioctl :: "bytes \<Rightarrow> bytes option" where "try_tdx_ioctl nonce = None"
definition try_snp_ioctl :: "bytes \<Rightarrow> bytes option" where "try_snp_ioctl nonce = None"

definition device_report :: "evidence_env \<Rightarrow> bytes option \<Rightarrow> bytes \<Rightarrow> tee_type \<Rightarrow> bytes option \<Rightarrow> tee_report" where
  "device_report env exe nonce tee raw = (case raw of
      Some b \<Rightarrow> \<lparr>tr_tee_type = tee, tr_report_data = hexenc env b, tr_report_hash = sha256_fn env b,
        tr_measurement = hexenc env (take 48 b), tr_is_synthetic = False\<rparr>
    | None \<Rightarrow> (synthetic_report env exe nonce)\<lparr>tr_tee_type := tee\<rparr>)"

definition get_tee_report :: "evidence_env \<Rightarrow> bytes option \<Rightarrow> bytes \<Rightarrow> tee_report" where
  "get_tee_report env exe nonce = (case detect_tee env of
      IntelTdx \<Rightarrow> device_report env exe nonce IntelTdx (try_tdx_ioctl nonce)
    | AmdSevSnp \<Rightarrow> device_report env exe nonce AmdSevSnp (try_snp_ioctl nonce)
    | NoTee \<Rightarrow> synthetic_report env exe nonce)"

subsection \<open>report.rs\<close>

record audit_log_measurement =
  al_path :: string
  al_sha256 :: string
  al_entries :: nat
  al_chain_ok :: bool
  al_chain_detail :: "string option"

record attestation_report =
  ar_version :: nat
  ar_generated_at :: string
  ar_binary :: binary_measurement
  ar_tpm :: tpm_result
  ar_audit_log :: "audit_log_measurement option"
  ar_report_sha256 :: "string option"

definition key_of_bytes :: "nat list \<Rightarrow> string" where
  "key_of_bytes = map char_of"

text \<open>The path of the log, its directory, and the key file where a key path is given.\<close>

definition measure_audit_log :: "evidence_env \<Rightarrow> string \<Rightarrow> audit_dir \<Rightarrow> key_file option \<Rightarrow> audit_log_measurement" where
  "measure_audit_log env path d key_path =
     (case log_text d of
        None \<Rightarrow> \<lparr>al_path = path, al_sha256 = [], al_entries = 0, al_chain_ok = True, al_chain_detail = Some ''log not yet created''\<rparr>
      | Some content \<Rightarrow>
          (let entries = length (read_recent (ev_audit env) d (2 ^ 64 - 1));
               (chain_ok, detail) = (case key_path of
                   None \<Rightarrow> (True, Some ''chain verification skipped: no key path provided'')
                 | Some kf \<Rightarrow>
                     (case key_load kf of
                        Inl e \<Rightarrow> (False, Some (''key load failed: '' @ ev_key_text env e))
                      | Inr key \<Rightarrow>
                          (let r = verify_log (ev_audit env) (Some content) (key_of_bytes key)
                           in (vr_ok r, map_option (\<lambda>v. ev_violation_text env (vd_detail v)) (first_violation r)))))
           in \<lparr>al_path = path, al_sha256 = sha256_fn env (utf8_encode content), al_entries = entries,
               al_chain_ok = chain_ok, al_chain_detail = detail\<rparr>))"

definition binary_json :: "((string \<times> json) list \<Rightarrow> json) \<Rightarrow> binary_measurement \<Rightarrow> json" where
  "binary_json mk b = mk [(''path'', JStr (bm_path b)), (''sha256'', JStr (bm_sha256 b)), (''size_bytes'', jnat (bm_size_bytes b))]"

fun tpm_json :: "((string \<times> json) list \<Rightarrow> json) \<Rightarrow> tpm_result \<Rightarrow> json" where
  "tpm_json mk (TpmAvailable pcrs) = mk [(''status'', JStr ''available''), (''pcrs'', mk (map (\<lambda>(i, v). (show_nat i, JStr v)) pcrs))]"
| "tpm_json mk (TpmError reason) = mk [(''status'', JStr ''error''), (''reason'', JStr reason)]"
| "tpm_json mk TpmUnavailable = mk [(''status'', JStr ''unavailable'')]"

definition audit_log_json :: "((string \<times> json) list \<Rightarrow> json) \<Rightarrow> audit_log_measurement \<Rightarrow> json" where
  "audit_log_json mk m = mk [(''path'', JStr (al_path m)), (''sha256'', JStr (al_sha256 m)), (''entries'', jnat (al_entries m)),
     (''chain_ok'', JBool (al_chain_ok m)), (''chain_detail'', jopt JStr (al_chain_detail m))]"

definition self_hash :: "evidence_env \<Rightarrow> attestation_report \<Rightarrow> string" where
  "self_hash env r = sha256_fn env (json_vec env (json_object
     [(''version'', jnat (ar_version r)), (''generated_at'', JStr (ar_generated_at r)), (''binary'', binary_json json_object (ar_binary r)),
      (''tpm'', tpm_json json_object (ar_tpm r)), (''audit_log'', jopt (audit_log_json json_object) (ar_audit_log r))]))"

definition generate_report ::
  "evidence_env \<Rightarrow> string \<Rightarrow> string \<times> bytes option \<Rightarrow> (string \<times> audit_dir) option \<Rightarrow> key_file option \<Rightarrow> attestation_report option" where
  "generate_report env now exe log key_path =
     Option.bind (measure_path env (fst exe) (snd exe)) (\<lambda>binary.
       let report = \<lparr>ar_version = 1, ar_generated_at = now, ar_binary = binary, ar_tpm = read_pcrs (ev_crypto env) (ev_device env),
             ar_audit_log = map_option (\<lambda>(p, d). measure_audit_log env p d key_path) log, ar_report_sha256 = None\<rparr>
       in Some (report\<lparr>ar_report_sha256 := Some (self_hash env report)\<rparr>))"

subsection \<open>The routes of attestation.rs\<close>

record tee_response =
  tp_tee_type :: string
  tp_report_hash :: string
  tp_measurement :: string
  tp_is_synthetic :: bool
  tp_nonce :: string
  tp_sig :: "string option"

definition route_get_tee ::
  "evidence_env \<Rightarrow> bytes \<Rightarrow> bool \<times> bool \<Rightarrow> bytes option \<Rightarrow> string option \<Rightarrow> sign_dir \<Rightarrow> tee_response \<times> sign_dir" where
  "route_get_tee env random can_write exe nonce d =
     (let nonce_str = unwrap_or [] nonce; report = get_tee_report env exe nonce_str;
          (k, d1) = load_or_create env random can_write d
      in (\<lparr>tp_tee_type = tee_type_str (tr_tee_type report), tp_report_hash = tr_report_hash report, tp_measurement = tr_measurement report,
           tp_is_synthetic = tr_is_synthetic report, tp_nonce = nonce_str,
           tp_sig = (case k of Inl _ \<Rightarrow> None | Inr sk \<Rightarrow> Some (hexenc env (ed_sign env sk (tr_report_hash report @ nonce_str))))\<rparr>, d1))"

definition route_public_key :: "evidence_env \<Rightarrow> bytes \<Rightarrow> bool \<times> bool \<Rightarrow> sign_dir \<Rightarrow> (sign_error, string) result \<times> sign_dir" where
  "route_public_key env random can_write d =
     (case load_or_create env random can_write d of
        (Inl e, d1) \<Rightarrow> (Inl e, d1)
      | (Inr sk, d1) \<Rightarrow> (Inr (hexenc env (ed_public env sk)), d1))"

datatype tee_verdict = TeeBadRequest verify_error | TeeValid | TeeInvalid

definition route_verify_tee :: "evidence_env \<Rightarrow> string \<Rightarrow> string \<Rightarrow> string \<Rightarrow> string \<Rightarrow> tee_verdict" where
  "route_verify_tee env report_hash nonce sig_hex pubkey_hex =
     (case hexdec env pubkey_hex of
        None \<Rightarrow> TeeBadRequest BadKeyHex
      | Some pk \<Rightarrow>
          if length pk \<noteq> 32 then TeeBadRequest WrongKeyLength
          else if \<not> ed_point env pk then TeeBadRequest BadPublicKey
          else case hexdec env sig_hex of
            None \<Rightarrow> TeeBadRequest BadSignatureHex
          | Some sig \<Rightarrow>
              if length sig \<noteq> 64 then TeeBadRequest BadSignatureLength
              else if ed_verify_strict env pk (report_hash @ nonce) sig then TeeValid else TeeInvalid)"

record signed_report =
  sg_report :: attestation_report
  sg_nonce :: string
  sg_sig :: "string option"
  sg_pubkey :: "string option"
  sg_hmac :: string

definition report_json :: "attestation_report \<Rightarrow> json" where
  "report_json r = JObj
     ([(''version'', jnat (ar_version r)), (''generated_at'', JStr (ar_generated_at r)), (''binary'', binary_json JObj (ar_binary r)),
       (''tpm'', tpm_json JObj (ar_tpm r)), (''audit_log'', jopt (audit_log_json JObj) (ar_audit_log r))]
      @ skip_none ''report_sha256'' JStr (ar_report_sha256 r))"

definition route_get_report ::
  "evidence_env \<Rightarrow> string \<Rightarrow> string \<times> bytes option \<Rightarrow> bytes \<Rightarrow> bool \<times> bool \<Rightarrow> string \<Rightarrow> audit_dir \<Rightarrow> key_file \<Rightarrow> string option \<Rightarrow> sign_dir \<Rightarrow>
     signed_report option \<times> sign_dir" where
  "route_get_report env now exe random can_write log_path d key nonce sd =
     (case generate_report env now exe (if log_text d = None then None else Some (log_path, d)) (if key = None then None else Some key) of
        None \<Rightarrow> (None, sd)
      | Some report \<Rightarrow>
          (let nonce_str = unwrap_or [] nonce; (k, sd1) = load_or_create env random can_write sd;
               hash = unwrap_or [] (ar_report_sha256 report)
           in (Some \<lparr>sg_report = report, sg_nonce = nonce_str,
                 sg_sig = (case k of Inl _ \<Rightarrow> None | Inr sk \<Rightarrow> Some (hexenc env (ed_sign env sk (hash @ nonce_str)))),
                 sg_pubkey = (case k of Inl _ \<Rightarrow> None | Inr sk \<Rightarrow> Some (hexenc env (ed_public env sk))),
                 sg_hmac = (case key_load key of
                     Inl _ \<Rightarrow> []
                   | Inr kb \<Rightarrow> ev_hmac_bytes env (key_of_bytes kb) (json_vec env (report_json report) @ nonce_str))\<rparr>, sd1)))"

subsection \<open>bundle.rs\<close>

type_synonym archive = "(string \<times> bytes) list"

datatype bundle_error = LogUnreadable | BundleKey key_error

definition file_digest_json :: "evidence_env \<Rightarrow> string \<times> bytes \<Rightarrow> json" where
  "file_digest_json env f = json_object [(''name'', JStr (fst f)), (''sha256'', JStr (sha256_fn env (snd f)))]"

definition integrity_json :: "evidence_env \<Rightarrow> string \<Rightarrow> verify_result \<Rightarrow> json" where
  "integrity_json env verified_at r = json_object
     [(''verified_at'', JStr verified_at), (''entries_checked'', jnat (entries_checked r)), (''ok'', JBool (vr_ok r)),
      (''first_violation'', jopt (\<lambda>v. json_object [(''seq'', jnat (vd_seq v)), (''detail'', JStr (ev_violation_text env (vd_detail v)))])
         (first_violation r))]"

definition manifest_json :: "evidence_env \<Rightarrow> string \<Rightarrow> string option \<Rightarrow> archive \<Rightarrow> json" where
  "manifest_json env created_at workspace members = json_object
     ([(''created_at'', JStr created_at), (''files'', JArr (map (file_digest_json env) members))]
      @ skip_none ''workspace'' JStr workspace)"

text \<open>\<open>now\<close> are the two times that the function reads; the archive holds the members in the order in which
  they are written.\<close>

definition create_bundle_with_attestation ::
  "evidence_env \<Rightarrow> string \<times> string \<Rightarrow> ustring option \<Rightarrow> key_file \<Rightarrow> string option \<Rightarrow> bytes option \<Rightarrow> bytes option \<Rightarrow>
     (bundle_error, archive) result" where
  "create_bundle_with_attestation env now log key_file workspace signing_key attestation_json =
     (case log of
        None \<Rightarrow> Inl LogUnreadable
      | Some content \<Rightarrow>
          (case key_load key_file of
             Inl e \<Rightarrow> Inl (BundleKey e)
           | Inr key \<Rightarrow>
               (let r = verify_log (ev_audit env) log (key_of_bytes key);
                    members = [(''audit.jsonl'', utf8_encode content), (''integrity.json'', ev_json_pretty env (integrity_json env (fst now) r))]
                      @ (case attestation_json of None \<Rightarrow> [] | Some b \<Rightarrow> [(''attestation.json'', b)]);
                    manifest = ev_json_pretty env (manifest_json env (snd now) workspace members)
                in Inr (members @ [(''manifest.json'', manifest)]
                     @ (case signing_key of
                          None \<Rightarrow> []
                        | Some sk \<Rightarrow> [(''manifest.sig'', hexenc env (ed_sign env sk manifest)), (''signing_key.pub'', hexenc env (ed_public env sk))])))))"

definition create_bundle ::
  "evidence_env \<Rightarrow> string \<times> string \<Rightarrow> ustring option \<Rightarrow> key_file \<Rightarrow> string option \<Rightarrow> bytes option \<Rightarrow> (bundle_error, archive) result" where
  "create_bundle env now log key_file workspace signing_key =
     create_bundle_with_attestation env now log key_file workspace signing_key None"

subsection \<open>A bundle and a report verify with their own key\<close>

definition strict_ok :: "evidence_env \<Rightarrow> bool" where
  "strict_ok env \<longleftrightarrow> (\<forall>sk m. length sk = 32 \<longrightarrow> ed_verify_strict env (ed_public env sk) m (ed_sign env sk m))"

lemma verify_own_tee:
  assumes "sig_ok env" "hex_ok env" "strict_ok env" "length sk = 32"
  shows "route_verify_tee env h n (hexenc env (ed_sign env sk (h @ n))) (hexenc env (ed_public env sk)) = TeeValid"
  using assms by (simp add: route_verify_tee_def sig_ok_def hex_ok_def strict_ok_def)

lemma get_tee_report_synthetic: "tr_is_synthetic (get_tee_report env exe nonce)"
  by (simp add: get_tee_report_def device_report_def try_tdx_ioctl_def try_snp_ioctl_def synthetic_report_def Let_def split: tee_type.split)

lemma load_or_create_again:
  "load_or_create env random w d = (Inr sk, d') \<Longrightarrow> length random = 32 \<Longrightarrow> load_or_create env random' w' d' = (Inr sk, d')"
  by (auto simp: load_or_create_def Let_def split: option.splits if_splits)


definition demo_evidence_env :: evidence_env where
  "demo_evidence_env = \<lparr>ed_public = (\<lambda>sk. sk), ed_sign = (\<lambda>sk m. sk @ take 32 (m @ replicate 32 CHR ''.'')),
     ed_verify = (\<lambda>pk m s. s = pk @ take 32 (m @ replicate 32 CHR ''.'')), ed_point = (\<lambda>_. True),
     b64_encode = (\<lambda>b. b), b64_decode = Some, hexenc = (\<lambda>b. b), hexdec = Some,
     json_vec = (\<lambda>j. case j of JObj ((_, JStr s) # _) \<Rightarrow> s | _ \<Rightarrow> ''{}''), sha256_fn = (\<lambda>b. take 4 b), receipt_parse = (\<lambda>_. None),
     ev_audit = Audit_Chain.demo_env demo_log, ev_crypto = demo_crypto, ev_device = demo_device, ev_exists = (\<lambda>_. False),
     ev_json_pretty = (\<lambda>j. case j of JObj kvs \<Rightarrow> concat (map fst kvs) | _ \<Rightarrow> ''null''), ev_violation_text = (\<lambda>_. ''bad''), ev_key_text = (\<lambda>_. ''no key''),
     ev_hmac_bytes = (\<lambda>k m. k), ed_verify_strict = (\<lambda>pk m s. s = pk @ take 32 (m @ replicate 32 CHR ''.''))\<rparr>"

lemma demo_evidence_ok: "sig_ok demo_evidence_env" "hex_ok demo_evidence_env" "strict_ok demo_evidence_env"
  by (simp_all add: sig_ok_def hex_ok_def strict_ok_def demo_evidence_env_def min_def)

abbreviation demo_no_key :: sign_dir where
  "demo_no_key \<equiv> \<lparr>sd_key = None, sd_pub = None\<rparr>"


lemma bundle_members:
  assumes "create_bundle_with_attestation env now log kf ws (Some sk) att = Inr ar"
  obtains content key members manifest where "log = Some content" "key_load kf = Inr key"
    "members = [(''audit.jsonl'', utf8_encode content),
       (''integrity.json'', ev_json_pretty env (integrity_json env (fst now) (verify_log (ev_audit env) log (key_of_bytes key))))]
       @ (case att of None \<Rightarrow> [] | Some b \<Rightarrow> [(''attestation.json'', b)])"
    "manifest = ev_json_pretty env (manifest_json env (snd now) ws members)"
    "ar = members @ [(''manifest.json'', manifest), (''manifest.sig'', hexenc env (ed_sign env sk manifest)),
       (''signing_key.pub'', hexenc env (ed_public env sk))]"
  using assms that unfolding create_bundle_with_attestation_def by (simp add: Let_def split: option.splits sum.splits)

definition bundle_data :: "archive \<Rightarrow> archive" where
  "bundle_data ar = filter (\<lambda>f. fst f \<notin> {''manifest.json'', ''manifest.sig'', ''signing_key.pub''}) ar"

lemma manifest_files: "json_get (manifest_json env t ws members) ''files'' = JArr (map (file_digest_json env) members)"
  unfolding manifest_json_def by (rule json_get_object) (cases ws; simp add: skip_none_def)+

text \<open>C38: a signed bundle can be checked on its own. The key and the signature that it holds verify its
  manifest, the manifest has the digest of every other member, the log is there byte for byte, and the statement
  on its integrity is the verdict of the verifier: for a log that was written as a chain of readable entries, that all
  of them are in order.\<close>

theorem bundle_verifies:
  assumes "sig_ok env" "hex_ok env" "length sk = 32"
    and "create_bundle_with_attestation env now log kf ws (Some sk) att = Inr ar"
  shows "\<exists>manifest pk sig content key.
     map_of ar ''manifest.json'' = Some (ev_json_pretty env manifest) \<and>
     json_get manifest ''files'' = JArr (map (file_digest_json env) (bundle_data ar)) \<and>
     Option.bind (map_of ar ''manifest.sig'') (hexdec env) = Some sig \<and> Option.bind (map_of ar ''signing_key.pub'') (hexdec env) = Some pk \<and>
     ed_verify env pk (ev_json_pretty env manifest) sig \<and>
     log = Some content \<and> map_of ar ''audit.jsonl'' = Some (utf8_encode content) \<and> key_load kf = Inr key \<and>
     map_of ar ''attestation.json'' = att \<and>
     map_of ar ''integrity.json'' = Some (ev_json_pretty env (integrity_json env (fst now) (verify_log (ev_audit env) log (key_of_bytes key)))) \<and>
     (\<forall>es. content = file_of (ev_audit env) es \<and> es \<noteq> [] \<and> (\<forall>e \<in> set es. readable (ev_audit env) e) \<and> length es + 2 < 2 ^ 64 \<and>
         chained (ev_audit env) (key_of_bytes key) 1 GENESIS_HMAC es \<longrightarrow>
       map_of ar ''integrity.json'' = Some (ev_json_pretty env (integrity_json env (fst now)
         \<lparr>entries_checked = length es, vr_ok = True, first_violation = None\<rparr>)))"
proof -
  obtain content key members manifest where b: "log = Some content" "key_load kf = Inr key"
    "members = [(''audit.jsonl'', utf8_encode content),
       (''integrity.json'', ev_json_pretty env (integrity_json env (fst now) (verify_log (ev_audit env) log (key_of_bytes key))))]
       @ (case att of None \<Rightarrow> [] | Some b \<Rightarrow> [(''attestation.json'', b)])"
    "manifest = ev_json_pretty env (manifest_json env (snd now) ws members)"
    "ar = members @ [(''manifest.json'', manifest), (''manifest.sig'', hexenc env (ed_sign env sk manifest)),
       (''signing_key.pub'', hexenc env (ed_public env sk))]"
    using bundle_members[OF assms(4)] by metis
  have data: "bundle_data ar = members" by (simp add: b(3,5) bundle_data_def split: option.split)
  have sig: "hexdec env (hexenc env x) = Some x" "ed_verify env (ed_public env sk) m (ed_sign env sk m)" for x m
    using assms(1-3) by (simp_all add: hex_ok_def sig_ok_def)
  have members: "map_of ar ''manifest.json'' = Some manifest" "map_of ar ''manifest.sig'' = Some (hexenc env (ed_sign env sk manifest))"
    "map_of ar ''signing_key.pub'' = Some (hexenc env (ed_public env sk))" "map_of ar ''audit.jsonl'' = Some (utf8_encode content)"
    "map_of ar ''attestation.json'' = att"
    "map_of ar ''integrity.json'' = Some (ev_json_pretty env (integrity_json env (fst now) (verify_log (ev_audit env) log (key_of_bytes key))))"
    by (simp_all add: b(3,5) split: option.split)
  have whole: "verify_log (ev_audit env) log (key_of_bytes key) = \<lparr>entries_checked = length es, vr_ok = True, first_violation = None\<rparr>"
    if "content = file_of (ev_audit env) es" "es \<noteq> []" "\<forall>e \<in> set es. readable (ev_audit env) e" "length es + 2 < 2 ^ 64"
      "chained (ev_audit env) (key_of_bytes key) 1 GENESIS_HMAC es" for es
  proof -
    have "ae_seq (hd es) = 1" using that(2,5) by (cases es) auto
    with verify_log_chained[OF that(3,2)] chained_start[OF that(5,2)] that(1,4) show ?thesis by (simp add: b(1))
  qed
  show ?thesis
    by (rule exI[of _ "manifest_json env (snd now) ws members"], rule exI[of _ "ed_public env sk"], rule exI[of _ "ed_sign env sk manifest"],
        rule exI[of _ content], rule exI[of _ key])
      (use whole in \<open>auto simp: members data manifest_files sig b(1,2) b(4)[symmetric]\<close>)
qed

theorem bundle_verifies_witness:
  "\<exists>ar pk sig m. create_bundle_with_attestation demo_evidence_env (''t0'', ''t1'') (Some (file_of (Audit_Chain.demo_env demo_log) demo_log))
       (Some (384, replicate 32 0)) None (Some (replicate 32 CHR ''k'')) None = Inr ar \<and>
     Option.bind (map_of ar ''manifest.sig'') (hexdec demo_evidence_env) = Some sig \<and>
     Option.bind (map_of ar ''signing_key.pub'') (hexdec demo_evidence_env) = Some pk \<and>
     map_of ar ''manifest.json'' = Some m \<and> ed_verify demo_evidence_env pk m sig"
proof -
  obtain ar where ar: "create_bundle_with_attestation demo_evidence_env (''t0'', ''t1'') (Some (file_of (Audit_Chain.demo_env demo_log) demo_log))
       (Some (384, replicate 32 0)) None (Some (replicate 32 CHR ''k'')) None = Inr ar"
    by (simp add: create_bundle_with_attestation_def key_load_def check_key_permissions_def KEY_LEN_def Let_def)
  have n: "length (replicate 32 CHR ''k'') = 32" by simp
  from bundle_verifies[OF demo_evidence_ok(1,2) n ar] ar show ?thesis by blast
qed

end
