(* ===== verification/Cli_Errors.thy ===== *)
theory Cli_Errors
  imports Maranode_Prelude
begin

section \<open>Error messages and suggestions of the command line\<close>

text \<open>
  \<open>crates/maranode-cli/src/errors.rs\<close>: the hint that goes with an error message and the suggestion for a
  misspelt option. \<open>lower\<close> stands for \<open>str::to_lowercase\<close>, whose Unicode tables are not in the
  repository. The table of the edit distance is a list of rows that the loops overwrite cell by cell.

  The distance is the least number of insertions, deletions and replacements of one character that
  turn one word into the other: \<open>edit_step\<close> is one of them.
\<close>

subsection \<open>Hints\<close>

datatype hint = HintDaemon | HintLogin | HintDenied | HintModel | HintRag | HintModelId | HintTimeout

definition hint_for :: "(ustring \<Rightarrow> ustring) \<Rightarrow> ustring \<Rightarrow> hint option" where
  "hint_for lower msg =
     (let m = lower msg; has = (\<lambda>s. contains_str m (ascii s)) in
      if has ''connection refused'' \<or> has ''cannot reach'' \<or> has ''could not reach'' \<or> has ''os error 61'' \<or> has ''os error 111''
      then Some HintDaemon
      else if has ''401'' \<or> has ''unauthorized'' then Some HintLogin
      else if has ''403'' \<or> has ''forbidden'' then Some HintDenied
      else if has ''404'' \<and> (has ''model'' \<or> has ''not found'') then Some HintModel
      else if has ''rag is not enabled'' \<or> has ''rag not enabled'' then Some HintRag
      else if has ''name:tag'' \<or> has ''invalid model id'' then Some HintModelId
      else if has ''timed out'' \<or> has ''deadline'' then Some HintTimeout
      else None)"

subsection \<open>Suggestions\<close>

definition set_cell :: "nat \<Rightarrow> nat \<Rightarrow> nat \<Rightarrow> nat list list \<Rightarrow> nat list list" where
  "set_cell i j v dp = dp[i := (dp ! i)[j := v]]"

definition next_cell :: "ustring \<Rightarrow> ustring \<Rightarrow> nat list list \<Rightarrow> nat \<Rightarrow> nat \<Rightarrow> nat" where
  "next_cell a b dp i j =
     (if a ! (i - 1) = b ! (j - 1) then dp ! (i - 1) ! (j - 1)
      else 1 + min (min (dp ! (i - 1) ! (j - 1)) (dp ! (i - 1) ! j)) (dp ! i ! (j - 1)))"

definition edit_distance :: "ustring \<Rightarrow> ustring \<Rightarrow> nat" where
  "edit_distance a b =
     (let m = length a; n = length b;
          dp0 = replicate (m + 1) (replicate (n + 1) 0);
          dp1 = foldl (\<lambda>dp i. set_cell i 0 i dp) dp0 [0..<m + 1];
          dp2 = foldl (\<lambda>dp j. set_cell 0 j j dp) dp1 [0..<n + 1];
          dp3 = foldl (\<lambda>dp i. foldl (\<lambda>dp j. set_cell i j (next_cell a b dp i j) dp) dp [1..<n + 1]) dp2 [1..<m + 1]
      in dp3 ! m ! n)"

text \<open>\<open>Iterator::min_by_key\<close> keeps the first of several minima.\<close>

fun min_by_snd :: "('a \<times> nat) list \<Rightarrow> ('a \<times> nat) option" where
  "min_by_snd [] = None"
| "min_by_snd (x # xs) = (case min_by_snd xs of None \<Rightarrow> Some x | Some y \<Rightarrow> if snd y < snd x then Some y else Some x)"

definition did_you_mean :: "(ustring \<Rightarrow> ustring) \<Rightarrow> ustring \<Rightarrow> ustring list \<Rightarrow> ustring option" where
  "did_you_mean lower input options =
     (case find (\<lambda>o'. lower o' = lower input) options of
        Some opt \<Rightarrow> Some opt
      | None \<Rightarrow> map_option fst (min_by_snd (filter (\<lambda>(_, d). d \<le> 2)
          (map (\<lambda>o'. (o', edit_distance (lower input) (lower o'))) options))))"

subsection \<open>The table holds the distances of the prefixes\<close>

fun prefix_distance :: "ustring \<Rightarrow> ustring \<Rightarrow> nat \<Rightarrow> nat \<Rightarrow> nat" where
  "prefix_distance a b 0 j = j"
| "prefix_distance a b (Suc i) 0 = Suc i"
| "prefix_distance a b (Suc i) (Suc j) =
     (if a ! i = b ! j then prefix_distance a b i j
      else 1 + min (min (prefix_distance a b i j) (prefix_distance a b i (Suc j))) (prefix_distance a b (Suc i) j))"

lemma foldl_upt_invariant:
  assumes "m \<le> n" "I m s" "\<And>k s. m \<le> k \<Longrightarrow> k < n \<Longrightarrow> I k s \<Longrightarrow> I (Suc k) (f s k)"
  shows "I n (foldl f s [m..<n])"
  using assms by (induction n rule: dec_induct) (auto intro: less_SucI)

definition table :: "ustring \<Rightarrow> ustring \<Rightarrow> (nat \<times> nat \<Rightarrow> bool) \<Rightarrow> nat list list \<Rightarrow> bool" where
  "table a b done' dp \<longleftrightarrow> length dp = length a + 1 \<and> (\<forall>i \<le> length a. length (dp ! i) = length b + 1) \<and>
     (\<forall>i j. i \<le> length a \<longrightarrow> j \<le> length b \<longrightarrow> done' (i, j) \<longrightarrow> dp ! i ! j = prefix_distance a b i j)"

lemma table_set:
  assumes "table a b P dp" "i \<le> length a" "j \<le> length b" "v = prefix_distance a b i j"
    "\<And>k l. k \<le> length a \<Longrightarrow> l \<le> length b \<Longrightarrow> Q (k, l) \<Longrightarrow> P (k, l) \<or> (k, l) = (i, j)"
  shows "table a b Q (set_cell i j v dp)"
proof -
  have "set_cell i j v dp ! k ! l = prefix_distance a b k l" if "k \<le> length a" "l \<le> length b" "Q (k, l)" for k l
    using assms(5)[OF that] assms(1-4) that by (cases "k = i") (auto simp: table_def set_cell_def nth_list_update)
  with assms(1-3) show ?thesis by (auto simp: table_def set_cell_def nth_list_update)
qed

lemma table_mono:
  assumes "table a b P dp" "\<And>i j. i \<le> length a \<Longrightarrow> j \<le> length b \<Longrightarrow> Q (i, j) \<Longrightarrow> P (i, j)"
  shows "table a b Q dp"
  using assms by (auto simp: table_def)

lemma next_cell_table:
  assumes "table a b P dp" "0 < i" "i \<le> length a" "0 < j" "j \<le> length b" "P (i - 1, j - 1)" "P (i - 1, j)" "P (i, j - 1)"
  shows "next_cell a b dp i j = prefix_distance a b i j"
proof -
  obtain i' j' where ij: "i = Suc i'" "j = Suc j'" using assms(2,4) by (metis gr0_implies_Suc)
  have "dp ! i' ! j' = prefix_distance a b i' j'" "dp ! i' ! j = prefix_distance a b i' j" "dp ! i ! j' = prefix_distance a b i j'"
    using assms ij unfolding table_def by auto
  then show ?thesis by (simp add: next_cell_def ij)
qed

lemma edit_distance_prefix: "edit_distance a b = prefix_distance a b (length a) (length b)"
proof -
  let ?m = "length a" and ?n = "length b"
  let ?dp0 = "replicate (?m + 1) (replicate (?n + 1) 0)"
  let ?dp1 = "foldl (\<lambda>dp i. set_cell i 0 i dp) ?dp0 [0..<?m + 1]"
  let ?dp2 = "foldl (\<lambda>dp j. set_cell 0 j j dp) ?dp1 [0..<?n + 1]"
  let ?row = "\<lambda>dp i. foldl (\<lambda>dp j. set_cell i j (next_cell a b dp i j) dp) dp [1..<?n + 1]"
  have col: "prefix_distance a b i 0 = i" for i by (cases i) auto
  have t0: "table a b (\<lambda>(i, j). j = 0 \<and> i < 0) ?dp0" by (simp add: table_def del: replicate_Suc)
  have t1: "table a b (\<lambda>(i, j). j = 0 \<and> i < ?m + 1) ?dp1"
    using t0 by (rule foldl_upt_invariant[where I = "\<lambda>k. table a b (\<lambda>(i, j). j = 0 \<and> i < k)", rotated])
      (auto simp: col intro: table_set)
  then have t1': "table a b (\<lambda>(i, j). j = 0 \<or> i = 0 \<and> j < 0) ?dp1" by (rule table_mono) auto
  have t2: "table a b (\<lambda>(i, j). j = 0 \<or> i = 0 \<and> j < ?n + 1) ?dp2"
    using t1' by (rule foldl_upt_invariant[where I = "\<lambda>k. table a b (\<lambda>(i, j). j = 0 \<or> i = 0 \<and> j < k)", rotated])
      (auto intro: table_set)
  then have t2': "table a b (\<lambda>(i, j). j = 0 \<or> i < 1) ?dp2" by (rule table_mono) auto
  have row: "table a b (\<lambda>(i', j). j = 0 \<or> i' < Suc i) (?row dp i)"
    if "1 \<le> i" "i < ?m + 1" "table a b (\<lambda>(i', j). j = 0 \<or> i' < i) dp" for i dp
  proof -
    have "table a b (\<lambda>(i', j). j = 0 \<or> i' < i \<or> i' = i \<and> j < ?n + 1) (?row dp i)"
    proof (rule foldl_upt_invariant[where I = "\<lambda>k. table a b (\<lambda>(i', j). j = 0 \<or> i' < i \<or> i' = i \<and> j < k)"])
      show "table a b (\<lambda>(i', j). j = 0 \<or> i' < i \<or> i' = i \<and> j < 1) dp" using that(3) by (rule table_mono) auto
      fix k s assume k: "1 \<le> k" "k < ?n + 1" and t: "table a b (\<lambda>(i', j). j = 0 \<or> i' < i \<or> i' = i \<and> j < k) s"
      have "next_cell a b s i k = prefix_distance a b i k" using that k by (intro next_cell_table[OF t]) auto
      with that k show "table a b (\<lambda>(i', j). j = 0 \<or> i' < i \<or> i' = i \<and> j < Suc k) (set_cell i k (next_cell a b s i k) s)"
        by (intro table_set[OF t]) auto
    qed simp
    then show ?thesis by (rule table_mono) auto
  qed
  have "table a b (\<lambda>(i, j). j = 0 \<or> i < ?m + 1) (foldl ?row ?dp2 [1..<?m + 1])"
    using t2' row by (intro foldl_upt_invariant[where I = "\<lambda>k. table a b (\<lambda>(i, j). j = 0 \<or> i < k)"]) auto
  then show ?thesis by (simp add: edit_distance_def table_def Let_def del: replicate_Suc upt_Suc)
qed

subsection \<open>The distance is the least number of edits\<close>

inductive edit_step :: "'a list \<Rightarrow> 'a list \<Rightarrow> bool" where
  insert: "edit_step xs (x # xs)"
| delete: "edit_step (x # xs) xs"
| replace: "edit_step (x # xs) (y # xs)"
| later: "edit_step xs ys \<Longrightarrow> edit_step (x # xs) (x # ys)"

inductive_cases edit_step_ConsE: "edit_step (x # xs) ys"
inductive_cases edit_step_NilE: "edit_step [] ys"

text \<open>An alignment of two words with the number of columns that differ, from the front.\<close>

inductive align :: "nat \<Rightarrow> 'a list \<Rightarrow> 'a list \<Rightarrow> bool" where
  align_Nil: "align 0 [] []"
| align_match: "align n xs ys \<Longrightarrow> align n (c # xs) (c # ys)"
| align_replace: "align n xs ys \<Longrightarrow> align (Suc n) (c # xs) (d # ys)"
| align_delete: "align n xs ys \<Longrightarrow> align (Suc n) (c # xs) ys"
| align_insert: "align n xs ys \<Longrightarrow> align (Suc n) xs (d # ys)"

fun word_distance :: "'a list \<Rightarrow> 'a list \<Rightarrow> nat" where
  "word_distance [] ys = length ys"
| "word_distance (x # xs) [] = Suc (length xs)"
| "word_distance (x # xs) (y # ys) =
     (if x = y then word_distance xs ys
      else 1 + min (min (word_distance xs ys) (word_distance xs (y # ys))) (word_distance (x # xs) ys))"

lemma word_distance_Nil [simp]: "word_distance xs [] = length xs"
  by (cases xs) simp_all

lemma word_distance_Cons:
  "word_distance (x # xs) ys \<le> Suc (word_distance xs ys) \<and> word_distance xs ys \<le> Suc (word_distance (x # xs) ys) \<and>
   word_distance xs (y # ys) \<le> Suc (word_distance xs ys) \<and> word_distance xs ys \<le> Suc (word_distance xs (y # ys))"
proof (induction "length xs + length ys" arbitrary: x xs y ys rule: less_induct)
  case less
  have l: "word_distance (x # xs) ys' \<le> Suc (word_distance xs ys') \<and> word_distance xs ys' \<le> Suc (word_distance (x # xs) ys')"
    if "ys = z # ys'" for z ys' x using less[of xs ys' x] that by simp
  have r: "word_distance xs' (y # ys) \<le> Suc (word_distance xs' ys) \<and> word_distance xs' ys \<le> Suc (word_distance xs' (y # ys))"
    if "xs = z # xs'" for z xs' y using less[of xs' ys _ y] that by simp
  have l': "word_distance xs ys' \<le> Suc (word_distance xs (z # ys')) \<and> word_distance xs (z # ys') \<le> Suc (word_distance xs ys')"
    if "ys = w # ys'" for w z ys' using less[of xs ys' _ z] that by simp
  have r': "word_distance xs' ys \<le> Suc (word_distance (z # xs') ys) \<and> word_distance (z # xs') ys \<le> Suc (word_distance xs' ys)"
    if "xs = w # xs'" for w z xs' using less[of xs' ys z] that by simp
  have 1: "word_distance (x # xs) ys \<le> Suc (word_distance xs ys)" using l' by (cases ys) auto
  have 2: "word_distance xs (y # ys) \<le> Suc (word_distance xs ys)" using r' by (cases xs) auto
  have 3: "word_distance xs ys \<le> Suc (word_distance (x # xs) ys)"
  proof (cases ys)
    case (Cons z ys')
    show ?thesis using l[OF Cons, of x] l'[OF Cons, of z] unfolding Cons by auto
  qed simp
  have 4: "word_distance xs ys \<le> Suc (word_distance xs (y # ys))"
  proof (cases xs)
    case (Cons z xs')
    show ?thesis using r[OF Cons, of y] r'[OF Cons, of z] unfolding Cons by auto
  qed simp
  from 1 2 3 4 show ?case by blast
qed

lemma align_distance: "align n xs ys \<Longrightarrow> word_distance xs ys \<le> n"
proof (induction rule: align.induct)
  case (align_delete n xs ys c)
  then show ?case using word_distance_Cons[of c xs ys] by (meson Suc_le_mono le_trans)
next
  case (align_insert n xs ys d)
  then show ?case using word_distance_Cons[of undefined xs ys d] by (meson Suc_le_mono le_trans)
qed (auto simp: min_def)

lemma align_inserts: "align (length ys) [] ys"
  by (induction ys) (auto intro: align.intros)

lemma align_deletes: "align (length xs) xs []"
  by (induction xs) (auto intro: align.intros)

lemma distance_align: "align (word_distance xs ys) xs ys"
proof (induction xs ys rule: word_distance.induct)
  case (2 x xs)
  then show ?case using align_deletes[of "x # xs"] by simp
next
  case (3 x xs y ys)
  then show ?case by (auto simp: min_def intro: align.intros)
qed (simp add: align_inserts)

lemma align_edit: "align n xs ys \<Longrightarrow> edit_step ys zs \<Longrightarrow> \<exists>m \<le> Suc n. align m xs zs"
proof (induction arbitrary: zs rule: align.induct)
  case align_Nil
  then show ?case by (auto elim!: edit_step_NilE intro!: exI[of _ 1] align.intros)
next
  case (align_match n xs ys c)
  from align_match.prems show ?case
    by (rule edit_step_ConsE) (use align_match in \<open>blast intro: align.intros le_SucI\<close>)+
next
  case (align_replace n xs ys c d)
  from align_replace.prems show ?case
    by (rule edit_step_ConsE) (use align_replace in \<open>blast intro: align.intros le_SucI Suc_le_mono[THEN iffD2]\<close>)+
next
  case (align_delete n xs ys c)
  then show ?case by (meson Suc_le_mono align.align_delete)
next
  case (align_insert n xs ys d)
  from align_insert.prems show ?case
    by (rule edit_step_ConsE) (use align_insert in \<open>blast intro: align.intros le_SucI Suc_le_mono[THEN iffD2]\<close>)+
qed

lemma edits_distance: "(edit_step ^^ n) xs ys \<Longrightarrow> word_distance xs ys \<le> n"
proof -
  have "\<exists>m \<le> n. align m xs ys" if "(edit_step ^^ n) xs ys" for n
    using that
  proof (induction n arbitrary: ys)
    case 0
    have "align 0 xs xs" by (induction xs) (auto intro: align.intros)
    with 0 show ?case by auto
  next
    case (Suc n)
    then obtain zs where "(edit_step ^^ n) xs zs" "edit_step zs ys" by auto
    with Suc.IH align_edit show ?case by (metis Suc_le_mono le_trans)
  qed
  then show "(edit_step ^^ n) xs ys \<Longrightarrow> word_distance xs ys \<le> n" using align_distance le_trans by blast
qed

lemma edits_later: "(edit_step ^^ n) xs ys \<Longrightarrow> (edit_step ^^ n) (c # xs) (c # ys)"
  by (induction n arbitrary: ys) (auto intro: edit_step.later)

lemma align_edits: "align n xs ys \<Longrightarrow> (edit_step ^^ n) xs ys"
proof (induction rule: align.induct)
  case (align_replace n xs ys c d)
  show ?case by (rule relpowp_Suc_I2) (rule edit_step.replace, rule edits_later[OF align_replace.IH])
next
  case (align_delete n xs ys c)
  show ?case by (rule relpowp_Suc_I2) (rule edit_step.delete, rule align_delete.IH)
next
  case (align_insert n xs ys d)
  show ?case by (rule relpowp_Suc_I[OF align_insert.IH]) (rule edit_step.insert)
qed (auto intro: edits_later)

lemma edit_step_append: "edit_step xs ys \<Longrightarrow> edit_step (xs @ zs) (ys @ zs)"
  by (induction rule: edit_step.induct) (auto intro: edit_step.intros)

lemma edit_step_prefix: "edit_step xs ys \<Longrightarrow> edit_step (zs @ xs) (zs @ ys)"
  by (induction zs) (auto intro: edit_step.later)

lemma edit_step_rev: "edit_step xs ys \<Longrightarrow> edit_step (rev xs) (rev ys)"
proof (induction rule: edit_step.induct)
  case (insert xs x)
  show ?case using edit_step_prefix[OF edit_step.insert[of "[]" x]] by simp
next
  case (delete x xs)
  show ?case using edit_step_prefix[OF edit_step.delete[of x "[]"]] by simp
next
  case (replace x xs y)
  show ?case using edit_step_prefix[OF edit_step.replace[of x "[]" y]] by simp
next
  case (later xs ys x)
  then show ?case by (simp add: edit_step_append)
qed

lemma edits_rev: "(edit_step ^^ n) (rev xs) (rev ys) \<longleftrightarrow> (edit_step ^^ n) xs ys"
proof -
  have "(edit_step ^^ n) xs ys \<Longrightarrow> (edit_step ^^ n) (rev xs) (rev ys)" for xs ys :: "'a list"
    by (induction n arbitrary: ys) (auto intro: edit_step_rev)
  from this[of xs ys] this[of "rev xs" "rev ys"] show ?thesis by auto
qed

lemma prefix_word_distance:
  "i \<le> length a \<Longrightarrow> j \<le> length b \<Longrightarrow> prefix_distance a b i j = word_distance (rev (take i a)) (rev (take j b))"
  by (induction a b i j rule: prefix_distance.induct) (simp_all add: take_Suc_conv_app_nth)

lemma edit_distance_word: "edit_distance a b = word_distance (rev a) (rev b)"
  by (simp add: edit_distance_prefix prefix_word_distance)

lemma edit_distance_least: "edit_distance a b \<le> n" if "(edit_step ^^ n) a b"
  using edits_distance[of n "rev a" "rev b"] that by (simp add: edits_rev edit_distance_word)

lemma edit_distance_edits: "(edit_step ^^ edit_distance a b) a b"
  using align_edits[OF distance_align[of "rev a" "rev b"]] by (simp add: edits_rev edit_distance_word)

lemma min_by_snd_None [simp]: "min_by_snd xs = None \<longleftrightarrow> xs = []"
  by (cases xs) (auto split: option.splits)

lemma min_by_snd_Some: "min_by_snd xs = Some x \<Longrightarrow> x \<in> set xs \<and> (\<forall>y \<in> set xs. snd x \<le> snd y)"
  by (induction xs arbitrary: x) (force split: option.splits if_splits)+

text \<open>The table of the edit distance computes the least number of insertions, deletions and
  replacements of one character that turn one word into the other. A suggestion for a misspelt option is one of the
  options, equal to the input but for case or else within two edits and as close as any; and there is none
  only when no option is within two edits.\<close>

lemma did_you_mean_closest:
  "(edit_step ^^ edit_distance a b) a b \<and> (\<forall>n. (edit_step ^^ n) a b \<longrightarrow> edit_distance a b \<le> n) \<and>
   (case did_you_mean lower input options of
      Some opt \<Rightarrow> opt \<in> set options \<and> (lower opt = lower input \<or>
        (\<exists>d \<le> 2. (edit_step ^^ d) (lower input) (lower opt) \<and>
          (\<forall>o' \<in> set options. \<forall>n. (edit_step ^^ n) (lower input) (lower o') \<longrightarrow> d \<le> n)))
    | None \<Rightarrow> \<forall>o' \<in> set options. \<forall>n \<le> 2. \<not> (edit_step ^^ n) (lower input) (lower o'))"
proof -
  let ?l = "filter (\<lambda>(_, d). d \<le> 2) (map (\<lambda>o'. (o', edit_distance (lower input) (lower o'))) options)"
  have far: "\<not> (edit_step ^^ n) (lower input) (lower o')"
    if "\<not> edit_distance (lower input) (lower o') \<le> 2" "n \<le> 2" for o' n using that edit_distance_least by (meson le_trans)
  have near: "opt \<in> set options \<and> d \<le> 2 \<and> (edit_step ^^ d) (lower input) (lower opt) \<and>
      (\<forall>o' \<in> set options. \<forall>n. (edit_step ^^ n) (lower input) (lower o') \<longrightarrow> d \<le> n)" if m: "min_by_snd ?l = Some (opt, d)" for opt d
  proof -
    have o: "opt \<in> set options" "d = edit_distance (lower input) (lower opt)" "d \<le> 2"
      and best: "\<And>o'. o' \<in> set options \<Longrightarrow> edit_distance (lower input) (lower o') \<le> 2 \<Longrightarrow> d \<le> edit_distance (lower input) (lower o')"
      using min_by_snd_Some[OF m] by auto
    have "d \<le> n" if "o' \<in> set options" "(edit_step ^^ n) (lower input) (lower o')" for o' n
      using best[OF that(1)] edit_distance_least[OF that(2)] o(3) by linarith
    with o edit_distance_edits show ?thesis by blast
  qed
  have "case did_you_mean lower input options of
      Some opt \<Rightarrow> opt \<in> set options \<and> (lower opt = lower input \<or>
        (\<exists>d \<le> 2. (edit_step ^^ d) (lower input) (lower opt) \<and>
          (\<forall>o' \<in> set options. \<forall>n. (edit_step ^^ n) (lower input) (lower o') \<longrightarrow> d \<le> n)))
    | None \<Rightarrow> \<forall>o' \<in> set options. \<forall>n \<le> 2. \<not> (edit_step ^^ n) (lower input) (lower o')"
  proof (cases "find (\<lambda>o'. lower o' = lower input) options")
    case (Some opt)
    then have "opt \<in> set options" "lower opt = lower input" by (auto simp: find_Some_iff)
    with Some show ?thesis by (simp add: did_you_mean_def)
  next
    case None
    show ?thesis
    proof (cases "min_by_snd ?l")
      case no: None
      then have "\<forall>o' \<in> set options. \<not> edit_distance (lower input) (lower o') \<le> 2" by (auto simp: filter_empty_conv)
      with far no None show ?thesis by (simp add: did_you_mean_def)
    next
      case (Some x)
      obtain opt d where x: "x = (opt, d)" by force
      have "did_you_mean lower input options = Some opt" using None Some x by (simp add: did_you_mean_def)
      with near[of opt d] Some x show ?thesis by auto
    qed
  qed
  with edit_distance_edits edit_distance_least show ?thesis by blast
qed

text \<open>The statement holds for every input; at one of the inputs that the tests of the code have, it says
  which option is meant.\<close>

end
