(* ===== verification/Audit_Cli.thy ===== *)
theory Audit_Cli
  imports Evidence Audit_Export Cli_Errors
begin

section \<open>The audit commands\<close>

text \<open>
  \<open>crates/maranode-cli/src/commands/audit.rs\<close>: the commands that verify, print, export, bundle, prune, back up,
  restore and search the audit log. What is printed is a value of the result type of the command; colours and
  the wording of messages are left out. \<open>line_value\<close> reads a line as a JSON value, \<open>parse_time\<close> an RFC 3339
  time, \<open>lower\<close> is \<open>str::to_lowercase\<close>. For backup and restore the file system is a map from paths to the mode
  and the content; a member of an archive goes where joining its name to the directory leads.
\<close>

record cli_env = evidence_env +
  cli_x :: xenv
  line_value :: "ustring \<Rightarrow> json option"
  parse_time :: "string \<Rightarrow> timestamp option"
  lower_fn :: "ustring \<Rightarrow> ustring"
  cli_time_text :: "timestamp \<Rightarrow> string"

datatype exit_status = ExitOk | ExitOne

definition log_lines :: "ustring \<Rightarrow> ustring list" where
  "log_lines content = filter (\<lambda>l. \<not> is_blank l) (str_lines content)"

definition parsed_entries :: "'a evidence_env_scheme \<Rightarrow> ustring \<Rightarrow> audit_entry list" where
  "parsed_entries env content = List.map_filter (entry_parse (ev_audit env)) (log_lines content)"

subsection \<open>verify, segments, tail\<close>

datatype verify_outcome = NoEntries | ChainIntact nat | IntegrityViolation "violation option"

definition cmd_verify ::
  "cli_env \<Rightarrow> nat list \<Rightarrow> key_file \<Rightarrow> audit_dir \<Rightarrow> (key_error + audit_error, verify_outcome \<times> exit_status) result \<times> key_file" where
  "cmd_verify env random kf d =
     (case load_or_generate random kf of
        (Inl e, kf1) \<Rightarrow> (Inl (Inl e), kf1)
      | (Inr key, kf1) \<Rightarrow>
          ((case verify_all (ev_audit env) (key_of_bytes key) d of
              Inl e \<Rightarrow> Inl (Inr e)
            | Inr r \<Rightarrow>
                if entries_checked r = 0 \<and> vr_ok r then Inr (NoEntries, ExitOk)
                else if vr_ok r then Inr (ChainIntact (entries_checked r), ExitOk)
                else Inr (IntegrityViolation (first_violation r), ExitOne)), kf1))"

definition cmd_segments :: "audit_dir \<Rightarrow> (audit_error, segment list) result" where
  "cmd_segments d = rbind (load_manifest d) (\<lambda>m. Inr (mf_segments m))"

definition tail_line :: "json \<Rightarrow> string \<times> nat \<times> string \<times> string" where
  "tail_line v = (unwrap_or ''?'' (json_as_str (json_get v ''ts'')), unwrap_or 0 (json_as_u64 (json_get v ''seq'')),
     unwrap_or ''?'' (json_as_str (json_get v ''actor'')), unwrap_or ''?'' (json_as_str (json_get v ''event'')))"

definition cmd_tail :: "cli_env \<Rightarrow> nat \<Rightarrow> audit_dir \<Rightarrow> (string \<times> nat \<times> string \<times> string) list" where
  "cmd_tail env n d = (case log_text d of
      None \<Rightarrow> []
    | Some content \<Rightarrow>
        (let lines = log_lines content; start = length lines - n
         in List.map_filter (\<lambda>l. map_option tail_line (line_value env l)) (drop start lines)))"

subsection \<open>export, bundle, prune\<close>

datatype export_outcome =
    ExportNoLog
  | ExportUnknown "ustring option"
  | Exported string string

definition FORMATS :: "string list" where
  "FORMATS = [''gdpr'', ''hipaa'', ''soc2'', ''iso27001'', ''cef'', ''leef'']"

definition cli_filter :: "cli_env \<Rightarrow> string option \<Rightarrow> string option \<Rightarrow> string option \<Rightarrow> export_filter" where
  "cli_filter env workspace from to = \<lparr>ef_workspace = workspace, ef_from = Option.bind from (parse_time env), ef_to = Option.bind to (parse_time env)\<rparr>"

text \<open>The file written and its content.\<close>

definition export_body :: "cli_env \<Rightarrow> string \<Rightarrow> export_filter \<Rightarrow> audit_dir \<Rightarrow> string \<times> string" where
  "export_body env name f d = (let a = ev_audit env; x = cli_x env in
     if name = ''gdpr'' then (export_gdpr a x d f, ''csv'')
     else if name = ''hipaa'' then (export_hipaa a x d f, ''csv'')
     else if name = ''soc2'' then (export_soc2 a x d f, ''csv'')
     else if name = ''iso27001'' then (export_iso27001 a x d f, ''csv'')
     else if name = ''cef'' then (export_cef a d f, ''cef'')
     else (export_leef a x d f, ''leef''))"

definition cmd_export ::
  "cli_env \<Rightarrow> ustring \<Rightarrow> string option \<Rightarrow> string option \<Rightarrow> string option \<Rightarrow> string option \<Rightarrow> audit_dir \<Rightarrow> export_outcome" where
  "cmd_export env format workspace from to output d =
     (if log_text d = None then ExportNoLog
      else case find (\<lambda>n. ascii n = format) FORMATS of
        None \<Rightarrow> ExportUnknown (did_you_mean (lower_fn env) format (map ascii FORMATS))
      | Some name \<Rightarrow>
          (let (body, ext) = export_body env name (cli_filter env workspace from to) d
           in Exported (unwrap_or (''audit_'' @ name @ ''.'' @ ext) output) body))"

definition cmd_bundle ::
  "cli_env \<Rightarrow> string \<times> string \<Rightarrow> bytes \<Rightarrow> bool \<times> bool \<Rightarrow> audit_dir \<Rightarrow> key_file \<Rightarrow> sign_dir \<Rightarrow> (bundle_error, archive) result option \<times> sign_dir" where
  "cmd_bundle env now random can_write d kf sd =
     (if log_text d = None then (None, sd)
      else let (k, sd1) = load_or_create env random can_write sd
           in (Some (create_bundle (evidence_env.truncate env) now (log_text d) kf None (case k of Inl _ \<Rightarrow> None | Inr sk \<Rightarrow> Some sk)), sd1))"

datatype prune_outcome = PruneNoLog | DryRun nat | Pruned nat

definition stale_line :: "cli_env \<Rightarrow> timestamp \<Rightarrow> ustring \<Rightarrow> bool" where
  "stale_line env cutoff l = (case line_value env l of
      None \<Rightarrow> False
    | Some v \<Rightarrow> (case Option.bind (json_as_str (json_get v ''ts'')) (parse_time env) of Some t \<Rightarrow> t < cutoff | None \<Rightarrow> False))"

definition cmd_prune ::
  "cli_env \<Rightarrow> timestamp \<Rightarrow> nat \<Rightarrow> bool \<Rightarrow> audit_dir \<Rightarrow> (audit_error, prune_outcome) result \<times> audit_dir" where
  "cmd_prune env now retain_days confirm d = (case log_text d of
      None \<Rightarrow> (Inr PruneNoLog, d)
    | Some content \<Rightarrow>
        if \<not> confirm then (Inr (DryRun (length (filter (stale_line env (now - days retain_days)) (log_lines content)))), d)
        else let (r, d1) = prune_log (ev_audit env) now retain_days d in (map_sum id Pruned r, d1))"

subsection \<open>prove, export-cert, isolation-report\<close>

datatype search_error = NoAuditLog | NotFound

definition find_receipt :: "'a evidence_env_scheme \<Rightarrow> string \<Rightarrow> ustring \<Rightarrow> inference_receipt option" where
  "find_receipt env record_id content =
     Option.bind (find (\<lambda>e. case ae_event e of InferenceReceipt r \<Rightarrow> rc_request_id r = record_id | _ \<Rightarrow> False) (parsed_entries env content))
       (\<lambda>e. case ae_event e of InferenceReceipt r \<Rightarrow> Some r | _ \<Rightarrow> None)"

definition cmd_prove :: "cli_env \<Rightarrow> string \<Rightarrow> audit_dir \<Rightarrow> (search_error, inference_receipt) result" where
  "cmd_prove env record_id d = rbind (ok_or NoAuditLog (log_text d)) (\<lambda>content. ok_or NotFound (find_receipt env record_id content))"

definition certificate_text :: "cli_env \<Rightarrow> string \<Rightarrow> audit_entry \<Rightarrow> string \<Rightarrow> string \<Rightarrow> string" where
  "certificate_text env slug e actor statement =
     ''DELETION CERTIFICATE'' @ [newline] @ ''===================='' @ [newline, newline]
     @ ''workspace : '' @ slug @ [newline]
     @ ''timestamp : '' @ cli_time_text env (ae_ts e) @ [newline]
     @ ''audit seq : '' @ show_nat (ae_seq e) @ [newline]
     @ ''actor     : '' @ actor @ [newline]
     @ ''hmac      : '' @ ae_hmac e @ [newline, newline]
     @ ''statement :'' @ [newline] @ ''  '' @ statement @ [newline, newline]
     @ ''This certificate is derived from an HMAC-chained audit log entry.'' @ [newline]
     @ ''verify integrity with: maranode audit verify'' @ [newline]"

definition export_deletion_cert ::
  "cli_env \<Rightarrow> string \<Rightarrow> string option \<Rightarrow> audit_dir \<Rightarrow> (search_error, string \<times> string) result" where
  "export_deletion_cert env slug output d =
     rbind (ok_or NoAuditLog (log_text d)) (\<lambda>content.
     rbind (ok_or NotFound (find (\<lambda>e. case ae_event e of WorkspaceShredded s _ _ \<Rightarrow> s = slug | _ \<Rightarrow> False) (parsed_entries env content))) (\<lambda>e.
       case ae_event e of
         WorkspaceShredded _ actor statement \<Rightarrow>
           Inr (unwrap_or (''deletion_cert_'' @ slug @ ''.txt'') output, certificate_text env slug e actor statement)
       | _ \<Rightarrow> Inl NotFound))"

definition probe_of :: "audit_entry \<Rightarrow> (audit_entry \<times> bool \<times> probe_result list \<times> string) option" where
  "probe_of e = (case ae_event e of IsolationProbe isolated results hash \<Rightarrow> Some (e, isolated, results, hash) | _ \<Rightarrow> None)"

definition isolation_probes ::
  "cli_env \<Rightarrow> string option \<Rightarrow> string option \<Rightarrow> bool \<Rightarrow> ustring \<Rightarrow> (audit_entry \<times> bool \<times> probe_result list \<times> string) list" where
  "isolation_probes env from to drift_only content =
     filter (\<lambda>(_, isolated, _). if drift_only then \<not> isolated else True)
       (filter (\<lambda>(e, _). (case Option.bind from (parse_time env) of Some f \<Rightarrow> \<not> ae_ts e < f | None \<Rightarrow> True) \<and>
                          (case Option.bind to (parse_time env) of Some t \<Rightarrow> \<not> t < ae_ts e | None \<Rightarrow> True))
         (List.map_filter probe_of (parsed_entries env content)))"

text \<open>What is printed for a probe: whether it held, the hosts that could be reached, and the first sixteen
  bytes of the digest of the rules. The program ends when the digest is shorter.\<close>

datatype probe_line = ProbeLine bool timestamp nat "(string \<times> nat) list" "string option"

definition print_probe :: "audit_entry \<times> bool \<times> probe_result list \<times> string \<Rightarrow> probe_line option" where
  "print_probe p = (case p of (e, isolated, results, hash) \<Rightarrow>
     let hosts = (if isolated then [] else map (\<lambda>r. (pr_host r, pr_port r)) (filter pr_reachable results))
     in if hash = [] then Some (ProbeLine isolated (ae_ts e) (ae_seq e) hosts None)
        else if length hash < 16 then None
        else Some (ProbeLine isolated (ae_ts e) (ae_seq e) hosts (Some (take 16 hash))))"

datatype isolation_report =
    ReportNoLog
  | ReportNoProbes
  | Report nat nat "probe_line list"
  | ReportPanic nat nat "probe_line list"

fun print_all :: "('a \<Rightarrow> 'b option) \<Rightarrow> 'a list \<Rightarrow> 'b list \<times> bool" where
  "print_all f [] = ([], True)"
| "print_all f (x # xs) = (case f x of None \<Rightarrow> ([], False) | Some y \<Rightarrow> (let (ys, ok) = print_all f xs in (y # ys, ok)))"

definition cmd_isolation_report :: "cli_env \<Rightarrow> string option \<Rightarrow> string option \<Rightarrow> bool \<Rightarrow> audit_dir \<Rightarrow> isolation_report" where
  "cmd_isolation_report env from to drift_only d = (case log_text d of
      None \<Rightarrow> ReportNoLog
    | Some content \<Rightarrow>
        (let probes = isolation_probes env from to drift_only content in
         if probes = [] then ReportNoProbes
         else let drift = length (filter (\<lambda>(_, isolated, _). \<not> isolated) probes); (ls, ok) = print_all print_probe probes
              in if ok then Report (length probes) drift ls else ReportPanic (length probes) drift ls))"

subsection \<open>verify-sources, forward, replay\<close>

datatype source_line = SourceOk string string | SourceTampered string string string string string | SourceMissing string rag_error

text \<open>The store is opened without a key. A chunk is named by the first eight bytes of its id; the program ends
  when the id is shorter.\<close>

definition check_source :: "crypto \<Rightarrow> vector_store \<Rightarrow> source_ref \<Rightarrow> source_line option" where
  "check_source cr store src =
     (let short = take 8 (sr_chunk_id src) in
      if length (sr_chunk_id src) < 8 then None
      else Some (case verify_chunk_hash cr store (sr_chunk_id src) of
          Inr (stored, computed, matches) \<Rightarrow>
            if matches then SourceOk short (sr_source src) else SourceTampered short (sr_source src) (sr_chunk_hash src) stored computed
        | Inl e \<Rightarrow> SourceMissing short e))"

datatype sources_outcome = NotGrounded | SourcesChecked "source_line list" exit_status | SourcesPanic "source_line list"

datatype sources_error = SourcesSearch search_error | StoreOpen rag_error

definition source_fine :: "source_line \<Rightarrow> bool" where
  "source_fine l = (case l of SourceOk _ _ \<Rightarrow> True | _ \<Rightarrow> False)"

definition verify_sources ::
  "cli_env \<Rightarrow> string \<Rightarrow> audit_dir \<Rightarrow> (rag_error, vector_store) result \<Rightarrow> (sources_error, sources_outcome) result" where
  "verify_sources env record_id d opened =
     (case cmd_prove env record_id d of
        Inl e \<Rightarrow> Inl (SourcesSearch e)
      | Inr receipt \<Rightarrow>
          if rc_sources receipt = [] then Inr NotGrounded
          else case opened of
            Inl e \<Rightarrow> Inl (StoreOpen e)
          | Inr store \<Rightarrow>
              (let (ls, ok) = print_all (check_source (ev_crypto env) (store\<lparr>vs_dek := None\<rparr>)) (rc_sources receipt)
               in if \<not> ok then Inr (SourcesPanic ls)
                  else Inr (SourcesChecked ls (if list_all source_fine ls then ExitOk else ExitOne))))"

definition hostname_or_unknown :: "ustring option \<Rightarrow> string" where
  "hostname_or_unknown out = (case out of
      None \<Rightarrow> ''unknown''
    | Some s \<Rightarrow> if trim s = [] then ''unknown'' else utf8_encode (trim s))"

definition byte_lines :: "string \<Rightarrow> string list" where
  "byte_lines s = map (map char_of) (log_lines (map of_char s))"

definition syslog_message :: "string \<Rightarrow> string \<Rightarrow> string \<Rightarrow> string" where
  "syslog_message now hostname line = ''<14>1 '' @ now @ '' '' @ hostname @ '' maranode - - - '' @ line @ [newline]"

datatype forward_outcome = ForwardNoLog | NoEvents | Forwarded nat | ConnectError | SendError

text \<open>Each message carries the time at which it is sent; sending stops at the first failure. Binding a UDP
  socket and connecting over TCP can fail.\<close>

fun send_all :: "(nat \<Rightarrow> string \<Rightarrow> bool) \<Rightarrow> nat \<Rightarrow> string list \<Rightarrow> string list \<times> bool" where
  "send_all ok i [] = ([], True)"
| "send_all ok i (m # ms) = (if ok i m then (let (sent, all) = send_all ok (Suc i) ms in (m # sent, all)) else ([], False))"

definition forward_syslog ::
  "cli_env \<Rightarrow> (nat \<Rightarrow> string) \<Rightarrow> ustring option \<Rightarrow> bool \<Rightarrow> (nat \<Rightarrow> string \<Rightarrow> bool) \<Rightarrow> export_filter \<Rightarrow> audit_dir \<Rightarrow> forward_outcome \<times> string list" where
  "forward_syslog env now host connects send_ok f d =
     (if log_text d = None then (ForwardNoLog, [])
      else let lines = byte_lines (export_cef (ev_audit env) d f) in
        if lines = [] then (NoEvents, [])
        else if \<not> connects then (ConnectError, [])
        else let msgs = map (\<lambda>(i, l). syslog_message (now i) (hostname_or_unknown host) l) (enumerate 0 lines);
                 (sent, all) = send_all send_ok 0 msgs
             in (if all then Forwarded (length sent) else SendError, sent))"

datatype replay_error =
    ReplaySearch search_error | NoPrompt | PromptUnreadable | Unreachable | DaemonStatus nat | BadReply | NoReceiptField | NoOutputHash

definition logged_prompt :: "cli_env \<Rightarrow> string \<Rightarrow> ustring \<Rightarrow> string option" where
  "logged_prompt env record_id content =
     Option.bind (find (\<lambda>v. json_get v ''event'' = JStr ''inference_start'' \<and> json_get v ''request_id'' = JStr record_id \<and>
         json_as_str (json_get v ''prompt'') \<noteq> None) (List.map_filter (line_value env) (log_lines content)))
       (\<lambda>v. json_as_str (json_get v ''prompt''))"

definition replay_body :: "inference_receipt \<Rightarrow> json list \<Rightarrow> json" where
  "replay_body stored messages = json_object
     [(''model'', JStr (rc_model_id stored)), (''messages'', JArr messages),
      (''max_tokens'', jnat (unwrap_or 2048 (dp_max_tokens (rc_decode_params stored)))),
      (''deterministic'', JBool True), (''with_receipt'', JBool True)]"

text \<open>The daemon answers a body with a status and, where it is JSON, a value.\<close>

definition replay_inference ::
  "cli_env \<Rightarrow> (string \<Rightarrow> json list option) \<Rightarrow> (json \<Rightarrow> (nat \<times> json option) option) \<Rightarrow> string \<Rightarrow> audit_dir \<Rightarrow>
     (replay_error, exit_status) result" where
  "replay_inference env parse_messages daemon record_id d =
     rbind (map_sum ReplaySearch id (cmd_prove env record_id d)) (\<lambda>stored.
     rbind (ok_or NoPrompt (Option.bind (log_text d) (logged_prompt env record_id))) (\<lambda>prompt.
     rbind (ok_or PromptUnreadable (parse_messages prompt)) (\<lambda>messages.
     rbind (ok_or Unreachable (daemon (replay_body stored messages))) (\<lambda>(status, reply).
     if \<not> (200 \<le> status \<and> status < 300) then Inl (DaemonStatus status)
     else rbind (ok_or BadReply reply) (\<lambda>v.
       case json_members v of
         None \<Rightarrow> Inl NoReceiptField
       | Some kvs \<Rightarrow>
           rbind (ok_or NoReceiptField (map_of kvs ''receipt'')) (\<lambda>r.
           rbind (ok_or NoOutputHash (json_as_str (json_get r ''output_sha256''))) (\<lambda>h.
             Inr (if rc_output_sha256 stored = h then ExitOk else ExitOne))))))))"

subsection \<open>backup and restore\<close>

type_synonym fs = "string \<rightharpoonup> nat \<times> bytes"

text \<open>\<open>Path::join\<close>: an absolute name replaces the base.\<close>

definition path_join :: "string \<Rightarrow> string \<Rightarrow> string" where
  "path_join base name =
     (if starts_with ''/'' name then name
      else if base = [] \<or> last base = CHR ''/'' then base @ name else base @ ''/'' @ name)"

definition add_file :: "fs \<Rightarrow> string \<Rightarrow> string \<Rightarrow> archive" where
  "add_file files name path = (case files path of None \<Rightarrow> [] | Some (_, content) \<Rightarrow> [(name, content)])"

text \<open>The entries of \<open>workspaces\<close> with whether each is a directory; \<open>None\<close> when there is no such directory. A
  file that is there can be read.\<close>

definition workspace_members :: "fs \<Rightarrow> string \<Rightarrow> string \<Rightarrow> archive" where
  "workspace_members files data_dir slug =
     (let ws_dir = path_join (path_join data_dir ''workspaces'') slug
      in add_file files (''workspaces/'' @ slug @ ''/audit.jsonl'') (path_join ws_dir ''audit.jsonl'')
         @ add_file files (''workspaces/'' @ slug @ ''/audit.key'') (path_join ws_dir ''audit.key''))"

definition backup_audit :: "fs \<Rightarrow> string \<Rightarrow> (string \<times> bool) list option \<Rightarrow> bool \<Rightarrow> archive" where
  "backup_audit files data_dir dirs include_workspaces =
     add_file files ''audit.jsonl'' (path_join data_dir ''audit.jsonl'')
     @ add_file files ''audit.key'' (path_join data_dir ''audit.key'')
     @ add_file files ''bundle_signing.key'' (path_join data_dir ''bundle_signing.key'')
     @ add_file files ''bundle_signing.pub'' (path_join data_dir ''bundle_signing.pub'')
     @ (if include_workspaces
        then concat (map (\<lambda>(slug, is_dir). if is_dir then workspace_members files data_dir slug else []) (unwrap_or [] dirs))
        else [])"

datatype restore_error = ArchiveUnreadable | AlreadyExists string | RestoreIo string | RestoreKey key_error | RestoreVerify audit_error

text \<open>A new file whose name ends in \<open>.key\<close> gets mode 0600 (384), another \<open>umode\<close>; a file that is overwritten keeps
  its mode.\<close>

fun restore_members :: "(string \<Rightarrow> bool) \<Rightarrow> nat \<Rightarrow> string \<Rightarrow> bool \<Rightarrow> archive \<Rightarrow> fs \<Rightarrow> (restore_error, unit) result \<times> fs" where
  "restore_members can_write umode data_dir force [] files = (Inr (), files)"
| "restore_members can_write umode data_dir force ((name, content) # rest) files =
     (let dest = path_join data_dir name in
      if files dest \<noteq> None \<and> \<not> force then (Inl (AlreadyExists dest), files)
      else if \<not> can_write dest then (Inl (RestoreIo dest), files)
      else let mode = (case files dest of Some (m, _) \<Rightarrow> m | None \<Rightarrow> if suffix ''.key'' name then 384 else umode)
           in restore_members can_write umode data_dir force rest (files(dest \<mapsto> (mode, content))))"

definition fs_key :: "fs \<Rightarrow> string \<Rightarrow> key_file" where
  "fs_key files path = map_option (\<lambda>(m, b). (m, map of_char b)) (files path)"

definition set_fs_key :: "string \<Rightarrow> key_file \<Rightarrow> fs \<Rightarrow> fs" where
  "set_fs_key path kf files = files(path := map_option (\<lambda>(m, b). (m, map char_of b)) kf)"

text \<open>\<open>view\<close> reads the files of the directory as a log with its segments.\<close>

definition restore_audit ::
  "cli_env \<Rightarrow> (fs \<Rightarrow> audit_dir) \<Rightarrow> nat list \<Rightarrow> (string \<Rightarrow> bool) \<Rightarrow> nat \<Rightarrow> string \<Rightarrow> archive option \<Rightarrow> bool \<Rightarrow> fs \<Rightarrow>
     (restore_error, verify_result option) result \<times> fs" where
  "restore_audit env view random can_write umode data_dir src force files =
     (case src of
        None \<Rightarrow> (Inl ArchiveUnreadable, files)
      | Some ar \<Rightarrow>
          (case restore_members can_write umode data_dir force ar files of
             (Inl e, files1) \<Rightarrow> (Inl e, files1)
           | (Inr _, files1) \<Rightarrow>
               if files1 (path_join data_dir ''audit.jsonl'') = None then (Inr None, files1)
               else (case load_or_generate random (fs_key files1 (path_join data_dir ''audit.key'')) of
                  (Inl e, kf) \<Rightarrow> (Inl (RestoreKey e), files1)
                | (Inr key, kf) \<Rightarrow>
                    (let files2 = set_fs_key (path_join data_dir ''audit.key'') kf files1
                     in case verify_all (ev_audit env) (key_of_bytes key) (view files2) of
                          Inl e \<Rightarrow> (Inl (RestoreVerify e), files2)
                        | Inr r \<Rightarrow> (Inr (Some r), files2)))))"

subsection \<open>What the searches find\<close>

lemma parsed_written:
  assumes "\<forall>e \<in> set es. serde_line_ok (ev_audit env) e"
  shows "parsed_entries env (file_of (ev_audit env) es) = filter (\<lambda>e. \<not> is_shredded (ae_event e)) es"
  using assms
proof (induction es)
  case (Cons e es)
  have "serde_line_ok (ev_audit env) e" using Cons.prems by simp
  moreover from this have "str_lines (file_of (ev_audit env) (e # es)) = entry_text (ev_audit env) e # str_lines (file_of (ev_audit env) es)"
    by (auto simp: serde_line_ok_def str_lines_prefix)
  ultimately show ?case using Cons
    by (auto simp: parsed_entries_def log_lines_def map_filter_simps serde_line_ok_def entry_keys_distinct)
qed (simp add: parsed_entries_def log_lines_def map_filter_simps)

lemma find_first: "find P xs = Some e \<longleftrightarrow> (\<exists>ys zs. xs = ys @ e # zs \<and> P e \<and> (\<forall>y \<in> set ys. \<not> P y))"
proof (induction xs)
  case (Cons x xs)
  show ?case
  proof (cases "P x")
    case True
    then show ?thesis by (auto simp: Cons_eq_append_conv)
  next
    case False
    then show ?thesis using Cons by (auto simp: Cons_eq_append_conv) (metis set_ConsD)
  qed
qed simp

text \<open>On a log that the daemon wrote, \<open>prove\<close> returns the first receipt with the id, and none only when the log
  has none. A certificate of deletion is never found: the entry of a deletion is the one that cannot be read back,
  because its workspace's actor and the actor of the entry share a key.\<close>

lemma audit_search:
  assumes "\<forall>e \<in> set es. serde_line_ok (ev_audit env) e" and "log_text d = Some (file_of (ev_audit env) es)"
  shows "(\<forall>r. cmd_prove env record_id d = Inr r \<longleftrightarrow> (\<exists>xs e ys. es = xs @ e # ys \<and> ae_event e = InferenceReceipt r \<and> rc_request_id r = record_id \<and>
         (\<forall>x \<in> set xs. \<forall>r'. ae_event x = InferenceReceipt r' \<longrightarrow> rc_request_id r' \<noteq> record_id))) \<and>
     (cmd_prove env record_id d = Inl NotFound \<longleftrightarrow> (\<forall>e \<in> set es. \<forall>r. ae_event e = InferenceReceipt r \<longrightarrow> rc_request_id r \<noteq> record_id)) \<and>
     export_deletion_cert env slug output d = Inl NotFound"
proof -
  let ?P = "\<lambda>e. case ae_event e of InferenceReceipt r \<Rightarrow> rc_request_id r = record_id | _ \<Rightarrow> False"
  let ?es = "filter (\<lambda>e. \<not> is_shredded (ae_event e)) es"
  have parsed: "parsed_entries env (file_of (ev_audit env) es) = ?es" by (rule parsed_written[OF assms(1)])
  have P: "?P e \<longleftrightarrow> (\<exists>r. ae_event e = InferenceReceipt r \<and> rc_request_id r = record_id)" for e by (auto split: audit_event.splits)
  have filt: "find ?P ?es = find ?P es" by (induction es) (auto simp: is_shredded_def split: audit_event.splits)
  have found: "cmd_prove env record_id d = ok_or NotFound (Option.bind (find ?P es) (\<lambda>e. case ae_event e of InferenceReceipt r \<Rightarrow> Some r | _ \<Rightarrow> None))"
    by (simp add: cmd_prove_def assms(2) find_receipt_def parsed filt)
  have none: "find (\<lambda>e. case ae_event e of WorkspaceShredded s _ _ \<Rightarrow> s = slug | _ \<Rightarrow> False) ?es = None"
    by (auto simp: find_None_iff is_shredded_def split: audit_event.splits)
  have cert: "export_deletion_cert env slug output d = Inl NotFound"
    by (simp add: export_deletion_cert_def assms(2) parsed none)
  have not: "cmd_prove env record_id d = Inl NotFound \<longleftrightarrow> (\<forall>e \<in> set es. \<not> ?P e)"
  proof (cases "find ?P es")
    case None
    then show ?thesis by (simp add: found) (simp add: find_None_iff)
  next
    case (Some e)
    then have e: "e \<in> set es" "?P e" by (auto simp: find_Some_iff)
    then obtain r where "ae_event e = InferenceReceipt r" unfolding P by blast
    then have "cmd_prove env record_id d \<noteq> Inl NotFound" using Some by (simp add: found)
    with e show ?thesis by blast
  qed
  have yes: "cmd_prove env record_id d = Inr r \<longleftrightarrow> (\<exists>xs e ys. es = xs @ e # ys \<and> ae_event e = InferenceReceipt r \<and> ?P e \<and> (\<forall>x \<in> set xs. \<not> ?P x))" for r
  proof -
    have "cmd_prove env record_id d = Inr r \<longleftrightarrow> (\<exists>e. find ?P es = Some e \<and> ae_event e = InferenceReceipt r)"
      unfolding found by (cases "find ?P es") (auto split: audit_event.splits)
    also have "\<dots> \<longleftrightarrow> (\<exists>xs e ys. es = xs @ e # ys \<and> ae_event e = InferenceReceipt r \<and> ?P e \<and> (\<forall>x \<in> set xs. \<not> ?P x))"
      unfolding find_first by blast
    finally show ?thesis .
  qed
  show ?thesis
  proof (intro conjI allI)
    fix r show "cmd_prove env record_id d = Inr r \<longleftrightarrow> (\<exists>xs e ys. es = xs @ e # ys \<and> ae_event e = InferenceReceipt r \<and> rc_request_id r = record_id \<and>
         (\<forall>x \<in> set xs. \<forall>r'. ae_event x = InferenceReceipt r' \<longrightarrow> rc_request_id r' \<noteq> record_id))"
      unfolding yes P by (intro iff_exI) auto
    show "cmd_prove env record_id d = Inl NotFound \<longleftrightarrow> (\<forall>e \<in> set es. \<forall>r. ae_event e = InferenceReceipt r \<longrightarrow> rc_request_id r \<noteq> record_id)"
      unfolding not P by blast
  qed (rule cert)
qed

definition demo_receipt :: inference_receipt where
  "demo_receipt = unsigned_receipt demo_receipt_env demo_receipt_rnd demo_request []"

definition demo_written :: "audit_entry list" where
  "demo_written = [demo_entry 1 GENESIS_HMAC (WorkspaceShredded ''w'' ''root'' ''gone''), demo_entry 2 [] (InferenceReceipt demo_receipt)]"

definition demo_cli_env :: cli_env where
  "demo_cli_env = evidence_env.extend (demo_evidence_env\<lparr>ev_audit := Audit_Chain.demo_env demo_written\<rparr>)
     (cli_env.fields \<lparr>rfc3339 = (\<lambda>_. []), show_json = (\<lambda>_. [])\<rparr> (\<lambda>_. None) (\<lambda>_. None) id (\<lambda>_. []))"

definition demo_written_dir :: audit_dir where
  "demo_written_dir = \<lparr>ad_log = Some 0, ad_inodes = (\<lambda>_. file_of (Audit_Chain.demo_env demo_written) demo_written), ad_next = 1,
     ad_segments = Map.empty, ad_manifest = MfMissing\<rparr>"

subsection \<open>A backup is restored\<close>

definition relative :: "string \<Rightarrow> bool" where
  "relative name \<longleftrightarrow> name \<noteq> [] \<and> hd name \<noteq> CHR ''/''"

lemma relative_join: "relative n \<Longrightarrow> path_join d n = (if d = [] \<or> last d = CHR ''/'' then d @ n else d @ ''/'' @ n)"
  by (cases n) (auto simp: path_join_def relative_def starts_with_def)

lemma path_join_inject: "relative n \<Longrightarrow> relative n' \<Longrightarrow> path_join d n = path_join d n' \<longleftrightarrow> n = n'"
  by (auto simp: relative_join)

lemma path_join_assoc:
  assumes "relative a" "last a \<noteq> CHR ''/''" "relative b"
  shows "path_join (path_join d a) b = path_join d (a @ ''/'' @ b)"
proof -
  have "relative (a @ ''/'' @ b)" "a \<noteq> []" using assms by (auto simp: relative_def)
  with assms show ?thesis by (simp add: relative_join)
qed

text \<open>The names of the members that a backup can have.\<close>

definition workspace_names :: "string \<Rightarrow> string list" where
  "workspace_names slug = [''workspaces/'' @ slug @ ''/audit.jsonl'', ''workspaces/'' @ slug @ ''/audit.key'']"

definition backup_names :: "(string \<times> bool) list option \<Rightarrow> bool \<Rightarrow> string list" where
  "backup_names dirs include_workspaces =
     [''audit.jsonl'', ''audit.key'', ''bundle_signing.key'', ''bundle_signing.pub'']
     @ (if include_workspaces then concat (map (\<lambda>(slug, is_dir). if is_dir then workspace_names slug else []) (unwrap_or [] dirs)) else [])"

text \<open>What an operating system gives as the entries of a directory.\<close>

definition dir_entries :: "(string \<times> bool) list option \<Rightarrow> bool" where
  "dir_entries dirs \<longleftrightarrow> distinct (map fst (unwrap_or [] dirs)) \<and> (\<forall>(slug, _) \<in> set (unwrap_or [] dirs). slug \<noteq> [] \<and> CHR ''/'' \<notin> set slug)"

lemma workspace_members_names:
  assumes "slug \<noteq> []" "CHR ''/'' \<notin> set slug"
  shows "workspace_members files d slug = concat (map (\<lambda>n. add_file files n (path_join d n)) (workspace_names slug))"
proof -
  have slug: "relative slug" "last slug \<noteq> CHR ''/''" using assms by (auto simp: relative_def dest: last_in_set hd_in_set)
  have "relative ''workspaces''" "relative ''audit.jsonl''" "relative ''audit.key''" by (simp_all add: relative_def)
  moreover from this have "path_join (path_join d ''workspaces'') slug = path_join d (''workspaces/'' @ slug)"
    using path_join_assoc[of "''workspaces''" slug d] slug by simp
  moreover have "relative (''workspaces/'' @ slug)" "last (''workspaces/'' @ slug) \<noteq> CHR ''/''"
    using slug assms by (simp_all add: relative_def)
  ultimately show ?thesis
    using path_join_assoc[of "''workspaces/'' @ slug" "''audit.jsonl''" d] path_join_assoc[of "''workspaces/'' @ slug" "''audit.key''" d]
    by (simp add: workspace_members_def workspace_names_def Let_def)
qed

lemma backup_audit_names:
  assumes "dir_entries dirs"
  shows "backup_audit files d dirs w = concat (map (\<lambda>n. add_file files n (path_join d n)) (backup_names dirs w))"
proof -
  let ?a = "\<lambda>n. add_file files n (path_join d n)"
  have "concat (map (\<lambda>(slug, is_dir). if is_dir then workspace_members files d slug else []) ds) =
      concat (map ?a (concat (map (\<lambda>(slug, is_dir). if is_dir then workspace_names slug else []) ds)))"
    if "\<forall>(slug, _) \<in> set ds. slug \<noteq> [] \<and> CHR ''/'' \<notin> set slug" for ds :: "(string \<times> bool) list"
    using that by (induction ds) (auto simp: workspace_members_names)
  with assms show ?thesis by (simp add: backup_audit_def backup_names_def dir_entries_def)
qed

lemma workspace_names_inject: "n \<in> set (workspace_names s) \<Longrightarrow> n \<in> set (workspace_names t) \<Longrightarrow> s = t"
  by (auto simp: workspace_names_def dest: arg_cong[of _ _ last])

lemma backup_names_distinct: "dir_entries dirs \<Longrightarrow> distinct (backup_names dirs w)"
proof -
  have d: "distinct (concat (map (\<lambda>(slug, is_dir). if is_dir then workspace_names slug else []) ds))"
    if "distinct (map fst ds)" for ds :: "(string \<times> bool) list"
    using that
  proof (induction ds)
    case (Cons x ds)
    have "distinct (workspace_names (fst x))" by (auto simp: workspace_names_def dest: arg_cong[of _ _ last])
    moreover have "n \<notin> set (workspace_names (fst y))" if "n \<in> set (workspace_names (fst x))" "y \<in> set ds" for n y
      using workspace_names_inject[OF that(1)] that(2) Cons.prems by fastforce
    ultimately show ?case using Cons by (fastforce split: prod.splits if_splits)
  qed simp
  moreover have "hd n = CHR ''w''" if "n \<in> set (workspace_names s)" for n s using that by (auto simp: workspace_names_def)
  ultimately show "distinct (backup_names dirs w)" if "dir_entries dirs"
    using that by (fastforce simp: backup_names_def dir_entries_def split: if_splits)
qed

lemma backup_names_relative: "n \<in> set (backup_names dirs w) \<Longrightarrow> relative n"
  by (auto simp: backup_names_def relative_def workspace_names_def split: if_splits)

definition restored :: "nat \<Rightarrow> fs \<Rightarrow> string \<Rightarrow> string \<Rightarrow> string list \<Rightarrow> fs \<Rightarrow> fs" where
  "restored umode files d d' names t = (\<lambda>p. case find (\<lambda>n. p = path_join d' n \<and> files (path_join d n) \<noteq> None) names of
      None \<Rightarrow> t p
    | Some n \<Rightarrow> map_option (\<lambda>(_, b). (if suffix ''.key'' n then 384 else umode, b)) (files (path_join d n)))"

lemma restore_backup:
  assumes "distinct names" "\<forall>n \<in> set names. relative n \<and> t (path_join d' n) = None" "\<forall>p. can_write p"
  shows "restore_members can_write umode d' force (concat (map (\<lambda>n. add_file files n (path_join d n)) names)) t
    = (Inr (), restored umode files d d' names t)"
  using assms
proof (induction names arbitrary: t)
  case (Cons n names)
  have other: "path_join d' m \<noteq> path_join d' n" if "m \<in> set names" for m
    using Cons.prems that path_join_inject[of m n d'] by auto
  show ?case
  proof (cases "files (path_join d n)")
    case None
    then show ?thesis using Cons by (simp add: add_file_def restored_def)
  next
    case (Some f)
    obtain m b where f: "f = (m, b)" by force
    let ?e = "(if suffix ''.key'' n then 384 else umode, b)"
    have "find (\<lambda>k. path_join d' n = path_join d' k \<and> files (path_join d k) \<noteq> None) names = None"
      using other unfolding find_None_iff by metis
    then have split: "restored umode files d d' (n # names) t = restored umode files d d' names (t(path_join d' n \<mapsto> ?e))"
      by (auto simp: restored_def fun_eq_iff Some f split: option.split)
    have fresh: "\<forall>k \<in> set names. relative k \<and> (t(path_join d' n \<mapsto> ?e)) (path_join d' k) = None"
      using Cons.prems other by simp
    have step: "restore_members can_write umode d' force ((n, b) # rest) t = restore_members can_write umode d' force rest (t(path_join d' n \<mapsto> ?e))" for rest
      using Cons.prems by (simp add: Let_def)
    have cat: "concat (map (\<lambda>n. add_file files n (path_join d n)) (n # names)) = (n, b) # concat (map (\<lambda>n. add_file files n (path_join d n)) names)"
      by (simp add: add_file_def Some f)
    have "distinct names" using Cons.prems(1) by simp
    then show ?thesis unfolding cat step split using fresh Cons.prems(3) by (rule Cons.IH)
  qed
qed (simp add: restored_def)

lemma restored_member:
  assumes "n \<in> set names" "distinct names" "\<forall>n \<in> set names. relative n" "t (path_join d' n) = None"
  shows "restored umode files d d' names t (path_join d' n) =
    map_option (\<lambda>(_, b). (if suffix ''.key'' n then 384 else umode, b)) (files (path_join d n))"
proof (cases "files (path_join d n)")
  case None
  have "find (\<lambda>k. path_join d' n = path_join d' k \<and> files (path_join d k) \<noteq> None) names = None"
    using None assms path_join_inject by (auto simp: find_None_iff)
  then show ?thesis using None assms(4) by (simp add: restored_def)
next
  case (Some f)
  have "find (\<lambda>k. path_join d' n = path_join d' k \<and> files (path_join d k) \<noteq> None) names \<noteq> None"
    using Some assms(1) by (auto simp: find_None_iff)
  then obtain k where k: "find (\<lambda>k. path_join d' n = path_join d' k \<and> files (path_join d k) \<noteq> None) names = Some k" by auto
  then have "k \<in> set names" "path_join d' n = path_join d' k" by (auto simp: find_Some_iff)
  with assms path_join_inject have "k = n" by metis
  with k show ?thesis by (simp add: restored_def)
qed

lemma restored_other: "(\<And>n. n \<in> set names \<Longrightarrow> p \<noteq> path_join d' n) \<Longrightarrow> restored umode files d d' names t p = t p"
proof -
  assume "\<And>n. n \<in> set names \<Longrightarrow> p \<noteq> path_join d' n"
  then have "find (\<lambda>n. p = path_join d' n \<and> files (path_join d n) \<noteq> None) names = None" unfolding find_None_iff by blast
  then show ?thesis by (simp add: restored_def)
qed

text \<open>C39: a backup restored into a directory that has none of its files has the content that was backed up, the keys
  readable by their owner alone, and touches nothing else; without \<open>force\<close> a second restore fails and changes nothing. The
  check that follows counts the restored log alone: the segments that were sealed before are not in the backup,
  and a log that begins with a later entry verifies without them.\<close>

theorem backup_restored:
  assumes "dir_entries dirs" "\<forall>n \<in> set (backup_names dirs w). t (path_join d' n) = None" "\<forall>p. can_write p"
    and "files (path_join d ''audit.jsonl'') = Some f" "files (path_join d ''audit.key'') = Some (m, key)" "length key = 32"
    and "\<forall>u m. u (path_join d' ''audit.jsonl'') = Some (m, snd f) \<longrightarrow> log_text (view u) = Some (file_of (ev_audit env) es)"
    and "\<forall>u. u (path_join d' ''segments.json'') = None \<longrightarrow> ad_manifest (view u) = MfMissing" "t (path_join d' ''segments.json'') = None"
    and "\<forall>e \<in> set es. readable (ev_audit env) e" "es \<noteq> []" "n + length es + 1 < 2 ^ 64"
    and "chained (ev_audit env) key n prev es" "n > 1 \<or> n = 1 \<and> prev = GENESIS_HMAC"
  shows "\<exists>t'. restore_audit env view random can_write umode d' (Some (backup_audit files d dirs w)) force t
        = (Inr (Some \<lparr>entries_checked = length es, vr_ok = True, first_violation = None\<rparr>), t') \<and>
      (\<forall>n \<in> set (backup_names dirs w). map_option snd (t' (path_join d' n)) = map_option snd (files (path_join d n)) \<and>
         (suffix ''.key'' n \<longrightarrow> map_option fst (t' (path_join d' n)) \<in> {None, Some 384})) \<and>
      (\<forall>p. (\<forall>n \<in> set (backup_names dirs w). p \<noteq> path_join d' n) \<longrightarrow> t' p = t p) \<and>
      (\<exists>e. restore_audit env view random can_write umode d' (Some (backup_audit files d dirs w)) False t' = (Inl e, t'))"
proof -
  let ?names = "backup_names dirs w" and ?t = "restored umode files d d' (backup_names dirs w) t"
  have names: "distinct ?names" "\<forall>n \<in> set ?names. relative n" using backup_names_distinct[OF assms(1)] backup_names_relative by blast+
  have in_names: "''audit.jsonl'' \<in> set ?names" "''audit.key'' \<in> set ?names" by (simp_all add: backup_names_def)
  have member: "?t (path_join d' n) = map_option (\<lambda>(_, b). (if suffix ''.key'' n then 384 else umode, b)) (files (path_join d n))"
    if "n \<in> set ?names" for n using restored_member[OF that names] assms(2) that by blast
  have log: "?t (path_join d' ''audit.jsonl'') = Some (umode, snd f)"
    using member[OF in_names(1)] assms(4) by (simp add: suffix_def split: prod.split)
  have kf: "?t (path_join d' ''audit.key'') = Some (384, key)"
    using member[OF in_names(2)] assms(5) by (simp add: suffix_def)
  have run: "restore_members can_write umode d' force (backup_audit files d dirs w) t = (Inr (), ?t)"
    using restore_backup[OF names(1) _ assms(3)] names(2) assms(2) by (simp add: backup_audit_names[OF assms(1)])
  have load: "load_or_generate random (fs_key ?t (path_join d' ''audit.key'')) = (Inr (map of_char key), Some (384, map of_char key))"
    using assms(6) by (simp add: load_or_generate_def fs_key_def kf key_load_def check_key_permissions_def KEY_LEN_def)
  have same: "set_fs_key (path_join d' ''audit.key'') (Some (384, map of_char key)) ?t = ?t"
    by (rule ext) (simp add: set_fs_key_def kf comp_def)
  have chain: "verify_log (ev_audit env) (Some (file_of (ev_audit env) es)) key = \<lparr>entries_checked = length es, vr_ok = True, first_violation = None\<rparr>"
  proof -
    have "ae_seq (hd es) = n" using assms(11,13) by (cases es) auto
    with verify_log_chained[OF assms(10,11)] chained_start[OF assms(13,11,14)] assms(12) show ?thesis by simp
  qed
  have "relative ''segments.json''" by (simp add: relative_def)
  moreover have "''segments.json'' \<notin> set ?names" by (auto simp: backup_names_def workspace_names_def split: if_splits)
  ultimately have "path_join d' ''segments.json'' \<noteq> path_join d' n" if "n \<in> set ?names" for n
    using path_join_inject names(2) that by metis
  then have "?t (path_join d' ''segments.json'') = None" using restored_other assms(9) by metis
  with assms(7,8) log have view: "log_text (view ?t) = Some (file_of (ev_audit env) es)" "ad_manifest (view ?t) = MfMissing" by blast+
  have "key_of_bytes (map of_char key) = key" by (simp add: key_of_bytes_def comp_def)
  with view chain have verify: "verify_all (ev_audit env) (key_of_bytes (map of_char key)) (view ?t)
      = Inr \<lparr>entries_checked = length es, vr_ok = True, first_violation = None\<rparr>" by (simp add: verify_all_def load_manifest_def)
  have first: "restore_audit env view random can_write umode d' (Some (backup_audit files d dirs w)) force t
      = (Inr (Some \<lparr>entries_checked = length es, vr_ok = True, first_violation = None\<rparr>), ?t)"
    by (simp add: restore_audit_def run log load same verify Let_def)
  obtain rest where "backup_audit files d dirs w = (''audit.jsonl'', snd f) # rest"
    using assms(4) by (cases f) (simp add: backup_audit_def add_file_def)
  then have again: "restore_audit env view random can_write umode d' (Some (backup_audit files d dirs w)) False ?t
      = (Inl (AlreadyExists (path_join d' ''audit.jsonl'')), ?t)" by (simp add: restore_audit_def log Let_def)
  have content: "map_option snd (?t (path_join d' n)) = map_option snd (files (path_join d n)) \<and>
      (suffix ''.key'' n \<longrightarrow> map_option fst (?t (path_join d' n)) \<in> {None, Some 384})" if "n \<in> set ?names" for n
    unfolding member[OF that] by (cases "files (path_join d n)") auto
  from first again content restored_other show ?thesis by (intro exI[of _ ?t]) blast
qed

definition demo_view :: "fs \<Rightarrow> audit_dir" where
  "demo_view u = \<lparr>ad_log = (if u ''new/audit.jsonl'' = None then None else Some 0),
     ad_inodes = (\<lambda>_. file_of (Audit_Chain.demo_env demo_log) demo_log), ad_next = 1, ad_segments = Map.empty, ad_manifest = MfMissing\<rparr>"

theorem backup_restored_witness:
  "\<exists>t'. restore_audit (demo_cli_env\<lparr>ev_audit := Audit_Chain.demo_env demo_log\<rparr>) demo_view [] (\<lambda>_. True) 420 ''new''
       (Some (backup_audit [''old/audit.jsonl'' \<mapsto> (420, ''log''), ''old/audit.key'' \<mapsto> (384, replicate 32 CHR ''k'')] ''old'' None True)) False Map.empty
     = (Inr (Some \<lparr>entries_checked = 3, vr_ok = True, first_violation = None\<rparr>), t') \<and> map_option snd (t' ''new/audit.jsonl'') = Some ''log''"
proof -
  let ?env = "demo_cli_env\<lparr>ev_audit := Audit_Chain.demo_env demo_log\<rparr>"
  let ?files = "[''old/audit.jsonl'' \<mapsto> (420 :: nat, ''log''), ''old/audit.key'' \<mapsto> (384, replicate 32 CHR ''k'')]"
  have j: "path_join ''old'' ''audit.jsonl'' = ''old/audit.jsonl''" "path_join ''new'' ''audit.jsonl'' = ''new/audit.jsonl''"
    "path_join ''old'' ''audit.key'' = ''old/audit.key''"
    by (simp_all add: path_join_def starts_with_def)
  have "\<exists>t'. restore_audit ?env demo_view [] (\<lambda>_. True) 420 ''new'' (Some (backup_audit ?files ''old'' None True)) False Map.empty
        = (Inr (Some \<lparr>entries_checked = length demo_log, vr_ok = True, first_violation = None\<rparr>), t') \<and>
      (\<forall>n \<in> set (backup_names None True). map_option snd (t' (path_join ''new'' n)) = map_option snd (?files (path_join ''old'' n)) \<and>
         (suffix ''.key'' n \<longrightarrow> map_option fst (t' (path_join ''new'' n)) \<in> {None, Some 384})) \<and>
      (\<forall>p. (\<forall>n \<in> set (backup_names None True). p \<noteq> path_join ''new'' n) \<longrightarrow> t' p = Map.empty p) \<and>
      (\<exists>e. restore_audit ?env demo_view [] (\<lambda>_. True) 420 ''new'' (Some (backup_audit ?files ''old'' None True)) False t' = (Inl e, t'))"
  proof (rule backup_restored[where f = "(420, ''log'')" and m = 384 and key = "replicate 32 CHR ''k''" and es = demo_log and n = 1 and prev = GENESIS_HMAC])
    show "\<forall>u m. u (path_join ''new'' ''audit.jsonl'') = Some (m, snd (420, ''log'')) \<longrightarrow> log_text (demo_view u) = Some (file_of (ev_audit ?env) demo_log)"
      by (simp add: j demo_view_def log_text_def)
    show "\<forall>e \<in> set demo_log. readable (ev_audit ?env) e" using demo_log_readable by simp
    show "chained (ev_audit ?env) (replicate 32 CHR ''k'') 1 GENESIS_HMAC demo_log" using demo_log_chained by simp
  qed (simp_all add: dir_entries_def j demo_view_def demo_log_def)
  then obtain t' where t: "restore_audit ?env demo_view [] (\<lambda>_. True) 420 ''new'' (Some (backup_audit ?files ''old'' None True)) False Map.empty
        = (Inr (Some \<lparr>entries_checked = length demo_log, vr_ok = True, first_violation = None\<rparr>), t')"
      "\<forall>n \<in> set (backup_names None True). map_option snd (t' (path_join ''new'' n)) = map_option snd (?files (path_join ''old'' n))" by blast
  have "''audit.jsonl'' \<in> set (backup_names None True)" by (simp add: backup_names_def)
  from bspec[OF t(2) this] have "map_option snd (t' ''new/audit.jsonl'') = Some ''log''" unfolding j by simp
  with t(1) show ?thesis by (simp add: demo_log_def)
qed

text \<open>A member with an absolute name is written where the name says, outside the directory.\<close>

lemma restore_leaves_directory:
  "fst (restore_members (\<lambda>_. True) umode d True [(''/'' @ p, content)] t) = Inr () \<and>
   map_option snd (snd (restore_members (\<lambda>_. True) umode d True [(''/'' @ p, content)] t) (''/'' @ p)) = Some content"
  by (simp add: path_join_def starts_with_def Let_def)

end
