(* ===== verification/Spec2Isabelle.thy ===== *)
theory Spec2Isabelle
  imports Audit_Export Access Identity Workspace_Routes Daemon_Config Isolation Incident Bootstrap Registry Chat Seal Evidence Audit_Cli
begin

text \<open>
  \<^bold>\<open>Maranode: a verification of the daemon, its stores and its audit log\<close>

  Maranode runs language models on a machine that may be cut off from the network and keeps evidence of
  what it did. A request is authenticated, admitted against quotas and data labels, may be enriched with
  retrieved documents, and is answered by an inference engine; each step leaves an entry in a chained
  audit log. This development models that program as HOL functions over explicit state and proves what
  its parts promise. Paths below are under \<open>crates/maranode-*\<close>.

  \<^bold>\<open>Conventions.\<close> A function of the source that may fail returns a sum (\<open>Inl\<close> the error, \<open>Inr\<close> the value); one
  that changes state takes and returns it. A struct is a record, an enum a datatype, a SQL table the
  list of its rows with the constraints of the schema written out. \<open>u64\<close> and \<open>u32\<close> counters are naturals
  with their wrap-around or saturation (\<open>u64_add\<close>, \<open>u32_saturating_add\<close>); an \<open>f32\<close> is its 32-bit pattern.
  Text that the code takes apart character by character is a list of scalar values, other text is its
  UTF-8 bytes. Code that is not in the repository is a parameter with named hypotheses that state its
  documented behaviour: HMAC and the JSON printer (\<open>audit_env\<close>), AES-GCM, SHA-256 and hex (\<open>crypto\<close>), Ed25519
  and base64 (\<open>sig_env\<close>), the rounding operations of \<open>f32\<close> (\<open>f32_arith\<close>), Unicode tables (\<open>unicode\<close>),
  iptables and ip, the inference engine, the network. The clock, random bytes and the outcome of system
  calls are arguments. Each property with such a hypothesis has a witness at a concrete instance.

  \<^bold>\<open>Theories\<close>

  \<^item> \<open>Maranode_Prelude\<close>: results, bounded arithmetic, lines, trimming, numbers, association lists; the
    interfaces \<open>string_enum\<close>, \<open>lossless\<close> and \<open>inv_system\<close> (a transition system with an invariant), which
    the components interpret.
  \<^item> \<open>Events\<close>, \<open>Event_Codec\<close>: \<open>common/events.rs\<close>, \<open>models.rs\<close>, \<open>receipt.rs\<close>. Every audit event with the JSON that
    serde derives, and that this JSON determines the event.
  \<^item> \<open>Secure\<close>: \<open>common/secure.rs\<close>.
  \<^item> \<open>Audit_Chain\<close>: \<open>audit/chain.rs\<close>, \<open>verify.rs\<close>. The MAC chain and the verifier: what it accepts, what it
    misses, and that the last MAC fixes the history.
  \<^item> \<open>Audit_Rotate\<close>, \<open>Audit_Log\<close>: \<open>audit/rotate.rs\<close>, \<open>log.rs\<close>, \<open>retention.rs\<close>, \<open>key.rs\<close> and the sweep of
    \<open>daemon/main.rs\<close>, on a directory with inodes and open handles. Every run of appends, rotations,
    retention and restarts verifies; what prune and a failed sync do.
  \<^item> \<open>Audit_Export\<close>: \<open>audit/export.rs\<close>. The CSV reports read back; the shape of CEF and LEEF.
  \<^item> \<open>Crypto\<close>: the shape of sealed text, interface \<open>sealed_text\<close>, UTF-8 validity and trimming.
    \<open>Signature\<close>: the check of a signature over JSON, interface \<open>signed_record\<close>.
  \<^item> \<open>User_Db\<close>: \<open>common/user.rs\<close>, \<open>store/user_db.rs\<close>. \<open>Workspace_Db\<close>: \<open>common/workspace.rs\<close>, \<open>store/kek.rs\<close>,
    \<open>workspace_db.rs\<close>. Invariants of the tables, sessions, reset tokens, key wrapping and its rotation.
  \<^item> \<open>Access\<close>: \<open>api/user_ctx.rs\<close>, \<open>workspace_ctx.rs\<close>. Who passes, composed with the databases.
  \<^item> \<open>Accounts\<close>, \<open>Identity\<close>: \<open>api/routes/users.rs\<close>, \<open>reset.rs\<close>; \<open>routes/identity.rs\<close>. Every route keeps the tables; who
    can log in and what the token is good for, the reset of a password, single sign-on, the escape of LDAP
    filters, and what the SAML check does not cover.
  \<^item> \<open>Workspace_Routes\<close>: \<open>api/routes/workspaces.rs\<close>, the migration of the table and the key under which \<open>daemon/main.rs\<close> opens
    the retrieval store. The table stays well typed; a rotated key is the only one that opens; documents are never encrypted.
  \<^item> \<open>Daemon_Config\<close>: \<open>daemon/config.rs\<close>, \<open>reload.rs\<close>, \<open>admin.rs\<close>, \<open>probe.rs\<close>, \<open>api/runtime.rs\<close>, \<open>common/paths.rs\<close> and the start in
    \<open>main.rs\<close>. A reload is a restart but for what it names; what a failed reload leaves; the master key over restarts.
  \<^item> \<open>Classification\<close>: \<open>common/classification.rs\<close> and its routes. \<open>Limits\<close>: \<open>api/state.rs\<close>, the admission of
    \<open>routes/chat.rs\<close>, \<open>inference/queue.rs\<close>; interleavings of concurrent requests are step relations.
  \<^item> \<open>Isolation\<close>: \<open>isolation/*.rs\<close>. The iptables commands and the verdict of the tables they leave.
  \<^item> \<open>Legal_Hold\<close>: \<open>common/hold.rs\<close>, \<open>api/legal_hold.rs\<close>, \<open>hold_recovery.rs\<close>, \<open>routes/hold.rs\<close>. \<open>Incident\<close>:
    \<open>common/incident.rs\<close>, \<open>api/incident.rs\<close>, \<open>routes/incident.rs\<close>.
  \<^item> \<open>Rag_Chunk\<close>, \<open>Rag_Store\<close>, \<open>Rag_Engine\<close>: \<open>rag/chunk.rs\<close>; \<open>store.rs\<close>, \<open>crypt.rs\<close>, \<open>math.rs\<close>; \<open>engine.rs\<close>,
    \<open>config.rs\<close>, \<open>embed.rs\<close>. Chunking ends and loses nothing, the store stays consistent, search and
    retrieval over all collections are best-\<open>k\<close> selections, and ingested text is read back.
  \<^item> \<open>Gguf\<close>, \<open>Model_Store\<close>, \<open>Bootstrap\<close>: \<open>common/gguf.rs\<close>; \<open>store/blob.rs\<close>, \<open>db.rs\<close>, \<open>store.rs\<close>; \<open>bootstrap.rs\<close>,
    \<open>defaults.rs\<close>, \<open>download.rs\<close>. The store refines a content-addressed map (\<open>cas\<close>); the loops of the first
    start share the interface \<open>boot_loop\<close>.
  \<^item> \<open>Registry\<close>: \<open>common/approval.rs\<close>, \<open>baseline.rs\<close>, \<open>api/routes/registry.rs\<close>, \<open>routes/baseline.rs\<close>,
    \<open>daemon/baseline_check.rs\<close>, \<open>lifecycle.rs\<close>. What a model needs to be loaded.
  \<^item> \<open>Receipt\<close>, \<open>Chat\<close>: \<open>audit/sign.rs\<close>, \<open>common/receipt.rs\<close>, \<open>verifier/main.rs\<close>; the whole of \<open>api/routes/chat.rs\<close> with
    \<open>api/openai.rs\<close> and \<open>tee_encrypt.rs\<close>. A request from its guards to its answer: what reaches the engine, what the
    audit log tells, and that the receipt binds the answer and verifies offline.
  \<^item> \<open>Seal\<close>, \<open>Attestation\<close>, \<open>Evidence\<close>: \<open>attestation/seal.rs\<close>, \<open>rotation.rs\<close> and the sealing commands of \<open>cli/tpm.rs\<close>;
    \<open>tpm.rs\<close>, \<open>pcr_policy.rs\<close>; \<open>binary.rs\<close>, \<open>tee.rs\<close>, \<open>report.rs\<close>, \<open>api/routes/attestation.rs\<close>, \<open>audit/bundle.rs\<close>. The limit on
    attempts to unseal, rotation and recovery of keys, PCRs and policies, and that reports and bundles verify.
  \<^item> \<open>Cli_Errors\<close>, \<open>Audit_Cli\<close>: \<open>cli/errors.rs\<close>, \<open>cli/commands/audit.rs\<close>. The edit distance of suggestions is the
    least number of edits; the audit commands, with backup and restore.

  \<^bold>\<open>Bounds and fuel.\<close> \<open>chunk_loop\<close> is a \<open>partial_function\<close> into \<open>option\<close>; that it returns is proved for every
  size and overlap (\<open>chunk_document_ends\<close>). \<open>skip_value\<close> has as fuel one more than the length of the file:
  each nested array takes eight bytes, and \<open>gguf_context_found\<close> shows that the fuel is never used up. All
  other recursion is structural or has a measure. Sequence numbers, sizes and counters are bounded by
  \<open>2 ^ 64\<close> where a theorem needs it, as a hypothesis.

  \<^bold>\<open>Interaction.\<close> \<open>Workspace_Routes\<close> composes the table with access, namespaces and the retrieval store, \<open>Daemon_Config\<close> the
  isolator, queue and sealed keys; \<open>Access\<close> uses the session table of \<open>User_Db\<close> and the keys of \<open>Workspace_Db\<close>; \<open>Rag_Engine\<close>
  composes the chunker with the store; \<open>Bootstrap\<close> and \<open>Registry\<close> act on the store of \<open>Model_Store\<close>;
  \<open>Chat\<close> composes the guards of \<open>Limits\<close>, \<open>Classification\<close> and \<open>Incident\<close> with retrieval, the model store and receipts;
  \<open>Evidence\<close> and \<open>Audit_Cli\<close> read the log that \<open>Audit_Log\<close> writes; \<open>Legal_Hold\<close>, \<open>Incident\<close>, \<open>Classification\<close> and \<open>Registry\<close> return the events they append, in the type of \<open>Events\<close>.

  \<^bold>\<open>Not modelled.\<close> The bindings of llama.cpp, the TPM and TEE devices themselves and other code that only calls
  devices or services (DLP connectors, ServiceNow and Jira, the network part of OIDC, LDAP and SAML); PDF and office
  parsers; the HTML pages, the benchmark and the commands that send one request and print the answer; the parsers of
  TOML and of the command line and the server loops. Durability is modelled as far as the code handles it: a
  write that was reported as failed, not power loss. The routes for models, retrieval, metrics and the audit log
  call modelled operations and shape their answers; they have no state of their own.
\<close>

end
